(* ===== verification/Prelude.thy ===== *)
theory Prelude
  imports Complex_Main "HOL-Library.Char_ord" "HOL-Library.List_Lexorder" "HOL-Library.Product_Lexorder"
    "HOL-Library.AList"
begin

text \<open>
  Shared material of the development: Python's dynamic values, its strings, its
  dictionaries and its exceptions, and the generic lemmas the component theories use.

  Strings. A Python string is a sequence of code points; the model's \<open>string\<close> is a
  sequence of the code points 0 to 255, so \<open>length\<close> is Python's \<open>len\<close> and the
  character predicates below are the tables of \<open>str.isspace\<close>, \<open>str.isalnum\<close> and
  \<open>str.lower\<close> on that range. Strings with code points above 255 are outside the model.

  Numbers. Python's \<open>int\<close> is \<open>int\<close>. A finite \<open>float\<close> is the real number it
  denotes, and its arithmetic is exact: rounding is not modelled. The three non-finite
  floats are values of their own, because the sources test for them.

  Exceptions. A function that may raise returns a value of a sum type, \<open>Inl\<close> the
  exception. \<open>first_error\<close> is a sequence of \<open>if ...: raise ...\<close> statements.
\<close>

section \<open>Dynamic values\<close>

datatype pyfloat = Fin real | PosInf | NegInf | NaN

datatype pyval =
    PNone
  | PBool bool
  | PInt int
  | PFloat pyfloat
  | PStr string
  | POther \<comment> \<open>a value of any other class\<close>

text \<open>\<open>float(value)\<close> and \<open>math.isfinite\<close> on the numeric values.\<close>

fun finite_number :: "pyval \<Rightarrow> real option" where
  "finite_number (PInt n) = Some (of_int n)"
| "finite_number (PFloat (Fin x)) = Some x"
| "finite_number v = None"

text \<open>\<open>isinstance(value, (int, float)) and not isinstance(value, bool)\<close>\<close>

fun is_number :: "pyval \<Rightarrow> bool" where
  "is_number (PInt n) = True"
| "is_number (PFloat x) = True"
| "is_number v = False"

fun is_str :: "pyval \<Rightarrow> bool" where
  "is_str (PStr s) = True"
| "is_str v = False"

text \<open>
  Python's \<open>==\<close> on dynamic values; two values of other classes count as different.
\<close>

fun py_number :: "pyval \<Rightarrow> real option" where
  "py_number (PBool b) = Some (if b then 1 else 0)"
| "py_number v = finite_number v"

fun py_eq :: "pyval \<Rightarrow> pyval \<Rightarrow> bool" where
  "py_eq (PStr s) w = (w = PStr s)"
| "py_eq PNone w = (w = PNone)"
| "py_eq POther w = False"
| "py_eq (PFloat NaN) w = False"
| "py_eq (PFloat PosInf) w = (w = PFloat PosInf)"
| "py_eq (PFloat NegInf) w = (w = PFloat NegInf)"
| "py_eq v w = (py_number w \<noteq> None \<and> py_number w = py_number v)"

text \<open>\<open>float(n)\<close> of an integer raises beyond the largest double (round to nearest).\<close>

definition float_overflows :: "pyval \<Rightarrow> bool" where
  "float_overflows value = (case value of PInt n \<Rightarrow> \<bar>n\<bar> \<ge> 2 ^ 1024 - 2 ^ 970 | _ \<Rightarrow> False)"

lemma finite_number_is_number: "finite_number v = Some x \<Longrightarrow> is_number v"
  by (cases v rule: finite_number.cases) auto

section \<open>Exceptions\<close>

definition rbind :: "'e + 'a \<Rightarrow> ('a \<Rightarrow> 'e + 'b) \<Rightarrow> 'e + 'b" where
  "rbind m f = (case m of Inl e \<Rightarrow> Inl e | Inr x \<Rightarrow> f x)"

lemma rbind_simps [simp]: "rbind (Inl e) f = Inl e" "rbind (Inr x) f = f x"
  by (simp_all add: rbind_def)

lemma rbind_Inr: "rbind m f = Inr y \<longleftrightarrow> (\<exists>x. m = Inr x \<and> f x = Inr y)"
  by (cases m) auto

lemma rbind_Inl: "rbind m f = Inl e \<longleftrightarrow> m = Inl e \<or> (\<exists>x. m = Inr x \<and> f x = Inl e)"
  by (cases m) auto

lemma rbind_cong [fundef_cong]:
  "m = m' \<Longrightarrow> (\<And>x. m' = Inr x \<Longrightarrow> f x = g x) \<Longrightarrow> rbind m f = rbind m' g"
  by (cases m') auto

fun first_error :: "(bool \<times> 'e) list \<Rightarrow> 'e option" where
  "first_error [] = None"
| "first_error ((c, e) # cs) = (if c then Some e else first_error cs)"

lemma first_error_Cons_None [simp]:
  "first_error ((c, e) # cs) = None \<longleftrightarrow> \<not> c \<and> first_error cs = None"
  by simp

lemma first_error_append_None [simp]:
  "first_error (cs @ ds) = None \<longleftrightarrow> first_error cs = None \<and> first_error ds = None"
  by (induction cs rule: first_error.induct) auto

lemma first_error_concat_None [simp]:
  "first_error (concat (map f xs)) = None \<longleftrightarrow> (\<forall>x\<in>set xs. first_error (f x) = None)"
  by (induction xs) auto

declare first_error.simps(2) [simp del]

definition checked :: "(bool \<times> 'e) list \<Rightarrow> 'a \<Rightarrow> 'e + 'a" where
  "checked cs x = (case first_error cs of None \<Rightarrow> Inr x | Some e \<Rightarrow> Inl e)"

lemma checked_Inr: "checked cs x = Inr y \<longleftrightarrow> first_error cs = None \<and> y = x"
  by (auto simp: checked_def split: option.splits)

lemma checked_Inl: "checked cs x = Inl e \<longleftrightarrow> first_error cs = Some e"
  by (auto simp: checked_def split: option.splits)

text \<open>
  \<open>returns\<close> rewrites \<open>f x = Inr y\<close> for a body written with the combinators above into
  the conditions under which it returns \<open>y\<close>.
\<close>

named_theorems returns

lemma if_Inl_Inr [returns]: "(if c then Inl e else m) = Inr y \<longleftrightarrow> \<not> c \<and> m = Inr y"
  by simp

lemma case_option_Inl_Inr [returns]:
  "(case x of None \<Rightarrow> Inl e | Some v \<Rightarrow> f v) = Inr y \<longleftrightarrow> (\<exists>v. x = Some v \<and> f v = Inr y)"
  by (cases x) auto

lemma case_sum_Inl_Inr [returns]:
  "(case m of Inl e \<Rightarrow> Inl (g e) | Inr x \<Rightarrow> f x) = Inr y \<longleftrightarrow> (\<exists>x. m = Inr x \<and> f x = Inr y)"
  by (cases m) auto

lemmas [returns] = rbind_Inr checked_Inr

text \<open>A loop that transforms every element and stops at the first exception.\<close>

fun map_res :: "('a \<Rightarrow> 'e + 'b) \<Rightarrow> 'a list \<Rightarrow> 'e + 'b list" where
  "map_res f [] = Inr []"
| "map_res f (x # xs) = rbind (f x) (\<lambda>y. rbind (map_res f xs) (\<lambda>ys. Inr (y # ys)))"

lemma map_res_Inr_list_all2:
  "map_res f xs = Inr ys \<longleftrightarrow> list_all2 (\<lambda>x y. f x = Inr y) xs ys"
  by (induction xs arbitrary: ys) (auto simp: rbind_Inr list_all2_Cons1)

section \<open>Strings\<close>

abbreviation ord_c :: "char \<Rightarrow> nat" where
  "ord_c c \<equiv> of_char c"

definition isspace_c :: "char \<Rightarrow> bool" where
  "isspace_c c = (let n = ord_c c in (9 \<le> n \<and> n \<le> 13) \<or> (28 \<le> n \<and> n \<le> 32) \<or> n = 133 \<or> n = 160)"

definition digit_c :: "char \<Rightarrow> bool" where
  "digit_c c = (let n = ord_c c in 48 \<le> n \<and> n \<le> 57)"

definition upper_c :: "char \<Rightarrow> bool" where
  "upper_c c = (let n = ord_c c in 65 \<le> n \<and> n \<le> 90)"

definition lower_c :: "char \<Rightarrow> bool" where
  "lower_c c = (let n = ord_c c in 97 \<le> n \<and> n \<le> 122)"

abbreviation alnum_ascii :: "char \<Rightarrow> bool" where
  "alnum_ascii c \<equiv> digit_c c \<or> upper_c c \<or> lower_c c"

definition isalnum_c :: "char \<Rightarrow> bool" where
  "isalnum_c c = (alnum_ascii c \<or>
     (let n = ord_c c in n = 170 \<or> n = 178 \<or> n = 179 \<or> n = 181 \<or> n = 185 \<or> n = 186 \<or>
        (188 \<le> n \<and> n \<le> 190) \<or> (192 \<le> n \<and> n \<le> 255 \<and> n \<noteq> 215 \<and> n \<noteq> 247)))"

definition tolower_c :: "char \<Rightarrow> char" where
  "tolower_c c = (let n = ord_c c in
     if (65 \<le> n \<and> n \<le> 90) \<or> (192 \<le> n \<and> n \<le> 222 \<and> n \<noteq> 215) then char_of (n + 32) else c)"

lemmas char_defs = isspace_c_def digit_c_def upper_c_def lower_c_def isalnum_c_def tolower_c_def

definition lower_s :: "string \<Rightarrow> string" where
  "lower_s s = map tolower_c s"

definition lstrip :: "string \<Rightarrow> string" where
  "lstrip s = dropWhile isspace_c s"

definition rstrip :: "string \<Rightarrow> string" where
  "rstrip s = rev (dropWhile isspace_c (rev s))"

definition strip :: "string \<Rightarrow> string" where
  "strip s = rstrip (lstrip s)"

text \<open>\<open>sub in s\<close> on strings.\<close>

fun prefix_of :: "string \<Rightarrow> string \<Rightarrow> bool" where
  "prefix_of [] s = True"
| "prefix_of (x # xs) [] = False"
| "prefix_of (x # xs) (y # ys) = (x = y \<and> prefix_of xs ys)"

fun contains_s :: "string \<Rightarrow> string \<Rightarrow> bool" where
  "contains_s sub [] = prefix_of sub []"
| "contains_s sub (y # ys) = (prefix_of sub (y # ys) \<or> contains_s sub ys)"

definition endswith :: "string \<Rightarrow> string \<Rightarrow> bool" where
  "endswith s suf = (length suf \<le> length s \<and> drop (length s - length suf) s = suf)"

text \<open>\<open>s.split(sep)\<close> for a one-character separator.\<close>

fun split_on :: "char \<Rightarrow> string \<Rightarrow> string list" where
  "split_on sep [] = [[]]"
| "split_on sep (c # cs) =
     (if c = sep then [] # split_on sep cs
      else case split_on sep cs of [] \<Rightarrow> [[c]] | p # ps \<Rightarrow> (c # p) # ps)"

subsection \<open>Laws of the string operations\<close>

lemma ord_c_less: "ord_c c < 256"
  by (metis char_of_mod_256 mod_less_divisor of_char_of zero_less_numeral char_of_char)

lemma tolower_idem [simp]: "tolower_c (tolower_c c) = tolower_c c"
  by (auto simp: tolower_c_def Let_def)

lemma lower_s_idem [simp]: "lower_s (lower_s s) = lower_s s"
  by (simp add: lower_s_def)

lemma length_lower_s [simp]: "length (lower_s s) = length s"
  by (simp add: lower_s_def)

lemma lower_s_eq_Nil [simp]: "lower_s s = [] \<longleftrightarrow> s = []"
  by (simp add: lower_s_def)

lemma isspace_tolower [simp]: "isspace_c (tolower_c c) = isspace_c c"
  by (auto simp: tolower_c_def isspace_c_def Let_def)

definition stripped :: "string \<Rightarrow> bool" where
  "stripped s = (s = [] \<or> (\<not> isspace_c (hd s) \<and> \<not> isspace_c (last s)))"

lemma rstrip_last: "rstrip s \<noteq> [] \<Longrightarrow> \<not> isspace_c (last (rstrip s))"
  unfolding rstrip_def
  by (metis hd_dropWhile last_rev rev_is_Nil_conv)

lemma rstrip_prefix: "\<exists>t. s = rstrip s @ t"
  unfolding rstrip_def
  by (metis rev_append rev_rev_ident takeWhile_dropWhile_id)

lemma strip_stripped: "stripped (strip s)"
proof (cases "strip s = []")
  case False
  obtain t where t: "lstrip s = strip s @ t"
    using rstrip_prefix [of "lstrip s"] by (auto simp: strip_def)
  with False have ne: "lstrip s \<noteq> []" by auto
  then have "\<not> isspace_c (hd (lstrip s))"
    unfolding lstrip_def by (rule hd_dropWhile)
  with t False have "\<not> isspace_c (hd (strip s))" by (simp add: hd_append)
  moreover have "\<not> isspace_c (last (strip s))"
    using False rstrip_last by (simp add: strip_def)
  ultimately show ?thesis by (simp add: stripped_def)
qed (simp add: stripped_def)

lemma dropWhile_hd: "\<not> P (hd xs) \<Longrightarrow> dropWhile P xs = xs"
  by (cases xs) auto

lemma strip_id: "stripped s \<Longrightarrow> strip s = s"
  by (cases "s = []")
     (auto simp: stripped_def strip_def lstrip_def rstrip_def dropWhile_hd hd_rev)

lemma strip_idem [simp]: "strip (strip s) = strip s"
  by (rule strip_id) (rule strip_stripped)

lemma stripped_lower [simp]: "stripped (lower_s s) = stripped s"
  by (cases "s = []") (auto simp: stripped_def lower_s_def hd_map last_map)

lemma strip_set: "set (strip s) \<subseteq> set s"
proof -
  have "set (lstrip s) \<subseteq> set s"
    by (auto simp: lstrip_def dest: set_dropWhileD)
  moreover have "set (rstrip t) \<subseteq> set t" for t
    by (auto simp: rstrip_def dest: set_dropWhileD)
  ultimately show ?thesis unfolding strip_def by blast
qed

lemma length_strip_le: "length (strip s) \<le> length s"
proof -
  have "length (rstrip t) \<le> length t" for t
    using length_dropWhile_le [of isspace_c "rev t"] by (simp add: rstrip_def)
  moreover have "length (lstrip s) \<le> length s"
    by (simp add: lstrip_def length_dropWhile_le)
  ultimately show ?thesis unfolding strip_def by (meson le_trans)
qed

lemma prefix_of_iff: "prefix_of p s \<longleftrightarrow> (\<exists>t. s = p @ t)"
  by (induction p s rule: prefix_of.induct) auto

lemma contains_s_iff: "contains_s p s \<longleftrightarrow> (\<exists>u v. s = u @ p @ v)"
proof (induction s)
  case Nil
  show ?case by (auto simp: prefix_of_iff)
next
  case (Cons c s)
  note IH = Cons.IH
  show ?case
  proof
    assume "contains_s p (c # s)"
    then consider "prefix_of p (c # s)" | "contains_s p s" by auto
    then show "\<exists>u v. c # s = u @ p @ v"
    proof cases
      case 1
      then show ?thesis by (metis append_Nil prefix_of_iff)
    next
      case 2
      then show ?thesis using Cons.IH by (metis append_Cons)
    qed
  next
    assume "\<exists>u v. c # s = u @ p @ v"
    then obtain u v where uv: "c # s = u @ p @ v" by blast
    show "contains_s p (c # s)"
    proof (cases u)
      case Nil
      with uv have "prefix_of p (c # s)" unfolding prefix_of_iff by auto
      then show ?thesis by simp
    next
      case (Cons d u')
      with uv have "s = u' @ p @ v" by simp
      then show ?thesis using IH by auto
    qed
  qed
qed

section \<open>Dictionaries\<close>

text \<open>
  A dictionary is an association list in insertion order with distinct keys:
  \<open>d[k] = v\<close> is \<open>AList.update k v d\<close> (in place when the key exists, at the end
  otherwise), \<open>d.get(k)\<close> is \<open>map_of d k\<close>. \<open>sorted(d.items())\<close> orders by the
  keys, since these are distinct.
\<close>

type_synonym dict = "(string \<times> string) list"

definition dict_sorted :: "dict \<Rightarrow> dict" where
  "dict_sorted d = sort_key fst d"

text \<open>\<open>dict.fromkeys(xs)\<close> as an ordered set: the first occurrence of every element.\<close>

fun dedup :: "'a list \<Rightarrow> 'a list" where
  "dedup [] = []"
| "dedup (x # xs) = x # filter (\<lambda>y. y \<noteq> x) (dedup xs)"

lemma set_dedup [simp]: "set (dedup xs) = set xs"
  by (induction xs) auto

lemma distinct_dedup [simp]: "distinct (dedup xs)"
  by (induction xs) auto

lemma dedup_distinct: "distinct xs \<Longrightarrow> dedup xs = xs"
proof (induction xs)
  case (Cons x xs)
  then have "dedup xs = xs" by simp
  moreover have "filter (\<lambda>y. y \<noteq> x) xs = xs"
    using Cons.prems by (auto simp: filter_id_conv)
  ultimately show ?case by simp
qed simp

lemma dedup_eq_Nil [simp]: "dedup xs = [] \<longleftrightarrow> xs = []"
  by (cases xs) auto

text \<open>\<open>sorted(set(xs))\<close>\<close>

definition sorted_set :: "'a::linorder list \<Rightarrow> 'a list" where
  "sorted_set xs = sort (remdups xs)"

lemma set_sorted_set [simp]: "set (sorted_set xs) = set xs"
  by (simp add: sorted_set_def)

lemma sorted_sorted_set [simp]: "sorted (sorted_set xs)"
  by (simp add: sorted_set_def)

lemma distinct_sorted_set [simp]: "distinct (sorted_set xs)"
  by (simp add: sorted_set_def)

lemma sorted_set_eq_iff: "sorted_set xs = sorted_set ys \<longleftrightarrow> set xs = set ys"
  by (metis distinct_sorted_set set_sorted_set sorted_distinct_set_unique sorted_sorted_set)

lemma sorted_set_id: "sorted xs \<Longrightarrow> distinct xs \<Longrightarrow> sorted_set xs = xs"
  by (simp add: sorted_set_def distinct_remdups_id sorted_sort_id)

end
