(* ===== verification/Regex.thy ===== *)
theory Regex
  imports Prelude
begin

text \<open>
  The part of Python's \<open>re\<close> that the sources use: character classes, sequences,
  alternatives, bounded and unbounded repetition, the anchors \<open>^\<close> and \<open>$\<close>
  (without the multi-line flag) and the word boundary \<open>\b\<close>. \<open>ends r s i\<close> lists the positions at which a match of
  \<open>r\<close> that begins at position \<open>i\<close> of \<open>s\<close> can end, so \<open>fullmatch\<close> and
  \<open>search\<close> are the two questions the sources ask. A case-insensitive pattern is written
  with the classes of \<open>cls_i\<close> and \<open>lit_i\<close>, which look at the lower-case form of a
  character.
\<close>

datatype regex =
    Eps
  | Cls "char \<Rightarrow> bool"
  | Seq regex regex
  | Alt regex regex
  | Rep regex nat "nat option"
  | Bol
  | Eol
  | Wb

text \<open>\<open>\w\<close>\<close>

definition word_c :: "char \<Rightarrow> bool" where
  "word_c c = (isalnum_c c \<or> c = CHR ''_'')"

fun iterate :: "nat \<Rightarrow> (nat \<Rightarrow> nat list) \<Rightarrow> nat list \<Rightarrow> nat list" where
  "iterate 0 f X = X"
| "iterate (Suc k) f X = iterate k f (remdups (concat (map f X)))"

fun reach :: "nat \<Rightarrow> (nat \<Rightarrow> nat list) \<Rightarrow> nat list \<Rightarrow> nat list" where
  "reach 0 f X = X"
| "reach (Suc k) f X = remdups (X @ reach k f (remdups (concat (map f X))))"

text \<open>
  An unbounded repetition needs at most as many rounds as the string has characters:
  every round that adds a position moves to the right.
\<close>

primrec ends :: "regex \<Rightarrow> string \<Rightarrow> nat \<Rightarrow> nat list" where
  "ends Eps s i = [i]"
| "ends (Cls p) s i = (if i < length s \<and> p (s ! i) then [Suc i] else [])"
| "ends (Seq a b) s i = remdups (concat (map (ends b s) (ends a s i)))"
| "ends (Alt a b) s i = remdups (ends a s i @ ends b s i)"
| "ends (Rep r lo hi) s i =
     reach (case hi of None \<Rightarrow> length s | Some h \<Rightarrow> h - lo) (ends r s) (iterate lo (ends r s) [i])"
| "ends Bol s i = (if i = 0 then [i] else [])"
| "ends Eol s i =
     (if i = length s \<or> (Suc i = length s \<and> s ! i = CHR 0x0A) then [i] else [])"
| "ends Wb s i =
     (if (0 < i \<and> i \<le> length s \<and> word_c (s ! (i - 1))) \<noteq> (i < length s \<and> word_c (s ! i)) then [i] else [])"

definition re_fullmatch :: "regex \<Rightarrow> string \<Rightarrow> bool" where
  "re_fullmatch r s = List.member (ends r s 0) (length s)"

definition re_search :: "regex \<Rightarrow> string \<Rightarrow> bool" where
  "re_search r s = list_ex (\<lambda>i. ends r s i \<noteq> []) [0..<Suc (length s)]"

section \<open>Building patterns\<close>

definition one_of :: "string \<Rightarrow> regex" where
  "one_of cs = Cls (\<lambda>c. c \<in> set cs)"

definition cls_i :: "(char \<Rightarrow> bool) \<Rightarrow> regex" where
  "cls_i p = Cls (\<lambda>c. p (tolower_c c))"

fun seqs :: "regex list \<Rightarrow> regex" where
  "seqs [] = Eps"
| "seqs [r] = r"
| "seqs (r # rs) = Seq r (seqs rs)"

fun alts :: "regex list \<Rightarrow> regex" where
  "alts [] = Cls (\<lambda>_. False)"
| "alts [r] = r"
| "alts (r # rs) = Alt r (alts rs)"

definition lit :: "string \<Rightarrow> regex" where
  "lit s = seqs (map (\<lambda>x. Cls (\<lambda>c. c = x)) s)"

definition lit_i :: "string \<Rightarrow> regex" where
  "lit_i s = seqs (map (\<lambda>x. cls_i (\<lambda>c. c = x)) s)"

definition opt_r :: "regex \<Rightarrow> regex" where
  "opt_r r = Rep r 0 (Some 1)"

definition star_r :: "regex \<Rightarrow> regex" where
  "star_r r = Rep r 0 None"

definition plus_r :: "regex \<Rightarrow> regex" where
  "plus_r r = Rep r 1 None"

lemmas pattern_defs = one_of_def cls_i_def lit_def lit_i_def opt_r_def star_r_def plus_r_def

text \<open>\<open>^...$\<close>\<close>

definition anchored :: "regex \<Rightarrow> regex" where
  "anchored r = Seq Bol (Seq r Eol)"

text \<open>\<open>[head][tail]{0,n}\<close>: the shape of the identifier patterns of the sources.\<close>

definition name_pattern :: "(char \<Rightarrow> bool) \<Rightarrow> (char \<Rightarrow> bool) \<Rightarrow> nat \<Rightarrow> regex" where
  "name_pattern p q n = Seq (Cls p) (Rep (Cls q) 0 (Some n))"

section \<open>What the identifier patterns accept\<close>

lemma reach_Nil [simp]: "reach n f [] = []"
  by (induction n) auto

text \<open>The rounds stop when nothing new can be matched: the equation used for evaluation.\<close>

lemma reach_stop [code]:
  "reach 0 f X = X"
  "reach (Suc k) f X =
     (let Y = remdups (concat (map f X))
      in if Y = [] then remdups X else remdups (X @ reach k f Y))"
  by (simp, cases "remdups (concat (map f X)) = []",
      simp_all only: reach.simps Let_def if_True if_False reach_Nil append_Nil2 simp_thms)

lemma set_reach_Suc: "set (reach (Suc n) f [i]) = insert i (set (reach n f (remdups (f i))))"
  by auto

lemma set_reach_single:
  assumes f: "\<And>i. f i = (if i < m \<and> P i then [Suc i] else [])"
  shows "i \<le> m \<Longrightarrow> j \<in> set (reach n f [i]) \<longleftrightarrow>
    i \<le> j \<and> j \<le> i + n \<and> j \<le> m \<and> (\<forall>k. i \<le> k \<and> k < j \<longrightarrow> P k)"
proof (induction n arbitrary: i)
  case 0
  then show ?case by auto
next
  case (Suc n)
  show ?case
  proof (cases "i < m \<and> P i")
    case True
    then have fi: "f i = [Suc i]" by (simp add: f)
    have IH: "j \<in> set (reach n f [Suc i]) \<longleftrightarrow>
        Suc i \<le> j \<and> j \<le> Suc i + n \<and> j \<le> m \<and> (\<forall>k. Suc i \<le> k \<and> k < j \<longrightarrow> P k)"
      using True by (intro Suc.IH) auto
    have ext: "(\<forall>k. Suc i \<le> k \<and> k < j \<longrightarrow> P k) \<longleftrightarrow> (\<forall>k. i \<le> k \<and> k < j \<longrightarrow> P k)"
      using True by (metis Suc_leI le_neq_implies_less less_imp_le Suc_le_lessD)
    have "j \<in> set (reach (Suc n) f [i]) \<longleftrightarrow> j = i \<or> j \<in> set (reach n f [Suc i])"
      unfolding set_reach_Suc fi by simp
    then show ?thesis unfolding IH ext using True by (cases "j = i") auto
  next
    case False
    then have fi: "f i = []" by (simp add: f)
    have "j \<in> set (reach (Suc n) f [i]) \<longleftrightarrow> j = i"
      unfolding set_reach_Suc fi by simp
    moreover have "i \<le> j \<Longrightarrow> j \<noteq> i \<Longrightarrow> j \<le> m \<Longrightarrow> \<not> (\<forall>k. i \<le> k \<and> k < j \<longrightarrow> P k)"
      using False by (metis le_neq_implies_less less_le_trans order_refl)
    ultimately show ?thesis using Suc.prems by auto
  qed
qed

lemma set_reach_cls:
  "i \<le> length s \<Longrightarrow> j \<in> set (reach n (ends (Cls q) s) [i]) \<longleftrightarrow>
     i \<le> j \<and> j \<le> i + n \<and> j \<le> length s \<and> (\<forall>k. i \<le> k \<and> k < j \<longrightarrow> q (s ! k))"
  by (rule set_reach_single [where P = "\<lambda>k. q (s ! k)"]) simp_all

lemma fullmatch_anchored [simp]: "re_fullmatch (anchored r) s = re_fullmatch r s"
  by (auto simp: re_fullmatch_def anchored_def split: if_splits)

lemma fullmatch_name_pattern [simp]:
  "re_fullmatch (name_pattern p q n) s \<longleftrightarrow>
     s \<noteq> [] \<and> p (hd s) \<and> length s \<le> Suc n \<and> list_all q (tl s)"
proof (cases s)
  case Nil
  then show ?thesis by (simp add: re_fullmatch_def name_pattern_def)
next
  case (Cons c cs)
  have hd: "ends (Cls p) s 0 = (if p c then [Suc 0] else [])"
    using Cons by simp
  have rep: "ends (Rep (Cls q) 0 (Some n)) s i = reach n (ends (Cls q) s) [i]" for i
    by (simp only: ends.simps(5) iterate.simps option.case diff_zero)
  have "re_fullmatch (name_pattern p q n) s \<longleftrightarrow>
      p c \<and> length s \<in> set (reach n (ends (Cls q) s) [Suc 0])"
    by (simp only: re_fullmatch_def name_pattern_def ends.simps(3) hd)
       (cases "p c", simp_all del: ends.simps add: rep)
  also have "\<dots> \<longleftrightarrow> p c \<and> length s \<le> Suc n \<and> (\<forall>k. Suc 0 \<le> k \<and> k < length s \<longrightarrow> q (s ! k))"
    using Cons by (subst set_reach_cls) auto
  also have "(\<forall>k. Suc 0 \<le> k \<and> k < length s \<longrightarrow> q (s ! k)) \<longleftrightarrow> list_all q cs"
  proof -
    have "(\<forall>k. Suc 0 \<le> k \<and> k < length s \<longrightarrow> q (s ! k)) \<longleftrightarrow> (\<forall>m < length cs. q (cs ! m))"
      unfolding Cons by (auto simp: Suc_le_eq nth_Cons' dest: spec [of _ "Suc _"])
    then show ?thesis by (simp add: list_all_length)
  qed
  finally show ?thesis using Cons by simp
qed

lemma fullmatch_plus_cls: "re_fullmatch (plus_r (Cls q)) s \<longleftrightarrow> s \<noteq> [] \<and> list_all q s"
proof (cases s)
  case Nil
  then show ?thesis by (simp add: re_fullmatch_def plus_r_def)
next
  case (Cons c cs)
  have rep: "ends (plus_r (Cls q)) s 0 = reach (length s) (ends (Cls q) s) (if q c then [Suc 0] else [])"
    using Cons by (simp add: plus_r_def del: reach.simps)
  have "re_fullmatch (plus_r (Cls q)) s \<longleftrightarrow> q c \<and> (\<forall>k. Suc 0 \<le> k \<and> k < length s \<longrightarrow> q (s ! k))"
    unfolding re_fullmatch_def rep List.member_iff
    using set_reach_cls [of "Suc 0" s "length s" "length s" q] Cons
    by (cases "q c") (simp_all only: if_True if_False reach_Nil, simp_all del: reach.simps ends.simps)
  also have "\<dots> \<longleftrightarrow> (\<forall>k < length s. q (s ! k))"
    using Cons by (auto simp: less_Suc_eq_0_disj Suc_le_eq)
  also have "\<dots> \<longleftrightarrow> list_all q s" by (simp add: list_all_length)
  finally show ?thesis using Cons by simp
qed

lemma iterate_cls:
  "i + n \<le> length s \<Longrightarrow> (\<And>k. k < n \<Longrightarrow> q (s ! (i + k))) \<Longrightarrow> iterate n (ends (Cls q) s) [i] = [i + n]"
proof (induction n arbitrary: i)
  case (Suc n)
  have "ends (Cls q) s i = [Suc i]" using Suc.prems Suc.prems(2) [of 0] by simp
  moreover have "iterate n (ends (Cls q) s) [Suc i] = [Suc i + n]"
    using Suc.prems Suc.prems(2) [of "Suc _"] by (intro Suc.IH) auto
  ultimately show ?case by (simp del: ends.simps)
qed simp

lemma fullmatch_prefixed:
  assumes h: "length h = n" "list_all q h" and l: "ends (lit p) (p @ h) 0 = [length p]"
  shows "re_fullmatch (Seq (lit p) (Rep (Cls q) n (Some n))) (p @ h)"
proof -
  have "iterate n (ends (Cls q) (p @ h)) [length p] = [length p + n]"
    using h by (intro iterate_cls) (auto simp: list_all_length nth_append)
  then show ?thesis
    using h by (simp add: re_fullmatch_def l del: iterate.simps)
qed

end
