(* ===== verification/Evidence.thy ===== *)
theory Evidence
  imports Regex
begin

text \<open>
  Server-issued evidence (\<open>packages/evidence/src/rick_evidence/models.py\<close>): the field
  normalisers, the scope, evidence items and bundles with their content-addressed identifiers,
  and the two factories \<open>Evidence.issue\<close> and \<open>EvidenceBundle.build\<close>.

  The argument \<open>sha\<close> of the definitions is \<open>hashlib.sha256(...).hexdigest()\<close> of the
  canonical JSON of a payload, as a function of the payload; \<open>hexdigest sha\<close> is what is
  known of it: the result is 64 lower-case hexadecimal digits. A pydantic model is a record; its
  validators are a function that returns the record or the exception. All errors of the fields of
  a model are collected in one \<open>ValidationError\<close>, except those that are not
  \<open>ValueError\<close>s, which leave the validation at once.
\<close>

section \<open>Field normalisers\<close>

datatype evidence_error =
    ValueError string
  | TypeError string
  | OverflowError
  | ValidationError
  | EvidenceValidationError string

definition token_tail :: "char \<Rightarrow> bool" where
  "token_tail c = (alnum_ascii c \<or> c \<in> set ''_.:/-'')"

definition EVIDENCE_TOKEN :: regex where
  "EVIDENCE_TOKEN = anchored (name_pattern (\<lambda>c. alnum_ascii c) token_tail 127)"

definition hex_digit :: "char \<Rightarrow> bool" where
  "hex_digit c = (digit_c c \<or> c \<in> set ''abcdef'')"

definition EVIDENCE_ID :: regex where
  "EVIDENCE_ID = anchored (Seq (lit ''ev_'') (Rep (Cls hex_digit) 32 (Some 32)))"

definition BUNDLE_ID :: regex where
  "BUNDLE_ID = anchored (Seq (lit ''eb_'') (Rep (Cls hex_digit) 32 (Some 32)))"

definition MAX_QUERY_CHARS :: nat where "MAX_QUERY_CHARS = 20000"
definition MAX_SOURCE_CHARS :: nat where "MAX_SOURCE_CHARS = 2000"
definition MAX_SECTION_CHARS :: nat where "MAX_SECTION_CHARS = 1000"
definition MAX_TEXT_CHARS :: nat where "MAX_TEXT_CHARS = 1000000"

definition token :: "string \<Rightarrow> pyval \<Rightarrow> evidence_error + string" where
  "token name value =
     (case value of
        PStr s \<Rightarrow>
          (let t = strip s in
           if t = [] \<or> length t > 128 \<or> \<not> re_fullmatch EVIDENCE_TOKEN t
           then Inl (ValueError (name @ '' has an invalid format'')) else Inr t)
      | _ \<Rightarrow> Inl (ValueError (name @ '' must be a string'')))"

definition bounded_text :: "string \<Rightarrow> nat \<Rightarrow> bool \<Rightarrow> pyval \<Rightarrow> evidence_error + string" where
  "bounded_text name maximum required value =
     (case value of
        PStr s \<Rightarrow>
          (let t = strip s in
           if required \<and> t = [] then Inl (ValueError (name @ '' must not be empty''))
           else if length t > maximum then Inl (ValueError (name @ '' exceeds its limit''))
           else Inr t)
      | _ \<Rightarrow> Inl (ValueError (name @ '' must be a string'')))"

definition optional_text :: "string \<Rightarrow> nat \<Rightarrow> pyval \<Rightarrow> evidence_error + string option" where
  "optional_text name maximum value =
     (if value = PNone then Inr None
      else rbind (bounded_text name maximum True value) (\<lambda>t. Inr (Some t)))"

definition finite_score :: "string \<Rightarrow> pyval \<Rightarrow> evidence_error + real" where
  "finite_score name value =
     (if \<not> is_number value then Inl (ValueError (name @ '' must be numeric''))
      else if float_overflows value then Inl OverflowError
      else case finite_number value of
        None \<Rightarrow> Inl (ValueError (name @ '' must be finite''))
      | Some x \<Rightarrow>
          if \<bar>x\<bar> > 1000000000 then Inl (ValueError (name @ '' exceeds its limit'')) else Inr x)"

definition page_value :: "string \<Rightarrow> pyval \<Rightarrow> evidence_error + int option" where
  "page_value name value =
     (case value of
        PNone \<Rightarrow> Inr None
      | PInt n \<Rightarrow> if n < 0 \<or> n > 10000000 then Inl (ValueError (name @ '' exceeds its limit'')) else Inr (Some n)
      | _ \<Rightarrow> Inl (ValueError (name @ '' must be an integer'')))"

section \<open>Scope\<close>

record evidence_scope =
  es_tenant_id :: string
  es_workspace_id :: string
  es_collection_id :: string

definition make_evidence_scope :: "pyval \<Rightarrow> pyval \<Rightarrow> pyval \<Rightarrow> evidence_error + evidence_scope" where
  "make_evidence_scope t w c =
     (case (token ''tenant_id'' t, token ''workspace_id'' w, token ''collection_id'' c) of
        (Inr t', Inr w', Inr c') \<Rightarrow>
          Inr \<lparr>es_tenant_id = t', es_workspace_id = w', es_collection_id = c'\<rparr>
      | _ \<Rightarrow> Inl ValidationError)"

section \<open>Evidence items\<close>

datatype json_value = JNull | JStr string | JInt int | JFloat real | JStrs "string list"

type_synonym payload = "(string \<times> json_value) list"

text \<open>The validated fields (\<open>evidence_data\<close>) and, with the identifier, the item.\<close>

record evidence_data =
  ev_tenant_id :: string
  ev_workspace_id :: string
  ev_collection_id :: string
  ev_document_id :: string
  ev_document_version :: string
  ev_chunk_id :: string
  ev_source :: string
  ev_page_start :: "int option"
  ev_page_end :: "int option"
  ev_section :: "string option"
  ev_checksum :: string
  ev_text :: string
  ev_retrieval_score :: real
  ev_reranking_score :: real

record evidence = evidence_data +
  evidence_id :: string

text \<open>The keyword arguments of the two ways to construct an item.\<close>

record raw_evidence =
  re_tenant_id :: pyval
  re_workspace_id :: pyval
  re_collection_id :: pyval
  re_document_id :: pyval
  re_document_version :: pyval
  re_chunk_id :: pyval
  re_source :: pyval
  re_page_start :: pyval
  re_page_end :: pyval
  re_section :: pyval
  re_checksum :: pyval
  re_text :: pyval
  re_retrieval_score :: pyval
  re_reranking_score :: pyval

definition json_opt_str :: "string option \<Rightarrow> json_value" where
  "json_opt_str s = (case s of None \<Rightarrow> JNull | Some t \<Rightarrow> JStr t)"

definition json_opt_int :: "int option \<Rightarrow> json_value" where
  "json_opt_int s = (case s of None \<Rightarrow> JNull | Some t \<Rightarrow> JInt t)"

definition evidence_payload :: "'a evidence_data_scheme \<Rightarrow> payload" where
  "evidence_payload e =
     [(''tenant_id'', JStr (ev_tenant_id e)), (''workspace_id'', JStr (ev_workspace_id e)),
      (''collection_id'', JStr (ev_collection_id e)), (''document_id'', JStr (ev_document_id e)),
      (''document_version'', JStr (ev_document_version e)), (''chunk_id'', JStr (ev_chunk_id e)),
      (''source'', JStr (ev_source e)), (''page_start'', json_opt_int (ev_page_start e)),
      (''page_end'', json_opt_int (ev_page_end e)), (''section'', json_opt_str (ev_section e)),
      (''checksum'', JStr (ev_checksum e)), (''text'', JStr (ev_text e)),
      (''retrieval_score'', JFloat (ev_retrieval_score e)),
      (''reranking_score'', JFloat (ev_reranking_score e))]"

definition server_evidence_id :: "(payload \<Rightarrow> string) \<Rightarrow> 'a evidence_data_scheme \<Rightarrow> string" where
  "server_evidence_id sha e = ''ev_'' @ take 32 (sha (evidence_payload e))"

text \<open>
  The field validators in the order of \<open>issue\<close>, and the same ones as pydantic applies them.
\<close>

definition normalize_evidence :: "raw_evidence \<Rightarrow> evidence_error + evidence_data" where
  "normalize_evidence r =
     rbind (token ''tenant_id'' (re_tenant_id r)) (\<lambda>t.
     rbind (token ''workspace_id'' (re_workspace_id r)) (\<lambda>w.
     rbind (token ''collection_id'' (re_collection_id r)) (\<lambda>c.
     rbind (token ''document_id'' (re_document_id r)) (\<lambda>d.
     rbind (token ''document_version'' (re_document_version r)) (\<lambda>v.
     rbind (token ''chunk_id'' (re_chunk_id r)) (\<lambda>k.
     rbind (bounded_text ''source'' MAX_SOURCE_CHARS True (re_source r)) (\<lambda>s.
     rbind (bounded_text ''checksum'' 256 True (re_checksum r)) (\<lambda>h.
     rbind (bounded_text ''text'' MAX_TEXT_CHARS True (re_text r)) (\<lambda>x.
     rbind (optional_text ''section'' MAX_SECTION_CHARS (re_section r)) (\<lambda>n.
     rbind (page_value ''page_start'' (re_page_start r)) (\<lambda>a.
     rbind (page_value ''page_end'' (re_page_end r)) (\<lambda>b.
     rbind (finite_score ''retrieval_score'' (re_retrieval_score r)) (\<lambda>p.
     rbind (finite_score ''reranking_score'' (re_reranking_score r)) (\<lambda>q.
       Inr \<lparr>ev_tenant_id = t, ev_workspace_id = w, ev_collection_id = c, ev_document_id = d,
            ev_document_version = v, ev_chunk_id = k, ev_source = s, ev_page_start = a, ev_page_end = b,
            ev_section = n, ev_checksum = h, ev_text = x, ev_retrieval_score = p,
            ev_reranking_score = q\<rparr>))))))))))))))"

definition pages_ordered :: "int option \<Rightarrow> int option \<Rightarrow> bool" where
  "pages_ordered a b = (case (a, b) of (Some x, Some y) \<Rightarrow> x \<le> y | _ \<Rightarrow> True)"

definition evidence_model_validate ::
  "(payload \<Rightarrow> string) \<Rightarrow> string \<Rightarrow> raw_evidence \<Rightarrow> evidence_error + evidence" where
  "evidence_model_validate sha i r =
     (if float_overflows (re_retrieval_score r) \<or> float_overflows (re_reranking_score r) then Inl OverflowError
      else case normalize_evidence r of
        Inl e \<Rightarrow> Inl ValidationError
      | Inr d \<Rightarrow>
          if length i \<noteq> 35 \<or> \<not> re_fullmatch EVIDENCE_ID i then Inl ValidationError
          else if \<not> pages_ordered (ev_page_start d) (ev_page_end d) then Inl ValidationError
          else if i \<noteq> server_evidence_id sha d then Inl ValidationError
          else Inr (evidence_data.extend d \<lparr>evidence_id = i\<rparr>))"

definition raw_of :: "evidence_data \<Rightarrow> raw_evidence" where
  "raw_of d =
     \<lparr>re_tenant_id = PStr (ev_tenant_id d), re_workspace_id = PStr (ev_workspace_id d),
      re_collection_id = PStr (ev_collection_id d), re_document_id = PStr (ev_document_id d),
      re_document_version = PStr (ev_document_version d), re_chunk_id = PStr (ev_chunk_id d),
      re_source = PStr (ev_source d),
      re_page_start = (case ev_page_start d of None \<Rightarrow> PNone | Some n \<Rightarrow> PInt n),
      re_page_end = (case ev_page_end d of None \<Rightarrow> PNone | Some n \<Rightarrow> PInt n),
      re_section = (case ev_section d of None \<Rightarrow> PNone | Some s \<Rightarrow> PStr s),
      re_checksum = PStr (ev_checksum d), re_text = PStr (ev_text d),
      re_retrieval_score = PFloat (Fin (ev_retrieval_score d)),
      re_reranking_score = PFloat (Fin (ev_reranking_score d))\<rparr>"

definition evidence_issue :: "(payload \<Rightarrow> string) \<Rightarrow> raw_evidence \<Rightarrow> evidence_error + evidence" where
  "evidence_issue sha r =
     rbind (normalize_evidence r) (\<lambda>d. evidence_model_validate sha (server_evidence_id sha d) (raw_of d))"

definition evidence_scope_of :: "evidence \<Rightarrow> evidence_error + evidence_scope" where
  "evidence_scope_of e =
     make_evidence_scope (PStr (ev_tenant_id e)) (PStr (ev_workspace_id e)) (PStr (ev_collection_id e))"

definition cite :: "string \<Rightarrow> string" where
  "cite i = ''[cite:'' @ i @ '']''"

definition citation_marker :: "evidence \<Rightarrow> string" where
  "citation_marker e = cite (evidence_id e)"

section \<open>Bundles\<close>

record evidence_bundle =
  bundle_id :: string
  eb_tenant_id :: string
  eb_workspace_id :: string
  eb_collection_id :: string
  eb_query :: string
  eb_evidence :: "evidence list"
  eb_citation_map :: dict

definition bundle_payload :: "string \<Rightarrow> string \<Rightarrow> string \<Rightarrow> string \<Rightarrow> evidence list \<Rightarrow> payload" where
  "bundle_payload t w c q items =
     [(''tenant_id'', JStr t), (''workspace_id'', JStr w), (''collection_id'', JStr c),
      (''query'', JStr q), (''evidence_ids'', JStrs (map evidence_id items))]"

definition bundle_digest_id ::
  "(payload \<Rightarrow> string) \<Rightarrow> string \<Rightarrow> string \<Rightarrow> string \<Rightarrow> string \<Rightarrow> evidence list \<Rightarrow> string" where
  "bundle_digest_id sha t w c q items = ''eb_'' @ take 32 (sha (bundle_payload t w c q items))"

definition server_bundle_id :: "(payload \<Rightarrow> string) \<Rightarrow> evidence_bundle \<Rightarrow> string" where
  "server_bundle_id sha b =
     bundle_digest_id sha (eb_tenant_id b) (eb_workspace_id b) (eb_collection_id b) (eb_query b) (eb_evidence b)"

text \<open>
  The dictionary comprehension over identifiers, and equality of dictionaries (their keys are
  distinct): the same entries in any order.
\<close>

definition expected_map :: "string list \<Rightarrow> dict" where
  "expected_map ids = map (\<lambda>i. (i, cite i)) (dedup ids)"

definition dict_eq :: "dict \<Rightarrow> dict \<Rightarrow> bool" where
  "dict_eq a b = (set a = set b)"

text \<open>
  \<open>EvidenceBundle.model_validate\<close> with its model validator. The items are \<open>Evidence\<close>
  objects, which strict validation takes as they are.
\<close>

definition bundle_model_validate ::
  "(payload \<Rightarrow> string) \<Rightarrow> string \<Rightarrow> pyval \<Rightarrow> pyval \<Rightarrow> pyval \<Rightarrow> pyval \<Rightarrow> evidence list \<Rightarrow> dict \<Rightarrow>
     evidence_error + evidence_bundle" where
  "bundle_model_validate sha i t w c q items cites =
     (case (token ''tenant_id'' t, token ''workspace_id'' w, token ''collection_id'' c,
            bounded_text ''query'' MAX_QUERY_CHARS True q) of
        (Inr t', Inr w', Inr c', Inr q') \<Rightarrow>
          if length i \<noteq> 35 \<or> \<not> re_fullmatch BUNDLE_ID i \<or> length items > 100 \<or> length cites > 100
          then Inl ValidationError
          else if \<not> list_all (\<lambda>e. ev_tenant_id e = t' \<and> ev_workspace_id e = w' \<and> ev_collection_id e = c') items
          then Inl ValidationError
          else if \<not> distinct (map evidence_id items) then Inl ValidationError
          else if \<not> dict_eq cites (expected_map (map evidence_id items)) then Inl ValidationError
          else if i \<noteq> bundle_digest_id sha t' w' c' q' items then Inl ValidationError
          else Inr \<lparr>bundle_id = i, eb_tenant_id = t', eb_workspace_id = w', eb_collection_id = c', eb_query = q',
                 eb_evidence = items, eb_citation_map = cites\<rparr>
      | _ \<Rightarrow> Inl ValidationError)"

datatype bundle_item = Item evidence | NotEvidence

definition items_of :: "bundle_item list \<Rightarrow> evidence list" where
  "items_of xs = concat (map (\<lambda>x. case x of Item e \<Rightarrow> [e] | NotEvidence \<Rightarrow> []) xs)"

definition bundle_build ::
  "(payload \<Rightarrow> string) \<Rightarrow> pyval \<Rightarrow> pyval \<Rightarrow> pyval \<Rightarrow> pyval \<Rightarrow> bundle_item list \<Rightarrow>
     evidence_error + evidence_bundle" where
  "bundle_build sha tenant workspace collection query xs =
     rbind (token ''tenant_id'' tenant) (\<lambda>t.
     rbind (token ''workspace_id'' workspace) (\<lambda>w.
     rbind (token ''collection_id'' collection) (\<lambda>c.
     rbind (bounded_text ''query'' MAX_QUERY_CHARS True query) (\<lambda>q.
     let items = items_of xs in
     if length items \<noteq> length xs then Inl (TypeError ''evidence must contain Evidence objects'')
     else bundle_model_validate sha (bundle_digest_id sha t w c q items)
            (PStr t) (PStr w) (PStr c) (PStr q) items (expected_map (map evidence_id items))))))"

definition build_from_scope ::
  "(payload \<Rightarrow> string) \<Rightarrow> evidence_scope \<Rightarrow> pyval \<Rightarrow> bundle_item list \<Rightarrow> evidence_error + evidence_bundle" where
  "build_from_scope sha s query xs =
     bundle_build sha (PStr (es_tenant_id s)) (PStr (es_workspace_id s)) (PStr (es_collection_id s)) query xs"

definition bundle_scope :: "evidence_bundle \<Rightarrow> evidence_error + evidence_scope" where
  "bundle_scope b = make_evidence_scope (PStr (eb_tenant_id b)) (PStr (eb_workspace_id b)) (PStr (eb_collection_id b))"

definition citation_ids :: "evidence_bundle \<Rightarrow> string list" where
  "citation_ids b = map evidence_id (eb_evidence b)"

definition citation_for :: "evidence_bundle \<Rightarrow> string \<Rightarrow> string option" where
  "citation_for b i = map_of (eb_citation_map b) i"

section \<open>Issued items\<close>

definition hexdigest :: "(payload \<Rightarrow> string) \<Rightarrow> bool" where
  "hexdigest sha = (\<forall>p. length (sha p) = 64 \<and> list_all hex_digit (sha p))"

lemma token_again: "token n v = Inr t \<Longrightarrow> token m (PStr t) = Inr t"
  by (auto simp: token_def Let_def split: pyval.splits if_splits)

lemma bounded_text_again: "bounded_text n k r v = Inr t \<Longrightarrow> bounded_text m k r (PStr t) = Inr t"
  by (auto simp: bounded_text_def Let_def split: pyval.splits if_splits)

lemma optional_text_again:
  "optional_text n k v = Inr t \<Longrightarrow> optional_text m k (case t of None \<Rightarrow> PNone | Some s \<Rightarrow> PStr s) = Inr t"
  by (auto simp: optional_text_def rbind_Inr split: if_splits dest: bounded_text_again)

lemma page_value_again:
  "page_value n v = Inr t \<Longrightarrow> page_value m (case t of None \<Rightarrow> PNone | Some i \<Rightarrow> PInt i) = Inr t"
  by (auto simp: page_value_def split: pyval.splits if_splits)

lemma finite_score_again: "finite_score n v = Inr x \<Longrightarrow> finite_score m (PFloat (Fin x)) = Inr x"
  by (auto simp: finite_score_def float_overflows_def split: if_splits option.splits)

lemmas again = token_again bounded_text_again optional_text_again page_value_again finite_score_again

lemma normalize_evidence_again: "normalize_evidence r = Inr d \<Longrightarrow> normalize_evidence (raw_of d) = Inr d"
  unfolding normalize_evidence_def
  by (simp only: returns) (auto simp: raw_of_def again)

lemma take_hex: "hexdigest sha \<Longrightarrow> length (take 32 (sha p)) = 32 \<and> list_all hex_digit (take 32 (sha p))"
  unfolding hexdigest_def by (auto simp: list_all_iff dest: in_set_takeD)

lemma server_evidence_id_ok:
  assumes "hexdigest sha"
  shows "length (server_evidence_id sha d) = 35 \<and> re_fullmatch EVIDENCE_ID (server_evidence_id sha d)"
proof -
  have "re_fullmatch (Seq (lit ''ev_'') (Rep (Cls hex_digit) 32 (Some 32))) (server_evidence_id sha d)"
    unfolding server_evidence_id_def using take_hex [OF assms]
    by (intro fullmatch_prefixed) (auto simp: lit_def)
  then show ?thesis using take_hex [OF assms] by (simp add: EVIDENCE_ID_def server_evidence_id_def)
qed

lemma bundle_digest_id_ok:
  assumes "hexdigest sha"
  shows "length (bundle_digest_id sha t w c q xs) = 35 \<and> re_fullmatch BUNDLE_ID (bundle_digest_id sha t w c q xs)"
proof -
  have "re_fullmatch (Seq (lit ''eb_'') (Rep (Cls hex_digit) 32 (Some 32))) (bundle_digest_id sha t w c q xs)"
    unfolding bundle_digest_id_def using take_hex [OF assms]
    by (intro fullmatch_prefixed) (auto simp: lit_def)
  then show ?thesis using take_hex [OF assms] by (simp add: BUNDLE_ID_def bundle_digest_id_def)
qed

lemma evidence_payload_extend [simp]: "evidence_payload (evidence_data.extend d x) = evidence_payload d"
  by (simp add: evidence_payload_def evidence_data.defs)

lemma server_evidence_id_extend [simp]:
  "server_evidence_id sha (evidence_data.extend d x) = server_evidence_id sha d"
  by (simp add: server_evidence_id_def)

lemma raw_of_no_overflow [simp]:
  "\<not> float_overflows (re_retrieval_score (raw_of d))" "\<not> float_overflows (re_reranking_score (raw_of d))"
  by (simp_all add: raw_of_def float_overflows_def)

lemma evidence_issue_Inr:
  assumes "hexdigest sha"
  shows "evidence_issue sha r = Inr e \<longleftrightarrow>
    (\<exists>d. normalize_evidence r = Inr d \<and> pages_ordered (ev_page_start d) (ev_page_end d) \<and>
       e = evidence_data.extend d \<lparr>evidence_id = server_evidence_id sha d\<rparr>)"
  using normalize_evidence_again
  by (auto simp: evidence_issue_def evidence_model_validate_def rbind_Inr server_evidence_id_ok [OF assms]
      split: if_splits)

text \<open>What every issued item satisfies.\<close>

definition token_ok :: "string \<Rightarrow> bool" where
  "token_ok t = (stripped t \<and> t \<noteq> [] \<and> length t \<le> 128 \<and> re_fullmatch EVIDENCE_TOKEN t)"

definition issued :: "(payload \<Rightarrow> string) \<Rightarrow> evidence \<Rightarrow> bool" where
  "issued sha e =
     (token_ok (ev_tenant_id e) \<and> token_ok (ev_workspace_id e) \<and> token_ok (ev_collection_id e) \<and>
      token_ok (ev_document_id e) \<and> token_ok (ev_document_version e) \<and> token_ok (ev_chunk_id e) \<and>
      ev_text e \<noteq> [] \<and> stripped (ev_text e) \<and> length (ev_text e) \<le> MAX_TEXT_CHARS \<and>
      pages_ordered (ev_page_start e) (ev_page_end e) \<and> evidence_id e = server_evidence_id sha e)"

lemma token_Inr: "token n v = Inr t \<longleftrightarrow> (\<exists>s. v = PStr s \<and> t = strip s) \<and> token_ok t"
  by (auto simp: token_def token_ok_def Let_def strip_stripped split: pyval.splits if_splits)

lemma token_PStr: "token n (PStr t) = Inr t \<longleftrightarrow> token_ok t"
  using strip_id [of t] by (auto simp: token_Inr token_ok_def)

lemma token_PStr_ok [simp]: "token_ok t \<Longrightarrow> token n (PStr t) = Inr t"
  by (simp add: token_PStr)

lemma bounded_text_Inr:
  "bounded_text n k True v = Inr t \<longleftrightarrow>
     (\<exists>s. v = PStr s \<and> t = strip s) \<and> t \<noteq> [] \<and> length t \<le> k"
  by (auto simp: bounded_text_def Let_def split: pyval.splits if_splits)

lemma issued_issue: "hexdigest sha \<Longrightarrow> evidence_issue sha r = Inr e \<Longrightarrow> issued sha e"
  unfolding evidence_issue_Inr normalize_evidence_def
  by (simp only: returns)
     (auto simp: issued_def evidence_data.defs token_Inr bounded_text_Inr strip_stripped
        server_evidence_id_def evidence_payload_def)

end
