(* ===== verification/EvidenceCheck.thy ===== *)
theory EvidenceCheck
  imports Evidence
begin

text \<open>
  The evidence validator (\<open>packages/evidence/src/rick_evidence/validator.py\<close>): issuing items
  and bundles from retrieval candidates with the authoritative resolution, and the fail-closed
  checks of bundles, citations and claims. The authority is a parameter: a function of the
  candidate and the scope. A check returns its report, or the \<open>ValidationError\<close> that the
  report's own field bounds raise, or the one that reading a malformed scope raises.

  A candidate is a mapping, a pydantic model (its attributes, and what \<open>model_dump()\<close>
  returns, \<open>None\<close> when it raises or is no mapping) or another object.
\<close>

section \<open>Validator and candidates\<close>

type_synonym fields = "(string \<times> pyval) list"

datatype candidate =
    CMapping fields
  | CModel fields "fields option"
  | CObject fields

datatype auth_result =
    AuthRecord fields
  | AuthMissing \<comment> \<open>not a mapping, \<open>None\<close> included\<close>
  | AuthRaises string \<comment> \<open>\<open>EvidenceValidationError\<close> with this code\<close>
  | AuthFails \<comment> \<open>any other exception\<close>

datatype authority = NotCallable | Resolver "candidate \<Rightarrow> evidence_scope \<Rightarrow> auth_result"

record evidence_validator =
  v_max_bundle_items :: int
  v_max_text_chars :: int
  v_min_claim_token_coverage :: real
  v_authority :: "authority option"
  v_require_authority :: bool

definition make_validator ::
  "pyval \<Rightarrow> pyval \<Rightarrow> pyval \<Rightarrow> authority option \<Rightarrow> bool \<Rightarrow> evidence_error + evidence_validator" where
  "make_validator items chars coverage auth req =
     (case items of
        PInt n \<Rightarrow>
          if n < 0 \<or> n > 100 then Inl (ValueError ''max_bundle_items is out of range'')
          else (case chars of
            PInt m \<Rightarrow>
              if m < 1 \<or> m > int MAX_TEXT_CHARS then Inl (ValueError ''max_text_chars is out of range'')
              else rbind (finite_score ''min_claim_token_coverage'' coverage) (\<lambda>x.
                if \<not> (0 \<le> x \<and> x \<le> 1)
                then Inl (ValueError ''min_claim_token_coverage must be between zero and one'')
                else if req \<and> auth = None then Inl (ValueError ''authoritative evidence resolution is required'')
                else Inr \<lparr>v_max_bundle_items = n, v_max_text_chars = m, v_min_claim_token_coverage = x,
                       v_authority = auth, v_require_authority = req\<rparr>)
          | _ \<Rightarrow> Inl (TypeError ''max_text_chars must be an integer''))
      | _ \<Rightarrow> Inl (TypeError ''max_bundle_items must be an integer''))"

definition default_validator :: evidence_validator where
  "default_validator = \<lparr>v_max_bundle_items = 20, v_max_text_chars = int MAX_TEXT_CHARS,
     v_min_claim_token_coverage = 8 / 10, v_authority = None, v_require_authority = False\<rparr>"

definition field :: "fields \<Rightarrow> string \<Rightarrow> pyval" where
  "field d name = (case map_of d name of None \<Rightarrow> PNone | Some v \<Rightarrow> v)"

fun read_value :: "candidate \<Rightarrow> string \<Rightarrow> pyval" where
  "read_value (CMapping d) name = field d name"
| "read_value (CModel attrs dump) name = field attrs name"
| "read_value (CObject attrs) name = field attrs name"

datatype scope_arg = ScopeObj evidence_scope | ScopeMap fields | ScopeOther

definition scope_names :: "string list" where
  "scope_names = [''tenant_id'', ''workspace_id'', ''collection_id'']"

fun to_scope :: "scope_arg \<Rightarrow> evidence_error + evidence_scope" where
  "to_scope (ScopeObj s) = Inr s"
| "to_scope (ScopeMap d) =
     (if \<not> list_all (\<lambda>(k, v). List.member scope_names k) d then Inl (EvidenceValidationError ''invalid_scope'')
      else case make_evidence_scope (field d ''tenant_id'') (field d ''workspace_id'') (field d ''collection_id'') of
        Inl e \<Rightarrow> Inl (EvidenceValidationError ''invalid_scope'')
      | Inr s \<Rightarrow> Inr s)"
| "to_scope ScopeOther = Inl (EvidenceValidationError ''invalid_scope'')"

definition candidate_value :: "fields \<Rightarrow> string list \<Rightarrow> pyval \<Rightarrow> pyval" where
  "candidate_value d names dflt =
     (case filter (\<lambda>v. v \<noteq> PNone) (map (field d) names) of [] \<Rightarrow> dflt | v # vs \<Rightarrow> v)"

fun candidate_mapping :: "candidate \<Rightarrow> fields option" where
  "candidate_mapping (CMapping d) = Some d"
| "candidate_mapping (CModel attrs dump) = dump"
| "candidate_mapping (CObject attrs) = None"

section \<open>Issuing\<close>

definition scope_values :: "evidence_scope \<Rightarrow> (string \<times> string) list" where
  "scope_values s =
     [(''tenant_id'', es_tenant_id s), (''workspace_id'', es_workspace_id s),
      (''collection_id'', es_collection_id s)]"

definition scope_matches :: "fields \<Rightarrow> evidence_scope \<Rightarrow> bool" where
  "scope_matches d s = list_all (\<lambda>(name, x). field d name = PStr x) (scope_values s)"

definition resolve_authoritative ::
  "evidence_validator \<Rightarrow> candidate \<Rightarrow> evidence_scope \<Rightarrow> evidence_error + candidate" where
  "resolve_authoritative v candidate scope =
     (case v_authority v of
        None \<Rightarrow>
          if v_require_authority v then Inl (EvidenceValidationError ''authoritative_resolution_unavailable'')
          else Inr candidate
      | Some NotCallable \<Rightarrow> Inl (EvidenceValidationError ''authoritative_resolution_unavailable'')
      | Some (Resolver resolve) \<Rightarrow>
          (case resolve candidate scope of
             AuthRaises code \<Rightarrow> Inl (EvidenceValidationError code)
           | AuthFails \<Rightarrow> Inl (EvidenceValidationError ''authoritative_resolution_failed'')
           | AuthMissing \<Rightarrow> Inl (EvidenceValidationError ''authoritative_evidence_missing'')
           | AuthRecord d \<Rightarrow>
               if \<not> scope_matches d scope then Inl (EvidenceValidationError ''authoritative_scope_mismatch'')
               else if list_ex (\<lambda>name. read_value candidate name \<noteq> PNone \<and>
                           \<not> py_eq (field d name) (read_value candidate name)) [''document_id'', ''chunk_id'']
               then Inl (EvidenceValidationError ''authoritative_identity_mismatch'')
               else Inr (CMapping d)))"

definition nonblank :: "pyval \<Rightarrow> bool" where
  "nonblank v = (case v of PStr s \<Rightarrow> strip s \<noteq> [] | _ \<Rightarrow> False)"

definition excerpt_ok :: "evidence_validator \<Rightarrow> pyval \<Rightarrow> bool" where
  "excerpt_ok v x = (case x of PStr s \<Rightarrow> strip s \<noteq> [] \<and> int (length (strip s)) \<le> v_max_text_chars v | _ \<Rightarrow> False)"

definition candidate_version :: "string option \<Rightarrow> fields \<Rightarrow> evidence_error + pyval" where
  "candidate_version document_version d =
     (let cv = candidate_value d [''document_version'', ''version''] PNone in
      if (case document_version of None \<Rightarrow> False | Some x \<Rightarrow> cv \<noteq> PNone \<and> cv \<noteq> PStr x)
      then Inl (EvidenceValidationError ''document_version_mismatch'')
      else let version = (case document_version of None \<Rightarrow> cv | Some x \<Rightarrow> PStr x) in
        if \<not> nonblank version then Inl (EvidenceValidationError ''document_version_missing'')
        else Inr version)"

definition raw_candidate :: "evidence_scope \<Rightarrow> pyval \<Rightarrow> fields \<Rightarrow> raw_evidence" where
  "raw_candidate expected version d =
     \<lparr>re_tenant_id = PStr (es_tenant_id expected), re_workspace_id = PStr (es_workspace_id expected),
      re_collection_id = PStr (es_collection_id expected),
      re_document_id = candidate_value d [''document_id''] PNone, re_document_version = version,
      re_chunk_id = candidate_value d [''chunk_id''] PNone,
      re_source = candidate_value d [''source'', ''document_filename''] PNone,
      re_page_start = candidate_value d [''page_start'', ''page''] PNone,
      re_page_end = candidate_value d [''page_end''] PNone,
      re_section = candidate_value d [''section'', ''heading''] PNone,
      re_checksum = candidate_value d [''checksum'', ''content_checksum''] PNone,
      re_text = candidate_value d [''text'', ''excerpt''] PNone,
      re_retrieval_score = candidate_value d [''retrieval_score'', ''score''] (PFloat (Fin 0)),
      re_reranking_score = candidate_value d [''reranking_score'', ''rerank_score'', ''bm25f_score''] (PFloat (Fin 0))\<rparr>"

definition issue ::
  "(payload \<Rightarrow> string) \<Rightarrow> evidence_validator \<Rightarrow> candidate \<Rightarrow> scope_arg \<Rightarrow> string option \<Rightarrow> fields option \<Rightarrow>
     evidence_error + evidence" where
  "issue sha v candidate scope document_version resolved =
     rbind (to_scope scope) (\<lambda>expected.
     if list_ex (\<lambda>(name, x). read_value candidate name \<noteq> PNone \<and> read_value candidate name \<noteq> PStr x)
          (scope_values expected)
     then Inl (EvidenceValidationError ''candidate_scope_mismatch'')
     else rbind (case resolved of Some d \<Rightarrow> Inr (CMapping d) | None \<Rightarrow> resolve_authoritative v candidate expected) (\<lambda>c.
     case candidate_mapping c of
       None \<Rightarrow> Inl (EvidenceValidationError ''invalid_evidence_candidate'')
     | Some d \<Rightarrow>
         if \<not> scope_matches d expected then Inl (EvidenceValidationError ''authoritative_scope_mismatch'')
         else rbind (candidate_version document_version d) (\<lambda>version.
         let r = raw_candidate expected version d in
         if \<not> excerpt_ok v (re_text r) then Inl (EvidenceValidationError ''invalid_excerpt'')
         else if \<not> (nonblank (re_source r) \<and> nonblank (re_checksum r) \<and> nonblank (re_document_id r) \<and>
                     nonblank (re_chunk_id r))
         then Inl (EvidenceValidationError ''incomplete_provenance'')
         else case evidence_issue sha r of
           Inl e \<Rightarrow> Inl (EvidenceValidationError ''invalid_evidence_candidate'')
         | Inr item \<Rightarrow> Inr item)))"

fun issue_items ::
  "(payload \<Rightarrow> string) \<Rightarrow> evidence_validator \<Rightarrow> scope_arg \<Rightarrow> string option \<Rightarrow> evidence list \<Rightarrow> candidate list \<Rightarrow>
     evidence_error + evidence list" where
  "issue_items sha v scope document_version items [] = Inr items"
| "issue_items sha v scope document_version items (c # cs) =
     (if int (length items) \<ge> v_max_bundle_items v then Inl (EvidenceValidationError ''evidence_limit_exceeded'')
      else rbind (issue sha v c scope document_version None) (\<lambda>e.
        issue_items sha v scope document_version (items @ [e]) cs))"

definition build_bundle ::
  "(payload \<Rightarrow> string) \<Rightarrow> evidence_validator \<Rightarrow> pyval \<Rightarrow> candidate list \<Rightarrow> scope_arg \<Rightarrow> string option \<Rightarrow>
     evidence_error + evidence_bundle" where
  "build_bundle sha v query candidates scope document_version =
     rbind (issue_items sha v scope document_version [] candidates) (\<lambda>items.
     rbind (to_scope scope) (\<lambda>expected.
     case build_from_scope sha expected query (map Item items) of
       Inl e \<Rightarrow> Inl (EvidenceValidationError ''invalid_evidence_bundle'')
     | Inr b \<Rightarrow> Inr b))"

section \<open>Checking bundles and items\<close>

record evidence_report =
  er_valid :: bool
  er_error_codes :: "string list"
  er_evidence_count :: nat
  er_bundle_id :: "string option"

definition make_report :: "string list \<Rightarrow> nat \<Rightarrow> string option \<Rightarrow> evidence_error + evidence_report" where
  "make_report errors n i =
     (let codes = dedup errors in
      if length codes > 16 \<or> n > 100 then Inl ValidationError
      else Inr \<lparr>er_valid = (errors = []), er_error_codes = codes, er_evidence_count = n, er_bundle_id = i\<rparr>)"

text \<open>The comparison with the expected scope: an invalid expected scope is an error code.\<close>

definition scope_errors ::
  "(evidence_error + evidence_scope) \<Rightarrow> string \<Rightarrow> scope_arg option \<Rightarrow> evidence_error + string list" where
  "scope_errors own code expected =
     (case expected of
        None \<Rightarrow> Inr []
      | Some arg \<Rightarrow>
          (case to_scope arg of
             Inl e \<Rightarrow> (case e of EvidenceValidationError c \<Rightarrow> Inr [c] | _ \<Rightarrow> Inl e)
           | Inr scope \<Rightarrow> rbind own (\<lambda>s. Inr (if s \<noteq> scope then [code] else []))))"

definition item_errors ::
  "(payload \<Rightarrow> string) \<Rightarrow> evidence_bundle \<Rightarrow> evidence \<Rightarrow> evidence_error + string list" where
  "item_errors sha b e =
     rbind (evidence_scope_of e) (\<lambda>s. rbind (bundle_scope b) (\<lambda>t.
       Inr ((if s \<noteq> t then [''evidence_scope_mismatch''] else []) @
            (if evidence_id e \<noteq> server_evidence_id sha e then [''evidence_id_invalid''] else []))))"

text \<open>The argument is \<open>None\<close> for an object that is no \<open>EvidenceBundle\<close>.\<close>

definition validate_bundle ::
  "(payload \<Rightarrow> string) \<Rightarrow> evidence_bundle option \<Rightarrow> scope_arg option \<Rightarrow> evidence_error + evidence_report" where
  "validate_bundle sha bundle expected =
     (case bundle of
        None \<Rightarrow> make_report [''bundle_type_invalid''] 0 None
      | Some b \<Rightarrow>
          rbind (scope_errors (bundle_scope b) ''bundle_scope_mismatch'' expected) (\<lambda>e1.
          rbind (map_res (item_errors sha b) (eb_evidence b)) (\<lambda>e2.
          let identifiers = map evidence_id (eb_evidence b) in
          make_report
            (e1 @ concat e2 @
             (if \<not> distinct identifiers then [''duplicate_evidence_id''] else []) @
             (if \<not> dict_eq (eb_citation_map b) (expected_map identifiers) then [''citation_map_invalid''] else []) @
             (if bundle_id b \<noteq> server_bundle_id sha b then [''bundle_id_invalid''] else []))
            (length (eb_evidence b)) (Some (bundle_id b)))))"

definition validate_evidence ::
  "(payload \<Rightarrow> string) \<Rightarrow> evidence option \<Rightarrow> scope_arg option \<Rightarrow> evidence_error + evidence_report" where
  "validate_evidence sha item expected =
     (case item of
        None \<Rightarrow> make_report [''evidence_type_invalid''] 0 None
      | Some e \<Rightarrow>
          rbind (scope_errors (evidence_scope_of e) ''evidence_scope_mismatch'' expected) (\<lambda>e1.
          make_report
            (e1 @ (if evidence_id e \<noteq> server_evidence_id sha e then [''evidence_id_invalid''] else []))
            1 None))"

section \<open>Checking citations and claims\<close>

record citation_report =
  cr_valid :: bool
  cr_error_codes :: "string list"
  cr_cited_count :: nat
  cr_resolved_count :: nat

definition make_citation_report :: "string list \<Rightarrow> nat \<Rightarrow> nat \<Rightarrow> evidence_error + citation_report" where
  "make_citation_report errors n m =
     (let codes = dedup errors in
      if length codes > 16 \<or> n > 100 \<or> m > 100 then Inl ValidationError
      else Inr \<lparr>cr_valid = (errors = []), cr_error_codes = codes, cr_cited_count = n, cr_resolved_count = m\<rparr>)"

text \<open>The second argument: a sequence of values, a string, or bytes.\<close>

datatype cited = CitedSeq "pyval list" | CitedStr string | CitedBytes

fun py_distinct :: "pyval list \<Rightarrow> bool" where
  "py_distinct [] = True"
| "py_distinct (x # xs) = (\<not> list_ex (py_eq x) xs \<and> py_distinct xs)"

definition in_map :: "dict \<Rightarrow> pyval \<Rightarrow> bool" where
  "in_map d v = (case v of PStr s \<Rightarrow> map_of d s \<noteq> None | _ \<Rightarrow> False)"

definition citation_errors :: "dict \<Rightarrow> pyval list \<Rightarrow> string list" where
  "citation_errors d identifiers =
     (if identifiers = [] then [''citation_missing''] else []) @
     (if list_ex (\<lambda>v. \<not> is_str v \<or> v = PStr []) identifiers then [''citation_id_invalid''] else []) @
     (if \<not> py_distinct identifiers then [''duplicate_citation''] else []) @
     (if length (filter (in_map d) identifiers) \<noteq> length identifiers then [''unknown_citation''] else [])"

definition validate_citations ::
  "(payload \<Rightarrow> string) \<Rightarrow> evidence_bundle option \<Rightarrow> cited \<Rightarrow> evidence_error + citation_report" where
  "validate_citations sha bundle cited_ids =
     (case bundle of
        None \<Rightarrow> make_citation_report [''bundle_type_invalid''] 0 0
      | Some b \<Rightarrow>
          rbind (validate_bundle sha bundle None) (\<lambda>report.
          if \<not> er_valid report then make_citation_report [''bundle_invalid''] 0 0
          else case cited_ids of
            CitedSeq identifiers \<Rightarrow>
              make_citation_report (citation_errors (eb_citation_map b) identifiers)
                (length identifiers) (length (filter (in_map (eb_citation_map b)) identifiers))
          | _ \<Rightarrow> make_citation_report [''citation_sequence_invalid''] 0 0))"

text \<open>
  \<open>_WORDS.findall\<close> (\<open>[^\W_]+\<close>: the maximal runs of letters and digits) and
  \<open>str.casefold\<close>, which differs from \<open>lower\<close> in one letter here; the micro sign, whose
  case folding has no other preimage in the range, is left as it is.
\<close>

fun word_runs :: "string \<Rightarrow> string \<Rightarrow> string list" where
  "word_runs acc [] = (if acc = [] then [] else [rev acc])"
| "word_runs acc (c # cs) =
     (if isalnum_c c then word_runs (c # acc) cs
      else (if acc = [] then [] else [rev acc]) @ word_runs [] cs)"

definition casefold :: "string \<Rightarrow> string" where
  "casefold s = concat (map (\<lambda>c. if ord_c c = 223 then ''ss'' else [tolower_c c]) s)"

definition STOP_WORDS :: "string list" where
  "STOP_WORDS =
     [''a'', ''as'', ''o'', ''os'', ''e'', ''and'', ''or'', ''de'', ''da'', ''do'', ''das'', ''dos'',
      ''um'', ''uma'', ''uns'', ''umas'', ''the'', ''of'', ''to'', ''in'', ''on'', ''for'', ''with'',
      ''is'', ''are'', ''be'', ''this'', ''that'', ''it'', ''que'', ''se'', ''em'', ''no'', ''na'',
      ''nos'', ''nas'', ''por'', ''para'', ''com'', ''um'', ''uma'', [CHR 0xE9], ''ao'', ''aos'']"

definition meaningful_tokens :: "string \<Rightarrow> string list" where
  "meaningful_tokens s = remdups (filter (\<lambda>t. \<not> List.member STOP_WORDS t) (map casefold (word_runs [] s)))"

record claim_report =
  cl_valid :: bool
  cl_error_codes :: "string list"
  cl_cited_count :: nat
  cl_claim_token_count :: nat
  cl_matched_token_count :: nat
  cl_coverage :: real

definition make_claim_report ::
  "string list \<Rightarrow> nat \<Rightarrow> nat \<Rightarrow> nat \<Rightarrow> real \<Rightarrow> evidence_error + claim_report" where
  "make_claim_report errors n k m cov =
     (let codes = dedup errors in
      if length codes > 16 \<or> n > 100 \<or> k > 10000 \<or> m > 10000 \<or> \<not> (0 \<le> cov \<and> cov \<le> 1) then Inl ValidationError
      else Inr \<lparr>cl_valid = (errors = []), cl_error_codes = codes, cl_cited_count = n,
             cl_claim_token_count = k, cl_matched_token_count = m, cl_coverage = cov\<rparr>)"

text \<open>Iterating over the second argument: a string gives its characters, bytes give numbers.\<close>

fun cited_elements :: "cited \<Rightarrow> string list" where
  "cited_elements (CitedSeq vs) = concat (map (\<lambda>v. case v of PStr s \<Rightarrow> [s] | _ \<Rightarrow> []) vs)"
| "cited_elements (CitedStr s) = map (\<lambda>c. [c]) s"
| "cited_elements CitedBytes = []"

definition evidence_tokens :: "evidence_bundle option \<Rightarrow> cited \<Rightarrow> string list" where
  "evidence_tokens bundle cited_ids =
     (case bundle of
        None \<Rightarrow> []
      | Some b \<Rightarrow>
          (let by_id = map_of (rev (map (\<lambda>e. (evidence_id e, e)) (eb_evidence b)))
           in concat (map (\<lambda>i. case by_id i of None \<Rightarrow> [] | Some e \<Rightarrow> meaningful_tokens (ev_text e))
                (cited_elements cited_ids))))"

definition validate_claim_support ::
  "(payload \<Rightarrow> string) \<Rightarrow> evidence_validator \<Rightarrow> pyval \<Rightarrow> evidence_bundle option \<Rightarrow> cited \<Rightarrow>
     evidence_error + claim_report" where
  "validate_claim_support sha v claim bundle cited_ids =
     rbind (validate_citations sha bundle cited_ids) (\<lambda>report.
     let errors = cr_error_codes report in
     case bounded_text ''claim'' (nat (v_max_text_chars v)) True claim of
       Inl e \<Rightarrow> make_claim_report (errors @ [''claim_invalid'']) (cr_cited_count report) 0 0 0
     | Inr c \<Rightarrow>
         (let claim_tokens = meaningful_tokens c;
              matched = length (filter (List.member (evidence_tokens bundle cited_ids)) claim_tokens);
              coverage = (if claim_tokens = [] then 0 else real matched / real (length claim_tokens))
          in make_claim_report
               (errors @ (if claim_tokens = [] then [''claim_has_no_terms''] else []) @
                (if coverage < v_min_claim_token_coverage v then [''claim_support_below_threshold''] else []))
               (cr_cited_count report) (length claim_tokens) matched coverage))"

datatype validated = AnItem evidence | ABundle evidence_bundle | AnObject

definition validate ::
  "(payload \<Rightarrow> string) \<Rightarrow> validated \<Rightarrow> scope_arg option \<Rightarrow> evidence_error + evidence_report" where
  "validate sha x expected =
     (case x of
        AnItem e \<Rightarrow> validate_evidence sha (Some e) expected
      | ABundle b \<Rightarrow> validate_bundle sha (Some b) expected
      | AnObject \<Rightarrow> validate_bundle sha None expected)"

section \<open>Issued items are tamper-evident\<close>

lemma json_opt_eq [simp]:
  "json_opt_str a = json_opt_str b \<longleftrightarrow> a = b" "json_opt_int x = json_opt_int y \<longleftrightarrow> x = y"
  by (auto simp: json_opt_str_def json_opt_int_def split: option.splits)

text \<open>The payload determines every field of an item but its identifier.\<close>

lemma evidence_payload_inj:
  "evidence_payload e = evidence_payload e' \<Longrightarrow> evidence_id e = evidence_id e' \<Longrightarrow> e = (e' :: evidence)"
  by (auto simp: evidence_payload_def intro: evidence.equality)

lemma make_report_valid: "make_report errors n i = Inr r \<Longrightarrow> er_valid r \<longleftrightarrow> errors = []"
  by (auto simp: make_report_def Let_def split: if_splits)

lemma make_report_Nil: "n \<le> 100 \<Longrightarrow>
  make_report [] n i = Inr \<lparr>er_valid = True, er_error_codes = [], er_evidence_count = n, er_bundle_id = i\<rparr>"
  by (simp add: make_report_def)

definition accepted :: "evidence_error + evidence_report \<Rightarrow> bool" where
  "accepted m = (case m of Inl e \<Rightarrow> False | Inr r \<Rightarrow> er_valid r)"

lemma accepted_iff: "accepted m \<longleftrightarrow> (\<exists>r. m = Inr r \<and> er_valid r)"
  by (auto simp: accepted_def split: sum.splits)

lemma accepted_make_report: "accepted (make_report errors n i) \<longleftrightarrow> errors = [] \<and> n \<le> 100"
  by (auto simp: accepted_def make_report_def Let_def split: if_splits)

lemma validate_evidence_accepted:
  "accepted (validate_evidence sha (Some e) None) \<longleftrightarrow> evidence_id e = server_evidence_id sha e"
  by (simp add: validate_evidence_def scope_errors_def accepted_make_report)

text \<open>C34. Issued evidence is accepted by the validator, and it is tamper-evident: an item that keeps
  the identifier of an issued item but differs from it has a different digest payload, and is
  accepted only if the first 128 bits of the two SHA-256 digests collide.\<close>

theorem issued_evidence_tamper_evident:
  assumes "hexdigest sha" and "evidence_issue sha r = Inr e"
  shows "accepted (validate_evidence sha (Some e) None) \<and>
    (\<forall>e'. evidence_id e' = evidence_id e \<and> e' \<noteq> e \<longrightarrow>
      evidence_payload e' \<noteq> evidence_payload e \<and>
      (accepted (validate_evidence sha (Some e') None) \<longleftrightarrow>
         take 32 (sha (evidence_payload e')) = take 32 (sha (evidence_payload e))))"
proof (intro conjI allI impI)
  have own: "evidence_id e = server_evidence_id sha e"
    using issued_issue [OF assms] by (simp add: issued_def)
  then show "accepted (validate_evidence sha (Some e) None)" by (simp add: validate_evidence_accepted)
  fix e' assume e': "evidence_id e' = evidence_id e \<and> e' \<noteq> e"
  then show "evidence_payload e' \<noteq> evidence_payload e"
    using own evidence_payload_inj by (auto simp: server_evidence_id_def)
  show "(accepted (validate_evidence sha (Some e') None) \<longleftrightarrow>
         take 32 (sha (evidence_payload e')) = take 32 (sha (evidence_payload e)))"
    using own e' by (auto simp: validate_evidence_accepted server_evidence_id_def)
qed

section \<open>Built bundles pass validation\<close>

definition scope_ok :: "evidence_scope \<Rightarrow> bool" where
  "scope_ok s = (token_ok (es_tenant_id s) \<and> token_ok (es_workspace_id s) \<and> token_ok (es_collection_id s))"

lemma make_evidence_scope_ok [simp]:
  "token_ok t \<Longrightarrow> token_ok w \<Longrightarrow> token_ok c \<Longrightarrow> make_evidence_scope (PStr t) (PStr w) (PStr c) =
     Inr \<lparr>es_tenant_id = t, es_workspace_id = w, es_collection_id = c\<rparr>"
  by (simp add: make_evidence_scope_def)

lemma make_evidence_scope_Inr: "make_evidence_scope t w c = Inr s \<Longrightarrow> scope_ok s"
  by (auto simp: make_evidence_scope_def scope_ok_def token_Inr split: sum.splits)

text \<open>Every scope that the constructor of \<open>EvidenceScope\<close> returns is well-formed.\<close>

fun scope_arg_ok :: "scope_arg \<Rightarrow> bool" where
  "scope_arg_ok (ScopeObj s) = scope_ok s"
| "scope_arg_ok a = True"

lemma to_scope_ok: "scope_arg_ok a \<Longrightarrow> to_scope a = Inr s \<Longrightarrow> scope_ok s"
  by (cases a) (auto dest: make_evidence_scope_Inr split: if_splits sum.splits)

definition in_scope :: "evidence_scope \<Rightarrow> evidence \<Rightarrow> bool" where
  "in_scope s e = (ev_tenant_id e = es_tenant_id s \<and> ev_workspace_id e = es_workspace_id s \<and>
     ev_collection_id e = es_collection_id s)"

lemma normalize_evidence_scope:
  assumes "normalize_evidence (raw_candidate s version d) = Inr x" and "scope_ok s"
  shows "ev_tenant_id x = es_tenant_id s \<and> ev_workspace_id x = es_workspace_id s \<and>
     ev_collection_id x = es_collection_id s"
  using assms unfolding normalize_evidence_def
  by (simp only: returns) (auto simp: raw_candidate_def scope_ok_def)

lemma issue_Inr_raw:
  assumes "issue sha v c a dv rs = Inr e"
  shows "\<exists>s version d. to_scope a = Inr s \<and> evidence_issue sha (raw_candidate s version d) = Inr e"
  using assms unfolding issue_def Let_def by (simp only: returns) auto

lemma issue_in_scope:
  assumes h: "hexdigest sha" and a: "scope_arg_ok a" and s: "to_scope a = Inr s"
    and i: "issue sha v c a dv rs = Inr e"
  shows "issued sha e \<and> in_scope s e"
proof -
  obtain version d where e: "evidence_issue sha (raw_candidate s version d) = Inr e"
    using issue_Inr_raw [OF i] s by auto
  show ?thesis
    using issued_issue [OF h e] normalize_evidence_scope to_scope_ok [OF a s] e
    unfolding evidence_issue_Inr [OF h] by (auto simp: in_scope_def evidence_data.defs)
qed

lemma issue_items_Inr:
  assumes "hexdigest sha" "scope_arg_ok a" "to_scope a = Inr s"
  shows "issue_items sha v a dv acc cs = Inr items \<Longrightarrow> list_all (\<lambda>e. issued sha e \<and> in_scope s e) acc \<Longrightarrow>
    list_all (\<lambda>e. issued sha e \<and> in_scope s e) items \<and> length items = length acc + length cs \<and>
    (cs \<noteq> [] \<longrightarrow> int (length items) \<le> v_max_bundle_items v)"
proof (induction cs arbitrary: acc)
  case (Cons c cs)
  then obtain e where e: "issue sha v c a dv None = Inr e" and le: "int (length acc) < v_max_bundle_items v"
    and r: "issue_items sha v a dv (acc @ [e]) cs = Inr items"
    by (auto simp: rbind_Inr split: if_splits)
  have "list_all (\<lambda>e. issued sha e \<and> in_scope s e) (acc @ [e])"
    using Cons.prems issue_in_scope [OF assms e] by simp
  from Cons.IH [OF r this] le r show ?case by (cases cs) auto
qed simp

text \<open>A bundle as \<open>EvidenceBundle.build\<close> returns it.\<close>

definition bundle_ok :: "(payload \<Rightarrow> string) \<Rightarrow> evidence_scope \<Rightarrow> evidence_bundle \<Rightarrow> bool" where
  "bundle_ok sha s b =
     (scope_ok s \<and> eb_tenant_id b = es_tenant_id s \<and> eb_workspace_id b = es_workspace_id s \<and>
      eb_collection_id b = es_collection_id s \<and> list_all (\<lambda>e. issued sha e \<and> in_scope s e) (eb_evidence b) \<and>
      length (eb_evidence b) \<le> 100 \<and> distinct (citation_ids b) \<and>
      dict_eq (eb_citation_map b) (expected_map (citation_ids b)) \<and> bundle_id b = server_bundle_id sha b)"

lemma items_of_Item [simp]: "items_of (map Item xs) = xs"
  by (induction xs) (simp_all add: items_of_def)

lemma bundle_model_validate_Inr:
  assumes "bundle_model_validate sha i t w c q items cites = Inr b"
  shows "\<exists>t' w' c' q'. token ''tenant_id'' t = Inr t' \<and> token ''workspace_id'' w = Inr w' \<and>
    token ''collection_id'' c = Inr c' \<and> bounded_text ''query'' MAX_QUERY_CHARS True q = Inr q' \<and>
    length items \<le> 100 \<and> distinct (map evidence_id items) \<and>
    dict_eq cites (expected_map (map evidence_id items)) \<and> i = bundle_digest_id sha t' w' c' q' items \<and>
    b = \<lparr>bundle_id = i, eb_tenant_id = t', eb_workspace_id = w', eb_collection_id = c', eb_query = q',
           eb_evidence = items, eb_citation_map = cites\<rparr>"
  using assms unfolding bundle_model_validate_def
  by (auto split: sum.split_asm if_split_asm)

lemma bundle_build_Inr:
  assumes "bundle_build sha t w c q (map Item items) = Inr b"
  shows "\<exists>t' w' c' q'. bundle_model_validate sha (bundle_digest_id sha t' w' c' q' items) (PStr t') (PStr w') (PStr c')
      (PStr q') items (expected_map (map evidence_id items)) = Inr b \<and>
    token ''tenant_id'' t = Inr t' \<and> token ''workspace_id'' w = Inr w' \<and> token ''collection_id'' c = Inr c'"
  using assms unfolding bundle_build_def Let_def by (simp only: returns items_of_Item) auto

lemma build_from_scope_ok:
  assumes "scope_ok s" and "build_from_scope sha s q (map Item items) = Inr b"
    and "list_all (\<lambda>e. issued sha e \<and> in_scope s e) items"
  shows "bundle_ok sha s b \<and> eb_evidence b = items"
  using assms(1,3) bundle_build_Inr [OF assms(2) [unfolded build_from_scope_def]]
  by (auto dest!: bundle_model_validate_Inr
      simp: scope_ok_def bundle_ok_def citation_ids_def server_bundle_id_def)

lemma item_errors_ok:
  "bundle_ok sha s b \<Longrightarrow> e \<in> set (eb_evidence b) \<Longrightarrow> item_errors sha b e = Inr []"
  by (auto simp: bundle_ok_def item_errors_def evidence_scope_of_def bundle_scope_def in_scope_def issued_def
      list_all_iff scope_ok_def)

lemma map_res_const: "(\<And>x. x \<in> set xs \<Longrightarrow> f x = Inr c) \<Longrightarrow> map_res f xs = Inr (map (\<lambda>_. c) xs)"
  by (induction xs) auto

lemma concat_Nils [simp]: "concat (map (\<lambda>_. []) xs) = []"
  by (induction xs) auto

lemma bundle_ok_scope: "bundle_ok sha s b \<Longrightarrow> bundle_scope b = Inr s"
  by (auto simp: bundle_ok_def bundle_scope_def scope_ok_def)

lemma bundle_ok_report:
  assumes "bundle_ok sha s b" and "expected = None \<or> (\<exists>a. expected = Some a \<and> to_scope a = Inr s)"
  shows "validate_bundle sha (Some b) expected =
    Inr \<lparr>er_valid = True, er_error_codes = [], er_evidence_count = length (eb_evidence b),
         er_bundle_id = Some (bundle_id b)\<rparr>"
proof -
  have "scope_errors (bundle_scope b) ''bundle_scope_mismatch'' expected = Inr []"
    using assms bundle_ok_scope by (auto simp: scope_errors_def)
  moreover have "map_res (item_errors sha b) (eb_evidence b) = Inr (map (\<lambda>_. []) (eb_evidence b))"
    using item_errors_ok [OF assms(1)] by (rule map_res_const)
  ultimately show ?thesis
    using assms(1) by (simp add: validate_bundle_def bundle_ok_def citation_ids_def make_report_Nil)
qed

lemma build_bundle_ok:
  assumes "hexdigest sha" and "scope_arg_ok a" and "build_bundle sha v q cs a dv = Inr b"
  shows "\<exists>s. to_scope a = Inr s \<and> bundle_ok sha s b \<and> length (eb_evidence b) = length cs \<and>
    (cs \<noteq> [] \<longrightarrow> int (length cs) \<le> v_max_bundle_items v)"
proof -
  obtain items s where i: "issue_items sha v a dv [] cs = Inr items" and s: "to_scope a = Inr s"
    and b: "build_from_scope sha s q (map Item items) = Inr b"
    using assms(3) unfolding build_bundle_def by (simp only: returns) auto
  have *: "list_all (\<lambda>e. issued sha e \<and> in_scope s e) items \<and> length items = length cs \<and>
    (cs \<noteq> [] \<longrightarrow> int (length cs) \<le> v_max_bundle_items v)"
    using issue_items_Inr [OF assms(1,2) s i] by auto
  then show ?thesis
    using build_from_scope_ok [OF to_scope_ok [OF assms(2) s] b] s by auto
qed

text \<open>C13. Whatever \<open>build_bundle\<close> returns passes \<open>validate_bundle\<close> for the scope it was
  built for, without an error code: it holds one item per candidate, within the configured limit,
  every item is server-issued and carries exactly that scope, and no identifier occurs twice.\<close>

theorem built_bundle_accepted:
  assumes "hexdigest sha" and "scope_arg_ok a" and "build_bundle sha v q cs a dv = Inr b"
  shows "validate_bundle sha (Some b) (Some a) =
      Inr \<lparr>er_valid = True, er_error_codes = [], er_evidence_count = length cs, er_bundle_id = Some (bundle_id b)\<rparr> \<and>
    (cs \<noteq> [] \<longrightarrow> int (length cs) \<le> v_max_bundle_items v) \<and>
    (\<exists>s. to_scope a = Inr s \<and> (\<forall>e\<in>set (eb_evidence b). issued sha e \<and> in_scope s e)) \<and>
    distinct (citation_ids b)"
proof -
  obtain s where s: "to_scope a = Inr s" and ok: "bundle_ok sha s b" and len: "length (eb_evidence b) = length cs"
    and lim: "cs \<noteq> [] \<longrightarrow> int (length cs) \<le> v_max_bundle_items v"
    using build_bundle_ok [OF assms] by blast
  have "validate_bundle sha (Some b) (Some a) =
      Inr \<lparr>er_valid = True, er_error_codes = [], er_evidence_count = length cs, er_bundle_id = Some (bundle_id b)\<rparr>"
    using bundle_ok_report [OF ok, of "Some a"] s len by simp
  moreover have "\<exists>s. to_scope a = Inr s \<and> (\<forall>e\<in>set (eb_evidence b). issued sha e \<and> in_scope s e)"
    and "distinct (citation_ids b)"
    using s ok by (auto simp: bundle_ok_def list_all_iff)
  ultimately show ?thesis using lim by blast
qed

section \<open>Citations and claims\<close>

lemma length_dedup_le: "length (dedup xs) \<le> length xs"
  by (induction xs) (auto intro: le_trans [OF length_filter_le])

lemma py_distinct_strings: "py_distinct (map PStr ids) \<longleftrightarrow> distinct ids"
  by (induction ids) (auto simp: list_ex_iff)

lemma map_res_member: "map_res f xs = Inr ys \<Longrightarrow> x \<in> set xs \<Longrightarrow> \<exists>y\<in>set ys. f x = Inr y"
  by (induction xs arbitrary: ys) (auto simp: rbind_Inr)

text \<open>What acceptance of a bundle means for its citations.\<close>

lemma bundle_accepted:
  assumes "accepted (validate_bundle sha (Some b) x)"
  shows "distinct (citation_ids b)" and "set (eb_citation_map b) = (\<lambda>i. (i, cite i)) ` set (citation_ids b)"
    and "\<And>e. e \<in> set (eb_evidence b) \<Longrightarrow> evidence_id e = server_evidence_id sha e"
    and "length (eb_evidence b) \<le> 100" and "bundle_id b = server_bundle_id sha b"
proof -
  obtain e1 e2 where e2: "map_res (item_errors sha b) (eb_evidence b) = Inr e2"
    and acc: "accepted (make_report
            (e1 @ concat e2 @
             (if \<not> distinct (citation_ids b) then [''duplicate_evidence_id''] else []) @
             (if \<not> dict_eq (eb_citation_map b) (expected_map (citation_ids b)) then [''citation_map_invalid''] else []) @
             (if bundle_id b \<noteq> server_bundle_id sha b then [''bundle_id_invalid''] else []))
            (length (eb_evidence b)) (Some (bundle_id b)))"
    using assms by (auto simp: validate_bundle_def accepted_iff rbind_Inr citation_ids_def Let_def)
  note acc = acc [unfolded accepted_make_report]
  show "distinct (citation_ids b)" "length (eb_evidence b) \<le> 100" "bundle_id b = server_bundle_id sha b"
    using acc by (auto split: if_splits)
  show "set (eb_citation_map b) = (\<lambda>i. (i, cite i)) ` set (citation_ids b)"
    using acc by (auto simp: dict_eq_def expected_map_def split: if_splits)
  fix e assume e: "e \<in> set (eb_evidence b)"
  obtain es where "item_errors sha b e = Inr es" "es \<in> set e2"
    using map_res_member [OF e2 e] by blast
  moreover have "es = []" using acc \<open>es \<in> set e2\<close> by auto
  ultimately show "evidence_id e = server_evidence_id sha e"
    by (auto simp: item_errors_def rbind_Inr split: if_splits)
qed

lemma accepted_in_map:
  assumes "accepted (validate_bundle sha (Some b) x)"
  shows "in_map (eb_citation_map b) (PStr i) \<longleftrightarrow> i \<in> set (citation_ids b)"
proof -
  have "fst ` set (eb_citation_map b) = set (citation_ids b)"
    unfolding bundle_accepted(2) [OF assms] by (simp add: image_image)
  then show ?thesis by (simp add: in_map_def map_of_eq_None_iff)
qed

lemma accepted_id_nonempty:
  "accepted (validate_bundle sha (Some b) x) \<Longrightarrow> [] \<notin> set (citation_ids b)"
  using bundle_accepted(3) by (fastforce simp: citation_ids_def server_evidence_id_def)

lemma filter_length_eq: "length (filter P xs) = length xs \<longleftrightarrow> (\<forall>x\<in>set xs. P x)"
  by (metis filter_True length_filter_less nat_neq_iff)

lemma citation_errors_Nil:
  assumes "accepted (validate_bundle sha (Some b) x)"
  shows "citation_errors (eb_citation_map b) (map PStr ids) = [] \<longleftrightarrow>
    ids \<noteq> [] \<and> distinct ids \<and> set ids \<subseteq> set (citation_ids b)"
proof -
  have len: "length (filter (in_map (eb_citation_map b)) (map PStr ids)) = length (map PStr ids) \<longleftrightarrow>
      set ids \<subseteq> set (citation_ids b)"
    unfolding filter_length_eq by (auto simp: accepted_in_map [OF assms])
  have "set ids \<subseteq> set (citation_ids b) \<Longrightarrow> [] \<notin> set ids"
    using accepted_id_nonempty [OF assms] by blast
  then show ?thesis
    unfolding citation_errors_def len py_distinct_strings by (auto simp: list_ex_iff)
qed

lemma length_citation_errors: "length (dedup (citation_errors d ids)) \<le> 4"
  by (rule le_trans [OF length_dedup_le]) (simp add: citation_errors_def)

lemma validate_citations_strings:
  assumes "accepted (validate_bundle sha (Some b) None)"
  shows "validate_citations sha (Some b) (CitedSeq (map PStr ids)) =
    (if length ids > 100 then Inl ValidationError
     else Inr \<lparr>cr_valid = (ids \<noteq> [] \<and> distinct ids \<and> set ids \<subseteq> set (citation_ids b)),
            cr_error_codes = dedup (citation_errors (eb_citation_map b) (map PStr ids)),
            cr_cited_count = length ids,
            cr_resolved_count = length (filter (\<lambda>i. i \<in> set (citation_ids b)) ids)\<rparr>)"
proof -
  have f: "filter (in_map (eb_citation_map b)) (map PStr ids) = map PStr (filter (\<lambda>i. i \<in> set (citation_ids b)) ids)"
    by (simp add: filter_map o_def accepted_in_map [OF assms])
  have le: "length (filter (\<lambda>i. i \<in> set (citation_ids b)) ids) \<le> length ids" by simp
  obtain r where "validate_bundle sha (Some b) None = Inr r" "er_valid r"
    using assms by (auto simp: accepted_iff)
  then have "validate_citations sha (Some b) (CitedSeq (map PStr ids)) =
      make_citation_report (citation_errors (eb_citation_map b) (map PStr ids)) (length ids)
        (length (filter (\<lambda>i. i \<in> set (citation_ids b)) ids))"
    by (simp add: validate_citations_def f)
  moreover have "100 < length ids \<or> 100 < length (filter (\<lambda>i. i \<in> set (citation_ids b)) ids) \<longleftrightarrow> 100 < length ids"
    using less_le_trans [OF _ le] by blast
  ultimately show ?thesis
    using length_citation_errors [of "eb_citation_map b" "map PStr ids"]
    by (simp add: make_citation_report_def Let_def flip: citation_errors_Nil [OF assms])
qed

text \<open>Citations resolve exactly: for an accepted bundle, a list of at most a hundred cited
  identifiers is valid if and only if it is not empty, has no duplicates and names only
  items of this bundle; the report counts the citations and the ones that resolve.\<close>

theorem citations_exact:
  assumes "accepted (validate_bundle sha (Some b) None)" and "length ids \<le> 100"
  shows "\<exists>codes. validate_citations sha (Some b) (CitedSeq (map PStr ids)) =
    Inr \<lparr>cr_valid = (ids \<noteq> [] \<and> distinct ids \<and> set ids \<subseteq> set (citation_ids b)), cr_error_codes = codes,
         cr_cited_count = length ids,
         cr_resolved_count = length (filter (\<lambda>i. i \<in> set (citation_ids b)) ids)\<rparr>"
  using validate_citations_strings [OF assms(1), of ids] assms(2) by simp

text \<open>The words of the texts that are cited.\<close>

definition cited_words :: "evidence_bundle \<Rightarrow> string list \<Rightarrow> string set" where
  "cited_words b ids =
     (\<Union>e\<in>{e \<in> set (eb_evidence b). evidence_id e \<in> set ids}. set (meaningful_tokens (ev_text e)))"

lemma set_evidence_tokens:
  assumes "distinct (citation_ids b)"
  shows "set (evidence_tokens (Some b) (CitedSeq (map PStr ids))) = cited_words b ids"
proof -
  let ?m = "rev (map (\<lambda>e. (evidence_id e, e)) (eb_evidence b))"
  have d: "distinct (map fst ?m)"
    using assms by (simp add: citation_ids_def rev_map [symmetric] o_def)
  have el: "cited_elements (CitedSeq (map PStr ids)) = ids"
    by (induction ids) simp_all
  have mo: "map_of ?m i = Some e \<longleftrightarrow> e \<in> set (eb_evidence b) \<and> evidence_id e = i" for i e
    unfolding map_of_eq_Some_iff [OF d] by auto
  have look: "set (case map_of ?m i of None \<Rightarrow> [] | Some e \<Rightarrow> f e) = (\<Union>e\<in>{e. map_of ?m i = Some e}. set (f e))"
    for i and f :: "evidence \<Rightarrow> string list"
    by (cases "map_of ?m i") auto
  show ?thesis
    unfolding evidence_tokens_def option.case Let_def el set_concat set_map image_image look mo cited_words_def
    by blast
qed

lemma make_claim_report_Inr:
  assumes "length errors \<le> 16" "n \<le> 100" "k \<le> 10000" "m \<le> k"
  shows "make_claim_report errors n k m (if k = 0 then 0 else real m / real k) =
    Inr \<lparr>cl_valid = (errors = []), cl_error_codes = dedup errors, cl_cited_count = n, cl_claim_token_count = k,
         cl_matched_token_count = m, cl_coverage = (if k = 0 then 0 else real m / real k)\<rparr>"
proof -
  have "0 \<le> real m / real k" "k \<noteq> 0 \<Longrightarrow> real m / real k \<le> 1" using assms(4) by simp_all
  moreover have "length (dedup errors) \<le> 16" using length_dedup_le assms(1) by (rule le_trans)
  ultimately show ?thesis using assms by (simp add: make_claim_report_def Let_def)
qed

text \<open>The claim check is exact: for an accepted bundle, at most a hundred citations and a claim
  within the text limit and with at most ten thousand distinct words, the report is valid if
  and only if the citations are valid, the claim has meaningful words, and the share of its
  words that occur in the cited texts reaches the configured coverage.\<close>

theorem claim_support_exact:
  assumes acc: "accepted (validate_bundle sha (Some b) None)" and ids: "length ids \<le> 100"
    and s: "strip s \<noteq> []" "int (length (strip s)) \<le> v_max_text_chars v"
    and k: "card (set (meaningful_tokens (strip s))) \<le> 10000"
  shows "\<exists>r. validate_claim_support sha v (PStr s) (Some b) (CitedSeq (map PStr ids)) = Inr r \<and>
    (cl_valid r \<longleftrightarrow>
       ids \<noteq> [] \<and> distinct ids \<and> set ids \<subseteq> set (citation_ids b) \<and> set (meaningful_tokens (strip s)) \<noteq> {} \<and>
       v_min_claim_token_coverage v * card (set (meaningful_tokens (strip s))) \<le>
         card (set (meaningful_tokens (strip s)) \<inter> cited_words b ids)) \<and>
    cl_matched_token_count r = card (set (meaningful_tokens (strip s)) \<inter> cited_words b ids)"
proof -
  define T where "T = meaningful_tokens (strip s)"
  define m where "m = length (filter (List.member (evidence_tokens (Some b) (CitedSeq (map PStr ids)))) T)"
  define errs where "errs = dedup (citation_errors (eb_citation_map b) (map PStr ids))"
  define cov where "cov = (if length T = 0 then 0 else real m / real (length T))"
  define all where "all = errs @ (if T = [] then [''claim_has_no_terms''] else []) @
    (if cov < v_min_claim_token_coverage v then [''claim_support_below_threshold''] else [])"
  have dT: "distinct T" by (simp add: T_def meaningful_tokens_def)
  have mT: "m = card (set T \<inter> cited_words b ids)"
  proof -
    have "set T \<inter> cited_words b ids = set (filter (List.member (evidence_tokens (Some b) (CitedSeq (map PStr ids)))) T)"
      unfolding set_evidence_tokens [OF bundle_accepted(1) [OF acc], symmetric] by auto
    then show ?thesis unfolding m_def by (simp only: distinct_card [OF distinct_filter [OF dT]])
  qed
  have bt: "bounded_text ''claim'' (nat (v_max_text_chars v)) True (PStr s) = Inr (strip s)"
    using s by (simp add: bounded_text_def Let_def)
  obtain rep where rep: "validate_citations sha (Some b) (CitedSeq (map PStr ids)) = Inr rep"
      "cr_error_codes rep = errs" "cr_cited_count rep = length ids"
    using validate_citations_strings [OF acc, of ids] ids by (simp add: errs_def)
  have eq: "validate_claim_support sha v (PStr s) (Some b) (CitedSeq (map PStr ids)) =
      make_claim_report all (length ids) (length T) m cov"
    by (simp only: validate_claim_support_def rep bt rbind_simps sum.case Let_def length_0_conv
        all_def cov_def m_def T_def)
  have "m \<le> length T" unfolding m_def by (rule length_filter_le)
  moreover have "length all \<le> 16"
    using length_citation_errors [of "eb_citation_map b" "map PStr ids"] by (simp add: all_def errs_def)
  moreover have "length T \<le> 10000" using k distinct_card [OF dT] by (simp add: T_def)
  ultimately have r: "validate_claim_support sha v (PStr s) (Some b) (CitedSeq (map PStr ids)) =
    Inr \<lparr>cl_valid = (all = []), cl_error_codes = dedup all, cl_cited_count = length ids,
      cl_claim_token_count = length T, cl_matched_token_count = m, cl_coverage = cov\<rparr>"
    using make_claim_report_Inr ids unfolding eq cov_def by blast
  have "cov < v_min_claim_token_coverage v \<longleftrightarrow> real m < v_min_claim_token_coverage v * real (card (set T))" if "T \<noteq> []"
    using that distinct_card [OF dT] by (simp add: cov_def divide_less_eq)
  then have "all = [] \<longleftrightarrow> ids \<noteq> [] \<and> distinct ids \<and> set ids \<subseteq> set (citation_ids b) \<and> T \<noteq> [] \<and>
      v_min_claim_token_coverage v * card (set T) \<le> m"
    using citation_errors_Nil [OF acc, of ids] by (auto simp: all_def errs_def)
  then show ?thesis using r mT by (simp add: T_def)
qed

section \<open>Examples\<close>

definition sha_example :: "payload \<Rightarrow> string" where
  "sha_example p = replicate 64 (CHR ''0'')"

definition scope_example :: evidence_scope where
  "scope_example = \<lparr>es_tenant_id = ''t'', es_workspace_id = ''w'', es_collection_id = ''c''\<rparr>"

definition candidate_example :: candidate where
  "candidate_example = CMapping
     [(''tenant_id'', PStr ''t''), (''workspace_id'', PStr ''w''), (''collection_id'', PStr ''c''),
      (''document_id'', PStr ''d''), (''chunk_id'', PStr ''k''), (''version'', PStr ''1''),
      (''document_filename'', PStr ''f''), (''checksum'', PStr ''x''), (''text'', PStr '' dog fever ''),
      (''page'', PInt 3), (''score'', PInt 1)]"

definition data_example :: evidence_data where
  "data_example = \<lparr>ev_tenant_id = ''t'', ev_workspace_id = ''w'', ev_collection_id = ''c'', ev_document_id = ''d'',
     ev_document_version = ''1'', ev_chunk_id = ''k'', ev_source = ''f'', ev_page_start = Some 3, ev_page_end = None,
     ev_section = None, ev_checksum = ''x'', ev_text = ''dog fever'', ev_retrieval_score = 1, ev_reranking_score = 0\<rparr>"

definition evidence_example :: evidence where
  "evidence_example = evidence_data.extend data_example \<lparr>evidence_id = server_evidence_id sha_example data_example\<rparr>"

definition bundle_example :: evidence_bundle where
  "bundle_example =
     \<lparr>bundle_id = bundle_digest_id sha_example ''t'' ''w'' ''c'' ''q'' [evidence_example], eb_tenant_id = ''t'',
      eb_workspace_id = ''w'', eb_collection_id = ''c'', eb_query = ''q'', eb_evidence = [evidence_example],
      eb_citation_map = expected_map [evidence_id evidence_example]\<rparr>"

lemma hexdigest_example: "hexdigest sha_example"
  by (simp add: hexdigest_def sha_example_def hex_digit_def char_defs list_all_iff)

lemma token_ok_single: "alnum_ascii c \<Longrightarrow> token_ok [c]"
  by (auto simp: token_ok_def EVIDENCE_TOKEN_def stripped_def char_defs Let_def)

lemma token_examples [simp]:
  "token_ok ''t''" "token_ok ''w''" "token_ok ''c''" "token_ok ''d''" "token_ok ''k''" "token_ok ''1''"
  by (rule token_ok_single; simp add: char_defs)+

abbreviation raw_example :: raw_evidence where
  "raw_example \<equiv> raw_candidate scope_example (PStr ''1'')
     (case candidate_mapping candidate_example of None \<Rightarrow> [] | Some d \<Rightarrow> d)"

lemmas example_defs = candidate_example_def scope_example_def raw_candidate_def candidate_value_def field_def

lemma strip_examples [simp]: "strip '' dog fever '' = ''dog fever''" "strip ''f'' = ''f''" "strip ''x'' = ''x''" "strip ''q'' = ''q''"
    "strip ''d'' = ''d''" "strip ''k'' = ''k''" "strip ''1'' = ''1''"
  by (simp_all add: strip_def lstrip_def rstrip_def char_defs)

lemma issue_raw_example: "evidence_issue sha_example raw_example = Inr evidence_example"
  unfolding evidence_issue_Inr [OF hexdigest_example]
  by (rule exI [where x = data_example])
     (simp add: example_defs normalize_evidence_def data_example_def evidence_example_def pages_ordered_def
        bounded_text_def optional_text_def page_value_def finite_score_def float_overflows_def
        MAX_SOURCE_CHARS_def MAX_TEXT_CHARS_def)

lemma issue_example:
  "issue sha_example default_validator candidate_example (ScopeObj scope_example) None None = Inr evidence_example"
  using issue_raw_example
  by (simp add: issue_def default_validator_def resolve_authoritative_def scope_values_def scope_matches_def
      example_defs candidate_version_def nonblank_def excerpt_ok_def MAX_TEXT_CHARS_def)

lemma build_example:
  "build_bundle sha_example default_validator (PStr ''q'') [candidate_example] (ScopeObj scope_example) None =
     Inr bundle_example"
proof -
  have lim: "(0::int) < v_max_bundle_items default_validator" by (simp add: default_validator_def)
  have ev: "ev_tenant_id evidence_example = ''t''" "ev_workspace_id evidence_example = ''w''"
    "ev_collection_id evidence_example = ''c''"
    by (simp_all add: evidence_example_def data_example_def evidence_data.defs)
  have q: "bounded_text ''query'' MAX_QUERY_CHARS True (PStr ''q'') = Inr ''q''"
    by (simp add: bounded_text_def MAX_QUERY_CHARS_def)
  have "build_from_scope sha_example scope_example (PStr ''q'') [Item evidence_example] = Inr bundle_example"
    using items_of_Item [of "[evidence_example]"]
    by (simp add: build_from_scope_def bundle_build_def scope_example_def q bundle_model_validate_def ev
        bundle_digest_id_ok [OF hexdigest_example] expected_map_def dict_eq_def bundle_example_def Let_def)
  then show ?thesis using lim by (simp add: build_bundle_def issue_example)
qed

theorem issued_evidence_tamper_evident_witness:
  "accepted (validate_evidence sha_example (Some evidence_example) None) \<and>
   evidence_payload (evidence_example\<lparr>ev_text := ''cat''\<rparr>) \<noteq> evidence_payload evidence_example"
  using issued_evidence_tamper_evident [OF hexdigest_example issue_raw_example]
  by (elim conjE allE [of _ "evidence_example\<lparr>ev_text := ''cat''\<rparr>"]) (simp add: evidence_example_def data_example_def evidence_data.defs)

theorem built_bundle_accepted_witness:
  "er_valid (case validate_bundle sha_example (Some bundle_example) (Some (ScopeObj scope_example)) of
     Inr r \<Rightarrow> r | Inl e \<Rightarrow> \<lparr>er_valid = False, er_error_codes = [], er_evidence_count = 0, er_bundle_id = None\<rparr>)"
  using built_bundle_accepted [OF hexdigest_example _ build_example]
  by (simp add: scope_ok_def scope_example_def)

lemma bundle_example_accepted: "accepted (validate_bundle sha_example (Some bundle_example) None)"
proof -
  have "scope_arg_ok (ScopeObj scope_example)" by (simp add: scope_ok_def scope_example_def)
  then obtain s where "bundle_ok sha_example s bundle_example"
    using build_bundle_ok [OF hexdigest_example _ build_example] by blast
  then show ?thesis using bundle_ok_report [of sha_example s bundle_example None] by (simp add: accepted_def)
qed

theorem citations_exact_witness:
  "\<exists>codes. validate_citations sha_example (Some bundle_example) (CitedSeq [PStr ''ev_1'']) =
    Inr \<lparr>cr_valid = False, cr_error_codes = codes, cr_cited_count = 1, cr_resolved_count = 0\<rparr>"
  using citations_exact [OF bundle_example_accepted, of "[''ev_1'']"]
  by (simp add: bundle_example_def citation_ids_def evidence_example_def evidence_data.defs server_evidence_id_def
      sha_example_def numeral_eq_Suc)

lemma token_list_examples:
  "meaningful_tokens ''fever'' = [''fever'']" "meaningful_tokens ''dog fever'' = [''dog'', ''fever'']"
  by (simp_all add: meaningful_tokens_def casefold_def STOP_WORDS_def char_defs)

theorem claim_support_exact_witness:
  "\<exists>r. validate_claim_support sha_example default_validator (PStr ''fever'') (Some bundle_example)
     (CitedSeq [PStr (evidence_id evidence_example)]) = Inr r \<and> cl_valid r"
proof -
  have str: "strip ''fever'' = ''fever''" by (simp add: strip_def lstrip_def rstrip_def char_defs)
  have "ev_text evidence_example = ''dog fever''"
    by (simp add: evidence_example_def data_example_def evidence_data.defs)
  then have w: "cited_words bundle_example [evidence_id evidence_example] = {''dog'', ''fever''}"
    by (simp add: cited_words_def bundle_example_def token_list_examples)
  moreover have "citation_ids bundle_example = [evidence_id evidence_example]"
    by (simp add: citation_ids_def bundle_example_def)
  ultimately show ?thesis
    using claim_support_exact [OF bundle_example_accepted, of "[evidence_id evidence_example]" "''fever''" default_validator]
    by (auto simp: str token_list_examples default_validator_def MAX_TEXT_CHARS_def)
qed

end
