(* ===== verification/Decision.thy ===== *)
theory Decision
  imports EvidenceCheck
begin

text \<open>
  The decision layer (\<open>packages/decision/src/rick_decision/contracts.py\<close> and
  \<open>layer.py\<close>): the contracts with their validators, and the deterministic \<open>decide\<close>.
  A constructor takes the values as the caller supplies them and returns the validated record or
  the exception; enumerations and Booleans are typed in strict mode, so they are typed here.
\<close>

section \<open>Contracts\<close>

datatype decision_action = ANSWER | RETRIEVE_AGAIN | ASK_FOR_CLARIFICATION | ABSTAIN | ESCALATE

datatype domain_risk = RISK_UNKNOWN | LOW | MEDIUM | HIGH | CRITICAL

datatype intent_clarity = CLARITY_UNKNOWN | CLEAR | AMBIGUOUS | UNSUPPORTED

definition SAFE_CODE :: regex where
  "SAFE_CODE = anchored (name_pattern lower_c (\<lambda>c. lower_c c \<or> digit_c c \<or> c = CHR ''_'') 63)"

definition bounded_signal :: "string \<Rightarrow> pyval \<Rightarrow> evidence_error + real" where
  "bounded_signal name value =
     (if \<not> is_number value then Inl (ValueError (name @ '' must be numeric''))
      else if float_overflows value then Inl OverflowError
      else case finite_number value of
        None \<Rightarrow> Inl (ValueError (name @ '' must be finite and between zero and one''))
      | Some x \<Rightarrow>
          if \<not> (0 \<le> x \<and> x \<le> 1) then Inl (ValueError (name @ '' must be finite and between zero and one''))
          else Inr x)"

definition safe_code :: "string \<Rightarrow> pyval \<Rightarrow> evidence_error + string" where
  "safe_code name value =
     (case value of
        PStr s \<Rightarrow>
          (let t = strip s in
           if \<not> re_fullmatch SAFE_CODE t then Inl (ValueError (name @ '' has an invalid format'')) else Inr t)
      | _ \<Rightarrow> Inl (ValueError (name @ '' must be a string'')))"

text \<open>A strict integer field with bounds, and an optional field.\<close>

definition int_field :: "int \<Rightarrow> int \<Rightarrow> pyval \<Rightarrow> evidence_error + int" where
  "int_field lo hi value =
     (case value of PInt n \<Rightarrow> if lo \<le> n \<and> n \<le> hi then Inr n else Inl ValidationError | _ \<Rightarrow> Inl ValidationError)"

definition optional_field :: "(pyval \<Rightarrow> evidence_error + 'a) \<Rightarrow> pyval \<Rightarrow> evidence_error + 'a option" where
  "optional_field f value = (if value = PNone then Inr None else rbind (f value) (\<lambda>x. Inr (Some x)))"

text \<open>
  Constructing a model: an \<open>OverflowError\<close> of a signal leaves the validation, every other
  failure is reported as one \<open>ValidationError\<close>.
\<close>

definition as_model :: "pyval list \<Rightarrow> evidence_error + 'a \<Rightarrow> evidence_error + 'a" where
  "as_model signals m =
     (if list_ex float_overflows signals then Inl OverflowError
      else case m of Inl e \<Rightarrow> Inl ValidationError | Inr x \<Rightarrow> Inr x)"

record user_intent =
  ui_intent_code :: string
  ui_clarity :: intent_clarity

definition make_user_intent :: "pyval \<Rightarrow> intent_clarity \<Rightarrow> evidence_error + user_intent" where
  "make_user_intent code clarity =
     as_model [] (rbind (safe_code ''intent_code'' code) (\<lambda>c. Inr \<lparr>ui_intent_code = c, ui_clarity = clarity\<rparr>))"

datatype support_status = PASS | FAIL | INCONCLUSIVE | NOT_RUN

record support_metrics =
  sm_status :: support_status
  sm_citation_precision :: "real option"
  sm_citation_recall :: "real option"
  sm_citation_completeness :: "real option"
  sm_unsupported_claim_rate :: "real option"
  sm_faithfulness :: "real option"
  sm_evaluated_claims :: int
  sm_source :: string

definition make_support_metrics ::
  "support_status \<Rightarrow> pyval \<Rightarrow> pyval \<Rightarrow> pyval \<Rightarrow> pyval \<Rightarrow> pyval \<Rightarrow> pyval \<Rightarrow> pyval \<Rightarrow> evidence_error + support_metrics" where
  "make_support_metrics status p r c u f n s =
     as_model [p, r, c, u, f]
       (rbind (optional_field (bounded_signal ''citation_precision'') p) (\<lambda>p'.
        rbind (optional_field (bounded_signal ''citation_recall'') r) (\<lambda>r'.
        rbind (optional_field (bounded_signal ''citation_completeness'') c) (\<lambda>c'.
        rbind (optional_field (bounded_signal ''unsupported_claim_rate'') u) (\<lambda>u'.
        rbind (optional_field (bounded_signal ''faithfulness'') f) (\<lambda>f'.
        rbind (int_field 0 10000 n) (\<lambda>n'.
        rbind (safe_code ''source'' s) (\<lambda>s'.
          Inr \<lparr>sm_status = status, sm_citation_precision = p', sm_citation_recall = r',
               sm_citation_completeness = c', sm_unsupported_claim_rate = u', sm_faithfulness = f',
               sm_evaluated_claims = n', sm_source = s'\<rparr>))))))))"

record decision_policy =
  dp_min_evidence_count :: int
  dp_min_retrieval_quality :: real
  dp_min_citation_support :: real
  dp_require_citation_support_metrics :: bool
  dp_min_citation_precision :: real
  dp_min_citation_recall :: real
  dp_min_citation_completeness :: real
  dp_max_unsupported_claim_rate :: real
  dp_min_faithfulness :: real
  dp_require_faithfulness :: bool
  dp_required_citation_support_source :: "string option"
  dp_min_provider_confidence_signal :: real
  dp_max_retrieval_attempts :: int
  dp_answerable_risk_levels :: "domain_risk list"

record raw_policy =
  rp_min_evidence_count :: pyval
  rp_min_retrieval_quality :: pyval
  rp_min_citation_support :: pyval
  rp_require_citation_support_metrics :: bool
  rp_min_citation_precision :: pyval
  rp_min_citation_recall :: pyval
  rp_min_citation_completeness :: pyval
  rp_max_unsupported_claim_rate :: pyval
  rp_min_faithfulness :: pyval
  rp_require_faithfulness :: bool
  rp_required_citation_support_source :: pyval
  rp_min_provider_confidence_signal :: pyval
  rp_max_retrieval_attempts :: pyval
  rp_answerable_risk_levels :: "domain_risk option list option"
    \<comment> \<open>no list or tuple is \<open>None\<close>; an element that is no risk is \<open>None\<close>\<close>

definition normalize_risk_levels :: "domain_risk option list option \<Rightarrow> evidence_error + domain_risk list" where
  "normalize_risk_levels value =
     (case value of
        None \<Rightarrow> Inl (ValueError ''answerable_risk_levels must be a sequence'')
      | Some xs \<Rightarrow> if list_ex (\<lambda>x. x = None) xs then Inl ValidationError
                    else Inr (concat (map (\<lambda>x. case x of None \<Rightarrow> [] | Some r \<Rightarrow> [r]) xs)))"

definition make_policy :: "raw_policy \<Rightarrow> evidence_error + decision_policy" where
  "make_policy r =
     as_model [rp_min_retrieval_quality r, rp_min_citation_support r, rp_min_citation_precision r,
               rp_min_citation_recall r, rp_min_citation_completeness r, rp_max_unsupported_claim_rate r,
               rp_min_faithfulness r, rp_min_provider_confidence_signal r]
       (rbind (int_field 1 100 (rp_min_evidence_count r)) (\<lambda>a.
        rbind (bounded_signal ''min_retrieval_quality'' (rp_min_retrieval_quality r)) (\<lambda>b.
        rbind (bounded_signal ''min_citation_support'' (rp_min_citation_support r)) (\<lambda>c.
        rbind (bounded_signal ''min_citation_precision'' (rp_min_citation_precision r)) (\<lambda>d.
        rbind (bounded_signal ''min_citation_recall'' (rp_min_citation_recall r)) (\<lambda>e.
        rbind (bounded_signal ''min_citation_completeness'' (rp_min_citation_completeness r)) (\<lambda>f.
        rbind (bounded_signal ''max_unsupported_claim_rate'' (rp_max_unsupported_claim_rate r)) (\<lambda>g.
        rbind (bounded_signal ''min_faithfulness'' (rp_min_faithfulness r)) (\<lambda>h.
        rbind (optional_field (safe_code ''required_citation_support_source'')
                (rp_required_citation_support_source r)) (\<lambda>i.
        rbind (bounded_signal ''min_provider_confidence_signal'' (rp_min_provider_confidence_signal r)) (\<lambda>j.
        rbind (int_field 0 10 (rp_max_retrieval_attempts r)) (\<lambda>k.
        rbind (normalize_risk_levels (rp_answerable_risk_levels r)) (\<lambda>l.
          Inr \<lparr>dp_min_evidence_count = a, dp_min_retrieval_quality = b, dp_min_citation_support = c,
               dp_require_citation_support_metrics = rp_require_citation_support_metrics r,
               dp_min_citation_precision = d, dp_min_citation_recall = e, dp_min_citation_completeness = f,
               dp_max_unsupported_claim_rate = g, dp_min_faithfulness = h,
               dp_require_faithfulness = rp_require_faithfulness r,
               dp_required_citation_support_source = i, dp_min_provider_confidence_signal = j,
               dp_max_retrieval_attempts = k, dp_answerable_risk_levels = l\<rparr>)))))))))))))"

definition default_policy :: raw_policy where
  "default_policy =
     \<lparr>rp_min_evidence_count = PInt 1, rp_min_retrieval_quality = PFloat (Fin (65 / 100)),
      rp_min_citation_support = PFloat (Fin (80 / 100)), rp_require_citation_support_metrics = False,
      rp_min_citation_precision = PFloat (Fin (80 / 100)), rp_min_citation_recall = PFloat (Fin (80 / 100)),
      rp_min_citation_completeness = PFloat (Fin (80 / 100)), rp_max_unsupported_claim_rate = PFloat (Fin 0),
      rp_min_faithfulness = PFloat (Fin (80 / 100)), rp_require_faithfulness = False,
      rp_required_citation_support_source = PNone,
      rp_min_provider_confidence_signal = PFloat (Fin (60 / 100)), rp_max_retrieval_attempts = PInt 1,
      rp_answerable_risk_levels = Some [Some LOW]\<rparr>"

record decision_input =
  di_evidence_bundle :: "evidence_bundle option"
  di_tenant_id :: "string option"
  di_workspace_id :: "string option"
  di_collection_id :: "string option"
  di_retrieval_quality :: real
  di_evidence_count :: int
  di_citation_support :: real
  di_citation_support_metrics :: "support_metrics option"
  di_provider_confidence_signal :: "real option"
  di_domain_risk :: domain_risk
  di_user_intent :: user_intent
  di_policy :: decision_policy
  di_retrieval_attempt :: int
  di_retrieval_available :: bool
  di_integrity_ok :: bool
  di_policy_allows_answer :: bool
  di_human_review_required :: bool
  di_cited_evidence_ids :: "string list option"

record raw_input =
  ri_evidence_bundle :: "evidence_bundle option"
  ri_tenant_id :: pyval
  ri_workspace_id :: pyval
  ri_collection_id :: pyval
  ri_retrieval_quality :: pyval
  ri_evidence_count :: pyval
  ri_citation_support :: pyval
  ri_citation_support_metrics :: "support_metrics option"
  ri_provider_confidence_signal :: pyval
  ri_domain_risk :: domain_risk
  ri_user_intent :: user_intent
  ri_policy :: decision_policy
  ri_retrieval_attempt :: pyval
  ri_retrieval_available :: bool
  ri_integrity_ok :: bool
  ri_policy_allows_answer :: bool
  ri_human_review_required :: bool
  ri_cited_evidence_ids :: "cited option"

definition short_text :: "pyval \<Rightarrow> evidence_error + string" where
  "short_text value =
     (case value of PStr s \<Rightarrow> if 1 \<le> length s \<and> length s \<le> 128 then Inr s else Inl ValidationError
      | _ \<Rightarrow> Inl ValidationError)"

definition normalize_citation_ids :: "cited option \<Rightarrow> evidence_error + string list option" where
  "normalize_citation_ids value =
     (case value of
        None \<Rightarrow> Inr None
      | Some (CitedSeq vs) \<Rightarrow>
          if list_ex (\<lambda>v. \<not> is_str v) vs then Inl ValidationError
          else Inr (Some (cited_elements (CitedSeq vs)))
      | Some _ \<Rightarrow> Inl (ValueError ''cited_evidence_ids must be a sequence''))"

definition optional_pyval :: "string option \<Rightarrow> pyval" where
  "optional_pyval x = (case x of None \<Rightarrow> PNone | Some s \<Rightarrow> PStr s)"

definition request_scope :: "decision_input \<Rightarrow> evidence_error + evidence_scope option" where
  "request_scope d =
     (if di_tenant_id d = None then Inr None
      else rbind (make_evidence_scope (optional_pyval (di_tenant_id d)) (optional_pyval (di_workspace_id d))
                    (optional_pyval (di_collection_id d))) (\<lambda>s. Inr (Some s)))"

definition validate_scope_and_bundle_count :: "decision_input \<Rightarrow> evidence_error + decision_input" where
  "validate_scope_and_bundle_count d =
     (let given = [di_tenant_id d, di_workspace_id d, di_collection_id d] in
      if list_ex (\<lambda>x. x \<noteq> None) given \<and> \<not> list_all (\<lambda>x. x \<noteq> None) given
      then Inl (ValueError ''decision scope must include tenant, workspace, and collection'')
      else case di_evidence_bundle d of
        None \<Rightarrow> Inr d
      | Some b \<Rightarrow>
          if di_evidence_count d \<noteq> int (length (eb_evidence b))
          then Inl (ValueError ''evidence_count must match evidence_bundle'')
          else if list_all (\<lambda>x. x \<noteq> None) given then
            rbind (request_scope d) (\<lambda>expected.
            rbind (bundle_scope b) (\<lambda>own.
              if Some own \<noteq> expected then Inl (ValueError ''decision scope does not match evidence_bundle'')
              else Inr d))
          else Inr d)"

definition make_decision_input :: "raw_input \<Rightarrow> evidence_error + decision_input" where
  "make_decision_input r =
     as_model [ri_retrieval_quality r, ri_citation_support r, ri_provider_confidence_signal r]
       (rbind (optional_field short_text (ri_tenant_id r)) (\<lambda>t.
        rbind (optional_field short_text (ri_workspace_id r)) (\<lambda>w.
        rbind (optional_field short_text (ri_collection_id r)) (\<lambda>c.
        rbind (bounded_signal ''retrieval_quality'' (ri_retrieval_quality r)) (\<lambda>q.
        rbind (int_field 0 100 (ri_evidence_count r)) (\<lambda>n.
        rbind (bounded_signal ''citation_support'' (ri_citation_support r)) (\<lambda>s.
        rbind (optional_field (bounded_signal ''provider_confidence_signal'') (ri_provider_confidence_signal r)) (\<lambda>p.
        rbind (int_field 0 100 (ri_retrieval_attempt r)) (\<lambda>a.
        rbind (normalize_citation_ids (ri_cited_evidence_ids r)) (\<lambda>ids.
          validate_scope_and_bundle_count
            \<lparr>di_evidence_bundle = ri_evidence_bundle r, di_tenant_id = t, di_workspace_id = w, di_collection_id = c,
             di_retrieval_quality = q, di_evidence_count = n, di_citation_support = s,
             di_citation_support_metrics = ri_citation_support_metrics r, di_provider_confidence_signal = p,
             di_domain_risk = ri_domain_risk r, di_user_intent = ri_user_intent r, di_policy = ri_policy r,
             di_retrieval_attempt = a, di_retrieval_available = ri_retrieval_available r,
             di_integrity_ok = ri_integrity_ok r, di_policy_allows_answer = ri_policy_allows_answer r,
             di_human_review_required = ri_human_review_required r, di_cited_evidence_ids = ids\<rparr>))))))))))"

record decision =
  d_action :: decision_action
  d_reason_code :: string
  d_message :: string
  d_evidence_bundle_id :: "string option"
  d_retrieval_attempt :: int
  d_retry_allowed :: bool
  d_requires_clarification :: bool
  d_requires_human_review :: bool

definition action_flags_ok :: "decision \<Rightarrow> bool" where
  "action_flags_ok d =
     (d_retry_allowed d = (d_action d = RETRIEVE_AGAIN) \<and>
      d_requires_clarification d = (d_action d = ASK_FOR_CLARIFICATION) \<and>
      d_requires_human_review d = (d_action d = ESCALATE) \<and>
      (d_action d = ANSWER \<longrightarrow> d_evidence_bundle_id d \<noteq> None \<and> d_evidence_bundle_id d \<noteq> Some []))"

definition make_decision :: "decision \<Rightarrow> evidence_error + decision" where
  "make_decision d =
     as_model []
       (rbind (safe_code ''reason_code'' (PStr (d_reason_code d))) (\<lambda>c.
        if length c > 64 \<or> d_message d = [] \<or> length (d_message d) > 512 \<or>
           d_retrieval_attempt d < 0 \<or> d_retrieval_attempt d > 100 then Inl ValidationError
        else if \<not> action_flags_ok d then Inl ValidationError
        else Inr (d\<lparr>d_reason_code := c\<rparr>)))"

section \<open>The layer\<close>

fun MESSAGES :: "decision_action \<Rightarrow> string" where
  "MESSAGES ANSWER = ''The available evidence passed the configured grounding checks.''"
| "MESSAGES RETRIEVE_AGAIN =
     ''The available evidence did not pass grounding checks; retrieve authorized evidence again.''"
| "MESSAGES ASK_FOR_CLARIFICATION = ''Please clarify the request before a grounded answer is generated.''"
| "MESSAGES ABSTAIN = ''The available evidence is insufficient for a grounded answer.''"
| "MESSAGES ESCALATE = ''This request requires additional review before an answer is generated.''"

definition decision_make ::
  "decision_input \<Rightarrow> decision_action \<Rightarrow> string \<Rightarrow> string option \<Rightarrow> evidence_error + decision" where
  "decision_make d action reason bid =
     make_decision
       \<lparr>d_action = action, d_reason_code = reason, d_message = MESSAGES action, d_evidence_bundle_id = bid,
        d_retrieval_attempt = di_retrieval_attempt d, d_retry_allowed = (action = RETRIEVE_AGAIN),
        d_requires_clarification = (action = ASK_FOR_CLARIFICATION),
        d_requires_human_review = (action = ESCALATE)\<rparr>"

definition retry_or_abstain :: "decision_input \<Rightarrow> string \<Rightarrow> evidence_error + decision" where
  "retry_or_abstain d reason =
     (if di_retrieval_available d \<and> di_retrieval_attempt d < dp_max_retrieval_attempts (di_policy d)
      then decision_make d RETRIEVE_AGAIN reason None
      else decision_make d ABSTAIN
             (if length reason \<le> 54 then reason @ ''_exhausted'' else ''evidence_insufficient'') None)"

text \<open>The loop over \<open>checks\<close>.\<close>

fun check_minimums :: "(real option \<times> real \<times> string) list \<Rightarrow> string option" where
  "check_minimums [] = None"
| "check_minimums ((observed, minimum, reason) # rest) =
     (case observed of
        None \<Rightarrow> Some ''citation_support_metrics_incomplete''
      | Some x \<Rightarrow> if x < minimum then Some reason else check_minimums rest)"

definition citation_support_failure :: "decision_input \<Rightarrow> string option" where
  "citation_support_failure d =
     (let policy = di_policy d in
      case di_citation_support_metrics d of
        None \<Rightarrow>
          if dp_require_citation_support_metrics policy then Some ''citation_support_metrics_missing''
          else if di_citation_support d < dp_min_citation_support policy
          then Some ''citation_support_below_minimum'' else None
      | Some metrics \<Rightarrow>
          if sm_status metrics \<noteq> PASS then Some ''citation_support_metrics_not_pass''
          else if sm_evaluated_claims metrics < 1 then Some ''citation_support_metrics_empty''
          else if dp_required_citation_support_source policy \<noteq> None \<and>
                  dp_required_citation_support_source policy \<noteq> Some (sm_source metrics)
          then Some ''citation_support_source_invalid''
          else case check_minimums
              [(sm_citation_precision metrics, dp_min_citation_precision policy, ''citation_precision_below_minimum''),
               (sm_citation_recall metrics, dp_min_citation_recall policy, ''citation_recall_below_minimum''),
               (sm_citation_completeness metrics, dp_min_citation_completeness policy,
                  ''citation_completeness_below_minimum'')] of
            Some reason \<Rightarrow> Some reason
          | None \<Rightarrow>
              (case sm_unsupported_claim_rate metrics of
                 None \<Rightarrow> Some ''citation_support_metrics_incomplete''
               | Some unsupported \<Rightarrow>
                   if unsupported > dp_max_unsupported_claim_rate policy
                   then Some ''unsupported_claim_rate_above_maximum''
                   else (case sm_faithfulness metrics of
                           None \<Rightarrow> if dp_require_faithfulness policy then Some ''citation_support_metrics_incomplete'' else None
                         | Some f \<Rightarrow> if f < dp_min_faithfulness policy then Some ''faithfulness_below_minimum'' else None)))"

text \<open>The first block of \<open>decide\<close> (integrity of the input and of the bundle): whether it escalates.\<close>

definition integrity_gate ::
  "(payload \<Rightarrow> string) \<Rightarrow> decision_input \<Rightarrow> evidence_error + (string \<times> string option) option" where
  "integrity_gate sha d =
     (let bundle = di_evidence_bundle d; bid = map_option bundle_id bundle in
      if \<not> di_integrity_ok d then Inr (Some (''input_integrity_failed'', bid))
      else case bundle of
        None \<Rightarrow> if di_evidence_count d > 0 then Inr (Some (''evidence_bundle_missing'', None)) else Inr None
      | Some b \<Rightarrow>
          rbind (request_scope d) (\<lambda>scope.
          rbind (validate_bundle sha bundle (map_option ScopeObj scope)) (\<lambda>report.
            Inr (if \<not> er_valid report then Some (''evidence_validation_failed'', bid) else None))))"

text \<open>The last block, with a bundle: citations, citation support and the provider's signal.\<close>

definition answer_gate :: "(payload \<Rightarrow> string) \<Rightarrow> decision_input \<Rightarrow> evidence_bundle \<Rightarrow> evidence_error + decision" where
  "answer_gate sha d b =
     (let bid = Some (bundle_id b); policy = di_policy d in
      rbind (case di_cited_evidence_ids d of
               None \<Rightarrow> Inr True
             | Some ids \<Rightarrow> rbind (validate_citations sha (Some b) (CitedSeq (map PStr ids))) (\<lambda>r. Inr (cr_valid r))) (\<lambda>cited.
      if \<not> cited then decision_make d ABSTAIN ''citation_registry_invalid'' bid
      else case citation_support_failure d of
        Some failure \<Rightarrow> retry_or_abstain d failure
      | None \<Rightarrow>
          (case di_provider_confidence_signal d of
             None \<Rightarrow> decision_make d ABSTAIN ''provider_signal_missing'' bid
           | Some x \<Rightarrow>
               if x < dp_min_provider_confidence_signal policy
               then decision_make d ABSTAIN ''provider_signal_below_minimum'' bid
               else decision_make d ANSWER ''grounded_evidence'' bid)))"

text \<open>The argument is \<open>None\<close> for an object that is no \<open>DecisionInput\<close>.\<close>

definition decide :: "(payload \<Rightarrow> string) \<Rightarrow> decision_input option \<Rightarrow> evidence_error + decision" where
  "decide sha arg =
     (case arg of
        None \<Rightarrow> Inl (TypeError ''decision_input must be DecisionInput'')
      | Some d \<Rightarrow>
          (let bid = map_option bundle_id (di_evidence_bundle d); policy = di_policy d;
               clarity = ui_clarity (di_user_intent d)
           in rbind (integrity_gate sha d) (\<lambda>escalation.
           case escalation of
             Some (reason, i) \<Rightarrow> decision_make d ESCALATE reason i
           | None \<Rightarrow>
               if di_human_review_required d then decision_make d ESCALATE ''human_review_required'' bid
               else if di_domain_risk d \<notin> set (dp_answerable_risk_levels policy) then
                 decision_make d ESCALATE
                   (if di_domain_risk d = RISK_UNKNOWN then ''risk_unknown'' else ''risk_requires_review'') bid
               else if clarity = CLARITY_UNKNOWN \<or> clarity = AMBIGUOUS then
                 decision_make d ASK_FOR_CLARIFICATION ''intent_needs_clarification'' bid
               else if clarity = UNSUPPORTED then decision_make d ABSTAIN ''intent_unsupported'' bid
               else if \<not> di_policy_allows_answer d then decision_make d ABSTAIN ''policy_denied'' bid
               else case di_evidence_bundle d of
                 None \<Rightarrow> retry_or_abstain d ''evidence_bundle_missing''
               | Some b \<Rightarrow>
                   if di_evidence_count d < dp_min_evidence_count policy
                   then retry_or_abstain d ''evidence_count_below_minimum''
                   else if di_retrieval_quality d < dp_min_retrieval_quality policy
                   then retry_or_abstain d ''retrieval_quality_below_minimum''
                   else answer_gate sha d b)))"

section \<open>Every decision the layer makes is well-formed\<close>

definition code_char :: "char \<Rightarrow> bool" where
  "code_char c = (lower_c c \<or> digit_c c \<or> c = CHR ''_'')"

definition code_ok :: "string \<Rightarrow> bool" where
  "code_ok r = (r \<noteq> [] \<and> lower_c (hd r) \<and> length r \<le> 64 \<and> list_all code_char r)"

lemma code_char_nonspace: "code_char c \<Longrightarrow> \<not> isspace_c c"
  by (auto simp: code_char_def char_defs Let_def)

lemma code_ok_stripped: "code_ok r \<Longrightarrow> strip r = r"
  by (rule strip_id) (auto simp: code_ok_def stripped_def list_all_iff dest: code_char_nonspace)

lemma code_ok_safe: "code_ok r \<Longrightarrow> safe_code n (PStr r) = Inr r"
  by (cases r) (auto simp: safe_code_def Let_def code_ok_stripped SAFE_CODE_def code_ok_def code_char_def [abs_def])

text \<open>The reason codes of the layer; every one is short enough for the suffix of an exhausted retry.\<close>

definition retry_reasons :: "string list" where
  "retry_reasons =
     [''evidence_bundle_missing'', ''evidence_count_below_minimum'', ''retrieval_quality_below_minimum'',
      ''citation_support_metrics_missing'', ''citation_support_below_minimum'',
      ''citation_support_metrics_not_pass'', ''citation_support_metrics_empty'',
      ''citation_support_source_invalid'', ''citation_support_metrics_incomplete'',
      ''citation_precision_below_minimum'', ''citation_recall_below_minimum'',
      ''citation_completeness_below_minimum'', ''unsupported_claim_rate_above_maximum'',
      ''faithfulness_below_minimum'']"

definition final_reasons :: "string list" where
  "final_reasons =
     [''input_integrity_failed'', ''evidence_bundle_missing'', ''evidence_validation_failed'',
      ''human_review_required'', ''risk_unknown'', ''risk_requires_review'', ''intent_needs_clarification'',
      ''intent_unsupported'', ''policy_denied'', ''citation_registry_invalid'', ''provider_signal_missing'',
      ''provider_signal_below_minimum'', ''grounded_evidence'']"

lemma reasons_ok: "list_all (\<lambda>r. code_ok r \<and> length r \<le> 54) (retry_reasons @ final_reasons)"
  by (simp add: retry_reasons_def final_reasons_def code_ok_def code_char_def char_defs)

lemma exhausted_ok: "code_ok r \<Longrightarrow> length r \<le> 54 \<Longrightarrow> code_ok (r @ ''_exhausted'')"
  by (simp add: code_ok_def code_char_def char_defs)

lemma reason_ok: "r \<in> set retry_reasons \<union> set final_reasons \<Longrightarrow> code_ok r \<and> length r \<le> 54"
  using reasons_ok by (auto simp: list_all_iff)

lemma citation_failure_reason: "citation_support_failure d = Some r \<Longrightarrow> r \<in> set retry_reasons"
  unfolding citation_support_failure_def retry_reasons_def Let_def
  by (auto split: option.split_asm if_split_asm)

definition decision_of :: "decision_input \<Rightarrow> decision_action \<Rightarrow> string \<Rightarrow> string option \<Rightarrow> decision" where
  "decision_of d action reason bid =
     \<lparr>d_action = action, d_reason_code = reason, d_message = MESSAGES action, d_evidence_bundle_id = bid,
      d_retrieval_attempt = di_retrieval_attempt d, d_retry_allowed = (action = RETRIEVE_AGAIN),
      d_requires_clarification = (action = ASK_FOR_CLARIFICATION), d_requires_human_review = (action = ESCALATE)\<rparr>"

definition input_attempt_ok :: "decision_input \<Rightarrow> bool" where
  "input_attempt_ok d = (0 \<le> di_retrieval_attempt d \<and> di_retrieval_attempt d \<le> 100)"

lemma MESSAGES_bounds: "MESSAGES a \<noteq> [] \<and> length (MESSAGES a) \<le> 512"
  by (cases a) simp_all

lemma decision_make_eq:
  assumes "input_attempt_ok d" and "code_ok r" and "a = ANSWER \<longrightarrow> (\<exists>i. bid = Some i \<and> i \<noteq> [])"
  shows "decision_make d a r bid = Inr (decision_of d a r bid)"
  using assms MESSAGES_bounds [of a]
  by (auto simp: decision_make_def make_decision_def as_model_def code_ok_safe input_attempt_ok_def action_flags_ok_def
      decision_of_def code_ok_def)

definition retry_outcome :: "decision_input \<Rightarrow> string \<Rightarrow> decision" where
  "retry_outcome d reason =
     (if di_retrieval_available d \<and> di_retrieval_attempt d < dp_max_retrieval_attempts (di_policy d)
      then decision_of d RETRIEVE_AGAIN reason None
      else decision_of d ABSTAIN (reason @ ''_exhausted'') None)"

lemma retry_or_abstain_eq:
  "input_attempt_ok d \<Longrightarrow> r \<in> set retry_reasons \<Longrightarrow> retry_or_abstain d r = Inr (retry_outcome d r)"
  using reason_ok [of r] exhausted_ok [of r]
  by (simp add: retry_or_abstain_def retry_outcome_def decision_make_eq)

lemma final_eq:
  "input_attempt_ok d \<Longrightarrow> r \<in> set final_reasons \<Longrightarrow> a \<noteq> ANSWER \<Longrightarrow>
     decision_make d a r bid = Inr (decision_of d a r bid)"
  using reason_ok [of r] by (simp add: decision_make_eq)

lemma decision_of_fields [simp]:
  "d_action (decision_of d a r i) = a" "d_reason_code (decision_of d a r i) = r"
  "d_evidence_bundle_id (decision_of d a r i) = i" "d_retrieval_attempt (decision_of d a r i) = di_retrieval_attempt d"
  "d_message (decision_of d a r i) = MESSAGES a"
  by (simp_all add: decision_of_def)

section \<open>The decision table\<close>

text \<open>
  An input as the server constructs it: the contract accepted it, its bundle (if any) was built
  by the evidence factory, and it cites at most a hundred items.
\<close>

definition input_ok :: "(payload \<Rightarrow> string) \<Rightarrow> decision_input \<Rightarrow> bool" where
  "input_ok sha d =
     ((\<exists>r. make_decision_input r = Inr d) \<and>
      (\<forall>b. di_evidence_bundle d = Some b \<longrightarrow> (\<exists>s. bundle_ok sha s b)))"

definition few_citations :: "decision_input \<Rightarrow> bool" where
  "few_citations d = (case di_cited_evidence_ids d of None \<Rightarrow> True | Some ids \<Rightarrow> length ids \<le> 100)"

lemma as_model_Inr [returns]: "as_model sg m = Inr x \<longleftrightarrow> \<not> list_ex float_overflows sg \<and> m = Inr x"
  by (auto simp: as_model_def split: sum.splits)

lemma validate_scope_same: "validate_scope_and_bundle_count d = Inr d' \<Longrightarrow> d' = d"
  by (auto simp: validate_scope_and_bundle_count_def rbind_Inr Let_def split: if_split_asm option.split_asm)

lemma make_decision_input_facts:
  assumes "make_decision_input r = Inr d"
  shows "input_attempt_ok d" and "validate_scope_and_bundle_count d = Inr d"
proof -
  obtain t w c q n s p a ids where a: "int_field 0 100 (ri_retrieval_attempt r) = Inr a"
    and v: "validate_scope_and_bundle_count
            \<lparr>di_evidence_bundle = ri_evidence_bundle r, di_tenant_id = t, di_workspace_id = w, di_collection_id = c,
             di_retrieval_quality = q, di_evidence_count = n, di_citation_support = s,
             di_citation_support_metrics = ri_citation_support_metrics r, di_provider_confidence_signal = p,
             di_domain_risk = ri_domain_risk r, di_user_intent = ri_user_intent r, di_policy = ri_policy r,
             di_retrieval_attempt = a, di_retrieval_available = ri_retrieval_available r,
             di_integrity_ok = ri_integrity_ok r, di_policy_allows_answer = ri_policy_allows_answer r,
             di_human_review_required = ri_human_review_required r, di_cited_evidence_ids = ids\<rparr> = Inr d"
    using assms unfolding make_decision_input_def by (simp only: returns) blast
  show "input_attempt_ok d"
    using validate_scope_same [OF v] a by (auto simp: input_attempt_ok_def int_field_def split: pyval.splits if_splits)
  show "validate_scope_and_bundle_count d = Inr d"
    using validate_scope_same [OF v] v by simp
qed

lemma input_scope:
  assumes "validate_scope_and_bundle_count d = Inr d" and "di_evidence_bundle d = Some b" and "bundle_scope b = Inr s"
  shows "request_scope d = Inr None \<or> request_scope d = Inr (Some s)"
  using assms
  by (auto simp: validate_scope_and_bundle_count_def Let_def rbind_Inr request_scope_def split: if_split_asm)

lemma integrity_gate_ok:
  assumes "input_ok sha d"
  shows "integrity_gate sha d =
    Inr (if \<not> di_integrity_ok d then Some (''input_integrity_failed'', map_option bundle_id (di_evidence_bundle d))
         else if di_evidence_bundle d = None \<and> di_evidence_count d > 0 then Some (''evidence_bundle_missing'', None)
         else None)"
proof (cases "di_evidence_bundle d")
  case (Some b)
  obtain s where s: "bundle_ok sha s b" using assms Some by (auto simp: input_ok_def)
  moreover obtain r where "make_decision_input r = Inr d" using assms by (auto simp: input_ok_def)
  ultimately have "request_scope d = Inr None \<or> request_scope d = Inr (Some s)"
    using input_scope [OF make_decision_input_facts(2) Some bundle_ok_scope] by blast
  then show ?thesis
    using Some bundle_ok_report [OF s, of None] bundle_ok_report [OF s, of "Some (ScopeObj s)"]
    by (auto simp: integrity_gate_def Let_def)
qed (simp add: integrity_gate_def)

text \<open>What an observed or declared citation support has to satisfy.\<close>

definition at_least :: "real option \<Rightarrow> real \<Rightarrow> bool" where
  "at_least x m = (\<exists>y. x = Some y \<and> m \<le> y)"

definition citation_support_ok :: "decision_input \<Rightarrow> bool" where
  "citation_support_ok d =
     (let p = di_policy d in
      case di_citation_support_metrics d of
        None \<Rightarrow> \<not> dp_require_citation_support_metrics p \<and> dp_min_citation_support p \<le> di_citation_support d
      | Some m \<Rightarrow>
          sm_status m = PASS \<and> 1 \<le> sm_evaluated_claims m \<and>
          (\<forall>source. dp_required_citation_support_source p = Some source \<longrightarrow> sm_source m = source) \<and>
          at_least (sm_citation_precision m) (dp_min_citation_precision p) \<and>
          at_least (sm_citation_recall m) (dp_min_citation_recall p) \<and>
          at_least (sm_citation_completeness m) (dp_min_citation_completeness p) \<and>
          (\<exists>u. sm_unsupported_claim_rate m = Some u \<and> u \<le> dp_max_unsupported_claim_rate p) \<and>
          (case sm_faithfulness m of None \<Rightarrow> \<not> dp_require_faithfulness p | Some f \<Rightarrow> dp_min_faithfulness p \<le> f))"

lemma check_minimums_None:
  "check_minimums cs = None \<longleftrightarrow> list_all (\<lambda>(x, m, r). at_least x m) cs"
  by (induction cs rule: check_minimums.induct) (auto simp: at_least_def split: option.splits)

lemma citation_support_failure_None: "citation_support_failure d = None \<longleftrightarrow> citation_support_ok d"
proof (cases "di_citation_support_metrics d")
  case None
  then show ?thesis by (auto simp: citation_support_failure_def citation_support_ok_def Let_def)
next
  case (Some m)
  have case_none: "(case x of None \<Rightarrow> y | Some r \<Rightarrow> Some r) = None \<longleftrightarrow> x = None \<and> y = None" for x y :: "string option"
    by (cases x) auto
  have if_none: "(if c then Some r else y) = None \<longleftrightarrow> \<not> c \<and> y = None" for c r and y :: "string option"
    by simp
  show ?thesis
    unfolding citation_support_failure_def citation_support_ok_def Let_def Some option.case
    by (simp only: if_none case_none check_minimums_None list.pred_inject prod.case)
       (cases "dp_required_citation_support_source (di_policy d)"; auto split: option.splits)
qed

text \<open>
  The specification: the gates in their documented order, each with the decision it makes; the
  first gate whose condition holds decides.
\<close>

definition citations_ok :: "decision_input \<Rightarrow> bool" where
  "citations_ok d =
     (case (di_cited_evidence_ids d, di_evidence_bundle d) of
        (Some ids, Some b) \<Rightarrow> ids \<noteq> [] \<and> distinct ids \<and> set ids \<subseteq> set (citation_ids b)
      | _ \<Rightarrow> True)"

definition gates :: "decision_input \<Rightarrow> (bool \<times> decision) list" where
  "gates d =
     (let bid = map_option bundle_id (di_evidence_bundle d); p = di_policy d; c = ui_clarity (di_user_intent d) in
      [(\<not> di_integrity_ok d, decision_of d ESCALATE ''input_integrity_failed'' bid),
       (di_evidence_bundle d = None \<and> di_evidence_count d > 0, decision_of d ESCALATE ''evidence_bundle_missing'' None),
       (di_human_review_required d, decision_of d ESCALATE ''human_review_required'' bid),
       (di_domain_risk d \<notin> set (dp_answerable_risk_levels p),
          decision_of d ESCALATE (if di_domain_risk d = RISK_UNKNOWN then ''risk_unknown'' else ''risk_requires_review'') bid),
       (c = CLARITY_UNKNOWN \<or> c = AMBIGUOUS, decision_of d ASK_FOR_CLARIFICATION ''intent_needs_clarification'' bid),
       (c = UNSUPPORTED, decision_of d ABSTAIN ''intent_unsupported'' bid),
       (\<not> di_policy_allows_answer d, decision_of d ABSTAIN ''policy_denied'' bid),
       (di_evidence_bundle d = None, retry_outcome d ''evidence_bundle_missing''),
       (di_evidence_count d < dp_min_evidence_count p, retry_outcome d ''evidence_count_below_minimum''),
       (di_retrieval_quality d < dp_min_retrieval_quality p, retry_outcome d ''retrieval_quality_below_minimum''),
       (\<not> citations_ok d, decision_of d ABSTAIN ''citation_registry_invalid'' bid),
       (\<not> citation_support_ok d,
          retry_outcome d (case citation_support_failure d of None \<Rightarrow> [] | Some r \<Rightarrow> r)),
       (di_provider_confidence_signal d = None, decision_of d ABSTAIN ''provider_signal_missing'' bid),
       (\<not> at_least (di_provider_confidence_signal d) (dp_min_provider_confidence_signal p),
          decision_of d ABSTAIN ''provider_signal_below_minimum'' bid)])"

definition spec_decision :: "decision_input \<Rightarrow> decision" where
  "spec_decision d =
     (case first_error (gates d) of
        Some r \<Rightarrow> r
      | None \<Rightarrow> decision_of d ANSWER ''grounded_evidence'' (map_option bundle_id (di_evidence_bundle d)))"

lemma bundle_ok_accepted: "bundle_ok sha s b \<Longrightarrow> accepted (validate_bundle sha (Some b) None)"
  using bundle_ok_report [of sha s b None] by (simp add: accepted_def)

lemma bundle_id_nonempty: "bundle_ok sha s b \<Longrightarrow> bundle_id b \<noteq> []"
  by (simp add: bundle_ok_def server_bundle_id_def bundle_digest_id_def)

lemma first_error_if: "first_error ((c, x) # cs) = (if c then Some x else first_error cs)"
  by (rule first_error.simps)

lemma case_if_option:
  "(case (if c then Some x else y) of Some r \<Rightarrow> f r | None \<Rightarrow> z) = (if c then f x else case y of Some r \<Rightarrow> f r | None \<Rightarrow> z)"
  by simp

lemma cited_gate:
  assumes "bundle_ok sha s b" and "few_citations d" and "di_evidence_bundle d = Some b"
  shows "(case di_cited_evidence_ids d of
               None \<Rightarrow> Inr True
             | Some ids \<Rightarrow> rbind (validate_citations sha (Some b) (CitedSeq (map PStr ids))) (\<lambda>r. Inr (cr_valid r))) =
    Inr (citations_ok d)"
  using assms(2,3) validate_citations_strings [OF bundle_ok_accepted [OF assms(1)]]
  by (cases "di_cited_evidence_ids d") (simp_all add: citations_ok_def few_citations_def)

lemma answer_gate_eq:
  assumes b: "bundle_ok sha s b" "di_evidence_bundle d = Some b" and c: "few_citations d" and a: "input_attempt_ok d"
  shows "answer_gate sha d b = Inr
    (if \<not> citations_ok d then decision_of d ABSTAIN ''citation_registry_invalid'' (Some (bundle_id b))
     else if \<not> citation_support_ok d then retry_outcome d (case citation_support_failure d of None \<Rightarrow> [] | Some r \<Rightarrow> r)
     else if di_provider_confidence_signal d = None then decision_of d ABSTAIN ''provider_signal_missing'' (Some (bundle_id b))
     else if \<not> at_least (di_provider_confidence_signal d) (dp_min_provider_confidence_signal (di_policy d))
     then decision_of d ABSTAIN ''provider_signal_below_minimum'' (Some (bundle_id b))
     else decision_of d ANSWER ''grounded_evidence'' (Some (bundle_id b)))"
proof -
  have fin: "decision_make d ABSTAIN r i = Inr (decision_of d ABSTAIN r i)" if "r \<in> set final_reasons" for r i
    using final_eq [OF a that] by simp
  have ans: "decision_make d ANSWER ''grounded_evidence'' (Some (bundle_id b)) =
      Inr (decision_of d ANSWER ''grounded_evidence'' (Some (bundle_id b)))"
    using reason_ok [of "''grounded_evidence''"] bundle_id_nonempty [OF b(1)] a
    by (intro decision_make_eq) (auto simp: final_reasons_def)
  have cs: "citation_support_ok d \<longleftrightarrow> citation_support_failure d = None"
    by (simp add: citation_support_failure_None)
  have rt: "retry_or_abstain d r = Inr (retry_outcome d r)" if "citation_support_failure d = Some r" for r
    using retry_or_abstain_eq [OF a] citation_failure_reason [OF that] by blast
  show ?thesis
    unfolding answer_gate_def Let_def cited_gate [OF b(1) c b(2)] rbind_simps cs
    by (auto simp: fin final_reasons_def ans rt at_least_def split: option.split)
qed

lemma decide_spec:
  assumes "input_ok sha d" and "few_citations d"
  shows "decide sha (Some d) = Inr (spec_decision d)"
proof -
  have a: "input_attempt_ok d" using assms(1) make_decision_input_facts(1) by (auto simp: input_ok_def)
  have esc: "decision_make d x r i = Inr (decision_of d x r i)" if "x \<noteq> ANSWER" "r \<in> set final_reasons" for x r i
    using final_eq [OF a] that by blast
  have retry: "retry_or_abstain d r = Inr (retry_outcome d r)" if "r \<in> set retry_reasons" for r
    using retry_or_abstain_eq [OF a that] .
  have spec: "spec_decision d = (let bid = map_option bundle_id (di_evidence_bundle d) in
      if \<not> di_integrity_ok d then decision_of d ESCALATE ''input_integrity_failed'' bid
      else if di_evidence_bundle d = None \<and> di_evidence_count d > 0
      then decision_of d ESCALATE ''evidence_bundle_missing'' None
      else case first_error (drop 2 (gates d)) of Some r \<Rightarrow> r | None \<Rightarrow> decision_of d ANSWER ''grounded_evidence'' bid)"
    by (simp add: spec_decision_def gates_def Let_def first_error_if case_if_option)
  show ?thesis
  proof (cases "di_evidence_bundle d")
    case None
    show ?thesis
      unfolding decide_def option.case Let_def integrity_gate_ok [OF assms(1)] rbind_simps spec gates_def
      using None by (simp add: esc retry final_reasons_def retry_reasons_def first_error_if split: prod.split)
  next
    case (Some b)
    then obtain s where b: "bundle_ok sha s b" using assms(1) by (auto simp: input_ok_def)
    show ?thesis
      unfolding decide_def option.case Let_def integrity_gate_ok [OF assms(1)] rbind_simps spec gates_def
      using Some answer_gate_eq [OF b Some assms(2) a]
      by (simp add: esc retry final_reasons_def retry_reasons_def first_error_if split: prod.split)
  qed
qed

text \<open>The decision layer implements its decision table: for every input the contract accepts, with
  a factory-built bundle and at most a hundred citations, \<open>decide\<close> returns (it raises
  nothing) the decision of the first gate that applies, in the documented order, and
  \<open>ANSWER\<close> with the identifier of the bundle when none applies.\<close>

theorem decide_refines_table:
  assumes "input_ok sha d" and "few_citations d"
  shows "decide sha (Some d) = Inr (spec_decision d)"
  using assms by (rule decide_spec)

text \<open>The conditions under which the layer may let an answer out.\<close>

definition grounded :: "decision_input \<Rightarrow> evidence_bundle \<Rightarrow> bool" where
  "grounded d b =
     (di_integrity_ok d \<and> di_evidence_bundle d = Some b \<and> \<not> di_human_review_required d \<and>
      di_domain_risk d \<in> set (dp_answerable_risk_levels (di_policy d)) \<and> ui_clarity (di_user_intent d) = CLEAR \<and>
      di_policy_allows_answer d \<and> dp_min_evidence_count (di_policy d) \<le> di_evidence_count d \<and>
      dp_min_retrieval_quality (di_policy d) \<le> di_retrieval_quality d \<and> citations_ok d \<and> citation_support_ok d \<and>
      at_least (di_provider_confidence_signal d) (dp_min_provider_confidence_signal (di_policy d)))"

lemma first_error_actions:
  "list_all (\<lambda>(c, x). P x) cs \<Longrightarrow> first_error cs = Some x \<Longrightarrow> P x"
  by (induction cs) (auto simp: first_error_if split: if_splits)

lemma retry_outcome_action: "d_action (retry_outcome d r) \<in> {RETRIEVE_AGAIN, ABSTAIN}"
  by (simp add: retry_outcome_def)

lemma retry_outcome_bound:
  "d_action (retry_outcome d r) = RETRIEVE_AGAIN \<Longrightarrow>
     di_retrieval_available d \<and> di_retrieval_attempt d < dp_max_retrieval_attempts (di_policy d)"
  by (simp add: retry_outcome_def split: if_splits)

lemma spec_answer: "d_action (spec_decision d) = ANSWER \<longleftrightarrow> (\<exists>b. grounded d b)"
proof -
  have "list_all (\<lambda>(c, x). d_action x \<noteq> ANSWER) (gates d)"
    using retry_outcome_action by (simp add: gates_def Let_def) (metis decision_action.distinct(1,5) insertE empty_iff)
  then have "d_action (spec_decision d) = ANSWER \<longleftrightarrow> first_error (gates d) = None"
    using first_error_actions [where P = "\<lambda>x. d_action x \<noteq> ANSWER"]
    by (auto simp: spec_decision_def split: option.splits)
  also have "\<dots> \<longleftrightarrow> (\<exists>b. grounded d b)"
    by (cases "ui_clarity (di_user_intent d)") (auto simp: gates_def Let_def grounded_def at_least_def)
  finally show ?thesis .
qed

lemma spec_retry:
  "d_action (spec_decision d) = RETRIEVE_AGAIN \<Longrightarrow>
     di_retrieval_available d \<and> di_retrieval_attempt d < dp_max_retrieval_attempts (di_policy d)"
proof -
  let ?P = "\<lambda>x. d_action x = RETRIEVE_AGAIN \<longrightarrow>
     di_retrieval_available d \<and> di_retrieval_attempt d < dp_max_retrieval_attempts (di_policy d)"
  have "list_all (\<lambda>(c, x). ?P x) (gates d)"
    using retry_outcome_bound by (simp add: gates_def Let_def)
  then show "d_action (spec_decision d) = RETRIEVE_AGAIN \<Longrightarrow>
     di_retrieval_available d \<and> di_retrieval_attempt d < dp_max_retrieval_attempts (di_policy d)"
    using first_error_actions [where P = ?P] by (auto simp: spec_decision_def split: option.splits)
qed

lemma spec_escalate:
  "d_action (spec_decision d) = ESCALATE \<longleftrightarrow>
     \<not> di_integrity_ok d \<or> (di_evidence_bundle d = None \<and> di_evidence_count d > 0) \<or> di_human_review_required d \<or>
     di_domain_risk d \<notin> set (dp_answerable_risk_levels (di_policy d))"
proof -
  have r: "d_action (retry_outcome d x) \<noteq> ESCALATE" for x by (simp add: retry_outcome_def)
  have "list_all (\<lambda>(c, x). d_action x \<noteq> ESCALATE) (drop 4 (gates d))"
    by (simp add: gates_def Let_def r)
  then have "first_error (drop 4 (gates d)) = Some x \<Longrightarrow> d_action x \<noteq> ESCALATE" for x
    by (rule first_error_actions)
  moreover have "gates d = take 4 (gates d) @ drop 4 (gates d)" by simp
  moreover have "first_error (gates d) = (case first_error (take 4 (gates d)) of Some x \<Rightarrow> Some x
      | None \<Rightarrow> first_error (drop 4 (gates d)))"
    by (simp add: gates_def Let_def first_error_if)
  moreover have "first_error (take 4 (gates d)) = None \<longleftrightarrow>
      di_integrity_ok d \<and> \<not> (di_evidence_bundle d = None \<and> di_evidence_count d > 0) \<and> \<not> di_human_review_required d \<and>
      di_domain_risk d \<in> set (dp_answerable_risk_levels (di_policy d))"
    by (auto simp: gates_def Let_def)
  moreover have "list_all (\<lambda>(c, x). d_action x = ESCALATE) (take 4 (gates d))"
    by (simp add: gates_def Let_def)
  then have "first_error (take 4 (gates d)) = Some x \<Longrightarrow> d_action x = ESCALATE" for x
    by (rule first_error_actions)
  ultimately show ?thesis
    unfolding spec_decision_def by (auto split: option.splits)
qed

text \<open>C11. What each action means: the layer answers if and only if every grounding condition holds;
  it escalates if and only if the input's integrity failed, the declared evidence has no
  bundle, human review is required or the risk is not answerable, whatever the other signals
  say; and it asks for another retrieval only while one is available and the attempt is below
  the policy's limit.\<close>

theorem decide_actions_exact:
  assumes "input_ok sha d" and "few_citations d"
  shows "\<exists>r. decide sha (Some d) = Inr r \<and>
    (d_action r = ANSWER \<longleftrightarrow> (\<exists>b. grounded d b)) \<and>
    (d_action r = ESCALATE \<longleftrightarrow>
       \<not> di_integrity_ok d \<or> (di_evidence_bundle d = None \<and> di_evidence_count d > 0) \<or>
       di_human_review_required d \<or> di_domain_risk d \<notin> set (dp_answerable_risk_levels (di_policy d))) \<and>
    (d_action r = RETRIEVE_AGAIN \<longrightarrow>
       di_retrieval_available d \<and> di_retrieval_attempt d < dp_max_retrieval_attempts (di_policy d))"
  using decide_spec [OF assms] spec_answer spec_escalate spec_retry by auto

section \<open>Well-formed results and too many citations\<close>

definition decision_wf :: "decision_input \<Rightarrow> decision \<Rightarrow> bool" where
  "decision_wf d r =
     (action_flags_ok r \<and> re_fullmatch SAFE_CODE (d_reason_code r) \<and> length (d_reason_code r) \<le> 64 \<and>
      d_message r = MESSAGES (d_action r) \<and> d_retrieval_attempt r = di_retrieval_attempt d)"

definition only_wf :: "decision_input \<Rightarrow> evidence_error + decision \<Rightarrow> bool" where
  "only_wf d m = (\<forall>r. m = Inr r \<longrightarrow> decision_wf d r)"

lemma only_wf_make: "only_wf d (decision_make d a r i)"
proof -
  have "safe_code n v = Inr c \<Longrightarrow> re_fullmatch SAFE_CODE c" for n v c
    by (auto simp: safe_code_def Let_def split: pyval.splits if_splits)
  then show ?thesis
    unfolding only_wf_def decision_make_def make_decision_def
    by (auto simp: as_model_Inr rbind_Inr decision_wf_def action_flags_ok_def split: if_splits)
qed

lemma only_wf_steps:
  "only_wf d (Inl e)"
  "(\<And>x. only_wf d (f x)) \<Longrightarrow> only_wf d (rbind q f)"
  "only_wf d m \<Longrightarrow> only_wf d m' \<Longrightarrow> only_wf d (if c then m else m')"
  "only_wf d m \<Longrightarrow> (\<And>x. only_wf d (g x)) \<Longrightarrow> only_wf d (case z of None \<Rightarrow> m | Some x \<Rightarrow> g x)"
  by (auto simp: only_wf_def rbind_Inr split: option.splits)

lemma only_wf_retry: "only_wf d (retry_or_abstain d r)"
  unfolding retry_or_abstain_def by (intro only_wf_steps only_wf_make)

lemma only_wf_answer: "only_wf d (answer_gate sha d b)"
  unfolding answer_gate_def Let_def by (intro only_wf_steps only_wf_make only_wf_retry)

lemma only_wf_decide: "only_wf d (decide sha (Some d))"
  unfolding decide_def option.case Let_def case_prod_beta
  by (intro only_wf_steps only_wf_make only_wf_retry only_wf_answer)

text \<open>Whatever \<open>decide\<close> returns, on any input, is a well-formed decision: the three flags agree
  with the action, an \<open>ANSWER\<close> carries a bundle identifier, the reason code has the safe
  format and at most 64 characters, the message is the fixed one of the action, and the attempt
  is the one of the input.\<close>

theorem decide_well_formed:
  assumes "decide sha (Some d) = Inr r"
  shows "action_flags_ok r \<and> re_fullmatch SAFE_CODE (d_reason_code r) \<and> length (d_reason_code r) \<le> 64 \<and>
    d_message r = MESSAGES (d_action r) \<and> d_retrieval_attempt r = di_retrieval_attempt d"
  using only_wf_decide [of d sha] assms by (simp add: only_wf_def decision_wf_def)

text \<open>C37. The layer does not always return: an accepted input that cites more than a hundred
  identifiers and passes every gate before the citation check makes \<open>decide\<close> raise the
  \<open>ValidationError\<close> of the citation report, although the input's contract sets no limit.\<close>

theorem decide_many_citations_raises:
  assumes "input_ok sha d" and "di_cited_evidence_ids d = Some ids" and "length ids > 100"
    and "first_error (take 10 (gates d)) = None"
  shows "decide sha (Some d) = Inl ValidationError"
proof -
  have g: "di_integrity_ok d" "di_evidence_bundle d \<noteq> None" "\<not> di_human_review_required d"
    "di_domain_risk d \<in> set (dp_answerable_risk_levels (di_policy d))"
    "ui_clarity (di_user_intent d) \<notin> {CLARITY_UNKNOWN, AMBIGUOUS, UNSUPPORTED}" "di_policy_allows_answer d"
    "\<not> di_evidence_count d < dp_min_evidence_count (di_policy d)"
    "\<not> di_retrieval_quality d < dp_min_retrieval_quality (di_policy d)"
    using assms(4) by (auto simp: gates_def Let_def)
  then obtain b s where b: "di_evidence_bundle d = Some b" "bundle_ok sha s b"
    using assms(1) by (auto simp: input_ok_def)
  have "answer_gate sha d b = Inl ValidationError"
    using validate_citations_strings [OF bundle_ok_accepted [OF b(2)], of ids] assms(2,3)
    by (simp add: answer_gate_def)
  then show ?thesis
    unfolding decide_def option.case Let_def integrity_gate_ok [OF assms(1)] rbind_simps
    using g b(1) by simp
qed

section \<open>Examples\<close>

definition policy_example :: decision_policy where
  "policy_example =
     \<lparr>dp_min_evidence_count = 1, dp_min_retrieval_quality = 65 / 100, dp_min_citation_support = 80 / 100,
      dp_require_citation_support_metrics = False, dp_min_citation_precision = 80 / 100,
      dp_min_citation_recall = 80 / 100, dp_min_citation_completeness = 80 / 100,
      dp_max_unsupported_claim_rate = 0, dp_min_faithfulness = 80 / 100, dp_require_faithfulness = False,
      dp_required_citation_support_source = None, dp_min_provider_confidence_signal = 60 / 100,
      dp_max_retrieval_attempts = 1, dp_answerable_risk_levels = [LOW]\<rparr>"

lemma default_policy_made: "make_policy default_policy = Inr policy_example"
  by (simp add: make_policy_def default_policy_def policy_example_def as_model_def float_overflows_def int_field_def
      bounded_signal_def optional_field_def normalize_risk_levels_def)

definition input_example :: "real \<Rightarrow> string list \<Rightarrow> decision_input" where
  "input_example q ids =
     \<lparr>di_evidence_bundle = Some bundle_example, di_tenant_id = Some ''t'', di_workspace_id = Some ''w'',
      di_collection_id = Some ''c'', di_retrieval_quality = q, di_evidence_count = 1, di_citation_support = 1,
      di_citation_support_metrics = None, di_provider_confidence_signal = Some 1, di_domain_risk = LOW,
      di_user_intent = \<lparr>ui_intent_code = ''x'', ui_clarity = CLEAR\<rparr>, di_policy = policy_example,
      di_retrieval_attempt = 0, di_retrieval_available = True, di_integrity_ok = True,
      di_policy_allows_answer = True, di_human_review_required = False, di_cited_evidence_ids = Some ids\<rparr>"

definition raw_input_example :: "real \<Rightarrow> string list \<Rightarrow> raw_input" where
  "raw_input_example q ids =
     \<lparr>ri_evidence_bundle = Some bundle_example, ri_tenant_id = PStr ''t'', ri_workspace_id = PStr ''w'',
      ri_collection_id = PStr ''c'', ri_retrieval_quality = PFloat (Fin q), ri_evidence_count = PInt 1,
      ri_citation_support = PInt 1, ri_citation_support_metrics = None, ri_provider_confidence_signal = PInt 1,
      ri_domain_risk = LOW, ri_user_intent = \<lparr>ui_intent_code = ''x'', ui_clarity = CLEAR\<rparr>,
      ri_policy = policy_example, ri_retrieval_attempt = PInt 0, ri_retrieval_available = True,
      ri_integrity_ok = True, ri_policy_allows_answer = True, ri_human_review_required = False,
      ri_cited_evidence_ids = Some (CitedSeq (map PStr ids))\<rparr>"

lemma cited_elements_strings [simp]: "cited_elements (CitedSeq (map PStr ids)) = ids"
  by (induction ids) simp_all

lemma input_example_made:
  "0 \<le> q \<Longrightarrow> q \<le> 1 \<Longrightarrow> make_decision_input (raw_input_example q ids) = Inr (input_example q ids)"
  by (simp add: make_decision_input_def raw_input_example_def input_example_def as_model_def float_overflows_def
      int_field_def bounded_signal_def optional_field_def short_text_def normalize_citation_ids_def list_ex_iff
      validate_scope_and_bundle_count_def request_scope_def optional_pyval_def bundle_scope_def bundle_example_def
      del: cited_elements.simps)

lemma input_example_ok: "0 \<le> q \<Longrightarrow> q \<le> 1 \<Longrightarrow> input_ok sha_example (input_example q ids)"
proof -
  assume q: "0 \<le> q" "q \<le> 1"
  have "scope_arg_ok (ScopeObj scope_example)" by (simp add: scope_ok_def scope_example_def)
  then have "\<exists>s. bundle_ok sha_example s bundle_example"
    using build_bundle_ok [OF hexdigest_example _ build_example] by blast
  then show "input_ok sha_example (input_example q ids)"
    using input_example_made [OF q, of ids] by (auto simp: input_ok_def input_example_def)
qed

theorem decide_refines_table_witness:
  "decide sha_example (Some (input_example 0 [])) = Inr (spec_decision (input_example 0 []))"
  by (rule decide_refines_table) (simp_all add: input_example_ok, simp add: input_example_def few_citations_def)

theorem decide_actions_exact_witness:
  "\<exists>r. decide sha_example (Some (input_example 1 [evidence_id evidence_example])) = Inr r \<and> d_action r = ANSWER"
proof -
  let ?d = "input_example 1 [evidence_id evidence_example]"
  have "grounded ?d bundle_example"
    by (simp add: grounded_def input_example_def policy_example_def citations_ok_def citation_support_ok_def
        at_least_def citation_ids_def bundle_example_def)
  moreover have "few_citations ?d" by (simp add: few_citations_def input_example_def)
  ultimately show ?thesis
    using decide_actions_exact [OF input_example_ok [of 1 "[evidence_id evidence_example]"]] by auto
qed

theorem decide_well_formed_witness:
  "action_flags_ok (spec_decision (input_example 0 []))"
proof -
  have "decide sha_example (Some (input_example 0 [])) = Inr (spec_decision (input_example 0 []))"
    by (rule decide_spec) (simp_all add: input_example_ok, simp add: input_example_def few_citations_def)
  then show ?thesis by (rule decide_well_formed [THEN conjunct1])
qed

theorem decide_many_citations_raises_witness:
  "decide sha_example (Some (input_example 1 (replicate 101 ''ev''))) = Inl ValidationError"
proof -
  have "first_error (take 10 (gates (input_example 1 (replicate 101 ''ev'')))) = None"
    by (simp add: gates_def Let_def input_example_def policy_example_def bundle_example_def)
  then show ?thesis
    using decide_many_citations_raises [OF input_example_ok [of 1 "replicate 101 ''ev''"], of "replicate 101 ''ev''"]
    by (simp add: input_example_def)
qed

end
