(* ===== verification/RequestPolicy.thy ===== *)
theory RequestPolicy
  imports Decision
begin

text \<open>
  The request policy (\<open>packages/decision/src/rick_decision/request_policy.py\<close>): the
  normalisation of a request, the allowlist of product-information questions with its denials, the
  clinical policy on top of it and the fail-closed \<open>classify_request\<close>.

  Normalisation is \<open>casefold\<close>, NFKD and removal of combining marks. On the code points of the
  model this is the table \<open>fold_c\<close>. Two results lie outside the range and have stand-ins of the
  same character class that cannot arise otherwise: the fraction slash of the three fractions is
  the code point 180, and the folded micro sign keeps its own.
\<close>

section \<open>Classifications\<close>

definition REQUEST_POLICY_VERSION :: string where
  "REQUEST_POLICY_VERSION = ''rick-nonclinical-request-v1''"

definition CLINICAL_REQUEST_POLICY_VERSION :: string where
  "CLINICAL_REQUEST_POLICY_VERSION = ''rick-clinical-domain-v1''"

definition VERSION :: regex where
  "VERSION = anchored (name_pattern lower_c (\<lambda>c. lower_c c \<or> digit_c c \<or> c = CHR ''-'') 63)"

record classification =
  rc_policy_version :: string
  rc_reason_code :: string
  rc_domain_risk :: domain_risk
  rc_intent :: user_intent
  rc_allows_answer :: bool
  rc_human_review_required :: bool
  rc_retry_query :: "string option"

text \<open>The checks of \<open>__post_init__\<close> on typed values; the pattern of a code is \<open>SAFE_CODE\<close>.\<close>

definition make_classification :: "classification \<Rightarrow> string + classification" where
  "make_classification c =
     (if \<not> re_fullmatch VERSION (rc_policy_version c) then Inl ''invalid request policy version''
      else if \<not> re_fullmatch SAFE_CODE (rc_reason_code c) then Inl ''invalid request policy reason''
      else if rc_allows_answer c \<and> \<not> (rc_domain_risk c = LOW \<and> ui_clarity (rc_intent c) = CLEAR)
      then Inl ''only explicit low-risk clear intent is answerable''
      else if (case rc_retry_query c of None \<Rightarrow> False | Some q \<Rightarrow> \<not> (1 \<le> length q \<and> length q \<le> 512))
      then Inl ''invalid retry query''
      else Inr c)"

definition default_intent :: user_intent where
  "default_intent = \<lparr>ui_intent_code = ''unknown'', ui_clarity = CLARITY_UNKNOWN\<rparr>"

definition denial :: "string \<Rightarrow> string \<Rightarrow> domain_risk \<Rightarrow> classification" where
  "denial version reason risk =
     \<lparr>rc_policy_version = version, rc_reason_code = reason, rc_domain_risk = risk, rc_intent = default_intent,
      rc_allows_answer = False, rc_human_review_required = False, rc_retry_query = None\<rparr>"

section \<open>Normalisation\<close>

text \<open>\<open>unicodedata.category(c).startswith("C")\<close>\<close>

definition control_c :: "char \<Rightarrow> bool" where
  "control_c c = (let n = ord_c c in n < 32 \<or> (127 \<le> n \<and> n \<le> 159) \<or> n = 173)"

definition fold_c :: "char \<Rightarrow> string" where
  "fold_c c =
     (let d = tolower_c c; n = ord_c d in
      if n = 223 then ''ss''
      else if 224 \<le> n \<and> n \<le> 229 then ''a''
      else if n = 231 then ''c''
      else if 232 \<le> n \<and> n \<le> 235 then ''e''
      else if 236 \<le> n \<and> n \<le> 239 then ''i''
      else if n = 241 then ''n''
      else if 242 \<le> n \<and> n \<le> 246 then ''o''
      else if 249 \<le> n \<and> n \<le> 252 then ''u''
      else if n = 253 \<or> n = 255 then ''y''
      else if n = 170 then ''a''
      else if n = 186 then ''o''
      else if n = 178 then ''2''
      else if n = 179 then ''3''
      else if n = 185 then ''1''
      else if n = 188 then [CHR ''1'', CHR 0xB4, CHR ''4'']
      else if n = 189 then [CHR ''1'', CHR 0xB4, CHR ''2'']
      else if n = 190 then [CHR ''3'', CHR 0xB4, CHR ''4'']
      else if n = 160 \<or> n = 168 \<or> n = 175 \<or> n = 180 \<or> n = 184 then '' ''
      else [d])"

fun split_words :: "string \<Rightarrow> string \<Rightarrow> string list" where
  "split_words acc [] = (if acc = [] then [] else [rev acc])"
| "split_words acc (c # cs) =
     (if isspace_c c then (if acc = [] then [] else [rev acc]) @ split_words [] cs else split_words (c # acc) cs)"

fun join_words :: "string list \<Rightarrow> string" where
  "join_words [] = []"
| "join_words [w] = w"
| "join_words (w # ws) = w @ CHR '' '' # join_words ws"

definition removesuffix_c :: "char \<Rightarrow> string \<Rightarrow> string" where
  "removesuffix_c x s = (if s \<noteq> [] \<and> last s = x then butlast s else s)"

definition normalize_request :: "pyval \<Rightarrow> string option" where
  "normalize_request v =
     (case v of
        PStr s \<Rightarrow>
          if \<not> (1 \<le> length s \<and> length s \<le> 4000) then None
          else if list_ex (\<lambda>c. control_c c \<and> c \<notin> {CHR 0x09, CHR 0x0D, CHR 0x0A}) s then None
          else Some (strip (removesuffix_c (CHR ''?'') (join_words (split_words [] (concat (map fold_c s))))))
      | _ \<Rightarrow> None)"

section \<open>The rules\<close>

record informational_rule =
  ir_intent :: string
  ir_questions :: "string list"
  ir_retry_query :: string

definition INFORMATIONAL_RULES :: "informational_rule list" where
  "INFORMATIONAL_RULES =
     [\<lparr>ir_intent = ''document_upload_help'',
       ir_questions = [''how do i upload a document'', ''how can i upload a document'',
         ''how do i upload a document in rick'', ''how do i upload a pdf'', ''como enviar um documento'',
         ''como enviar um documento no rick'', ''como faco upload de um documento'', ''como fazer upload de um documento''],
       ir_retry_query = ''document upload enviar documento arquivo colecao rick''\<rparr>,
      \<lparr>ir_intent = ''source_citation_help'',
       ir_questions = [''how do i cite sources'', ''how do citations work in rick'', ''what are source citations'',
         ''como citar fontes'', ''como funcionam as citacoes no rick'', ''o que sao citacoes de fontes''],
       ir_retry_query = ''source citations references fontes citacoes documentos rick''\<rparr>,
      \<lparr>ir_intent = ''collection_help'',
       ir_questions = [''what is a document collection'', ''how do document collections work'',
         ''what is a collection in rick'', ''o que e uma colecao de documentos'',
         ''como funcionam as colecoes de documentos'', ''o que e uma colecao no rick''],
       ir_retry_query = ''document collections organize colecao documentos organizacao rick''\<rparr>,
      \<lparr>ir_intent = ''document_retry_help'',
       ir_questions = [''how do i retry a failed document upload'', ''how do i check document ingestion status'',
         ''como repetir um upload de documento que falhou'', ''como consultar o status de ingestao de um documento''],
       ir_retry_query = ''document upload retry ingestion status repetir envio documento falhou rick''\<rparr>]"

definition AMBIGUOUS_REQUESTS :: "string list" where
  "AMBIGUOUS_REQUESTS = [''document'', ''documento'', ''upload'', ''collection'', ''colecao'', ''help with documents'', ''ajuda com documentos'']"

definition UNSUPPORTED_REQUESTS :: "string list" where
  "UNSUPPORTED_REQUESTS = [''tell me a joke'', ''conte uma piada'', ''write a poem'', ''escreva um poema'']"

text \<open>A literal, and a literal followed by \<open>\w*\<close>.\<close>

definition stem :: "string \<Rightarrow> regex" where
  "stem s = Seq (lit s) (star_r (Cls word_c))"

definition CLINICAL :: regex where
  "CLINICAL =
     Alt (seqs [Wb,
           alts [lit ''clinical'', stem ''clinico'', stem ''clinica'', stem ''patient'', stem ''paciente'', stem ''diagnos'',
             stem ''dose'', stem ''dosage'', lit ''dosagem'', stem ''prescrib'', stem ''prescrev'', stem ''treat'',
             stem ''tratamento'', stem ''medicat'', stem ''medicamento'', stem ''anest'', stem ''eutana'',
             stem ''euthana'', lit ''emergency'', stem ''emergencia'', lit ''bleeding'', lit ''sangramento'',
             stem ''intoxica'', stem ''poison'', stem ''vomit'', lit ''pain'', stem ''symptom'', stem ''sintoma'',
             stem ''vacin'', stem ''vaccin'', lit ''cao'', lit ''caes'', stem ''gato'', stem ''dog'', lit ''cat'', lit ''cats''],
           Wb])
         (seqs [Wb, lit ''mg'', star_r (Cls isspace_c), lit ''/'', star_r (Cls isspace_c), lit ''kg'', Wb])"

definition INJECTION :: regex where
  "INJECTION =
     alts [seqs [Wb, alts [lit ''ignore'', lit ''disregard'', lit ''override'', lit ''bypass'', lit ''jailbreak'', lit ''finja'',
                    lit ''desconsidere''], Wb],
           seqs [lit ''system'', plus_r (Cls isspace_c), alts [lit ''prompt'', lit ''message'']],
           seqs [alts [lit ''prompt'', lit ''mensagem''], plus_r (Cls isspace_c), alts [lit ''de'', lit ''do''],
                 plus_r (Cls isspace_c), lit ''sistema''],
           seqs [alts [lit ''risk'', lit ''risco''], star_r (Cls isspace_c), one_of '':='', star_r (Cls isspace_c),
                 alts [lit ''low'', lit ''baixo'']],
           seqs [lit [CHR ''<'', CHR 0x7C], alts [lit ''system'', lit ''assistant'']],
           lit (replicate 3 (CHR 0x60))]"

section \<open>The policies\<close>

fun find_rule :: "informational_rule list \<Rightarrow> string \<Rightarrow> informational_rule option" where
  "find_rule [] s = None"
| "find_rule (r # rs) s = (if List.member (ir_questions r) s then Some r else find_rule rs s)"

text \<open>The loop that looks for indicators in the request and in the history.\<close>

fun first_risk :: "string list \<Rightarrow> string option" where
  "first_risk [] = None"
| "first_risk (s # ss) =
     (if re_search INJECTION s then Some ''instruction_override_attempt''
      else if re_search CLINICAL s then Some ''clinical_review_required''
      else first_risk ss)"

text \<open>The history argument is \<open>None\<close> when it is no list or tuple.\<close>

definition classify_text :: "string \<Rightarrow> string list \<Rightarrow> classification" where
  "classify_text s prior =
     (case first_risk (s # prior) of
        Some reason \<Rightarrow> denial REQUEST_POLICY_VERSION reason HIGH
      | None \<Rightarrow>
          if prior \<noteq> [] then denial REQUEST_POLICY_VERSION ''contextual_request_unreviewed'' RISK_UNKNOWN
          else if List.member AMBIGUOUS_REQUESTS s then
            (denial REQUEST_POLICY_VERSION ''nonclinical_intent_ambiguous'' LOW)
              \<lparr>rc_intent := \<lparr>ui_intent_code = ''product_help'', ui_clarity = AMBIGUOUS\<rparr>\<rparr>
          else if List.member UNSUPPORTED_REQUESTS s then
            (denial REQUEST_POLICY_VERSION ''intent_outside_product_scope'' LOW)
              \<lparr>rc_intent := \<lparr>ui_intent_code = ''unsupported'', ui_clarity = UNSUPPORTED\<rparr>\<rparr>
          else case find_rule INFORMATIONAL_RULES s of
            Some rule \<Rightarrow>
              (denial REQUEST_POLICY_VERSION ''nonclinical_information_allowlisted'' LOW)
                \<lparr>rc_intent := \<lparr>ui_intent_code = ir_intent rule, ui_clarity = CLEAR\<rparr>, rc_allows_answer := True,
                 rc_retry_query := Some (ir_retry_query rule)\<rparr>
          | None \<Rightarrow> denial REQUEST_POLICY_VERSION ''request_unrecognized'' RISK_UNKNOWN)"

definition nonclinical_classify :: "string option \<Rightarrow> pyval \<Rightarrow> pyval list option \<Rightarrow> classification" where
  "nonclinical_classify version query history =
     (if version \<noteq> Some REQUEST_POLICY_VERSION then denial ''unavailable'' ''request_policy_unavailable'' RISK_UNKNOWN
      else case normalize_request query of
        None \<Rightarrow> denial REQUEST_POLICY_VERSION ''request_outside_policy'' RISK_UNKNOWN
      | Some s \<Rightarrow>
          (case history of
             None \<Rightarrow> denial REQUEST_POLICY_VERSION ''history_outside_policy'' RISK_UNKNOWN
           | Some items \<Rightarrow>
               if length items > 50 then denial REQUEST_POLICY_VERSION ''history_outside_policy'' RISK_UNKNOWN
               else if list_ex (\<lambda>v. normalize_request v = None) items
               then denial REQUEST_POLICY_VERSION ''history_outside_policy'' RISK_UNKNOWN
               else classify_text s (concat (map (\<lambda>v. case normalize_request v of None \<Rightarrow> [] | Some t \<Rightarrow> [t]) items))))"

definition clinical_classify :: "pyval \<Rightarrow> pyval list option \<Rightarrow> classification" where
  "clinical_classify query history =
     (let result = nonclinical_classify (Some REQUEST_POLICY_VERSION) query history in
      if rc_reason_code result = ''clinical_review_required'' then
        \<lparr>rc_policy_version = CLINICAL_REQUEST_POLICY_VERSION, rc_reason_code = ''clinical_domain_review_required'',
         rc_domain_risk = HIGH, rc_intent = rc_intent result, rc_allows_answer = False,
         rc_human_review_required = True, rc_retry_query = rc_retry_query result\<rparr>
      else result\<lparr>rc_policy_version := CLINICAL_REQUEST_POLICY_VERSION\<rparr>)"

text \<open>
  A classifier: what calling it does (\<open>None\<close> when it raises or returns another object); the
  outer \<open>None\<close> is the missing classifier.
\<close>

definition classify_request ::
  "(pyval \<Rightarrow> pyval list option \<Rightarrow> classification option) option \<Rightarrow> pyval \<Rightarrow> pyval list option \<Rightarrow> classification" where
  "classify_request classifier query history =
     (case classifier of
        None \<Rightarrow> denial ''unavailable'' ''request_policy_unavailable'' RISK_UNKNOWN
      | Some f \<Rightarrow>
          (case f query history of
             None \<Rightarrow> denial ''unavailable'' ''request_classifier_failed'' RISK_UNKNOWN
           | Some r \<Rightarrow> r))"

section \<open>What is answerable\<close>

lemma denial_fields [simp]:
  "rc_allows_answer (denial v r k) = False" "rc_reason_code (denial v r k) = r" "rc_domain_risk (denial v r k) = k"
  "rc_human_review_required (denial v r k) = False" "rc_intent (denial v r k) = default_intent"
  "rc_policy_version (denial v r k) = v" "rc_retry_query (denial v r k) = None"
  by (simp_all add: denial_def)

lemma find_rule_Some: "find_rule rs s = Some r \<Longrightarrow> r \<in> set rs \<and> s \<in> set (ir_questions r)"
  by (induction rs) (auto split: if_splits)

lemma find_rule_None: "find_rule rs s = None \<longleftrightarrow> (\<forall>r\<in>set rs. s \<notin> set (ir_questions r))"
  by (induction rs) auto

lemma first_risk_None: "first_risk ss = None \<longleftrightarrow> (\<forall>s\<in>set ss. \<not> re_search INJECTION s \<and> \<not> re_search CLINICAL s)"
  by (induction ss) auto

lemma first_risk_reason: "first_risk ss = Some r \<Longrightarrow> r \<in> {''instruction_override_attempt'', ''clinical_review_required''}"
  by (induction ss) (auto split: if_splits)

definition answerable :: "string \<Rightarrow> bool" where
  "answerable s =
     ((\<exists>r\<in>set INFORMATIONAL_RULES. s \<in> set (ir_questions r)) \<and> s \<notin> set AMBIGUOUS_REQUESTS \<and>
      s \<notin> set UNSUPPORTED_REQUESTS \<and> \<not> re_search INJECTION s \<and> \<not> re_search CLINICAL s)"

lemma classify_text_allows: "rc_allows_answer (classify_text s prior) \<longleftrightarrow> prior = [] \<and> answerable s"
  using first_risk_None [of "s # prior"] find_rule_None [of INFORMATIONAL_RULES s]
  by (auto simp: classify_text_def answerable_def split: option.splits)

definition prior_texts :: "pyval list \<Rightarrow> string list" where
  "prior_texts items = concat (map (\<lambda>v. case normalize_request v of None \<Rightarrow> [] | Some t \<Rightarrow> [t]) items)"

lemma prior_texts_Nil: "\<not> list_ex (\<lambda>v. normalize_request v = None) items \<Longrightarrow> prior_texts items = [] \<longleftrightarrow> items = []"
  by (cases items) (auto simp: prior_texts_def)

lemma nonclinical_allows:
  "rc_allows_answer (nonclinical_classify (Some REQUEST_POLICY_VERSION) q h) \<longleftrightarrow>
     h = Some [] \<and> (\<exists>s. normalize_request q = Some s \<and> answerable s)"
  using prior_texts_Nil
  by (auto simp: nonclinical_classify_def prior_texts_def [symmetric] classify_text_allows split: option.splits)

lemma clinical_allows:
  "rc_allows_answer (clinical_classify q h) \<longleftrightarrow>
     rc_allows_answer (nonclinical_classify (Some REQUEST_POLICY_VERSION) q h) \<and>
     rc_reason_code (nonclinical_classify (Some REQUEST_POLICY_VERSION) q h) \<noteq> ''clinical_review_required''"
  by (simp add: clinical_classify_def Let_def)

lemma allows_reason:
  "rc_allows_answer (nonclinical_classify v q h) \<Longrightarrow>
     rc_reason_code (nonclinical_classify v q h) = ''nonclinical_information_allowlisted''"
  by (auto simp: nonclinical_classify_def classify_text_def split: option.splits if_splits)

text \<open>C27. Only reviewed questions are answerable: under the clinical policy a request may be answered if
  and only if it has no history, its whole normalised text is one of the questions of the
  allowlist, and it matches no pattern for clinical content or overridden instructions.\<close>

theorem answerable_iff_allowlisted:
  "rc_allows_answer (clinical_classify query history) \<longleftrightarrow>
     history = Some [] \<and> (\<exists>s. normalize_request query = Some s \<and> answerable s)"
  using nonclinical_allows [of query history] allows_reason [of "Some REQUEST_POLICY_VERSION" query history]
  by (auto simp: clinical_allows)

text \<open>Every classification the policies construct passes the checks of its own constructor.\<close>

lemma version_ok: "re_fullmatch VERSION v" if "v \<in> {REQUEST_POLICY_VERSION, CLINICAL_REQUEST_POLICY_VERSION, ''unavailable''}"
  using that by (auto simp: VERSION_def REQUEST_POLICY_VERSION_def CLINICAL_REQUEST_POLICY_VERSION_def char_defs)

lemma policy_codes_ok:
  "list_all code_ok [''request_policy_unavailable'', ''request_outside_policy'', ''history_outside_policy'',
     ''instruction_override_attempt'', ''clinical_review_required'', ''contextual_request_unreviewed'',
     ''nonclinical_intent_ambiguous'', ''intent_outside_product_scope'', ''nonclinical_information_allowlisted'',
     ''request_unrecognized'', ''clinical_domain_review_required'', ''request_classifier_failed'']"
  by (simp add: code_ok_def code_char_def char_defs)

lemma code_ok_match: "code_ok r \<Longrightarrow> re_fullmatch SAFE_CODE r"
  by (cases r) (auto simp: SAFE_CODE_def code_ok_def code_char_def [abs_def])

lemma rules_ok: "r \<in> set INFORMATIONAL_RULES \<Longrightarrow> 1 \<le> length (ir_retry_query r) \<and> length (ir_retry_query r) \<le> 512"
  by (auto simp: INFORMATIONAL_RULES_def)

lemma classification_valid:
  "make_classification (clinical_classify q h) = Inr (clinical_classify q h)"
proof -
  have codes: "code_ok (rc_reason_code (clinical_classify q h))"
    using policy_codes_ok first_risk_reason
    by (auto simp: clinical_classify_def Let_def nonclinical_classify_def classify_text_def split: option.splits)
  have low: "rc_allows_answer (clinical_classify q h) \<Longrightarrow>
      rc_domain_risk (clinical_classify q h) = LOW \<and> ui_clarity (rc_intent (clinical_classify q h)) = CLEAR"
    by (auto simp: clinical_classify_def Let_def nonclinical_classify_def classify_text_def
        split: option.splits if_splits)
  have retry: "rc_retry_query (clinical_classify q h) = Some t \<Longrightarrow> 1 \<le> length t \<and> length t \<le> 512" for t
    using rules_ok find_rule_Some [of INFORMATIONAL_RULES]
    by (auto simp: clinical_classify_def Let_def nonclinical_classify_def classify_text_def
        split: option.splits if_splits)
  have ver: "rc_policy_version (clinical_classify q h) = CLINICAL_REQUEST_POLICY_VERSION"
    by (simp add: clinical_classify_def Let_def)
  show ?thesis
    using codes low retry version_ok [of CLINICAL_REQUEST_POLICY_VERSION] code_ok_match
    by (auto simp: make_classification_def ver split: option.splits)
qed

end
