(* ===== verification/Authorization.thy ===== *)
theory Authorization
  imports Prelude
begin

text \<open>
  The authorization policy engine (\<open>packages/authorization/src/rick_authorization/policy.py\<close>):
  canonical roles, permission resolution with overrides, authoritative snapshots, collection and
  workspace scope, and the factory of the retrieval context. A value that the code expects to be
  a collection of strings but inspects first is a \<open>py_iter\<close>. The result of a lookup in an
  optional field of a user is an option.
\<close>

section \<open>Roles and permissions\<close>

datatype canonical_role_id = PLATFORM_ADMIN | KNOWLEDGE_MANAGER | VETERINARIAN

definition CANONICAL_COLLECTION_ID :: string where
  "CANONICAL_COLLECTION_ID = ''rag_phase0''"

definition LEGACY_ROLE_ALIASES :: "(string \<times> canonical_role_id) list" where
  "LEGACY_ROLE_ALIASES =
     [(''platform_admin'', PLATFORM_ADMIN), (''super_admin'', PLATFORM_ADMIN), (''admin'', PLATFORM_ADMIN),
      (''knowledge_manager'', KNOWLEDGE_MANAGER), (''admin_rag'', KNOWLEDGE_MANAGER),
      (''operator'', KNOWLEDGE_MANAGER), (''veterinarian'', VETERINARIAN), (''viewer'', VETERINARIAN),
      (''auditor'', VETERINARIAN)]"

definition CANONICAL_PERMISSION_IDS :: "string list" where
  "CANONICAL_PERMISSION_IDS =
     [''audit.read'', ''cases.feedback'', ''cases.manage'', ''cases.read'', ''cases.review'',
      ''chat.query'', ''collections.manage'', ''collections.read'', ''corpus.audit'',
      ''corpus.repair'', ''documents.manage'', ''documents.read'', ''documents.upload'',
      ''history.read'', ''ingestion.run'', ''library.browse'', ''observability.read'',
      ''reindex.run'', ''runtime.manage'', ''sessions.revoke'', ''sources.read'',
      ''tenants.read'', ''tenants.manage'', ''users.manage'']"

fun ROLE_PERMISSIONS :: "canonical_role_id \<Rightarrow> string list" where
  "ROLE_PERMISSIONS PLATFORM_ADMIN = [''*'']"
| "ROLE_PERMISSIONS KNOWLEDGE_MANAGER =
     [''cases.feedback'', ''cases.manage'', ''cases.read'', ''cases.review'', ''chat.query'',
      ''history.read'', ''library.browse'', ''documents.read'', ''documents.upload'',
      ''documents.manage'', ''sources.read'', ''collections.read'', ''collections.manage'',
      ''ingestion.run'', ''reindex.run'', ''observability.read'', ''audit.read'',
      ''corpus.audit'', ''corpus.repair'']"
| "ROLE_PERMISSIONS VETERINARIAN =
     [''cases.feedback'', ''cases.manage'', ''cases.read'', ''chat.query'', ''history.read'',
      ''sources.read'', ''collections.read'']"

definition LEGACY_PERMISSION_ALIASES :: "(string \<times> string) list" where
  "LEGACY_PERMISSION_ALIASES =
     [(''search.execute'', ''chat.query''), (''query.execute'', ''chat.query''),
      (''documents.search'', ''chat.query''), (''documents.query'', ''chat.query''),
      (''chat.history.read'', ''history.read''), (''queries.history.read'', ''history.read''),
      (''library.read'', ''library.browse'')]"

definition canonical_role :: "string option \<Rightarrow> canonical_role_id" where
  "canonical_role role =
     (let given = (case role of None \<Rightarrow> ''viewer'' | Some r \<Rightarrow> if r = [] then ''viewer'' else r);
          candidate = lower_s (strip given)
      in case map_of LEGACY_ROLE_ALIASES candidate of None \<Rightarrow> VETERINARIAN | Some c \<Rightarrow> c)"

definition legacy_role_label :: "string option \<Rightarrow> string" where
  "legacy_role_label role =
     (case canonical_role role of
        PLATFORM_ADMIN \<Rightarrow> ''super_admin'' | KNOWLEDGE_MANAGER \<Rightarrow> ''admin_rag'' | VETERINARIAN \<Rightarrow> ''viewer'')"

definition permission_alias :: "string \<Rightarrow> string" where
  "permission_alias permission =
     (let candidate = lower_s (strip permission)
      in case map_of LEGACY_PERMISSION_ALIASES candidate of None \<Rightarrow> candidate | Some p \<Rightarrow> p)"

datatype py_iter =
    IterNone
  | IterStr string
  | Iter "pyval list" \<comment> \<open>a list, a tuple or a set\<close>
  | IterOther

definition strings_of :: "pyval list \<Rightarrow> string list" where
  "strings_of items = concat (map (\<lambda>v. case v of PStr s \<Rightarrow> [s] | _ \<Rightarrow> []) items)"

definition normalize_list :: "pyval list \<Rightarrow> string list" where
  "normalize_list items = sorted_set (filter (\<lambda>p. p \<noteq> []) (map permission_alias (strings_of items)))"

text \<open>An object that cannot be iterated makes the code raise; it does not occur.\<close>

fun normalize_permissions :: "py_iter \<Rightarrow> string list" where
  "normalize_permissions IterNone = []"
| "normalize_permissions (IterStr s) = normalize_list [PStr s]"
| "normalize_permissions (Iter items) = normalize_list items"
| "normalize_permissions IterOther = []"

text \<open>\<open>values(key)\<close> in \<open>normalize_permission_overrides\<close>.\<close>

fun override_values :: "py_iter \<Rightarrow> string list" where
  "override_values (IterStr s) = normalize_list [PStr s]"
| "override_values (Iter items) = normalize_list items"
| "override_values v = []"

record overrides =
  ov_add :: py_iter
  ov_remove :: py_iter

definition normalize_permission_overrides :: "overrides option \<Rightarrow> string list \<times> string list" where
  "normalize_permission_overrides ov =
     (let additions = (case ov of None \<Rightarrow> [] | Some x \<Rightarrow> override_values (ov_add x));
          removals = (case ov of None \<Rightarrow> [] | Some x \<Rightarrow> override_values (ov_remove x))
      in (sorted_set (filter (\<lambda>p. p \<notin> set removals) additions), sorted_set removals))"

definition permissions_for_role :: "string option \<Rightarrow> overrides option \<Rightarrow> string list" where
  "permissions_for_role role ov =
     (let base = normalize_permissions (Iter (map PStr (ROLE_PERMISSIONS (canonical_role role))));
          (additions, removals) = normalize_permission_overrides ov
      in if ''*'' \<in> set removals
         then sorted_set (filter (\<lambda>p. p \<noteq> ''*'' \<and> p \<notin> set removals - {''*''}) (base @ additions))
         else if ''*'' \<in> set base \<or> ''*'' \<in> set additions then
           (let explicit_removals = filter (\<lambda>p. p \<noteq> ''*'') removals
            in if explicit_removals = [] then [''*'']
               else sorted_set (filter (\<lambda>p. p \<notin> set explicit_removals)
                      (CANONICAL_PERMISSION_IDS @ filter (\<lambda>p. p \<noteq> ''*'') additions)))
         else sorted_set (filter (\<lambda>p. p \<notin> set removals)
                (filter (\<lambda>p. p \<noteq> ''*'') base @ filter (\<lambda>p. p \<noteq> ''*'') additions)))"

definition permission_granted :: "string option \<Rightarrow> py_iter \<Rightarrow> string \<Rightarrow> bool \<Rightarrow> bool" where
  "permission_granted role permissions required authoritative =
     (let required_canonical = permission_alias required;
          resolved = normalize_permissions permissions
      in if ''*'' \<in> set resolved then True
         else if required_canonical \<in> set resolved then True
         else if authoritative then False
         else if role \<noteq> None \<and> resolved = [] then
           (let fallback = permissions_for_role role None
            in ''*'' \<in> set fallback \<or> required_canonical \<in> set fallback)
         else False)"

section \<open>Collections and workspaces\<close>

definition normalize_collection_id :: "string \<Rightarrow> string option" where
  "normalize_collection_id value =
     (let candidate = strip value in
      if candidate = [] then None
      else if lower_s candidate \<in> {''cvg_master_rag'', ''rickvet_documents'', ''rag_phase0''}
      then Some CANONICAL_COLLECTION_ID
      else Some candidate)"

record user =
  u_role :: "string option"
  u_overrides :: "overrides option"
  u_collections :: "py_iter option" \<comment> \<open>\<open>None\<close> when the field is omitted\<close>
  u_state :: "string option"

definition collection_grant :: "pyval \<Rightarrow> string list" where
  "collection_grant item =
     (case item of
        PStr s \<Rightarrow>
          if strip s = [] then []
          else if strip s = ''*'' then [''*'']
          else (case normalize_collection_id s of None \<Rightarrow> [] | Some c \<Rightarrow> [c])
      | _ \<Rightarrow> [])"

definition allowed_collection_ids_for_user :: "user \<Rightarrow> string list" where
  "allowed_collection_ids_for_user u =
     (case u_collections u of
        None \<Rightarrow>
          if u_state u \<noteq> None \<and> u_state u \<noteq> Some ''LEGACY_UNMIGRATED'' then []
          else if canonical_role (u_role u) \<in> {PLATFORM_ADMIN, KNOWLEDGE_MANAGER} then [''*'']
          else [CANONICAL_COLLECTION_ID]
      | Some (Iter raw) \<Rightarrow> concat (map collection_grant raw)
      | Some _ \<Rightarrow> [])"

definition authorization_grants_for_user :: "user \<Rightarrow> string list \<times> string list" where
  "authorization_grants_for_user u =
     (permissions_for_role (u_role u) (u_overrides u), allowed_collection_ids_for_user u)"

definition intersect_grants :: "string list \<Rightarrow> string list \<Rightarrow> string list" where
  "intersect_grants previous current =
     (if ''*'' \<in> set previous then sorted_set current
      else if ''*'' \<in> set current then sorted_set previous
      else sorted_set (filter (\<lambda>g. g \<in> set current) previous))"

definition can_access_collection :: "string list \<Rightarrow> string option \<Rightarrow> bool" where
  "can_access_collection allowed collection_id =
     (case normalize_collection_id (case collection_id of None \<Rightarrow> [] | Some c \<Rightarrow> c) of
        None \<Rightarrow> False
      | Some resolved \<Rightarrow> ''*'' \<in> set allowed \<or> resolved \<in> set allowed)"

definition can_access_workspace :: "string option \<Rightarrow> string \<Rightarrow> string option \<Rightarrow> bool" where
  "can_access_workspace session_workspace requested_workspace role =
     (case session_workspace of
        None \<Rightarrow> False
      | Some session \<Rightarrow>
          if strip session = [] then False
          else if strip requested_workspace = [] then False
          else if requested_workspace = session then True
          else canonical_role role = PLATFORM_ADMIN)"

record retrieval_context =
  rc_user_id :: "string option"
  rc_tenant_id :: string
  rc_workspace_id :: string
  rc_allowed_collection_ids :: "string list"
  rc_permissions :: "string list"

datatype authorization_error = AuthorizationError string

definition build_retrieval_context ::
  "string option \<Rightarrow> string option \<Rightarrow> string \<Rightarrow> string list \<Rightarrow> string list \<Rightarrow> string option \<Rightarrow> string option \<Rightarrow> pyval \<Rightarrow>
   authorization_error + retrieval_context" where
  "build_retrieval_context user_id session_workspace requested_workspace allowed_collection_ids permissions
       role requested_collection_id tenant_id =
     (if \<not> can_access_workspace session_workspace requested_workspace role
      then Inl (AuthorizationError ''forbidden'')
      else case tenant_id of
        PStr tid \<Rightarrow>
          if strip tid = [] \<or> length (strip tid) > 128 then Inl (AuthorizationError ''forbidden'')
          else
            rbind (case requested_collection_id of
                     None \<Rightarrow> Inr allowed_collection_ids
                   | Some requested \<Rightarrow>
                       if requested = [] then Inr allowed_collection_ids
                       else (case normalize_collection_id requested of
                               None \<Rightarrow> Inl (AuthorizationError ''forbidden'')
                             | Some narrowed \<Rightarrow>
                                 if ''*'' \<notin> set allowed_collection_ids \<and> narrowed \<notin> set allowed_collection_ids
                                 then Inl (AuthorizationError ''forbidden'')
                                 else Inr [narrowed])) (\<lambda>allowed.
            Inr \<lparr>rc_user_id = user_id, rc_tenant_id = strip tid, rc_workspace_id = requested_workspace,
                 rc_allowed_collection_ids = allowed, rc_permissions = permissions\<rparr>)
      | _ \<Rightarrow> Inl (AuthorizationError ''forbidden''))"

record collection_item =
  ci_collection_id :: "string option"
  ci_qdrant_collection :: "string option"

definition item_collection :: "collection_item \<Rightarrow> string option" where
  "item_collection i =
     (case ci_collection_id i of
        Some c \<Rightarrow> if c = [] then ci_qdrant_collection i else Some c
      | None \<Rightarrow> ci_qdrant_collection i)"

definition filter_collection_items :: "collection_item list \<Rightarrow> string list \<Rightarrow> collection_item list" where
  "filter_collection_items items allowed =
     (if ''*'' \<in> set allowed then items
      else filter (\<lambda>i. case item_collection i of None \<Rightarrow> False | Some c \<Rightarrow> c \<in> set allowed) items)"

section \<open>Normalisation\<close>

definition canonical_perm :: "string \<Rightarrow> bool" where
  "canonical_perm p = (permission_alias p = p)"

lemma alias_targets: "map_of LEGACY_PERMISSION_ALIASES c = Some p \<Longrightarrow> p \<in> {''chat.query'', ''history.read'', ''library.browse''}"
  by (auto simp: LEGACY_PERMISSION_ALIASES_def split: if_splits)

lemma canonical_ids: "p \<in> insert ''*'' (set CANONICAL_PERMISSION_IDS) \<Longrightarrow> canonical_perm p"
  unfolding CANONICAL_PERMISSION_IDS_def canonical_perm_def
  by (auto simp: permission_alias_def strip_id stripped_def lower_s_def char_defs LEGACY_PERMISSION_ALIASES_def)

lemma canonical_alias: "canonical_perm (permission_alias p)"
proof (cases "map_of LEGACY_PERMISSION_ALIASES (lower_s (strip p))")
  case None
  then show ?thesis
    using strip_stripped [of p] by (simp add: canonical_perm_def permission_alias_def strip_id)
next
  case (Some q)
  then have "permission_alias p = q" by (simp add: permission_alias_def)
  moreover have "q \<in> set CANONICAL_PERMISSION_IDS"
    using alias_targets [OF Some] by (auto simp: CANONICAL_PERMISSION_IDS_def)
  ultimately show ?thesis using canonical_ids by simp
qed

lemma set_normalize_list:
  "set (normalize_list items) = {permission_alias s |s. PStr s \<in> set items} - {[]}"
  by (auto simp: normalize_list_def strings_of_def image_iff split: pyval.splits)

lemma normalize_canonical:
  assumes "\<forall>p \<in> set ps. canonical_perm p \<and> p \<noteq> []"
  shows "set (normalize_permissions (Iter (map PStr ps))) = set ps"
  using assms by (auto simp: set_normalize_list canonical_perm_def) (metis image_eqI)

lemma role_permissions_canonical: "p \<in> set (ROLE_PERMISSIONS r) \<Longrightarrow> p \<in> insert ''*'' (set CANONICAL_PERMISSION_IDS)"
  by (cases r) (auto simp: CANONICAL_PERMISSION_IDS_def)

lemma ids_nonempty: "p \<in> insert ''*'' (set CANONICAL_PERMISSION_IDS) \<Longrightarrow> p \<noteq> []"
  by (auto simp: CANONICAL_PERMISSION_IDS_def)

lemma base_permissions:
  "set (normalize_permissions (Iter (map PStr (ROLE_PERMISSIONS r)))) = set (ROLE_PERMISSIONS r)"
  using role_permissions_canonical canonical_ids ids_nonempty by (intro normalize_canonical) blast

lemma override_canonical: "p \<in> set (override_values v) \<Longrightarrow> canonical_perm p \<and> p \<noteq> []"
  by (cases v) (auto simp: set_normalize_list canonical_alias)

text \<open>The overrides as two sets.\<close>

definition added :: "overrides option \<Rightarrow> string set" where
  "added ov = (case ov of None \<Rightarrow> {} | Some x \<Rightarrow> set (override_values (ov_add x)))"

definition removed :: "overrides option \<Rightarrow> string set" where
  "removed ov = (case ov of None \<Rightarrow> {} | Some x \<Rightarrow> set (override_values (ov_remove x)))"

lemma normalized_overrides:
  "set (fst (normalize_permission_overrides ov)) = added ov - removed ov"
  "set (snd (normalize_permission_overrides ov)) = removed ov"
  by (auto simp: normalize_permission_overrides_def added_def removed_def split: option.splits)

section \<open>Resolution\<close>

definition role_base :: "string option \<Rightarrow> string set" where
  "role_base role = set (ROLE_PERMISSIONS (canonical_role role))"

lemma permissions_for_role_set:
  "set (permissions_for_role role ov) =
     (let B = role_base role; A = added ov - removed ov; R = removed ov
      in if ''*'' \<in> R then B \<union> A - R
         else if ''*'' \<in> B \<union> A then (if R = {} then {''*''} else set CANONICAL_PERMISSION_IDS \<union> (A - {''*''}) - R)
         else B \<union> A - R)"
proof -
  obtain as rs where ov: "normalize_permission_overrides ov = (as, rs)" by (metis old.prod.exhaust)
  have sets: "set as = added ov - removed ov" "set rs = removed ov"
    using normalized_overrides [of ov] by (simp_all add: ov)
  have star: "''*'' \<notin> set CANONICAL_PERMISSION_IDS" by (simp add: CANONICAL_PERMISSION_IDS_def)
  have empty: "filter (\<lambda>p. p \<noteq> ''*'') rs = [] \<longleftrightarrow> removed ov \<subseteq> {''*''}"
    by (auto simp: filter_empty_conv sets(2) [symmetric])
  have base: "set (normalize_permissions (Iter (map PStr (ROLE_PERMISSIONS (canonical_role role))))) = role_base role"
    by (simp only: base_permissions role_base_def)
  have flt: "set (sorted_set (filter Q xs)) = {x \<in> set xs. Q x}" for Q and xs :: "string list" by simp
  consider "''*'' \<in> removed ov" | "''*'' \<notin> removed ov" "''*'' \<in> role_base role \<union> (added ov - removed ov)"
    | "''*'' \<notin> removed ov" "''*'' \<notin> role_base role \<union> (added ov - removed ov)" by blast
  then show ?thesis
  proof cases
    case 1
    then have "set (permissions_for_role role ov) =
        {p \<in> role_base role \<union> (added ov - removed ov). p \<noteq> ''*'' \<and> p \<notin> removed ov - {''*''}}"
      unfolding permissions_for_role_def ov Let_def prod.case sets(2) by (simp only: if_True flt set_append base sets)
    then show ?thesis unfolding Let_def using 1 by auto
  next
    case 2
    then have c: "(''*'' \<in> set (normalize_permissions (Iter (map PStr (ROLE_PERMISSIONS (canonical_role role))))) \<or> ''*'' \<in> set as) = True"
      by (simp only: base sets) blast
    have e: "filter (\<lambda>p. p \<noteq> ''*'') rs = [] \<longleftrightarrow> removed ov = {}" using 2 empty by auto
    have f: "set (filter (\<lambda>p. p \<noteq> ''*'') rs) = removed ov" "set (filter (\<lambda>p. p \<noteq> ''*'') as) = added ov - removed ov - {''*''}"
      using 2 sets by auto
    show ?thesis
      unfolding permissions_for_role_def ov Let_def prod.case sets(2) c e
      using 2 f by (auto simp: flt)
  next
    case 3
    then have c: "(''*'' \<in> set (normalize_permissions (Iter (map PStr (ROLE_PERMISSIONS (canonical_role role))))) \<or> ''*'' \<in> set as) = False"
      by (simp only: base sets) blast
    have "set (filter (\<lambda>p. p \<noteq> ''*'') as) = added ov - removed ov"
      "set (filter (\<lambda>p. p \<noteq> ''*'') (normalize_permissions (Iter (map PStr (ROLE_PERMISSIONS (canonical_role role)))))) = role_base role"
      using 3 sets base by (auto simp del: normalize_permissions.simps)
    then show ?thesis
      unfolding permissions_for_role_def ov Let_def prod.case sets(2) c
      using 3 by (auto simp: flt simp del: normalize_permissions.simps)
  qed
qed

lemma snapshot_canonical:
  assumes "p \<in> set (permissions_for_role role ov)"
  shows "canonical_perm p \<and> p \<noteq> []"
proof -
  have "p \<in> role_base role \<union> added ov \<union> insert ''*'' (set CANONICAL_PERMISSION_IDS)"
    using assms unfolding permissions_for_role_set Let_def by (simp only: split: if_splits) blast+
  then consider "p \<in> insert ''*'' (set CANONICAL_PERMISSION_IDS)" | "p \<in> added ov"
    by (auto simp: role_base_def dest: role_permissions_canonical)
  then show ?thesis
  proof cases
    case 1
    then show ?thesis using canonical_ids ids_nonempty by blast
  next
    case 2
    then show ?thesis by (auto simp: added_def dest: override_canonical split: option.splits)
  qed
qed

lemma snapshot_normalized:
  "set (normalize_permissions (Iter (map PStr (permissions_for_role role ov)))) = set (permissions_for_role role ov)"
  by (rule normalize_canonical) (blast dest: snapshot_canonical)

lemma permission_alias_id: "p \<in> set CANONICAL_PERMISSION_IDS \<Longrightarrow> permission_alias p = p"
  using canonical_ids by (auto simp: canonical_perm_def)

section \<open>Properties\<close>

text \<open>C20. Effective permissions are role defaults plus additions minus removals, and removal wins: a
  canonical permission is granted by the snapshot resolved for a user if and only if it is not
  removed and it is a default of the role, was added, or a wildcard of the role or of the
  additions, itself not removed, covers it. The role the check is given never matters for an
  authoritative snapshot.\<close>

theorem effective_permissions:
  assumes "p \<in> set CANONICAL_PERMISSION_IDS"
  shows "permission_granted any_role (Iter (map PStr (permissions_for_role role ov))) p True \<longleftrightarrow>
    p \<notin> removed ov \<and>
    (p \<in> set (ROLE_PERMISSIONS (canonical_role role)) \<or> p \<in> added ov \<or>
     ''*'' \<notin> removed ov \<and> (canonical_role role = PLATFORM_ADMIN \<or> ''*'' \<in> added ov))"
proof -
  have star: "p \<noteq> ''*''" "''*'' \<notin> set CANONICAL_PERMISSION_IDS"
    using assms by (auto simp: CANONICAL_PERMISSION_IDS_def)
  have base: "''*'' \<in> role_base role \<longleftrightarrow> canonical_role role = PLATFORM_ADMIN"
    by (cases "canonical_role role") (simp_all add: role_base_def)
  have admin: "role_base role = {''*''}" if "canonical_role role = PLATFORM_ADMIN"
    using that by (simp add: role_base_def)
  have "permission_granted any_role (Iter (map PStr (permissions_for_role role ov))) p True \<longleftrightarrow>
      ''*'' \<in> set (permissions_for_role role ov) \<or> p \<in> set (permissions_for_role role ov)"
    using snapshot_normalized [of role ov]
    by (simp add: permission_granted_def Let_def permission_alias_id [OF assms] del: normalize_permissions.simps)
  then show ?thesis
    using star assms base admin unfolding permissions_for_role_set Let_def role_base_def [symmetric] by auto
qed

theorem effective_permissions_witness:
  "\<not> permission_granted None (Iter (map PStr (permissions_for_role (Some ''admin'')
       (Some \<lparr>ov_add = IterNone, ov_remove = IterStr ''users.manage''\<rparr>)))) ''users.manage'' True"
  using effective_permissions [of "''users.manage''" None "Some ''admin''"
      "Some \<lparr>ov_add = IterNone, ov_remove = IterStr ''users.manage''\<rparr>"] permission_alias_id [of "''users.manage''"]
  by (simp add: removed_def set_normalize_list CANONICAL_PERMISSION_IDS_def)

text \<open>Intersecting grant ceilings is exact: a collection is accessible under the intersection if
  and only if it is accessible under both ceilings, wildcards included, so neither side can widen
  the other; and filtering items by two ceilings in turn is filtering by their intersection.\<close>

theorem intersect_grants_meet:
  "can_access_collection (intersect_grants previous current) c =
     (can_access_collection previous c \<and> can_access_collection current c) \<and>
   filter_collection_items (filter_collection_items items previous) current =
     filter_collection_items items (intersect_grants previous current)"
proof
  show "can_access_collection (intersect_grants previous current) c =
     (can_access_collection previous c \<and> can_access_collection current c)"
    by (auto simp: can_access_collection_def intersect_grants_def split: option.splits)
  show "filter_collection_items (filter_collection_items items previous) current =
     filter_collection_items items (intersect_grants previous current)"
    by (auto simp: filter_collection_items_def intersect_grants_def intro!: filter_cong split: option.splits)
qed

text \<open>C33. A retrieval context narrows, never widens: when one is built, every collection accessible
  under it was accessible under the caller's grants, its workspace is the session's unless the
  caller is a platform administrator, its tenant is a non-empty bounded name, and the user and
  permissions are passed on unchanged; and a request for an accessible collection succeeds with
  exactly that collection.\<close>

theorem retrieval_context_narrows:
  assumes "build_retrieval_context uid sess req allowed perms role coll tenant = Inr ctx"
  shows "(can_access_collection (rc_allowed_collection_ids ctx) c \<longrightarrow> can_access_collection allowed c) \<and>
    rc_workspace_id ctx = req \<and> (sess = Some req \<or> sess \<noteq> None \<and> canonical_role role = PLATFORM_ADMIN) \<and>
    rc_tenant_id ctx \<noteq> [] \<and> length (rc_tenant_id ctx) \<le> 128 \<and>
    rc_user_id ctx = uid \<and> rc_permissions ctx = perms \<and>
    (\<forall>n. coll \<noteq> None \<longrightarrow> coll \<noteq> Some [] \<longrightarrow> normalize_collection_id (the coll) = Some n \<longrightarrow>
       rc_allowed_collection_ids ctx = [n] \<and> can_access_collection allowed coll)"
proof -
  obtain tid where tid: "tenant = PStr tid" "strip tid \<noteq> []" "length (strip tid) \<le> 128"
    and ws: "can_access_workspace sess req role"
    using assms by (auto simp: build_retrieval_context_def split: if_splits pyval.splits)
  have coll: "rc_allowed_collection_ids ctx = allowed \<and> (coll = None \<or> coll = Some []) \<or>
      (\<exists>r n. coll = Some r \<and> r \<noteq> [] \<and> normalize_collection_id r = Some n \<and>
         (''*'' \<in> set allowed \<or> n \<in> set allowed) \<and> rc_allowed_collection_ids ctx = [n])"
    and rest: "rc_workspace_id ctx = req" "rc_tenant_id ctx = strip tid" "rc_user_id ctx = uid" "rc_permissions ctx = perms"
    using assms tid ws
    by (auto simp: build_retrieval_context_def rbind_Inr split: if_splits option.splits)
  have "can_access_collection (rc_allowed_collection_ids ctx) c \<longrightarrow> can_access_collection allowed c"
    using coll by (auto simp: can_access_collection_def split: option.splits)
  moreover have "sess = Some req \<or> sess \<noteq> None \<and> canonical_role role = PLATFORM_ADMIN"
    using ws by (auto simp: can_access_workspace_def split: option.splits if_splits)
  moreover have "\<forall>n. coll \<noteq> None \<longrightarrow> coll \<noteq> Some [] \<longrightarrow> normalize_collection_id (the coll) = Some n \<longrightarrow>
       rc_allowed_collection_ids ctx = [n] \<and> can_access_collection allowed coll"
    using coll by (auto simp: can_access_collection_def)
  ultimately show ?thesis using rest tid by auto
qed

theorem retrieval_context_narrows_witness:
  "\<exists>ctx. build_retrieval_context None (Some ''w'') ''w'' [''a'', ''b''] [] None (Some ''b'') (PStr ''t'') = Inr ctx \<and>
     rc_allowed_collection_ids ctx = [''b''] \<and> rc_workspace_id ctx = ''w''"
proof -
  have n: "normalize_collection_id ''b'' = Some ''b''" "strip ''w'' = ''w''" "strip ''t'' = ''t''"
    by (simp_all add: normalize_collection_id_def strip_id stripped_def char_defs lower_s_def)
  obtain ctx where c: "build_retrieval_context None (Some ''w'') ''w'' [''a'', ''b''] [] None (Some ''b'') (PStr ''t'') = Inr ctx"
    by (simp add: build_retrieval_context_def can_access_workspace_def n)
  show ?thesis using retrieval_context_narrows [OF c] c n by simp
qed

text \<open>Modern records never inherit access: for a user whose authorization state is set to anything
  but the legacy marker and whose collection grants are omitted or malformed, no collection is
  accessible at all, whatever the role; explicit grants are exactly the collections accessible.\<close>

theorem modern_user_no_inheritance:
  assumes "u_state u = Some st" "st \<noteq> ''LEGACY_UNMIGRATED''"
  shows "can_access_collection (allowed_collection_ids_for_user u) c \<longleftrightarrow>
    (\<exists>raw n. u_collections u = Some (Iter raw) \<and> normalize_collection_id (case c of None \<Rightarrow> [] | Some x \<Rightarrow> x) = Some n \<and>
       (\<exists>s. PStr s \<in> set raw \<and> (strip s = ''*'' \<or> normalize_collection_id s = Some n)))"
proof -
  have star: "normalize_collection_id s = Some ''*'' \<longleftrightarrow> strip s = ''*''" for s
    by (auto simp: normalize_collection_id_def Let_def CANONICAL_COLLECTION_ID_def lower_s_def char_defs split: if_splits)
  have one: "g \<in> set (collection_grant v) \<longleftrightarrow> (\<exists>s. v = PStr s \<and> normalize_collection_id s = Some g)" for g v
  proof (cases v)
    case (PStr s)
    then show ?thesis using star [of s]
      by (cases "strip s = []"; cases "strip s = ''*''")
         (auto simp: collection_grant_def normalize_collection_id_def Let_def)
  qed (simp_all add: collection_grant_def)
  have grant: "g \<in> set (concat (map collection_grant raw)) \<longleftrightarrow>
      (\<exists>s. PStr s \<in> set raw \<and> normalize_collection_id s = Some g)" for g raw
    using one by auto
  show ?thesis
  proof (cases "u_collections u")
    case None
    then show ?thesis using assms by (simp add: allowed_collection_ids_for_user_def can_access_collection_def split: option.splits)
  next
    case (Some it)
    show ?thesis
    proof (cases it)
      case (Iter raw)
      then have "allowed_collection_ids_for_user u = concat (map collection_grant raw)"
        using Some by (simp add: allowed_collection_ids_for_user_def)
      note allowed = this
      show ?thesis
      proof (cases "normalize_collection_id (case c of None \<Rightarrow> [] | Some x \<Rightarrow> x)")
        case (Some n)
        have "''*'' \<in> set (concat (map collection_grant raw)) \<or> n \<in> set (concat (map collection_grant raw)) \<longleftrightarrow>
            (\<exists>s. PStr s \<in> set raw \<and> (strip s = ''*'' \<or> normalize_collection_id s = Some n))"
          unfolding grant star [symmetric] by blast
        then show ?thesis
          unfolding can_access_collection_def allowed Some option.case using \<open>u_collections u = Some it\<close> Iter by simp
      qed (simp add: can_access_collection_def)
    qed (use Some in \<open>auto simp: allowed_collection_ids_for_user_def can_access_collection_def split: option.splits\<close>)
  qed
qed

theorem modern_user_no_inheritance_witness:
  "\<not> can_access_collection (allowed_collection_ids_for_user
     \<lparr>u_role = Some ''admin'', u_overrides = None, u_collections = None, u_state = Some ''MIGRATED''\<rparr>) (Some ''a'')"
  using modern_user_no_inheritance [of "\<lparr>u_role = Some ''admin'', u_overrides = None, u_collections = None,
      u_state = Some ''MIGRATED''\<rparr>" "''MIGRATED''" "Some ''a''"]
  by simp

end
