(* ===== verification/Json.thy ===== *)
theory Json
  imports Prelude
begin

text \<open>
  The part of Python's \<open>json\<close> that the sources use on flat objects of strings:
  \<open>json.dumps(d, ensure_ascii=False, sort_keys=True, separators=(",", ":"))\<close> on a
  dictionary of strings, and \<open>json.loads\<close> on a text that holds such an object (blanks
  and escapes included, duplicate keys kept for the hook that looks for them). Any other
  text is \<open>None\<close>: the callers reject it in both cases. The theorem at the end is that
  reading back what was written returns the sorted dictionary.
\<close>

section \<open>Writing\<close>

definition hex_c :: "nat \<Rightarrow> char" where
  "hex_c n = (if n < 10 then char_of (48 + n) else char_of (87 + n))"

definition json_escape_c :: "char \<Rightarrow> string" where
  "json_escape_c c =
     (if c = CHR 0x22 then [CHR 0x5C, CHR 0x22]
      else if c = CHR 0x5C then [CHR 0x5C, CHR 0x5C]
      else if c = CHR 0x0A then [CHR 0x5C, CHR ''n'']
      else if c = CHR 0x0D then [CHR 0x5C, CHR ''r'']
      else if c = CHR 0x09 then [CHR 0x5C, CHR ''t'']
      else if c = CHR 0x08 then [CHR 0x5C, CHR ''b'']
      else if c = CHR 0x0C then [CHR 0x5C, CHR ''f'']
      else if ord_c c < 32 then [CHR 0x5C, CHR ''u'', CHR ''0'', CHR ''0'', hex_c (ord_c c div 16), hex_c (ord_c c mod 16)]
      else [c])"

definition json_quote :: "string \<Rightarrow> string" where
  "json_quote s = CHR 0x22 # concat (map json_escape_c s) @ [CHR 0x22]"

definition json_pair :: "string \<times> string \<Rightarrow> string" where
  "json_pair kv = json_quote (fst kv) @ CHR '':'' # json_quote (snd kv)"

fun json_join :: "string list \<Rightarrow> string" where
  "json_join [] = []"
| "json_join [s] = s"
| "json_join (s # ss) = s @ CHR '','' # json_join ss"

definition json_dumps :: "dict \<Rightarrow> string" where
  "json_dumps d = CHR ''{'' # json_join (map json_pair (dict_sorted d)) @ [CHR ''}'']"

text \<open>\<open>len(s.encode("utf-8"))\<close> for code points below 256.\<close>

definition utf8_length :: "string \<Rightarrow> nat" where
  "utf8_length s = sum_list (map (\<lambda>c. if ord_c c < 128 then 1 else 2) s)"

section \<open>Reading\<close>

definition hex_value :: "char \<Rightarrow> nat option" where
  "hex_value c = (let n = ord_c c in
     if 48 \<le> n \<and> n \<le> 57 then Some (n - 48)
     else if 65 \<le> n \<and> n \<le> 70 then Some (n - 55)
     else if 97 \<le> n \<and> n \<le> 102 then Some (n - 87)
     else None)"

definition hex4 :: "char \<Rightarrow> char \<Rightarrow> char \<Rightarrow> char \<Rightarrow> char option" where
  "hex4 a b c d =
     (case (hex_value a, hex_value b, hex_value c, hex_value d) of
        (Some w, Some x, Some y, Some z) \<Rightarrow>
          (let n = 4096 * w + 256 * x + 16 * y + z in if n < 256 then Some (char_of n) else None)
      | _ \<Rightarrow> None)"

definition simple_escape :: "char \<Rightarrow> char option" where
  "simple_escape e = map_of
     [(CHR 0x22, CHR 0x22), (CHR 0x5C, CHR 0x5C), (CHR ''/'', CHR ''/''), (CHR ''b'', CHR 0x08),
      (CHR ''f'', CHR 0x0C), (CHR ''n'', CHR 0x0A), (CHR ''r'', CHR 0x0D), (CHR ''t'', CHR 0x09)] e"

text \<open>The text after an opening quote, up to the closing one.\<close>

fun json_string :: "string \<Rightarrow> (string \<times> string) option" where
  "json_string [] = None"
| "json_string (c # cs) =
     (if c = CHR 0x22 then Some ([], cs)
      else if ord_c c < 32 then None
      else if c \<noteq> CHR 0x5C then map_option (\<lambda>(t, r). (c # t, r)) (json_string cs)
      else case cs of
        [] \<Rightarrow> None
      | e # es \<Rightarrow>
          if e = CHR ''u'' then
            (case es of
               w # x # y # z # r' \<Rightarrow>
                 (case hex4 w x y z of
                    None \<Rightarrow> None
                  | Some d \<Rightarrow> map_option (\<lambda>(t, r). (d # t, r)) (json_string r'))
             | _ \<Rightarrow> None)
          else
            (case simple_escape e of
               None \<Rightarrow> None
             | Some d \<Rightarrow> map_option (\<lambda>(t, r). (d # t, r)) (json_string es)))"

definition skip_ws :: "string \<Rightarrow> string" where
  "skip_ws s = dropWhile (\<lambda>c. c \<in> {CHR '' '', CHR 0x09, CHR 0x0A, CHR 0x0D}) s"

definition json_member :: "string \<Rightarrow> ((string \<times> string) \<times> string) option" where
  "json_member s =
     (case s of
        [] \<Rightarrow> None
      | q # s' \<Rightarrow>
          if q \<noteq> CHR 0x22 then None
          else case json_string s' of
            None \<Rightarrow> None
          | Some (k, r) \<Rightarrow>
              (case skip_ws r of
                 [] \<Rightarrow> None
               | c # r' \<Rightarrow>
                   if c \<noteq> CHR '':'' then None
                   else case skip_ws r' of
                     [] \<Rightarrow> None
                   | q' # r'' \<Rightarrow>
                       if q' \<noteq> CHR 0x22 then None
                       else map_option (\<lambda>(v, rest). ((k, v), rest)) (json_string r'')))"

lemma length_skip_ws: "length (skip_ws s) \<le> length s"
  by (simp add: skip_ws_def length_dropWhile_le)

lemma json_string_length: "json_string s = Some (t, r) \<Longrightarrow> length r < length s"
  by (induction s arbitrary: t r rule: json_string.induct)
     (fastforce split: if_splits list.splits option.splits)+

lemma json_member_length: "json_member s = Some (kv, r) \<Longrightarrow> length r < length s"
proof -
  assume m: "json_member s = Some (kv, r)"
  then obtain s' k r1 r2 r3 v where
    s: "s = CHR 0x22 # s'" and k: "json_string s' = Some (k, r1)" and c: "skip_ws r1 = CHR '':'' # r2"
    and q: "skip_ws r2 = CHR 0x22 # r3" and v: "json_string r3 = Some (v, r)"
    by (auto simp: json_member_def split: list.splits option.splits if_splits)
  from json_string_length [OF k] json_string_length [OF v] length_skip_ws [of r1] length_skip_ws [of r2]
  show ?thesis by (simp add: s c q)
qed

function json_members :: "string \<Rightarrow> dict option" where
  "json_members s =
     (case json_member s of
        None \<Rightarrow> None
      | Some (kv, r) \<Rightarrow>
          (case skip_ws r of
             [] \<Rightarrow> None
           | c # r' \<Rightarrow>
               if c = CHR ''}'' then (if skip_ws r' = [] then Some [kv] else None)
               else if c = CHR '','' then map_option (Cons kv) (json_members (skip_ws r'))
               else None))"
  by pat_completeness auto

termination
proof (relation "measure length")
  fix s x kv r c r'
  assume m: "json_member s = Some x" "(kv, r) = x" and w: "skip_ws r = c # r'"
  have "length r < length s" "length (c # r') \<le> length r"
    using json_member_length [of s kv r] m length_skip_ws [of r] w by auto
  then show "(skip_ws r', s) \<in> measure length"
    using length_skip_ws [of r'] by simp
qed simp

definition json_loads :: "string \<Rightarrow> dict option" where
  "json_loads s =
     (case skip_ws s of
        [] \<Rightarrow> None
      | b # r \<Rightarrow>
          if b \<noteq> CHR ''{'' then None
          else case skip_ws r of
            [] \<Rightarrow> None
          | c # r' \<Rightarrow>
              if c = CHR ''}'' then (if skip_ws r' = [] then Some [] else None)
              else json_members (c # r'))"

section \<open>Reading back what was written\<close>

lemma hex_value_hex_c: "n < 16 \<Longrightarrow> hex_value (hex_c n) = Some n"
  by (auto simp: hex_value_def hex_c_def Let_def)

lemma hex4_escape: "ord_c c < 32 \<Longrightarrow> hex4 (CHR ''0'') (CHR ''0'') (hex_c (ord_c c div 16)) (hex_c (ord_c c mod 16)) = Some c"
proof -
  assume c: "ord_c c < 32"
  have z: "hex_value (CHR ''0'') = Some 0" by (simp add: hex_value_def)
  have n: "16 * (ord_c c div 16) + ord_c c mod 16 = ord_c c" by simp
  have "ord_c c div 16 < 16" "ord_c c mod 16 < 16" using c by simp_all
  then show ?thesis
    unfolding hex4_def z by (simp add: hex_value_hex_c n ord_c_less)
qed

lemma json_string_escape:
  "json_string (json_escape_c c @ rest) = map_option (\<lambda>(t, r). (c # t, r)) (json_string rest)"
  by (auto simp: json_escape_c_def simple_escape_def hex4_escape)

lemma json_string_quote: "json_string (concat (map json_escape_c s) @ CHR 0x22 # rest) = Some (s, rest)"
  by (induction s) (simp_all add: json_string_escape)

lemma skip_ws_id: "c \<notin> {CHR '' '', CHR 0x09, CHR 0x0A, CHR 0x0D} \<Longrightarrow> skip_ws (c # s) = c # s"
  by (simp add: skip_ws_def)

lemma json_member_pair: "json_member (json_pair kv @ rest) = Some (kv, rest)"
  by (cases kv) (simp add: json_member_def json_pair_def json_quote_def json_string_quote skip_ws_id)

declare json_members.simps [simp del]

lemma json_members_join:
  "d \<noteq> [] \<Longrightarrow> json_members (json_join (map json_pair d) @ [CHR ''}'']) = Some d"
proof (induction d rule: induct_list012)
  case (2 kv)
  then show ?case
    by (subst json_members.simps) (simp add: json_member_pair skip_ws_id skip_ws_def)
next
  case (3 kv kv' d)
  have q: "skip_ws (json_join (map json_pair (kv' # d)) @ [CHR ''}'']) =
      json_join (map json_pair (kv' # d)) @ [CHR ''}'']"
    by (cases d) (simp_all add: json_pair_def json_quote_def skip_ws_id)
  show ?case
    using 3 q by (subst json_members.simps) (simp add: json_member_pair skip_ws_id)
qed simp

lemma json_roundtrip: "json_loads (json_dumps d) = Some (dict_sorted d)"
proof (cases "dict_sorted d")
  case Nil
  then show ?thesis by (simp add: json_loads_def json_dumps_def skip_ws_def)
next
  case (Cons kv e)
  let ?body = "json_join (map json_pair (dict_sorted d)) @ [CHR ''}'']"
  obtain rest where b: "?body = CHR 0x22 # rest"
    unfolding Cons by (cases e) (auto simp: json_pair_def json_quote_def)
  have "json_loads (json_dumps d) = json_members ?body"
    unfolding json_loads_def json_dumps_def b by (simp add: skip_ws_id)
  also have "\<dots> = Some (dict_sorted d)"
    by (rule json_members_join) (simp add: Cons)
  finally show ?thesis .
qed

section \<open>How long it is\<close>

lemma utf8_length_simps [simp]:
  "utf8_length [] = 0" "utf8_length (s @ t) = utf8_length s + utf8_length t"
  "utf8_length (c # s) = (if ord_c c < 128 then 1 else 2) + utf8_length s"
  by (simp_all add: utf8_length_def)

lemma utf8_escape: "32 \<le> ord_c c \<Longrightarrow> utf8_length (json_escape_c c) \<le> 2"
  by (auto simp: json_escape_c_def)

lemma utf8_quote: "list_all (\<lambda>c. 32 \<le> ord_c c) s \<Longrightarrow> utf8_length (json_quote s) \<le> 2 * length s + 2"
proof -
  assume "list_all (\<lambda>c. 32 \<le> ord_c c) s"
  then have "utf8_length (concat (map json_escape_c s)) \<le> 2 * length s"
  proof (induction s)
    case (Cons c s)
    then show ?case using utf8_escape [of c] by simp
  qed simp
  then show ?thesis by (simp add: json_quote_def)
qed

lemma utf8_join:
  "(\<And>s. s \<in> set ss \<Longrightarrow> utf8_length s \<le> m) \<Longrightarrow> utf8_length (json_join ss) \<le> length ss * (m + 1)"
proof (induction ss rule: json_join.induct)
  case (3 s s' ss)
  have "utf8_length s \<le> m" using 3(2) by simp
  moreover have "utf8_length (json_join (s' # ss)) \<le> length (s' # ss) * (m + 1)"
    using 3 by simp
  ultimately show ?case by simp
qed auto

end
