(* ===== verification/PyObj.thy ===== *)
theory PyObj
  imports Json
begin

text \<open>
  Nested Python values (lists, and dictionaries with string keys), their equality and their JSON
  text, and stateful operations that may raise: an operation maps a state to its outcome (\<open>Inl\<close>
  the exception) and the state it leaves, so that what was written before an exception stays
  written.
\<close>

section \<open>Nested values\<close>

datatype pyobj = Val pyval | Lst "pyobj list" | Dct "(string \<times> pyobj) list"

text \<open>
  \<open>==\<close>: lists element by element, dictionaries (their keys are distinct) by their entries.
\<close>

fun obj_eq :: "pyobj \<Rightarrow> pyobj \<Rightarrow> bool"
  and objs_eq :: "pyobj list \<Rightarrow> pyobj list \<Rightarrow> bool"
  and entries_in :: "(string \<times> pyobj) list \<Rightarrow> (string \<times> pyobj) list \<Rightarrow> bool" where
  "obj_eq (Val v) y = (case y of Val w \<Rightarrow> py_eq v w | _ \<Rightarrow> False)"
| "obj_eq (Lst xs) y = (case y of Lst ys \<Rightarrow> objs_eq xs ys | _ \<Rightarrow> False)"
| "obj_eq (Dct d) y = (case y of Dct e \<Rightarrow> length d = length e \<and> entries_in d e | _ \<Rightarrow> False)"
| "objs_eq [] ys = (ys = [])"
| "objs_eq (x # xs) ys = (case ys of [] \<Rightarrow> False | y # zs \<Rightarrow> obj_eq x y \<and> objs_eq xs zs)"
| "entries_in [] e = True"
| "entries_in ((k, x) # d) e =
     ((case map_of e k of None \<Rightarrow> False | Some y \<Rightarrow> obj_eq x y) \<and> entries_in d e)"

text \<open>\<open>d.get(k)\<close> and \<open>d.get(k, default)\<close>.\<close>

definition get_key :: "(string \<times> pyobj) list \<Rightarrow> string \<Rightarrow> pyobj" where
  "get_key d k = (case map_of d k of None \<Rightarrow> Val PNone | Some x \<Rightarrow> x)"

definition get_default :: "(string \<times> pyobj) list \<Rightarrow> string \<Rightarrow> pyobj \<Rightarrow> pyobj" where
  "get_default d k dflt = (case map_of d k of None \<Rightarrow> dflt | Some x \<Rightarrow> x)"

lemma obj_eq_str [simp]: "obj_eq x (Val (PStr s)) \<longleftrightarrow> x = Val (PStr s)"
proof (cases x)
  case (Val v)
  have "py_eq v (PStr s) \<longleftrightarrow> v = PStr s"
  proof (cases v)
    case (PFloat x)
    then show ?thesis by (cases x) auto
  qed auto
  with Val show ?thesis by simp
qed auto

section \<open>JSON text\<close>

text \<open>Decimal notation of an integer. Python refuses to convert one of more than 4300 digits.\<close>

fun nat_digits :: "nat \<Rightarrow> string" where
  "nat_digits n = (if n < 10 then [char_of (48 + n)] else nat_digits (n div 10) @ [char_of (48 + n mod 10)])"

declare nat_digits.simps [simp del]

definition int_text :: "int \<Rightarrow> string option" where
  "int_text n =
     (let ds = nat_digits (nat \<bar>n\<bar>) in
      if length ds > 4300 then None else Some (if n < 0 then CHR ''-'' # ds else ds))"

text \<open>
  \<open>json.dumps(value, ensure_ascii=False, sort_keys=True, separators=(",", ":"), allow_nan=False)\<close>;
  \<open>None\<close> when it raises. The argument \<open>repr\<close> is the text of a finite float.
\<close>

fun json_text :: "(real \<Rightarrow> string) \<Rightarrow> pyobj \<Rightarrow> string option"
  and json_texts :: "(real \<Rightarrow> string) \<Rightarrow> pyobj list \<Rightarrow> string list option"
  and json_entries :: "(real \<Rightarrow> string) \<Rightarrow> (string \<times> pyobj) list \<Rightarrow> dict option" where
  "json_text repr (Val v) =
     (case v of
        PNone \<Rightarrow> Some ''null''
      | PBool b \<Rightarrow> Some (if b then ''true'' else ''false'')
      | PInt n \<Rightarrow> int_text n
      | PFloat (Fin x) \<Rightarrow> Some (repr x)
      | PStr s \<Rightarrow> Some (json_quote s)
      | _ \<Rightarrow> None)"
| "json_text repr (Lst xs) =
     map_option (\<lambda>ts. CHR ''['' # json_join ts @ '']'') (json_texts repr xs)"
| "json_text repr (Dct d) =
     map_option (\<lambda>es. CHR ''{'' # json_join (map (\<lambda>(k, t). json_quote k @ CHR '':'' # t) (dict_sorted es)) @ ''}'')
       (json_entries repr d)"
| "json_texts repr [] = Some []"
| "json_texts repr (x # xs) =
     (case json_text repr x of None \<Rightarrow> None | Some t \<Rightarrow> map_option (Cons t) (json_texts repr xs))"
| "json_entries repr [] = Some []"
| "json_entries repr ((k, x) # d) =
     (case json_text repr x of None \<Rightarrow> None | Some t \<Rightarrow> map_option (Cons (k, t)) (json_entries repr d))"

section \<open>Stateful operations\<close>

type_synonym ('s, 'e, 'a) op = "'s \<Rightarrow> ('e + 'a) \<times> 's"

definition ret :: "'a \<Rightarrow> ('s, 'e, 'a) op" where
  "ret x s = (Inr x, s)"

definition raises :: "'e \<Rightarrow> ('s, 'e, 'a) op" where
  "raises e s = (Inl e, s)"

definition sbind :: "('s, 'e, 'a) op \<Rightarrow> ('a \<Rightarrow> ('s, 'e, 'b) op) \<Rightarrow> ('s, 'e, 'b) op" where
  "sbind m f s = (case m s of (Inl e, t) \<Rightarrow> (Inl e, t) | (Inr x, t) \<Rightarrow> f x t)"

definition reading :: "('s \<Rightarrow> 'a) \<Rightarrow> ('s, 'e, 'a) op" where
  "reading f s = (Inr (f s), s)"

definition writing :: "('s \<Rightarrow> 's) \<Rightarrow> ('s, 'e, unit) op" where
  "writing f s = (Inr (), f s)"

definition guard_op :: "bool \<Rightarrow> 'e \<Rightarrow> ('s, 'e, unit) op" where
  "guard_op bad e s = (if bad then (Inl e, s) else (Inr (), s))"

definition of_result :: "'e + 'a \<Rightarrow> ('s, 'e, 'a) op" where
  "of_result r s = (r, s)"

lemmas op_defs = ret_def raises_def reading_def writing_def guard_op_def of_result_def

text \<open>
  The weakest precondition: after \<open>m\<close>, a returned value and the state satisfy \<open>Q\<close>, and the
  state that an exception leaves satisfies \<open>E\<close>. The collection \<open>wps\<close> computes it.
\<close>

definition wp :: "('s, 'e, 'a) op \<Rightarrow> ('a \<Rightarrow> 's \<Rightarrow> bool) \<Rightarrow> ('s \<Rightarrow> bool) \<Rightarrow> 's \<Rightarrow> bool" where
  "wp m Q E s = (case m s of (Inl e, t) \<Rightarrow> E t | (Inr x, t) \<Rightarrow> Q x t)"

named_theorems wps

lemma wp_bind [wps]: "wp (sbind m f) Q E s = wp m (\<lambda>x. wp (f x) Q E) E s"
  by (auto simp: wp_def sbind_def split: prod.splits sum.splits)

lemma wp_simple [wps]:
  "wp (ret x) Q E s = Q x s" "wp (raises e) Q' E s = E s" "wp (reading f) R E s = R (f s) s"
  "wp (guard_op b e) T E s = (if b then E s else T () s)" "wp (writing g) T E s = T () (g s)"
  by (simp_all add: wp_def op_defs)

lemma wp_of_result [wps]: "wp (of_result r) Q E s = (case r of Inl e \<Rightarrow> E s | Inr x \<Rightarrow> Q x s)"
  by (simp add: wp_def op_defs split: sum.splits)

lemma wp_if [wps]: "wp (if c then m else n) Q E s = (if c then wp m Q E s else wp n Q E s)"
  by simp

lemma wp_case_option [wps]:
  "wp (case x of None \<Rightarrow> m | Some y \<Rightarrow> f y) Q E s = (case x of None \<Rightarrow> wp m Q E s | Some y \<Rightarrow> wp (f y) Q E s)"
  by (cases x) simp_all

lemma wp_mono: "wp m Q E s \<Longrightarrow> (\<And>x t. Q x t \<Longrightarrow> Q' x t) \<Longrightarrow> (\<And>t. E t \<Longrightarrow> E' t) \<Longrightarrow> wp m Q' E' s"
  by (auto simp: wp_def split: prod.splits sum.splits)

lemma wp_state: "wp m (\<lambda>_. P) P s \<longleftrightarrow> P (snd (m s))"
  by (auto simp: wp_def split: prod.splits sum.splits)

lemma wp_Inr: "wp m Q E s \<Longrightarrow> m s = (Inr x, t) \<Longrightarrow> Q x t"
  by (simp add: wp_def)

lemma sbind_Inr: "sbind m f s = (Inr y, t) \<longleftrightarrow> (\<exists>x u. m s = (Inr x, u) \<and> f x u = (Inr y, t))"
  by (auto simp: sbind_def split: prod.splits sum.splits)

lemma op_bind_simps [simp]:
  "sbind (ret x) f s = f x s" "sbind (raises e) f s = (Inl e, s)" "sbind (reading g) f s = f (g s) s"
  "sbind (writing h) k s = k () (h s)" "sbind (guard_op b e) k s = (if b then (Inl e, s) else k () s)"
  "sbind (of_result (Inr x)) f s = f x s" "sbind (of_result (Inl e)) f s = (Inl e, s)"
  by (simp_all add: sbind_def op_defs)

end
