(* ===== verification/Publication.thy ===== *)
theory Publication
  imports PyObj
begin

text \<open>
  The publication authority of the knowledge package
  (\<open>packages/knowledge/src/rick_knowledge/publication.py\<close>, with \<open>json_boundary.py\<close> and the
  receipt and checkpoint tables of the in-memory store in \<open>store.py\<close>): snapshots of a job with
  their validation, ingestion checkpoints, and the receipts that record how a publication ended.

  A method that holds the publication lock throughout is one operation. The only method that reads a
  receipt and writes it back without holding that lock in between is \<open>save_publication_snapshot\<close>; it is
  the two operations \<open>snapshot_candidate\<close> and \<open>write_publication\<close>, so that what others do under the
  publication lock in the meantime is part of the runs below. The clock is an argument, and so is
  \<open>repr\<close>, the text of a float.
\<close>

section \<open>Snapshots\<close>

datatype store_error =
    StoreValueError string
  | OwnershipLostError string
  | StoreKeyError string
  | StoreOverflowError
  | StoreTypeError

record snapshot =
  sn_attempt :: pyval
  sn_created_at :: pyval
  sn_started_at :: pyval
  sn_finished_at :: pyval
  sn_metadata :: "(string \<times> pyobj) list"
  sn_heartbeats :: pyobj

text \<open>The attributes of the ingestion job that the store reads.\<close>

record pub_job =
  pj_job_id :: string
  pj_tenant_id :: string
  pj_workspace_id :: string
  pj_collection_id :: string
  pj_document_id :: "string option"
  pj_status :: string
  pj_attempt :: pyval
  pj_created_at :: pyval
  pj_started_at :: pyval
  pj_finished_at :: pyval
  pj_cancel_requested :: bool
  pj_metadata :: "(string \<times> pyobj) list"
  pj_heartbeats :: pyobj

definition MAX_METADATA_JSON_BYTES :: nat where "MAX_METADATA_JSON_BYTES = 256 * 1024"
definition MAX_CHECKPOINT_BYTES :: nat where "MAX_CHECKPOINT_BYTES = 64 * 1024 * 1024"

definition encode_metadata :: "(real \<Rightarrow> string) \<Rightarrow> (string \<times> pyobj) list \<Rightarrow> store_error + string" where
  "encode_metadata repr d =
     (case json_text repr (Dct d) of
        None \<Rightarrow> Inl (StoreValueError ''metadata must be finite JSON'')
      | Some encoded \<Rightarrow>
          if utf8_length encoded > MAX_METADATA_JSON_BYTES
          then Inl (StoreValueError ''metadata exceeds the JSON size limit'') else Inr encoded)"

text \<open>\<open>json.dumps\<close> itself raises a \<open>ValueError\<close> or a \<open>TypeError\<close>: one value here.\<close>

definition encode_checkpoint :: "(real \<Rightarrow> string) \<Rightarrow> pyobj \<Rightarrow> store_error + string" where
  "encode_checkpoint repr x =
     (case json_text repr x of
        None \<Rightarrow> Inl StoreTypeError
      | Some encoded \<Rightarrow>
          if utf8_length encoded > MAX_CHECKPOINT_BYTES
          then Inl (StoreValueError ''ingestion checkpoint exceeds its size limit'') else Inr encoded)"

fun identity_ok :: "pyobj \<Rightarrow> bool" where
  "identity_ok (Val (PStr s)) = (strip s \<noteq> [] \<and> length s \<le> 256)"
| "identity_ok x = False"

definition require_publication_identities :: "pyobj list \<Rightarrow> store_error + unit" where
  "require_publication_identities values =
     (if list_all identity_ok values then Inr ()
      else Inl (StoreValueError ''publication identities must be nonblank bounded strings''))"

definition sn_number :: "pyval \<Rightarrow> real" where
  "sn_number v = (case finite_number v of None \<Rightarrow> 0 | Some x \<Rightarrow> x)"

definition timestamp_checks :: "bool \<Rightarrow> pyval \<Rightarrow> (bool \<times> store_error) list" where
  "timestamp_checks required v =
     (if v = PNone \<and> \<not> required then []
      else [(\<not> is_number v, StoreValueError ''invalid publication timestamp''),
            (float_overflows v, StoreOverflowError),
            (finite_number v = None \<or> sn_number v < 0, StoreValueError ''invalid publication timestamp'')])"

definition times_out_of_order :: "snapshot \<Rightarrow> bool" where
  "times_out_of_order sn =
     (let created = sn_created_at sn; started = sn_started_at sn; finished = sn_finished_at sn in
      (started \<noteq> PNone \<and> sn_number started < sn_number created) \<or>
      (finished \<noteq> PNone \<and> sn_number finished < sn_number (if started \<noteq> PNone then started else created)))"

definition snapshot_entries :: "snapshot \<Rightarrow> (string \<times> pyobj) list" where
  "snapshot_entries sn =
     [(''attempt'', Val (sn_attempt sn)), (''created_at'', Val (sn_created_at sn)),
      (''started_at'', Val (sn_started_at sn)), (''finished_at'', Val (sn_finished_at sn)),
      (''metadata'', Dct (sn_metadata sn)), (''heartbeats'', sn_heartbeats sn)]"

definition attempt_count_ok :: "pyval \<Rightarrow> bool" where
  "attempt_count_ok v = (case v of PInt n \<Rightarrow> 1 \<le> n \<and> n \<le> 64 | _ \<Rightarrow> False)"

definition document_owner_ok :: "(string \<times> pyobj) list \<Rightarrow> pyobj \<Rightarrow> pyobj \<Rightarrow> bool" where
  "document_owner_ok metadata attempt_id document_attempt =
     (let document_owner = get_default metadata ''published_document_attempt'' attempt_id;
          legacy_dedup = (get_key metadata ''deduplicated'' = Val (PBool True) \<and> document_owner = Val PNone \<and>
            obj_eq document_attempt attempt_id)
      in obj_eq document_owner document_attempt \<or> legacy_dedup)"

definition queue_attempt_ok :: "(string \<times> pyobj) list \<Rightarrow> pyval \<Rightarrow> bool" where
  "queue_attempt_ok metadata attempt =
     (case get_default metadata ''queue_attempt'' (Val attempt) of
        Val (PInt n) \<Rightarrow> attempt = PInt n
      | _ \<Rightarrow> False)"

definition snapshot_checks :: "snapshot \<Rightarrow> pyobj \<Rightarrow> pyobj \<Rightarrow> (bool \<times> store_error) list" where
  "snapshot_checks sn attempt_id document_attempt =
     [(\<not> attempt_count_ok (sn_attempt sn), StoreValueError ''invalid publication attempt count'')] @
     timestamp_checks True (sn_created_at sn) @ timestamp_checks False (sn_started_at sn) @
     timestamp_checks False (sn_finished_at sn) @
     [(times_out_of_order sn, StoreValueError ''publication timestamps are out of order''),
      (\<not> obj_eq (get_key (sn_metadata sn) ''publication_attempt'') attempt_id,
         OwnershipLostError ''publication snapshot attempt changed''),
      (\<not> document_owner_ok (sn_metadata sn) attempt_id document_attempt,
         OwnershipLostError ''publication snapshot document attempt changed''),
      (\<not> queue_attempt_ok (sn_metadata sn) (sn_attempt sn), StoreValueError ''publication queue attempt changed'')]"

definition validate_publication_snapshot ::
  "(real \<Rightarrow> string) \<Rightarrow> snapshot \<Rightarrow> pyobj \<Rightarrow> pyobj \<Rightarrow> store_error + unit" where
  "validate_publication_snapshot repr sn attempt_id document_attempt =
     rbind (checked (snapshot_checks sn attempt_id document_attempt) ()) (\<lambda>_.
     rbind (encode_metadata repr (snapshot_entries sn)) (\<lambda>_. Inr ()))"

definition publication_attempt :: "pub_job \<Rightarrow> store_error + pyobj" where
  "publication_attempt job =
     (case map_of (pj_metadata job) ''publication_attempt'' of
        None \<Rightarrow> Inl (StoreKeyError ''publication_attempt'') | Some x \<Rightarrow> Inr x)"

definition setdefault :: "(string \<times> pyobj) list \<Rightarrow> string \<Rightarrow> pyobj \<Rightarrow> (string \<times> pyobj) list" where
  "setdefault d k x = (if map_of d k = None then d @ [(k, x)] else d)"

definition publication_snapshot ::
  "(real \<Rightarrow> string) \<Rightarrow> pub_job \<Rightarrow> pyobj option \<Rightarrow> store_error + snapshot" where
  "publication_snapshot repr job document_attempt =
     rbind (publication_attempt job) (\<lambda>attempt_id.
     let metadata = (case document_attempt of
           Some x \<Rightarrow> if get_key (pj_metadata job) ''deduplicated'' = Val (PBool True)
                     then setdefault (pj_metadata job) ''published_document_attempt'' x else pj_metadata job
         | None \<Rightarrow> pj_metadata job);
         sn = \<lparr>sn_attempt = pj_attempt job, sn_created_at = pj_created_at job, sn_started_at = pj_started_at job,
               sn_finished_at = pj_finished_at job, sn_metadata = metadata, sn_heartbeats = pj_heartbeats job\<rparr>;
         owner = (case document_attempt of
           Some x \<Rightarrow> x | None \<Rightarrow> get_default (pj_metadata job) ''published_document_attempt'' attempt_id)
     in rbind (validate_publication_snapshot repr sn attempt_id owner) (\<lambda>_. Inr sn))"

section \<open>The tables\<close>

datatype pub_outcome = Pending_o | Active_o | Committed_o | Failed_o | Cancelled_o

fun outcome_name :: "pub_outcome \<Rightarrow> string" where
  "outcome_name Pending_o = ''pending''"
| "outcome_name Active_o = ''active''"
| "outcome_name Committed_o = ''committed''"
| "outcome_name Failed_o = ''failed''"
| "outcome_name Cancelled_o = ''cancelled''"

type_synonym scope_key = "string \<times> string \<times> string \<times> string"
  \<comment> \<open>tenant, workspace, collection, job\<close>

record publication =
  pb_job_id :: string
  pb_tenant_id :: string
  pb_workspace_id :: string
  pb_collection_id :: string
  pb_document_id :: string
  pb_attempt_id :: string
  pb_document_attempt :: string
  pb_outcome :: pub_outcome
  pb_cancel_requested :: bool
  pb_ready_count :: int
  pb_job_snapshot :: snapshot

record checkpoint =
  cp_job_id :: string
  cp_tenant_id :: string
  cp_workspace_id :: string
  cp_collection_id :: string
  cp_attempt_id :: string
  cp_document_id :: "string option"
  cp_fingerprint :: pyobj
  cp_state :: pub_outcome
  cp_cancel_requested :: bool
  cp_job_snapshot :: snapshot
  cp_artifacts :: "(string \<times> pyobj) list"

record pub_state =
  ps_publications :: "(scope_key \<times> publication) list"
  ps_checkpoints :: "(scope_key \<times> checkpoint) list"

definition job_key :: "pub_job \<Rightarrow> scope_key" where
  "job_key job = (pj_tenant_id job, pj_workspace_id job, pj_collection_id job, pj_job_id job)"

definition publication_key :: "publication \<Rightarrow> scope_key" where
  "publication_key r = (pb_tenant_id r, pb_workspace_id r, pb_collection_id r, pb_job_id r)"

definition checkpoint_key :: "checkpoint \<Rightarrow> scope_key" where
  "checkpoint_key c = (cp_tenant_id c, cp_workspace_id c, cp_collection_id c, cp_job_id c)"

definition opt_text :: "string option \<Rightarrow> pyobj" where
  "opt_text x = (case x of None \<Rightarrow> Val PNone | Some s \<Rightarrow> Val (PStr s))"

definition checkpoint_obj :: "checkpoint \<Rightarrow> pyobj" where
  "checkpoint_obj c =
     Dct [(''job_id'', Val (PStr (cp_job_id c))), (''tenant_id'', Val (PStr (cp_tenant_id c))),
          (''workspace_id'', Val (PStr (cp_workspace_id c))), (''collection_id'', Val (PStr (cp_collection_id c))),
          (''attempt_id'', Val (PStr (cp_attempt_id c))), (''document_id'', opt_text (cp_document_id c)),
          (''fingerprint'', cp_fingerprint c), (''state'', Val (PStr (outcome_name (cp_state c)))),
          (''cancel_requested'', Val (PBool (cp_cancel_requested c))),
          (''job_snapshot'', Dct (snapshot_entries (cp_job_snapshot c))), (''artifacts'', Dct (cp_artifacts c))]"

type_synonym ('x, 'a) pub_op = "('x pub_state_scheme, store_error, 'a) op"

definition write_ingestion_checkpoint :: "(real \<Rightarrow> string) \<Rightarrow> checkpoint \<Rightarrow> ('x, unit) pub_op" where
  "write_ingestion_checkpoint repr c =
     sbind (of_result (encode_checkpoint repr (checkpoint_obj c))) (\<lambda>_.
     writing (\<lambda>s. s\<lparr>ps_checkpoints := AList.update (checkpoint_key c) c (ps_checkpoints s)\<rparr>))"

definition merge_publication :: "publication option \<Rightarrow> publication \<Rightarrow> publication" where
  "merge_publication current r =
     (case current of
        None \<Rightarrow> r
      | Some old \<Rightarrow>
          if pb_attempt_id old = pb_attempt_id r then
            (let out = (if pb_outcome old \<noteq> Pending_o then pb_outcome old else pb_outcome r);
                 cancel = pb_cancel_requested r \<or> pb_cancel_requested old
             in r\<lparr>pb_outcome := (if cancel \<and> out = Failed_o then Cancelled_o else out),
                  pb_cancel_requested := cancel\<rparr>)
          else r)"

definition write_publication :: "publication \<Rightarrow> ('x, unit) pub_op" where
  "write_publication r =
     writing (\<lambda>s. s\<lparr>ps_publications :=
       AList.update (publication_key r) (merge_publication (map_of (ps_publications s) (publication_key r)) r)
         (ps_publications s)\<rparr>)"

definition mark_publication_cancel :: "pub_job \<Rightarrow> ('x, unit) pub_op" where
  "mark_publication_cancel job =
     sbind (reading (\<lambda>s. map_of (ps_publications s) (job_key job))) (\<lambda>found.
     case found of
       None \<Rightarrow> ret ()
     | Some r \<Rightarrow>
         sbind (of_result (publication_attempt job)) (\<lambda>a.
         if a = Val (PStr (pb_attempt_id r)) \<and> pb_outcome r = Pending_o
         then writing (\<lambda>s. s\<lparr>ps_publications :=
                AList.update (job_key job) (r\<lparr>pb_cancel_requested := True\<rparr>) (ps_publications s)\<rparr>)
         else ret ()))"

definition get_publication :: "string \<Rightarrow> string \<Rightarrow> string \<Rightarrow> string \<Rightarrow> ('x, publication option) pub_op" where
  "get_publication job_id tenant workspace collection =
     sbind (of_result (require_publication_identities
       [Val (PStr job_id), Val (PStr tenant), Val (PStr workspace), Val (PStr collection)])) (\<lambda>_.
     reading (\<lambda>s. map_of (ps_publications s) (tenant, workspace, collection, job_id)))"

definition job_publication :: "pub_job \<Rightarrow> ('x, publication option) pub_op" where
  "job_publication job = get_publication (pj_job_id job) (pj_tenant_id job) (pj_workspace_id job) (pj_collection_id job)"

section \<open>Ingestion checkpoints\<close>

definition checkpoint_owner :: "checkpoint \<Rightarrow> pyobj" where
  "checkpoint_owner c =
     get_default (sn_metadata (cp_job_snapshot c)) ''published_document_attempt'' (Val (PStr (cp_attempt_id c)))"

definition get_ingestion_checkpoint ::
  "(real \<Rightarrow> string) \<Rightarrow> string \<Rightarrow> string \<Rightarrow> string \<Rightarrow> string \<Rightarrow> ('x, checkpoint option) pub_op" where
  "get_ingestion_checkpoint repr job_id tenant workspace collection =
     sbind (of_result (require_publication_identities
       [Val (PStr job_id), Val (PStr tenant), Val (PStr workspace), Val (PStr collection)])) (\<lambda>_.
     sbind (reading (\<lambda>s. map_of (ps_checkpoints s) (tenant, workspace, collection, job_id))) (\<lambda>found.
     case found of
       None \<Rightarrow> ret None
     | Some c \<Rightarrow>
         sbind (guard_op (checkpoint_key c \<noteq> (tenant, workspace, collection, job_id))
                  (OwnershipLostError ''checkpoint scope changed'')) (\<lambda>_.
         sbind (of_result (validate_publication_snapshot repr (cp_job_snapshot c) (Val (PStr (cp_attempt_id c)))
                  (checkpoint_owner c))) (\<lambda>_.
         sbind (of_result (encode_checkpoint repr (checkpoint_obj c))) (\<lambda>_. ret (Some c))))))"

definition job_checkpoint :: "(real \<Rightarrow> string) \<Rightarrow> pub_job \<Rightarrow> ('x, checkpoint option) pub_op" where
  "job_checkpoint repr job =
     get_ingestion_checkpoint repr (pj_job_id job) (pj_tenant_id job) (pj_workspace_id job) (pj_collection_id job)"

definition check_checkpoint_facts :: "checkpoint \<Rightarrow> pub_job \<Rightarrow> store_error + unit" where
  "check_checkpoint_facts current job =
     (let saved = cp_job_snapshot current; changed = OwnershipLostError ''checkpoint attempt facts changed'' in
      checked [(\<not> py_eq (pj_attempt job) (sn_attempt saved), changed),
               (\<not> py_eq (pj_created_at job) (sn_created_at saved), changed),
               (sn_started_at saved \<noteq> PNone \<and> \<not> py_eq (pj_started_at job) (sn_started_at saved), changed)] ())"

text \<open>\<open>n + 1\<close> on a validated attempt count.\<close>

definition next_attempt :: "pyval \<Rightarrow> pyval" where
  "next_attempt v = (case v of PInt n \<Rightarrow> PInt (n + 1) | _ \<Rightarrow> v)"

definition job_identities :: "pub_job \<Rightarrow> pyobj \<Rightarrow> pyobj list" where
  "job_identities job attempt =
     [Val (PStr (pj_job_id job)), Val (PStr (pj_tenant_id job)), Val (PStr (pj_workspace_id job)),
      Val (PStr (pj_collection_id job)), attempt]"

fun obj_text :: "pyobj \<Rightarrow> string" where
  "obj_text (Val (PStr s)) = s"
| "obj_text x = []"

definition new_checkpoint :: "(real \<Rightarrow> string) \<Rightarrow> pub_job \<Rightarrow> pyobj \<Rightarrow> snapshot \<Rightarrow> ('x, checkpoint) pub_op" where
  "new_checkpoint repr job attempt sn =
     (let c = \<lparr>cp_job_id = pj_job_id job, cp_tenant_id = pj_tenant_id job, cp_workspace_id = pj_workspace_id job,
               cp_collection_id = pj_collection_id job, cp_attempt_id = obj_text attempt, cp_document_id = None,
               cp_fingerprint = Val PNone, cp_state = Active_o, cp_cancel_requested = False,
               cp_job_snapshot = sn, cp_artifacts = []\<rparr>
      in sbind (write_ingestion_checkpoint repr c) (\<lambda>_. ret c))"

definition begin_ingestion_checkpoint :: "(real \<Rightarrow> string) \<Rightarrow> pub_job \<Rightarrow> ('x, checkpoint) pub_op" where
  "begin_ingestion_checkpoint repr job =
     sbind (of_result (publication_attempt job)) (\<lambda>attempt.
     sbind (of_result (require_publication_identities (job_identities job attempt))) (\<lambda>_.
     sbind (of_result (publication_snapshot repr job None)) (\<lambda>sn.
     sbind (job_checkpoint repr job) (\<lambda>found.
     case found of
       None \<Rightarrow> new_checkpoint repr job attempt sn
     | Some current \<Rightarrow>
         if attempt = Val (PStr (cp_attempt_id current)) then
           sbind (of_result (check_checkpoint_facts current job)) (\<lambda>_. ret current)
         else if pj_attempt job \<noteq> next_attempt (sn_attempt (cp_job_snapshot current)) \<or>
                 cp_state current \<in> {Committed_o, Cancelled_o}
         then raises (OwnershipLostError ''checkpoint retry must advance the current attempt'')
         else new_checkpoint repr job attempt sn))))"

text \<open>The loop over the stored artifacts: whether the proposed ones keep every output.\<close>

definition output_kept :: "(string \<times> pyobj) list \<Rightarrow> string \<times> pyobj \<Rightarrow> bool" where
  "output_kept artifacts entry =
     (case entry of (key, saved) \<Rightarrow>
        (case (saved, map_of artifacts key) of
           (Lst old, Some (Lst new)) \<Rightarrow>
             if key = ''vectors'' then length old \<le> length new \<and> objs_eq (take (length old) new) old
             else obj_eq (Lst new) (Lst old)
         | (_, Some proposed) \<Rightarrow> obj_eq proposed saved
         | (_, None) \<Rightarrow> False))"

text \<open>
  \<open>save_ingestion_checkpoint\<close> returns the checkpoint, and the job, whose cancellation flag it may set.
\<close>

definition save_ingestion_checkpoint ::
  "(real \<Rightarrow> string) \<Rightarrow> pub_job \<Rightarrow> pyobj \<Rightarrow> (string \<times> pyobj) list \<Rightarrow> ('x, pub_job \<times> checkpoint) pub_op" where
  "save_ingestion_checkpoint repr job fingerprint artifacts =
     sbind (of_result (encode_checkpoint repr (Dct artifacts))) (\<lambda>_.
     sbind (job_checkpoint repr job) (\<lambda>found.
     case found of
       None \<Rightarrow> raises (OwnershipLostError ''checkpoint attempt changed'')
     | Some current \<Rightarrow>
         sbind (of_result (publication_attempt job)) (\<lambda>attempt.
         sbind (guard_op (attempt \<noteq> Val (PStr (cp_attempt_id current)) \<or> cp_state current \<noteq> Active_o)
                  (OwnershipLostError ''checkpoint attempt changed'')) (\<lambda>_.
         sbind (of_result (check_checkpoint_facts current job)) (\<lambda>_.
         sbind (guard_op (cp_fingerprint current \<noteq> Val PNone \<and>
                    (\<not> obj_eq (cp_fingerprint current) fingerprint \<or> cp_document_id current \<noteq> pj_document_id job))
                  (OwnershipLostError ''checkpoint content or processing contract changed'')) (\<lambda>_.
         if cp_cancel_requested current then ret (job\<lparr>pj_cancel_requested := True\<rparr>, current)
         else
           sbind (guard_op (\<not> list_all (output_kept artifacts) (cp_artifacts current))
                    (OwnershipLostError ''completed checkpoint output changed'')) (\<lambda>_.
           sbind (of_result (publication_snapshot repr job None)) (\<lambda>sn.
           let candidate = current\<lparr>cp_document_id := pj_document_id job, cp_fingerprint := fingerprint,
                 cp_job_snapshot := sn, cp_artifacts := artifacts\<rparr>
           in sbind (write_ingestion_checkpoint repr candidate) (\<lambda>_. ret (job, candidate))))))))))"

definition terminal_state :: "string \<Rightarrow> pub_outcome option" where
  "terminal_state status =
     map_of [(''published'', Committed_o), (''failed'', Failed_o), (''cancelled'', Cancelled_o)] status"

definition finish_needs_authority :: "pub_job \<Rightarrow> checkpoint \<Rightarrow> pub_outcome \<Rightarrow> publication option \<Rightarrow> store_error option" where
  "finish_needs_authority job current state found =
     (case found of
        None \<Rightarrow> None
      | Some receipt \<Rightarrow>
          if pb_attempt_id receipt = cp_attempt_id current \<and> pb_outcome receipt \<noteq> state
          then Some (OwnershipLostError ''checkpoint outcome requires decision authority'')
          else if pb_attempt_id receipt = cp_attempt_id current \<and> pb_outcome receipt = state \<and>
            \<not> py_eq (pj_finished_at job) (sn_finished_at (pb_job_snapshot receipt)) \<and>
            \<not> (sn_finished_at (pb_job_snapshot receipt) = PNone \<and> cp_state current = state \<and>
                sn_finished_at (cp_job_snapshot current) \<noteq> PNone \<and>
                py_eq (sn_finished_at (cp_job_snapshot current)) (pj_finished_at job))
          then Some (OwnershipLostError ''checkpoint finish requires completion authority'')
          else None)"

definition finish_ingestion_checkpoint :: "(real \<Rightarrow> string) \<Rightarrow> pub_job \<Rightarrow> ('x, unit) pub_op" where
  "finish_ingestion_checkpoint repr job =
     sbind (job_checkpoint repr job) (\<lambda>found.
     case found of
       None \<Rightarrow> ret ()
     | Some current \<Rightarrow>
         sbind (of_result (publication_attempt job)) (\<lambda>attempt.
         sbind (guard_op (attempt \<noteq> Val (PStr (cp_attempt_id current)))
                  (OwnershipLostError ''checkpoint attempt changed'')) (\<lambda>_.
         sbind (of_result (check_checkpoint_facts current job)) (\<lambda>_.
         sbind (guard_op (sn_finished_at (cp_job_snapshot current) \<noteq> PNone \<and>
                    \<not> py_eq (pj_finished_at job) (sn_finished_at (cp_job_snapshot current)))
                  (OwnershipLostError ''checkpoint finish is immutable'')) (\<lambda>_.
         case terminal_state (pj_status job) of
           None \<Rightarrow> raises (StoreKeyError (pj_status job))
         | Some state \<Rightarrow>
             sbind (job_publication job) (\<lambda>receipt.
             case finish_needs_authority job current state receipt of
               Some e \<Rightarrow> raises e
             | None \<Rightarrow>
                 sbind (guard_op (cp_state current \<noteq> Active_o \<and> cp_state current \<noteq> state)
                          (OwnershipLostError ''checkpoint outcome is immutable'')) (\<lambda>_.
                 sbind (of_result (publication_snapshot repr job None)) (\<lambda>sn.
                 write_ingestion_checkpoint repr (current\<lparr>cp_state := state, cp_artifacts := [],
                   cp_job_snapshot := sn,
                   cp_cancel_requested := (cp_cancel_requested current \<or> pj_cancel_requested job)\<rparr>)))))))))"

definition repairable :: "checkpoint option \<Rightarrow> publication option \<Rightarrow> bool" where
  "repairable current receipt =
     (case (current, receipt) of
        (Some c, Some r) \<Rightarrow>
          cp_state c = Committed_o \<and> pb_outcome r = Committed_o \<and> cp_attempt_id c = pb_attempt_id r \<and>
          cp_document_id c = None \<and> cp_fingerprint c = Val PNone \<and> cp_artifacts c = [] \<and>
          cp_cancel_requested c = pb_cancel_requested r \<and>
          obj_eq (Dct (snapshot_entries (cp_job_snapshot c))) (Dct (snapshot_entries (pb_job_snapshot r))) \<and>
          get_key (sn_metadata (pb_job_snapshot r)) ''deduplicated'' = Val (PBool True)
      | _ \<Rightarrow> False)"

definition repair_deduplicated_checkpoint :: "(real \<Rightarrow> string) \<Rightarrow> pub_job \<Rightarrow> ('x, bool) pub_op" where
  "repair_deduplicated_checkpoint repr job =
     sbind (job_checkpoint repr job) (\<lambda>found.
     sbind (job_publication job) (\<lambda>receipt.
     if \<not> repairable found receipt then ret False
     else case (found, receipt) of
       (Some c, Some r) \<Rightarrow>
         sbind (write_ingestion_checkpoint repr (c\<lparr>cp_document_id := Some (pb_document_id r)\<rparr>)) (\<lambda>_. ret True)
     | _ \<Rightarrow> ret False))"

definition request_ingestion_cancel :: "(real \<Rightarrow> string) \<Rightarrow> pub_job \<Rightarrow> ('x, unit) pub_op" where
  "request_ingestion_cancel repr job =
     sbind (of_result (publication_attempt job)) (\<lambda>attempt.
     sbind (of_result (require_publication_identities (job_identities job attempt))) (\<lambda>_.
     sbind (job_publication job) (\<lambda>receipt.
     if (case receipt of None \<Rightarrow> False | Some r \<Rightarrow> pb_outcome r = Committed_o) then ret ()
     else
       sbind (begin_ingestion_checkpoint repr job) (\<lambda>current.
       if cp_state current = Committed_o then ret ()
       else
         sbind (write_ingestion_checkpoint repr (current\<lparr>cp_cancel_requested := True\<rparr>)) (\<lambda>_.
         if (case receipt of
               None \<Rightarrow> False
             | Some r \<Rightarrow> pb_outcome r = Pending_o \<and> pb_attempt_id r = cp_attempt_id current \<and>
                 py_eq (sn_attempt (pb_job_snapshot r)) (pj_attempt job))
         then mark_publication_cancel job else ret ())))))"

section \<open>Receipts\<close>

definition pending_receipt ::
  "pub_job \<Rightarrow> pyobj \<Rightarrow> pyobj \<Rightarrow> int \<Rightarrow> snapshot \<Rightarrow> checkpoint option \<Rightarrow> publication" where
  "pending_receipt job attempt document_attempt n sn checkpoint =
     \<lparr>pb_job_id = pj_job_id job, pb_tenant_id = pj_tenant_id job, pb_workspace_id = pj_workspace_id job,
      pb_collection_id = pj_collection_id job, pb_document_id = obj_text (opt_text (pj_document_id job)),
      pb_attempt_id = obj_text attempt, pb_document_attempt = obj_text document_attempt, pb_outcome = Pending_o,
      pb_cancel_requested = (case checkpoint of None \<Rightarrow> False | Some c \<Rightarrow> cp_cancel_requested c),
      pb_ready_count = n, pb_job_snapshot = sn\<rparr>"

text \<open>The part under the locks: the new receipt is compared with the previous one and written.\<close>

definition begin_receipt :: "pub_job \<Rightarrow> publication \<Rightarrow> ('x, unit) pub_op" where
  "begin_receipt job r =
     (let write = sbind (guard_op (pj_finished_at job \<noteq> PNone)
                    (OwnershipLostError ''new publication cannot import a caller finish'')) (\<lambda>_. write_publication r)
      in
      sbind (job_publication job) (\<lambda>found.
      case found of
        None \<Rightarrow> write
      | Some previous \<Rightarrow>
          if pb_attempt_id previous = pb_attempt_id r then
            sbind (guard_op (pb_document_id previous \<noteq> pb_document_id r \<or>
                       pb_document_attempt previous \<noteq> pb_document_attempt r)
                     (OwnershipLostError ''publication identity changed within attempt'')) (\<lambda>_.
            guard_op (sn_attempt (pb_job_snapshot previous) \<noteq> pj_attempt job)
                     (OwnershipLostError ''publication count changed within attempt''))
          else if pb_outcome previous \<noteq> Failed_o
          then raises (OwnershipLostError ''publication recovery must precede a new attempt'')
          else if pj_attempt job \<noteq> next_attempt (sn_attempt (pb_job_snapshot previous))
          then raises (OwnershipLostError ''publication retry must advance exactly one attempt'')
          else write))"

definition begin_publication_at ::
  "(real \<Rightarrow> string) \<Rightarrow> pub_job \<Rightarrow> pyobj \<Rightarrow> pyobj \<Rightarrow> pyval \<Rightarrow> ('x, unit) pub_op" where
  "begin_publication_at repr job attempt document_attempt ready_count =
     sbind (of_result (require_publication_identities
              ([Val (PStr (pj_job_id job)), Val (PStr (pj_tenant_id job)), Val (PStr (pj_workspace_id job)),
                Val (PStr (pj_collection_id job)), opt_text (pj_document_id job), attempt, document_attempt]))) (\<lambda>_.
     case ready_count of
       PInt n \<Rightarrow>
         if n < 0 \<or> n > 100000 then raises (StoreValueError ''invalid ready point count'')
         else if (case pj_attempt job of PInt k \<Rightarrow> k < 1 | _ \<Rightarrow> True)
         then raises (StoreValueError ''invalid publication attempt count'')
         else
           sbind (of_result (publication_snapshot repr job (Some document_attempt))) (\<lambda>sn.
           sbind (job_checkpoint repr job) (\<lambda>checkpoint.
           sbind (guard_op (case checkpoint of None \<Rightarrow> False | Some c \<Rightarrow>
                      Val (PStr (cp_attempt_id c)) \<noteq> attempt \<or> sn_attempt (cp_job_snapshot c) \<noteq> pj_attempt job)
                    (OwnershipLostError ''publication checkpoint attempt changed'')) (\<lambda>_.
           begin_receipt job (pending_receipt job attempt document_attempt n sn checkpoint))))
     | _ \<Rightarrow> raises (StoreValueError ''invalid ready point count''))"

definition begin_publication ::
  "(real \<Rightarrow> string) \<Rightarrow> pub_job \<Rightarrow> pyobj \<Rightarrow> pyval \<Rightarrow> ('x, unit) pub_op" where
  "begin_publication repr job document_attempt ready_count =
     sbind (of_result (publication_attempt job)) (\<lambda>attempt.
     begin_publication_at repr job attempt
       (if document_attempt = Val PNone then attempt else document_attempt) ready_count)"

definition terminal_publication ::
  "(real \<Rightarrow> string) \<Rightarrow> pyval \<Rightarrow> publication \<Rightarrow> pub_outcome \<Rightarrow> store_error + publication" where
  "terminal_publication repr now current out =
     (let saved = pb_job_snapshot current in
      rbind (validate_publication_snapshot repr saved (Val (PStr (pb_attempt_id current)))
               (Val (PStr (pb_document_attempt current)))) (\<lambda>_.
      if pb_outcome current \<noteq> Pending_o
      then Inl (OwnershipLostError ''completion requires a pending decision'')
      else if sn_finished_at saved = PNone \<and> float_overflows now then Inl StoreOverflowError
      else
        let lower = (if sn_started_at saved \<noteq> PNone then sn_started_at saved else sn_created_at saved);
            finished = (if sn_finished_at saved = PNone \<and> is_number now \<and> finite_number now \<noteq> None \<and> sn_number lower \<le> sn_number now
                        then now else sn_finished_at saved)
        in Inr (current\<lparr>pb_job_snapshot := saved\<lparr>sn_finished_at := finished\<rparr>, pb_outcome := out\<rparr>)))"

definition checkpoint_supplies_finish ::
  "(real \<Rightarrow> string) \<Rightarrow> publication \<Rightarrow> pyval \<Rightarrow> ('x, bool) pub_op" where
  "checkpoint_supplies_finish repr current finished =
     sbind (get_ingestion_checkpoint repr (pb_job_id current) (pb_tenant_id current) (pb_workspace_id current)
              (pb_collection_id current)) (\<lambda>found.
     ret (case found of
            None \<Rightarrow> False
          | Some c \<Rightarrow>
              cp_attempt_id c = pb_attempt_id current \<and> cp_state c = pb_outcome current \<and>
              cp_document_id c = Some (pb_document_id current) \<and>
              py_eq (sn_attempt (cp_job_snapshot c)) (sn_attempt (pb_job_snapshot current)) \<and>
              py_eq (sn_created_at (cp_job_snapshot c)) (sn_created_at (pb_job_snapshot current)) \<and>
              py_eq (sn_started_at (cp_job_snapshot c)) (sn_started_at (pb_job_snapshot current)) \<and>
              py_eq (sn_finished_at (cp_job_snapshot c)) finished))"

definition finish_allowed :: "(real \<Rightarrow> string) \<Rightarrow> pub_job \<Rightarrow> publication \<Rightarrow> pyval \<Rightarrow> ('x, bool) pub_op" where
  "finish_allowed repr job current finished =
     (if finished = PNone then ret True
      else if pb_outcome current = Pending_o \<or> terminal_state (pj_status job) \<noteq> Some (pb_outcome current) then ret False
      else checkpoint_supplies_finish repr current finished)"

text \<open>The part of \<open>save_publication_snapshot\<close> before the write: the receipt to be written.\<close>

definition snapshot_candidate :: "(real \<Rightarrow> string) \<Rightarrow> pub_job \<Rightarrow> ('x, publication) pub_op" where
  "snapshot_candidate repr job =
     sbind (job_publication job) (\<lambda>found.
     case found of
       None \<Rightarrow> raises (OwnershipLostError ''publication attempt changed'')
     | Some current \<Rightarrow>
         let saved = pb_job_snapshot current;
             immutable = OwnershipLostError ''publication snapshot facts are immutable'' in
         sbind (of_result (publication_attempt job)) (\<lambda>attempt.
         sbind (guard_op (attempt \<noteq> Val (PStr (pb_attempt_id current)))
                  (OwnershipLostError ''publication attempt changed'')) (\<lambda>_.
         sbind (guard_op (pj_document_id job \<noteq> Some (pb_document_id current))
                  (OwnershipLostError ''publication document changed'')) (\<lambda>_.
         sbind (of_result (validate_publication_snapshot repr saved (Val (PStr (pb_attempt_id current)))
                  (Val (PStr (pb_document_attempt current))))) (\<lambda>_.
         sbind (of_result (publication_snapshot repr job (Some (Val (PStr (pb_document_attempt current)))))) (\<lambda>candidate.
         sbind (guard_op (\<not> py_eq (sn_attempt candidate) (sn_attempt saved)) immutable) (\<lambda>_.
         sbind (guard_op (\<not> py_eq (sn_created_at candidate) (sn_created_at saved)) immutable) (\<lambda>_.
         sbind (guard_op (\<not> py_eq (sn_started_at candidate) (sn_started_at saved)) immutable) (\<lambda>_.
         if sn_finished_at saved = PNone then
           sbind (finish_allowed repr job current (sn_finished_at candidate)) (\<lambda>allowed.
           sbind (guard_op (\<not> allowed)
                    (OwnershipLostError ''publication finish requires its terminal outcome'')) (\<lambda>_.
           ret (current\<lparr>pb_job_snapshot := candidate\<lparr>sn_finished_at := PNone\<rparr>\<rparr>)))
         else
           sbind (guard_op (\<not> py_eq (sn_finished_at candidate) (sn_finished_at saved)) immutable) (\<lambda>_.
           ret (current\<lparr>pb_job_snapshot := candidate\<rparr>)))))))))))"

definition save_publication_snapshot :: "(real \<Rightarrow> string) \<Rightarrow> pub_job \<Rightarrow> ('x, unit) pub_op" where
  "save_publication_snapshot repr job = sbind (snapshot_candidate repr job) write_publication"

definition resolve_publication ::
  "(real \<Rightarrow> string) \<Rightarrow> pyval \<Rightarrow> publication \<Rightarrow> pub_outcome \<Rightarrow> ('x, publication option) pub_op" where
  "resolve_publication repr now record out =
     (let get = get_publication (pb_job_id record) (pb_tenant_id record) (pb_workspace_id record)
                  (pb_collection_id record) in
      if out \<notin> {Committed_o, Failed_o, Cancelled_o} then raises (StoreValueError ''invalid publication outcome'')
      else
        sbind get (\<lambda>found.
        case found of
          None \<Rightarrow> raises (OwnershipLostError ''publication attempt changed'')
        | Some current \<Rightarrow>
            sbind (guard_op (pb_attempt_id current \<noteq> pb_attempt_id record)
                     (OwnershipLostError ''publication attempt changed'')) (\<lambda>_.
            if pb_outcome current \<noteq> Pending_o then
              sbind (guard_op (pb_outcome current \<noteq> out)
                       (OwnershipLostError ''publication outcome is immutable'')) (\<lambda>_. ret (Some current))
            else
              sbind (of_result (terminal_publication repr now current out)) (\<lambda>candidate.
              sbind (write_publication candidate) (\<lambda>_. get)))))"

definition request_publication_cancel :: "pub_job \<Rightarrow> ('x, unit) pub_op" where
  "request_publication_cancel job =
     sbind (of_result (publication_attempt job)) (\<lambda>attempt.
     sbind (of_result (require_publication_identities (job_identities job attempt))) (\<lambda>_.
     mark_publication_cancel job))"

section \<open>What the operations do to receipts\<close>

text \<open>
  A receipt that is well-formed: its snapshot passes the checks, and a request to cancel never stays
  beside the outcome \<open>failed\<close>.
\<close>

definition receipt_ok :: "publication \<Rightarrow> bool" where
  "receipt_ok r =
     (first_error (snapshot_checks (pb_job_snapshot r) (Val (PStr (pb_attempt_id r)))
        (Val (PStr (pb_document_attempt r)))) = None \<and>
      pb_outcome r \<noteq> Active_o \<and> \<not> (pb_outcome r = Failed_o \<and> pb_cancel_requested r))"

definition receipts_ok :: "'x pub_state_scheme \<Rightarrow> bool" where
  "receipts_ok s = (\<forall>k r. map_of (ps_publications s) k = Some r \<longrightarrow> publication_key r = k \<and> receipt_ok r)"

definition attempt_no :: "publication \<Rightarrow> int" where
  "attempt_no r = (case sn_attempt (pb_job_snapshot r) of PInt n \<Rightarrow> n | _ \<Rightarrow> 0)"

text \<open>
  \<open>same_facts\<close>: the identity and the times of an attempt; \<open>same_receipt r r'\<close>: \<open>r'\<close> is a later state of the
  same attempt, with a decided outcome and a requested cancellation kept; \<open>evolves r r'\<close>: it is one,
  or the receipt of a later attempt after an attempt that was not decided otherwise.
\<close>

definition same_facts :: "publication \<Rightarrow> publication \<Rightarrow> bool" where
  "same_facts r r' =
     (publication_key r' = publication_key r \<and> pb_attempt_id r' = pb_attempt_id r \<and>
      pb_document_id r' = pb_document_id r \<and> pb_document_attempt r' = pb_document_attempt r \<and>
      sn_attempt (pb_job_snapshot r') = sn_attempt (pb_job_snapshot r) \<and>
      py_number (sn_created_at (pb_job_snapshot r')) = py_number (sn_created_at (pb_job_snapshot r)) \<and>
      py_number (sn_started_at (pb_job_snapshot r')) = py_number (sn_started_at (pb_job_snapshot r)))"

definition finish_no :: "publication \<Rightarrow> real option" where
  "finish_no r = py_number (sn_finished_at (pb_job_snapshot r))"

definition same_receipt :: "publication \<Rightarrow> publication \<Rightarrow> bool" where
  "same_receipt r r' =
     (same_facts r r' \<and> (pb_cancel_requested r \<longrightarrow> pb_cancel_requested r') \<and>
      (pb_outcome r \<noteq> Pending_o \<longrightarrow> pb_outcome r' = pb_outcome r \<and> finish_no r' = finish_no r))"

definition evolves :: "publication \<Rightarrow> publication \<Rightarrow> bool" where
  "evolves r r' =
     (same_receipt r r' \<or>
      publication_key r' = publication_key r \<and> attempt_no r < attempt_no r' \<and> pb_outcome r \<in> {Pending_o, Failed_o})"

type_synonym receipts = "(scope_key \<times> publication) list"

definition table_evolves :: "receipts \<Rightarrow> receipts \<Rightarrow> bool" where
  "table_evolves p q = (\<forall>k r. map_of p k = Some r \<longrightarrow> (\<exists>r'. map_of q k = Some r' \<and> evolves r r'))"

lemma same_facts_refl [simp]: "same_facts r r"
  by (simp add: same_facts_def)

lemma same_receipt_refl [simp]: "same_receipt r r"
  by (simp add: same_receipt_def)

lemma same_facts_trans: "same_facts a b \<Longrightarrow> same_facts b c \<Longrightarrow> same_facts a c"
  by (simp add: same_facts_def)

lemma same_receipt_trans: "same_receipt a b \<Longrightarrow> same_receipt b c \<Longrightarrow> same_receipt a c"
  by (auto simp: same_receipt_def intro: same_facts_trans)

lemma same_receipt_attempt: "same_receipt r r' \<Longrightarrow> attempt_no r' = attempt_no r \<and> publication_key r' = publication_key r"
  by (simp add: same_receipt_def same_facts_def attempt_no_def)

lemma evolves_trans: "evolves a b \<Longrightarrow> evolves b c \<Longrightarrow> evolves a c"
  unfolding evolves_def
  by (auto dest: same_receipt_attempt intro: same_receipt_trans) (auto simp: same_receipt_def)

lemma table_evolves_refl [simp]: "table_evolves p p"
  by (auto simp: table_evolves_def evolves_def)

lemma table_evolves_trans: "table_evolves p q \<Longrightarrow> table_evolves q r \<Longrightarrow> table_evolves p r"
  unfolding table_evolves_def by (meson evolves_trans)

text \<open>One update of the table by a well-formed receipt that evolves from the one it replaces.\<close>

definition table_inv :: "receipts \<Rightarrow> 'x pub_state_scheme \<Rightarrow> bool" where
  "table_inv p s = (receipts_ok s \<and> table_evolves p (ps_publications s))"

lemma table_inv_update:
  assumes "table_inv p s" and "receipt_ok r" and "publication_key r = k"
    and "\<And>old. map_of (ps_publications s) k = Some old \<Longrightarrow> evolves old r"
  shows "table_inv p (s\<lparr>ps_publications := AList.update k r (ps_publications s)\<rparr>)"
proof -
  have "table_evolves (ps_publications s) (AList.update k r (ps_publications s))"
    using assms(4) by (auto simp: table_evolves_def update_conv' evolves_def)
  then show ?thesis
    using assms(1-3) by (auto simp: table_inv_def receipts_ok_def update_conv' intro: table_evolves_trans)
qed

lemma table_inv_checkpoints [simp]: "table_inv p (s\<lparr>ps_checkpoints := c\<rparr>) = table_inv p s"
  by (simp add: table_inv_def receipts_ok_def)

lemma table_inv_ok: "table_inv p s \<Longrightarrow> map_of (ps_publications s) k = Some r \<Longrightarrow> publication_key r = k \<and> receipt_ok r"
  unfolding table_inv_def receipts_ok_def by blast

text \<open>The operations on checkpoints leave everything else as it is.\<close>

lemma wp_write_checkpoint [wps]:
  "wp (write_ingestion_checkpoint repr c) Q E s =
     (case encode_checkpoint repr (checkpoint_obj c) of
        Inl e \<Rightarrow> E s
      | Inr x \<Rightarrow> Q () (s\<lparr>ps_checkpoints := AList.update (checkpoint_key c) c (ps_checkpoints s)\<rparr>))"
  by (simp add: write_ingestion_checkpoint_def wps split: sum.splits)

lemma wp_get_publication [wps]:
  "wp (get_publication j t w c) Q E s =
     (if list_all identity_ok [Val (PStr j), Val (PStr t), Val (PStr w), Val (PStr c)]
      then Q (map_of (ps_publications s) (t, w, c, j)) s else E s)"
  by (simp add: get_publication_def require_publication_identities_def wps)

lemma wp_job_publication [wps]:
  "wp (job_publication job) Q E s =
     (if list_all identity_ok [Val (PStr (pj_job_id job)), Val (PStr (pj_tenant_id job)), Val (PStr (pj_workspace_id job)),
           Val (PStr (pj_collection_id job))]
      then Q (map_of (ps_publications s) (job_key job)) s else E s)"
  by (simp only: job_publication_def wps job_key_def)

lemma wp_get_checkpoint: "E s \<Longrightarrow> (\<And>c. Q c s) \<Longrightarrow> wp (get_ingestion_checkpoint repr j t w k) Q E s"
  by (auto simp: get_ingestion_checkpoint_def wps split: sum.splits option.splits)

lemma wp_job_checkpoint: "E s \<Longrightarrow> (\<And>c. Q c s) \<Longrightarrow> wp (job_checkpoint repr job) Q E s"
  by (simp add: job_checkpoint_def wp_get_checkpoint)

lemma wp_result: "E s \<Longrightarrow> (\<And>x. r = Inr x \<Longrightarrow> Q x s) \<Longrightarrow> wp (of_result r) Q E s"
  by (simp add: wps split: sum.splits)

lemma wp_option:
  "(x = None \<Longrightarrow> wp m Q E s) \<Longrightarrow> (\<And>y. x = Some y \<Longrightarrow> wp (f y) Q E s) \<Longrightarrow>
     wp (case x of None \<Rightarrow> m | Some y \<Rightarrow> f y) Q E s"
  by (cases x) simp_all

lemma wp_guard: "E s \<Longrightarrow> (\<not> b \<Longrightarrow> Q () s) \<Longrightarrow> wp (guard_op b e) Q E s"
  by (simp add: wps)

lemmas wp_steps = wp_job_checkpoint wp_get_checkpoint wp_result wp_option wp_guard

lemma checkpoint_ops_keep:
  assumes "\<And>s c. P (s\<lparr>ps_checkpoints := c\<rparr>) = P s" and "P s"
  shows "wp (begin_ingestion_checkpoint repr job) (\<lambda>_. P) P s"
    and "wp (save_ingestion_checkpoint repr job fp arts) (\<lambda>_. P) P s"
    and "wp (finish_ingestion_checkpoint repr job) (\<lambda>_. P) P s"
    and "wp (repair_deduplicated_checkpoint repr job) (\<lambda>_. P) P s"
proof -
  have new: "wp (new_checkpoint repr job a sn) (\<lambda>_. P) P s" for a sn
    using assms by (auto simp: new_checkpoint_def Let_def wps split: sum.splits)
  show "wp (begin_ingestion_checkpoint repr job) (\<lambda>_. P) P s"
    unfolding begin_ingestion_checkpoint_def wp_bind
    using assms(2) new by (intro wp_steps) (auto simp: wps split: sum.splits)
  show "wp (save_ingestion_checkpoint repr job fp arts) (\<lambda>_. P) P s"
    unfolding save_ingestion_checkpoint_def wp_bind Let_def
    using assms by (intro wp_steps) (auto simp: wps split: sum.splits)
  show "wp (finish_ingestion_checkpoint repr job) (\<lambda>_. P) P s"
    unfolding finish_ingestion_checkpoint_def wp_bind
    using assms by (intro wp_steps) (auto simp: wps split: sum.splits option.splits)
  show "wp (repair_deduplicated_checkpoint repr job) (\<lambda>_. P) P s"
    unfolding repair_deduplicated_checkpoint_def wp_bind
    using assms by (intro wp_steps) (auto simp: wps split: sum.splits option.splits)
qed

lemma cancel_op_keeps:
  assumes "\<And>s c. P (s\<lparr>ps_checkpoints := c\<rparr>) = P s" and "\<And>s. P s \<Longrightarrow> wp (mark_publication_cancel job) (\<lambda>_. P) P s"
    and "P s"
  shows "wp (request_ingestion_cancel repr job) (\<lambda>_. P) P s"
    and "wp (request_publication_cancel job) (\<lambda>_. P) P s"
proof -
  have later: "wp (write_ingestion_checkpoint repr c) Q P t" if "P t" "\<And>u. P u \<Longrightarrow> Q () u" for c t and Q :: "unit \<Rightarrow> 'a pub_state_scheme \<Rightarrow> bool"
    using that assms(1) by (auto simp: wps split: sum.splits)
  show "wp (request_ingestion_cancel repr job) (\<lambda>_. P) P s"
    unfolding request_ingestion_cancel_def wp_bind
    using assms(3)
    by (intro wp_steps)
       (auto simp only: wp_job_publication wp_if wp_bind wp_simple split: if_split
          intro!: wp_mono [OF checkpoint_ops_keep(1) [OF assms(1,3)]] later assms(2))
  show "wp (request_publication_cancel job) (\<lambda>_. P) P s"
    unfolding request_publication_cancel_def wp_bind using assms(2,3) by (intro wp_steps) auto
qed

text \<open>Snapshots that passed the checks.\<close>

lemma validate_snapshot_ok: "validate_publication_snapshot repr sn a d = Inr u \<Longrightarrow> first_error (snapshot_checks sn a d) = None"
  unfolding validate_publication_snapshot_def by (simp only: returns) blast

lemma publication_snapshot_ok:
  assumes "publication_snapshot repr job (Some x) = Inr sn"
  shows "\<exists>a. publication_attempt job = Inr a \<and> first_error (snapshot_checks sn a x) = None \<and>
    sn_attempt sn = pj_attempt job \<and> sn_finished_at sn = pj_finished_at job"
  using assms unfolding publication_snapshot_def Let_def
  by (simp only: returns) (auto dest!: validate_snapshot_ok)

lemma timestamp_none [simp]: "first_error (timestamp_checks False PNone) = None"
  by (simp add: timestamp_checks_def)

lemma timestamp_number: "first_error (timestamp_checks q v) = None \<Longrightarrow> v \<noteq> PNone \<Longrightarrow> is_number v \<and> finite_number v \<noteq> None \<and> 0 \<le> sn_number v"
  by (auto simp: timestamp_checks_def)

lemma snapshot_checks_facts:
  assumes "first_error (snapshot_checks sn a d) = None"
  shows "attempt_count_ok (sn_attempt sn)" "first_error (timestamp_checks True (sn_created_at sn)) = None"
    "first_error (timestamp_checks False (sn_started_at sn)) = None" "\<not> times_out_of_order sn"
  using assms by (simp_all add: snapshot_checks_def)

lemma snapshot_checks_finish:
  assumes "first_error (snapshot_checks sn a d) = None"
    and "v = PNone \<or> is_number v \<and> \<not> float_overflows v \<and> finite_number v \<noteq> None \<and>
      sn_number (if sn_started_at sn \<noteq> PNone then sn_started_at sn else sn_created_at sn) \<le> sn_number v"
  shows "first_error (snapshot_checks (sn\<lparr>sn_finished_at := v\<rparr>) a d) = None"
proof -
  have lower: "0 \<le> sn_number (if sn_started_at sn \<noteq> PNone then sn_started_at sn else sn_created_at sn)"
    using snapshot_checks_facts [OF assms(1)] timestamp_number [of False "sn_started_at sn"]
    by (auto simp: timestamp_checks_def)
  have "first_error (timestamp_checks False v) = None"
    using assms(2) lower by (auto simp: timestamp_checks_def)
  moreover have "\<not> times_out_of_order (sn\<lparr>sn_finished_at := v\<rparr>)"
    using snapshot_checks_facts(4) [OF assms(1)] assms(2) by (auto simp: times_out_of_order_def Let_def)
  ultimately show ?thesis using assms(1) by (simp add: snapshot_checks_def)
qed

lemma py_eq_number:
  assumes "py_eq v w" and "v = PNone \<or> is_number v \<and> finite_number v \<noteq> None"
  shows "py_number w = py_number v"
proof (cases v)
  case (PFloat x)
  then show ?thesis using assms by (cases x) auto
qed (use assms in auto)

lemma attempt_count_eq: "attempt_count_ok v \<Longrightarrow> attempt_count_ok w \<Longrightarrow> py_eq v w \<Longrightarrow> w = v"
  by (auto simp: attempt_count_ok_def split: pyval.splits)

text \<open>Requesting a cancellation.\<close>

lemma mark_cancel_keeps:
  assumes "table_inv p s"
  shows "wp (mark_publication_cancel job) (\<lambda>_. table_inv p) (table_inv p) s"
proof -
  have "table_inv p (s\<lparr>ps_publications := AList.update (job_key job) (r\<lparr>pb_cancel_requested := True\<rparr>) (ps_publications s)\<rparr>)"
    if r: "map_of (ps_publications s) (job_key job) = Some r" "pb_outcome r = Pending_o" for r
    using table_inv_ok [OF assms r(1)] r
    by (intro table_inv_update [OF assms])
       (auto simp: receipt_ok_def publication_key_def evolves_def same_receipt_def same_facts_def)
  then show ?thesis
    using assms by (auto simp: mark_publication_cancel_def wps split: option.splits sum.splits)
qed

text \<open>
  A receipt about to be written by \<open>save_publication_snapshot\<close>: it differs from the current one in
  the rest of its snapshot, and the current one may meanwhile have received a cancellation.
\<close>

definition candidate_for :: "'x pub_state_scheme \<Rightarrow> publication \<Rightarrow> bool" where
  "candidate_for s r =
     (\<exists>cur. map_of (ps_publications s) (publication_key r) = Some cur \<and> same_facts cur r \<and>
        pb_outcome r = pb_outcome cur \<and> finish_no r = finish_no cur \<and>
        (pb_cancel_requested r \<longrightarrow> pb_cancel_requested cur) \<and>
        first_error (snapshot_checks (pb_job_snapshot r) (Val (PStr (pb_attempt_id r)))
          (Val (PStr (pb_document_attempt r)))) = None)"

lemma candidate_for_checkpoints [simp]: "candidate_for (s\<lparr>ps_checkpoints := c\<rparr>) r = candidate_for s r"
  by (simp add: candidate_for_def)

lemma mark_cancel_candidate:
  assumes "candidate_for s r"
  shows "wp (mark_publication_cancel job) (\<lambda>_ t. candidate_for t r) (\<lambda>t. candidate_for t r) s"
  using assms
  by (auto simp: mark_publication_cancel_def wps candidate_for_def update_conv' same_facts_def publication_key_def
      finish_no_def split: option.splits sum.splits)

lemma write_candidate_keeps:
  assumes "table_inv p s" and "candidate_for s r"
  shows "wp (write_publication r) (\<lambda>_. table_inv p) (table_inv p) s"
proof -
  obtain cur where cur: "map_of (ps_publications s) (publication_key r) = Some cur" and f: "same_facts cur r"
    and o: "pb_outcome r = pb_outcome cur" "finish_no r = finish_no cur" "pb_cancel_requested r \<longrightarrow> pb_cancel_requested cur"
    and c: "first_error (snapshot_checks (pb_job_snapshot r) (Val (PStr (pb_attempt_id r)))
          (Val (PStr (pb_document_attempt r)))) = None"
    using assms(2) by (auto simp: candidate_for_def)
  have ok: "receipt_ok cur" using table_inv_ok [OF assms(1) cur] by simp
  define m where "m = merge_publication (Some cur) r"
  have m: "m = r\<lparr>pb_outcome := pb_outcome cur, pb_cancel_requested := pb_cancel_requested cur\<rparr>"
    using f o ok by (auto simp: m_def merge_publication_def Let_def same_facts_def receipt_ok_def)
  have "table_inv p (s\<lparr>ps_publications := AList.update (publication_key r) m (ps_publications s)\<rparr>)"
    using ok c f o cur
    by (intro table_inv_update [OF assms(1)])
       (auto simp: m receipt_ok_def publication_key_def evolves_def same_receipt_def same_facts_def finish_no_def)
  then show ?thesis by (simp add: write_publication_def wps cur m_def)
qed

lemma finish_allowed_reads: "E s \<Longrightarrow> (\<And>b. Q b s) \<Longrightarrow> wp (finish_allowed repr job cur v) Q E s"
  unfolding finish_allowed_def checkpoint_supplies_finish_def
  by (auto simp: wps intro!: wp_get_checkpoint)

lemma candidate_made:
  assumes "table_inv p s" and cur: "map_of (ps_publications s) (job_key job) = Some current"
    and att: "publication_attempt job = Inr (Val (PStr (pb_attempt_id current)))"
    and sn: "publication_snapshot repr job (Some (Val (PStr (pb_document_attempt current)))) = Inr candidate"
    and eqs: "py_eq (sn_attempt candidate) (sn_attempt (pb_job_snapshot current))"
      "py_eq (sn_created_at candidate) (sn_created_at (pb_job_snapshot current))"
      "py_eq (sn_started_at candidate) (sn_started_at (pb_job_snapshot current))"
    and fin: "sn_finished_at (pb_job_snapshot current) = PNone \<and> v = PNone \<or>
      v = sn_finished_at candidate \<and> py_eq v (sn_finished_at (pb_job_snapshot current))"
  shows "candidate_for s (current\<lparr>pb_job_snapshot := candidate\<lparr>sn_finished_at := v\<rparr>\<rparr>)"
proof -
  have ok: "publication_key current = job_key job" "receipt_ok current" using table_inv_ok [OF assms(1) cur] by simp_all
  have c: "first_error (snapshot_checks candidate (Val (PStr (pb_attempt_id current)))
      (Val (PStr (pb_document_attempt current)))) = None"
    using publication_snapshot_ok [OF sn] att by auto
  have c': "first_error (snapshot_checks (candidate\<lparr>sn_finished_at := v\<rparr>) (Val (PStr (pb_attempt_id current)))
      (Val (PStr (pb_document_attempt current)))) = None"
    using fin snapshot_checks_finish [OF c, of PNone] c by auto
  note facts = snapshot_checks_facts [OF c]
  have "sn_attempt candidate = sn_attempt (pb_job_snapshot current)"
    using attempt_count_eq eqs(1) facts(1) ok(2) snapshot_checks_facts(1) by (metis receipt_ok_def)
  moreover have "py_number (sn_created_at candidate) = py_number (sn_created_at (pb_job_snapshot current))"
    using py_eq_number [OF eqs(2)] timestamp_number [OF facts(2)] by force
  moreover have "py_number (sn_started_at candidate) = py_number (sn_started_at (pb_job_snapshot current))"
    using py_eq_number [OF eqs(3)] timestamp_number [OF facts(3)] by force
  moreover have "py_number v = py_number (sn_finished_at (pb_job_snapshot current))"
    using fin py_eq_number [of v] c' timestamp_number [of False v] by (force simp: snapshot_checks_def)
  ultimately show ?thesis
    using cur ok c' by (auto simp: candidate_for_def same_facts_def publication_key_def finish_no_def)
qed

lemma snapshot_candidate_ok:
  assumes "table_inv p s"
  shows "wp (snapshot_candidate repr job) (\<lambda>r t. t = s \<and> candidate_for s r) (\<lambda>t. t = s) s"
proof -
  have kept: "candidate_for s (current\<lparr>pb_job_snapshot := candidate\<rparr>)"
    if "map_of (ps_publications s) (job_key job) = Some current"
      "publication_attempt job = Inr (Val (PStr (pb_attempt_id current)))"
      "publication_snapshot repr job (Some (Val (PStr (pb_document_attempt current)))) = Inr candidate"
      "py_eq (sn_attempt candidate) (sn_attempt (pb_job_snapshot current))"
      "py_eq (sn_created_at candidate) (sn_created_at (pb_job_snapshot current))"
      "py_eq (sn_started_at candidate) (sn_started_at (pb_job_snapshot current))"
      "py_eq (sn_finished_at candidate) (sn_finished_at (pb_job_snapshot current))" for current candidate
    using candidate_made [OF assms that(1-6), of "sn_finished_at candidate"] that(7) by simp
  show ?thesis
    unfolding snapshot_candidate_def Let_def wp_bind
    by (auto simp: wps split: option.splits sum.splits intro!: finish_allowed_reads
        intro: kept candidate_made [OF assms, of job _ repr])
qed

lemma save_snapshot_keeps:
  assumes "table_inv p s"
  shows "wp (save_publication_snapshot repr job) (\<lambda>_. table_inv p) (table_inv p) s"
  unfolding save_publication_snapshot_def wp_bind
  by (rule wp_mono [OF snapshot_candidate_ok [OF assms]]) (use assms write_candidate_keeps in auto)

text \<open>Deciding an outcome.\<close>

lemma terminal_publication_Inr:
  assumes "terminal_publication repr now cur out = Inr r"
  shows "pb_outcome cur = Pending_o \<and> pb_outcome r = out \<and> same_facts cur r \<and>
    pb_cancel_requested r = pb_cancel_requested cur \<and>
    first_error (snapshot_checks (pb_job_snapshot r) (Val (PStr (pb_attempt_id r))) (Val (PStr (pb_document_attempt r)))) = None"
  using assms snapshot_checks_finish [OF validate_snapshot_ok] validate_snapshot_ok unfolding terminal_publication_def Let_def
  by (simp only: returns) (auto simp: same_facts_def publication_key_def)

lemma decide_receipt_ok:
  assumes "terminal_publication repr now cur out = Inr r" and "out \<in> {Committed_o, Failed_o, Cancelled_o}"
  shows "receipt_ok (merge_publication (Some cur) r) \<and> same_receipt cur (merge_publication (Some cur) r)"
  using terminal_publication_Inr [OF assms(1)] assms(2)
  by (auto simp: merge_publication_def Let_def receipt_ok_def same_receipt_def same_facts_def publication_key_def)

lemma resolve_keeps:
  assumes "table_inv p s"
  shows "wp (resolve_publication repr now rec out) (\<lambda>_. table_inv p) (table_inv p) s"
proof -
  have "table_inv p (s\<lparr>ps_publications := AList.update (publication_key r)
      (merge_publication (map_of (ps_publications s) (publication_key r)) r) (ps_publications s)\<rparr>)"
    if "map_of (ps_publications s) k = Some cur" "terminal_publication repr now cur out = Inr r"
      "out \<in> {Committed_o, Failed_o, Cancelled_o}" for k cur r
  proof -
    have k: "publication_key r = k"
      using that table_inv_ok [OF assms that(1)] terminal_publication_Inr [OF that(2)] by (simp add: same_facts_def)
    show ?thesis
      using decide_receipt_ok [OF that(2,3)] that(1) k table_inv_ok [OF assms that(1)]
      by (intro table_inv_update [OF assms]) (auto simp: evolves_def same_receipt_def same_facts_def)
  qed
  then show ?thesis
    using assms unfolding resolve_publication_def Let_def
    by (auto simp: wps write_publication_def split: option.splits sum.splits)
qed

text \<open>Starting a publication.\<close>

lemma identity_text: "identity_ok x \<Longrightarrow> x = Val (PStr (obj_text x))"
  by (cases x rule: identity_ok.cases) auto

lemma new_receipt_keeps:
  assumes "table_inv p s" and "receipt_ok r" and "pb_outcome r = Pending_o"
    and "\<And>old. map_of (ps_publications s) (publication_key r) = Some old \<Longrightarrow>
      pb_attempt_id old \<noteq> pb_attempt_id r \<and> pb_outcome old = Failed_o \<and> attempt_no old < attempt_no r"
  shows "wp (write_publication r) (\<lambda>_. table_inv p) (table_inv p) s"
proof -
  have m: "merge_publication (map_of (ps_publications s) (publication_key r)) r = r"
    using assms(4) by (auto simp: merge_publication_def split: option.splits)
  have "table_inv p (s\<lparr>ps_publications := AList.update (publication_key r) r (ps_publications s)\<rparr>)"
    using assms(2,4) table_inv_ok [OF assms(1)]
    by (intro table_inv_update [OF assms(1)]) (auto simp: evolves_def)
  then show ?thesis by (simp add: write_publication_def wps m)
qed

lemma begin_receipt_keeps:
  assumes "table_inv p s" and "receipt_ok r" and "pb_outcome r = Pending_o" and "publication_key r = job_key job"
    and "sn_attempt (pb_job_snapshot r) = pj_attempt job"
  shows "wp (begin_receipt job r) (\<lambda>_. table_inv p) (table_inv p) s"
proof -
  have "attempt_no old < attempt_no r"
    if "map_of (ps_publications s) (job_key job) = Some old" "pj_attempt job = next_attempt (sn_attempt (pb_job_snapshot old))" for old
  proof -
    have "attempt_count_ok (sn_attempt (pb_job_snapshot old))"
      using table_inv_ok [OF assms(1) that(1)] snapshot_checks_facts(1) by (auto simp: receipt_ok_def)
    then show ?thesis
      using that(2) assms(5) by (auto simp: attempt_no_def next_attempt_def attempt_count_ok_def split: pyval.splits)
  qed
  then show ?thesis
    unfolding begin_receipt_def Let_def
    using assms(1,4) new_receipt_keeps [OF assms(1-3)] by (auto simp: wps split: option.split)
qed

lemma require_identities_Inr: "require_publication_identities vs = Inr u \<longleftrightarrow> list_all identity_ok vs"
  by (auto simp: require_publication_identities_def)

lemma pending_receipt_ok:
  assumes "publication_attempt job = Inr a" and "publication_snapshot repr job (Some d) = Inr sn"
    and "identity_ok a" and "identity_ok d"
  shows "receipt_ok (pending_receipt job a d n sn c) \<and> sn_attempt sn = pj_attempt job"
  using publication_snapshot_ok [OF assms(2)] assms(1) identity_text [OF assms(3)] identity_text [OF assms(4)]
  by (auto simp: receipt_ok_def pending_receipt_def)

lemma begin_keeps:
  assumes "table_inv p s"
  shows "wp (begin_publication repr job da n) (\<lambda>_. table_inv p) (table_inv p) s"
proof -
  have "wp (begin_publication_at repr job a d n) (\<lambda>_. table_inv p) (table_inv p) s"
    if a: "publication_attempt job = Inr a" for a d
  proof (cases n)
    case (PInt k)
    have r: "wp (begin_receipt job (pending_receipt job a d k sn c)) (\<lambda>_. table_inv p) (table_inv p) s"
      if "publication_snapshot repr job (Some d) = Inr sn" "identity_ok a" "identity_ok d" for sn c
      using pending_receipt_ok [OF a that]
      by (intro begin_receipt_keeps assms) (auto simp: pending_receipt_def publication_key_def job_key_def)
    show ?thesis
      unfolding begin_publication_at_def PInt pyval.case wp_bind
      using assms
      by (intro wp_result) (auto simp: require_identities_Inr wp_if wp_bind wp_simple intro!: wp_job_checkpoint wp_result wp_guard r)
  qed (use assms in \<open>auto simp: begin_publication_at_def wps split: sum.splits\<close>)
  then show ?thesis unfolding begin_publication_def wp_bind using assms by (intro wp_result)
qed

text \<open>All operations of the authority leave the other tables of the store as they are.\<close>

lemma receipt_ops_keep:
  assumes c: "\<And>s c. P (s\<lparr>ps_checkpoints := c\<rparr>) = P s" and p: "\<And>s x. P (s\<lparr>ps_publications := x\<rparr>) = P s" and s: "P s"
  shows "wp (mark_publication_cancel job) (\<lambda>_. P) P s" "wp (write_publication r) (\<lambda>_. P) P s"
    "wp (begin_publication repr job da n) (\<lambda>_. P) P s" "wp (resolve_publication repr now r out) (\<lambda>_. P) P s"
    "wp (snapshot_candidate repr job) (\<lambda>_. P) P s"
proof -
  show w: "wp (write_publication r) (\<lambda>_. P) P s" for r
    using p s by (simp add: write_publication_def wps)
  show "wp (mark_publication_cancel job) (\<lambda>_. P) P s"
    using p s by (auto simp: mark_publication_cancel_def wps split: option.splits sum.splits)
  have b: "wp (begin_receipt job r) (\<lambda>_. P) P s" for r
    using s w [of r] by (auto simp: begin_receipt_def Let_def wps split: option.splits)
  have "wp (begin_publication_at repr job a d n) (\<lambda>_. P) P s" for a d
    unfolding begin_publication_at_def wp_bind
    using s by (intro wp_result; cases n) (auto simp: wp_if wp_bind wp_simple intro!: wp_job_checkpoint wp_result wp_guard b)
  then show "wp (begin_publication repr job da n) (\<lambda>_. P) P s"
    unfolding begin_publication_def wp_bind using s by (intro wp_result)
  show "wp (resolve_publication repr now r out) (\<lambda>_. P) P s"
    using p s by (auto simp: resolve_publication_def Let_def write_publication_def wps split: option.splits sum.splits)
  show "wp (snapshot_candidate repr job) (\<lambda>_. P) P s"
    unfolding snapshot_candidate_def Let_def wp_bind
    using s by (auto simp: wps split: option.splits sum.splits intro!: finish_allowed_reads)
qed

end
