(* ===== verification/Knowledge.thy ===== *)
theory Knowledge
  imports Publication
begin

text \<open>
  The in-memory knowledge store (\<open>packages/knowledge/src/rick_knowledge\<close>: \<open>models.py\<close>,
  \<open>fencing.py\<close> and \<open>store.py\<close>) with its catalogue of collections, documents, chunks and
  tombstones, on top of the publication authority.

  The store keeps the document object a caller hands in and hands the stored object out, so callers
  and the store share it. Documents and chunks therefore live in a heap: the tables hold
  addresses, \<open>deepcopy\<close> allocates, and assigning an attribute updates the heap. Collections are
  copied in both directions and are values. A method runs under the store's mutation lock: it is one
  operation.
\<close>

section \<open>Domain models\<close>

text \<open>A lineage timestamp: a \<open>datetime\<close> is its text in UTC.\<close>

datatype stamp = StampNone | StampTime string | StampText string | StampOther

record document =
  doc_document_id :: string
  doc_workspace_id :: string
  doc_collection_id :: string
  doc_tenant_id :: string
  doc_document_version :: string
  doc_content_checksum :: string
  doc_filename :: string
  doc_display_filename :: string
  doc_title :: string
  doc_source_type :: string
  doc_mime_type :: string
  doc_language :: "string option"
  doc_status :: string
  doc_parser_version :: string
  doc_chunker_version :: string
  doc_embedding_model :: string
  doc_embedding_version :: string
  doc_metadata :: "(string \<times> pyobj) list"
  doc_ingestion_version :: pyval
  doc_object_ref :: pyval
  doc_created_at :: stamp
  doc_published_at :: stamp

record chunk =
  ch_chunk_id :: string
  ch_document_id :: string
  ch_tenant_id :: string
  ch_parent_chunk_id :: "string option"
  ch_chunk_index :: int
  ch_text :: string
  ch_page_start :: "int option"
  ch_page_end :: "int option"
  ch_section :: "string option"
  ch_heading :: "string option"
  ch_token_count :: int
  ch_checksum :: string
  ch_parser_version :: string
  ch_chunker_version :: string
  ch_embedding_version :: string
  ch_index_version :: string
  ch_metadata :: "(string \<times> pyobj) list"

record collection =
  co_workspace_id :: string
  co_collection_id :: string
  co_tenant_id :: string
  co_title :: string
  co_description :: string
  co_status :: string
  co_version :: int
  co_metadata :: "(string \<times> pyobj) list"

definition DOCUMENT_STATUSES :: "string list" where
  "DOCUMENT_STATUSES = [''draft'', ''processing'', ''published'', ''unpublished'', ''deleted'', ''partial'', ''failed'']"

definition timestamp_text :: "stamp \<Rightarrow> store_error + string option" where
  "timestamp_text v =
     (case v of
        StampNone \<Rightarrow> Inr None
      | StampTime t \<Rightarrow> Inr (Some t)
      | StampText t \<Rightarrow>
          if strip t \<noteq> [] then Inr (Some (strip t))
          else Inl (StoreValueError ''lineage timestamps must be non-empty strings or datetimes'')
      | StampOther \<Rightarrow> Inl (StoreValueError ''lineage timestamps must be non-empty strings or datetimes''))"

definition stamp_of :: "string option \<Rightarrow> stamp" where
  "stamp_of x = (case x of None \<Rightarrow> StampNone | Some t \<Rightarrow> StampText t)"

text \<open>\<open>isinstance(v, str) and v.strip()\<close>, and the stripped text.\<close>

definition blank_value :: "pyval \<Rightarrow> bool" where
  "blank_value v = (case v of PStr s \<Rightarrow> strip s = [] | _ \<Rightarrow> True)"

definition strip_value :: "pyval \<Rightarrow> pyval" where
  "strip_value v = (case v of PStr s \<Rightarrow> PStr (strip s) | _ \<Rightarrow> v)"

definition or_text :: "string \<Rightarrow> string \<Rightarrow> string" where
  "or_text a b = (if a \<noteq> [] then a else b)"

definition default_object_ref :: "document \<Rightarrow> string" where
  "default_object_ref d =
     (case get_key (doc_metadata d) ''object_key'' of
        Val (PStr s) \<Rightarrow>
          if strip s \<noteq> [] then strip s
          else strip (or_text (doc_filename d) (or_text (doc_display_filename d) (doc_document_id d)))
      | _ \<Rightarrow> strip (or_text (doc_filename d) (or_text (doc_display_filename d) (doc_document_id d))))"

text \<open>
  \<open>materialize_lineage\<close> works on the object itself: an operation on the document. The reading of the
  clock is the argument \<open>now\<close>.
\<close>

definition materialize_lineage :: "string \<Rightarrow> bool \<Rightarrow> (document, store_error, unit) op" where
  "materialize_lineage now published =
     sbind (reading doc_created_at) (\<lambda>c. sbind (of_result (timestamp_text c)) (\<lambda>created.
     sbind (writing (doc_created_at_update (\<lambda>_. StampText (case created of None \<Rightarrow> now | Some t \<Rightarrow> t)))) (\<lambda>_.
     sbind (reading doc_published_at) (\<lambda>p. sbind (of_result (timestamp_text p)) (\<lambda>pub.
     sbind (writing (doc_published_at_update (\<lambda>_. stamp_of pub))) (\<lambda>_.
     sbind (writing (\<lambda>d. d\<lparr>doc_ingestion_version :=
         (if blank_value (doc_ingestion_version d) then PStr (doc_document_version d)
          else strip_value (doc_ingestion_version d))\<rparr>)) (\<lambda>_.
     sbind (writing (\<lambda>d. d\<lparr>doc_object_ref :=
         (if blank_value (doc_object_ref d) then PStr (default_object_ref d)
          else strip_value (doc_object_ref d))\<rparr>)) (\<lambda>_.
     writing (\<lambda>d. if published \<and> pub = None then d\<lparr>doc_published_at := StampText now\<rparr> else d)))))))))"

section \<open>Fencing\<close>

definition ATTEMPT_METADATA_KEY :: string where "ATTEMPT_METADATA_KEY = ''_ingestion_attempt''"

definition COLLECTION_ALIASES :: "(string \<times> string) list" where
  "COLLECTION_ALIASES =
     [(''rag_phase0'', ''rag_phase0''), (''cvg_master_rag'', ''rag_phase0''), (''rickvet_documents'', ''rag_phase0'')]"

definition canonical_catalog_id :: "string \<Rightarrow> string" where
  "canonical_catalog_id c = (case map_of COLLECTION_ALIASES (strip c) of None \<Rightarrow> c | Some x \<Rightarrow> x)"

definition catalog_collection_ids :: "string \<Rightarrow> string list" where
  "catalog_collection_ids c =
     (let canonical = canonical_catalog_id c in
      canonical # sort (map fst (filter (\<lambda>(k, v). v = canonical \<and> k \<noteq> canonical) COLLECTION_ALIASES)))"

text \<open>\<open>min(xs, key=f)\<close> and \<open>xs.index(x)\<close>.\<close>

fun first_min :: "('a \<Rightarrow> 'k::linorder) \<Rightarrow> 'a list \<Rightarrow> 'a option" where
  "first_min f [] = None"
| "first_min f (x # xs) =
     (case first_min f xs of None \<Rightarrow> Some x | Some y \<Rightarrow> if f y < f x then Some y else Some x)"

fun index_of :: "'a list \<Rightarrow> 'a \<Rightarrow> nat" where
  "index_of [] x = 0"
| "index_of (y # ys) x = (if y = x then 0 else Suc (index_of ys x))"

definition select_catalog_collection :: "collection option list \<Rightarrow> string \<Rightarrow> collection option" where
  "select_catalog_collection cs c =
     (let keys = catalog_collection_ids c in
      first_min (\<lambda>x. (co_status x \<noteq> ''archived'', index_of keys (co_collection_id x)))
        (concat (map (\<lambda>x. case x of None \<Rightarrow> [] | Some y \<Rightarrow> if co_collection_id y \<in> set keys then [y] else []) cs)))"

definition require_owner :: "document option \<Rightarrow> string \<Rightarrow> store_error + unit" where
  "require_owner d attempt_id =
     (case d of
        None \<Rightarrow> Inl (OwnershipLostError ''publication ownership lost'')
      | Some x \<Rightarrow>
          if doc_status x = ''deleted'' \<or> get_key (doc_metadata x) ATTEMPT_METADATA_KEY \<noteq> Val (PStr attempt_id)
          then Inl (OwnershipLostError ''publication ownership lost'') else Inr ())"

text \<open>Equality of every field but the status.\<close>

definition same_but_status :: "document \<Rightarrow> document \<Rightarrow> bool" where
  "same_but_status a b =
     (a\<lparr>doc_status := [], doc_metadata := [], doc_ingestion_version := PNone, doc_object_ref := PNone\<rparr> =
      b\<lparr>doc_status := [], doc_metadata := [], doc_ingestion_version := PNone, doc_object_ref := PNone\<rparr> \<and>
      obj_eq (Dct (doc_metadata a)) (Dct (doc_metadata b)) \<and>
      py_eq (doc_ingestion_version a) (doc_ingestion_version b) \<and> py_eq (doc_object_ref a) (doc_object_ref b))"

definition tombstone_mismatch :: store_error where
  "tombstone_mismatch = StoreValueError ''delete compensation snapshot does not match tombstone''"

definition require_unchanged_tombstone :: "string \<Rightarrow> document option \<Rightarrow> document \<Rightarrow> store_error + document" where
  "require_unchanged_tombstone now current snapshot =
     (case current of
        None \<Rightarrow> Inl tombstone_mismatch
      | Some cur \<Rightarrow>
          if doc_status cur \<noteq> ''deleted'' \<or> doc_status snapshot \<notin> set DOCUMENT_STATUSES then Inl tombstone_mismatch
          else (case materialize_lineage now False snapshot of
              (Inl e, _) \<Rightarrow> Inl e
            | (Inr _, m) \<Rightarrow>
                (let m1 = (if doc_filename snapshot = [] \<and> PStr (doc_filename cur) = doc_object_ref m
                           then m\<lparr>doc_filename := doc_filename cur\<rparr> else m);
                     candidate = (if doc_published_at snapshot = StampNone
                                  then m1\<lparr>doc_published_at := doc_published_at cur\<rparr> else m1)
                 in if \<not> same_but_status cur candidate then Inl tombstone_mismatch
                    else Inr (cur\<lparr>doc_status := doc_status candidate\<rparr>))))"

definition require_deleted_snapshot :: "string \<Rightarrow> document option \<Rightarrow> document \<Rightarrow> store_error + document" where
  "require_deleted_snapshot now current snapshot =
     (if doc_status snapshot = ''deleted'' then Inl tombstone_mismatch
      else require_unchanged_tombstone now current snapshot)"

section \<open>The store\<close>

type_synonym addr = nat

record kstore = pub_state +
  ks_heap :: "addr \<Rightarrow> document"
  ks_next :: addr
  ks_chunk_heap :: "addr \<Rightarrow> chunk"
  ks_collections :: "((string \<times> string \<times> string) \<times> collection) list"
  ks_documents :: "(string \<times> addr) list"
  ks_chunks :: "(string \<times> addr list) list"
  ks_tombstones :: "string set"

type_synonym 'a kop = "(kstore, store_error, 'a) op"

text \<open>A fresh object.\<close>

definition alloc :: "document \<Rightarrow> addr kop" where
  "alloc d = sbind (reading ks_next) (\<lambda>a.
     sbind (writing (\<lambda>s. s\<lparr>ks_heap := (ks_heap s)(a := d), ks_next := Suc a\<rparr>)) (\<lambda>_. ret a))"

definition deref :: "addr \<Rightarrow> document kop" where
  "deref a = reading (\<lambda>s. ks_heap s a)"

definition assign :: "addr \<Rightarrow> (document \<Rightarrow> document) \<Rightarrow> unit kop" where
  "assign a f = writing (\<lambda>s. s\<lparr>ks_heap := (ks_heap s)(a := f (ks_heap s a))\<rparr>)"

text \<open>An operation on the object at an address.\<close>

definition on_object :: "addr \<Rightarrow> (document, store_error, 'a) op \<Rightarrow> 'a kop" where
  "on_object a m s = (case m (ks_heap s a) of (r, d) \<Rightarrow> (r, s\<lparr>ks_heap := (ks_heap s)(a := d)\<rparr>))"

definition bind_document :: "string \<Rightarrow> addr \<Rightarrow> unit kop" where
  "bind_document i a = writing (\<lambda>s. s\<lparr>ks_documents := AList.update i a (ks_documents s)\<rparr>)"

definition bury :: "string \<Rightarrow> unit kop" where
  "bury i = writing (\<lambda>s. s\<lparr>ks_tombstones := insert i (ks_tombstones s)\<rparr>)"

subsection \<open>Collections\<close>

definition require_scope :: "string list \<Rightarrow> store_error + unit" where
  "require_scope xs =
     (if list_ex (\<lambda>x. strip x = []) xs then Inl (StoreValueError ''collection guard requires a complete scope'')
      else Inr ())"

definition get_collection :: "string \<Rightarrow> string \<Rightarrow> string \<Rightarrow> collection option kop" where
  "get_collection workspace c tenant =
     (if strip tenant = [] then raises (StoreValueError ''tenant_id is required'')
      else reading (\<lambda>s. select_catalog_collection
             (map (\<lambda>k. map_of (ks_collections s) (strip tenant, workspace, k)) (catalog_collection_ids c)) c))"

definition list_collections :: "string \<Rightarrow> string \<Rightarrow> collection list kop" where
  "list_collections workspace tenant =
     (if strip tenant = [] then raises (StoreValueError ''tenant_id is required'')
      else reading (\<lambda>s. sort_key co_collection_id
             (filter (\<lambda>c. co_workspace_id c = workspace \<and> co_tenant_id c = strip tenant) (map snd (ks_collections s)))))"

text \<open>
  The decorator \<open>collection_mutation\<close>: the collection the method then sees, or (\<open>Inl\<close>) the one that
  \<open>ensure_collection\<close> returns at once.
\<close>

definition collection_mutation :: "bool \<Rightarrow> collection \<Rightarrow> (collection + collection) kop" where
  "collection_mutation ensure c =
     sbind (of_result (require_scope [co_tenant_id c, co_workspace_id c, co_collection_id c])) (\<lambda>_.
     let canonical = canonical_catalog_id (co_collection_id c) in
     if length (catalog_collection_ids canonical) > 1 then
       sbind (get_collection (co_workspace_id c) canonical (co_tenant_id c)) (\<lambda>existing.
       case existing of
         None \<Rightarrow> ret (Inr (c\<lparr>co_collection_id := canonical\<rparr>))
       | Some old \<Rightarrow>
           if ensure then
             (if co_status old = ''archived'' \<or> co_collection_id old = canonical then ret (Inl old)
              else ret (Inr (old\<lparr>co_collection_id := canonical\<rparr>)))
           else if co_status old = ''archived'' \<and> co_status c = ''active''
           then raises (StoreValueError ''archived collection cannot be reactivated by upsert'')
           else ret (Inr (c\<lparr>co_collection_id := co_collection_id old\<rparr>)))
     else ret (Inr c))"

definition collection_key :: "collection \<Rightarrow> string \<times> string \<times> string" where
  "collection_key c = (co_tenant_id c, co_workspace_id c, co_collection_id c)"

definition collection_status_ok :: "collection \<Rightarrow> bool" where
  "collection_status_ok c = (co_status c \<in> {''active'', ''archived''})"

definition put_collection :: "collection \<Rightarrow> unit kop" where
  "put_collection c = writing (\<lambda>s. s\<lparr>ks_collections := AList.update (collection_key c) c (ks_collections s)\<rparr>)"

definition ensure_collection :: "collection \<Rightarrow> collection kop" where
  "ensure_collection c0 =
     sbind (collection_mutation True c0) (\<lambda>x.
     case x of
       Inl old \<Rightarrow> ret old
     | Inr c \<Rightarrow>
         sbind (reading (\<lambda>s. map_of (ks_collections s) (collection_key c))) (\<lambda>found.
         case found of
           Some old \<Rightarrow> ret old
         | None \<Rightarrow>
             sbind (guard_op (\<not> collection_status_ok c) (StoreValueError ''unknown collection status'')) (\<lambda>_.
             sbind (put_collection c) (\<lambda>_. ret c))))"

definition upsert_collection :: "collection \<Rightarrow> unit kop" where
  "upsert_collection c0 =
     sbind (collection_mutation False c0) (\<lambda>x.
     case x of
       Inl old \<Rightarrow> ret ()
     | Inr c \<Rightarrow>
         sbind (guard_op (\<not> collection_status_ok c) (StoreValueError ''unknown collection status'')) (\<lambda>_.
         put_collection c))"

definition stored_deleted :: "document option \<Rightarrow> bool" where
  "stored_deleted existing = (case existing of None \<Rightarrow> False | Some e \<Rightarrow> doc_status e = ''deleted'')"

lemma stored_deleted_iff [simp]: "stored_deleted existing \<longleftrightarrow> (\<exists>e. existing = Some e \<and> doc_status e = ''deleted'')"
  by (cases existing) (simp_all add: stored_deleted_def)

subsection \<open>Documents\<close>

definition cannot_transition :: store_error where
  "cannot_transition = StoreValueError ''deleted documents cannot transition; ingest a new version''"

text \<open>
  The last part of \<open>upsert_document\<close>: a document of status \<open>deleted\<close> is stored as a copy and
  buried, any other is stored itself.
\<close>

definition store_document :: "string \<Rightarrow> addr \<Rightarrow> unit kop" where
  "store_document i a =
     sbind (deref a) (\<lambda>d.
     if doc_status d = ''deleted'' then sbind (alloc d) (\<lambda>b. sbind (bind_document i b) (\<lambda>_. bury i))
     else bind_document i a)"

text \<open>Before that: an object already stored as deleted may only be stored again unchanged.\<close>

definition replace_stored :: "string \<Rightarrow> string \<Rightarrow> addr option \<Rightarrow> addr \<Rightarrow> unit kop" where
  "replace_stored now i slot a =
     sbind (reading (\<lambda>s. map_option (ks_heap s) slot)) (\<lambda>existing.
     if stored_deleted existing then
       sbind (deref a) (\<lambda>d.
       sbind (of_result (require_unchanged_tombstone now existing d)) (\<lambda>restored.
       sbind (alloc restored) (\<lambda>b. store_document i b)))
     else store_document i a)"

definition upsert_document :: "string \<Rightarrow> addr \<Rightarrow> unit kop" where
  "upsert_document now a =
     sbind (deref a) (\<lambda>d0.
     let i = doc_document_id d0 in
     sbind (guard_op (doc_status d0 \<notin> set DOCUMENT_STATUSES) (StoreValueError (''unknown document status: '' @ doc_status d0))) (\<lambda>_.
     sbind (reading (\<lambda>s. map_of (ks_documents s) i)) (\<lambda>slot.
     sbind (reading (\<lambda>s. map_option (ks_heap s) slot)) (\<lambda>existing.
     sbind (reading ks_tombstones) (\<lambda>buried.
     sbind (guard_op ((i \<in> buried \<or> stored_deleted existing) \<and> doc_status d0 \<noteq> ''deleted'')
              cannot_transition) (\<lambda>_.
     sbind (guard_op (case existing of None \<Rightarrow> False | Some e \<Rightarrow>
                doc_tenant_id e \<noteq> doc_tenant_id d0 \<or> doc_workspace_id e \<noteq> doc_workspace_id d0 \<or>
                doc_collection_id e \<noteq> doc_collection_id d0)
              (StoreValueError ''document scope cannot change'')) (\<lambda>_.
     sbind (on_object a (materialize_lineage now (doc_status d0 = ''published''))) (\<lambda>_.
     replace_stored now i slot a))))))))"

text \<open>Reading a document buried under its identifier first sets its status.\<close>

definition get_document :: "string \<Rightarrow> string option \<Rightarrow> string option \<Rightarrow> addr option kop" where
  "get_document i tenant workspace =
     sbind (reading (\<lambda>s. map_of (ks_documents s) i)) (\<lambda>slot.
     case slot of
       None \<Rightarrow> ret None
     | Some a \<Rightarrow>
         sbind (reading ks_tombstones) (\<lambda>buried.
         sbind (if i \<in> buried then assign a (doc_status_update (\<lambda>_. ''deleted'')) else ret ()) (\<lambda>_.
         sbind (deref a) (\<lambda>d.
         if tenant \<noteq> None \<and> tenant \<noteq> Some (doc_tenant_id d) then ret None
         else if workspace \<noteq> None \<and> workspace \<noteq> Some (doc_workspace_id d) then ret None
         else if doc_status d = ''deleted'' then sbind (alloc d) (\<lambda>b. ret (Some b))
         else ret (Some a)))))"

definition listed :: "kstore \<Rightarrow> string \<Rightarrow> string \<Rightarrow> string option \<Rightarrow> string list option \<Rightarrow> string list option \<Rightarrow> addr \<Rightarrow> bool" where
  "listed s workspace tenant c statuses allowed a =
     (let d = ks_heap s a in
      doc_workspace_id d = workspace \<and> doc_tenant_id d = tenant \<and> (c = None \<or> c = Some (doc_collection_id d)) \<and>
      (case allowed of None \<Rightarrow> True | Some xs \<Rightarrow> ''*'' \<in> set xs \<or> doc_collection_id d \<in> set xs) \<and>
      doc_status d \<noteq> ''deleted'' \<and> doc_document_id d \<notin> ks_tombstones s \<and>
      (case statuses of None \<Rightarrow> True | Some xs \<Rightarrow> doc_status d \<in> set xs))"

definition found_documents ::
  "kstore \<Rightarrow> string \<Rightarrow> string \<Rightarrow> string option \<Rightarrow> string option \<Rightarrow> string list option \<Rightarrow> string list option \<Rightarrow> addr list" where
  "found_documents s workspace tenant c after statuses allowed =
     (let found = sort_key (\<lambda>a. doc_document_id (ks_heap s a))
            (filter (listed s workspace tenant c statuses allowed) (map snd (ks_documents s)))
      in case after of None \<Rightarrow> found | Some i \<Rightarrow> filter (\<lambda>a. i < doc_document_id (ks_heap s a)) found)"

definition list_documents ::
  "string \<Rightarrow> string option \<Rightarrow> string \<Rightarrow> string option \<Rightarrow> pyval \<Rightarrow> string list option \<Rightarrow> string list option \<Rightarrow> addr list kop" where
  "list_documents workspace c tenant after limit statuses allowed =
     (if strip tenant = [] then raises (StoreValueError ''tenant_id is required'')
      else
        sbind (reading (\<lambda>s. found_documents s workspace (strip tenant) c after statuses allowed)) (\<lambda>found.
        case limit of
          PNone \<Rightarrow> ret found
        | PInt n \<Rightarrow> if n < 0 then raises (StoreValueError ''limit must be a non-negative integer'')
                    else ret (take (nat n) found)
        | _ \<Rightarrow> raises (StoreValueError ''limit must be a non-negative integer'')))"

definition publication_matches :: "publication \<Rightarrow> document \<Rightarrow> bool" where
  "publication_matches r d =
     (pb_document_id r = doc_document_id d \<and> pb_tenant_id r = doc_tenant_id d \<and>
      pb_workspace_id r = doc_workspace_id d \<and> pb_collection_id r = doc_collection_id d \<and>
      get_key (doc_metadata d) ATTEMPT_METADATA_KEY = Val (PStr (pb_document_attempt r)))"

text \<open>The receipts of the table with every pending one of the document committed.\<close>

definition commit_receipts ::
  "(real \<Rightarrow> string) \<Rightarrow> pyval \<Rightarrow> document \<Rightarrow> receipts \<Rightarrow> store_error + receipts" where
  "commit_receipts repr clock d table =
     map_res (\<lambda>(k, r). if pb_outcome r = Pending_o \<and> publication_matches r d
       then rbind (terminal_publication repr clock r Committed_o) (\<lambda>r'. Inr (k, r')) else Inr (k, r)) table"

definition set_document_status ::
  "(real \<Rightarrow> string) \<Rightarrow> pyval \<Rightarrow> string \<Rightarrow> string \<Rightarrow> string \<Rightarrow> unit kop" where
  "set_document_status repr clock now i status =
     sbind (guard_op (status \<notin> set DOCUMENT_STATUSES) (StoreValueError (''unknown document status: '' @ status))) (\<lambda>_.
     sbind (reading (\<lambda>s. map_of (ks_documents s) i)) (\<lambda>slot.
     case slot of
       None \<Rightarrow> raises (StoreKeyError i)
     | Some a0 \<Rightarrow>
         sbind (deref a0) (\<lambda>d0.
         sbind (reading ps_publications) (\<lambda>table.
         sbind (reading ks_tombstones) (\<lambda>buried.
         sbind (guard_op (status = ''published'' \<and> list_ex (\<lambda>(k, r). pb_outcome r = Pending_o \<and> pb_cancel_requested r \<and>
                    publication_matches r d0) table)
                  (OwnershipLostError ''publication cancelled before commit'')) (\<lambda>_.
         sbind (guard_op ((i \<in> buried \<or> doc_status d0 = ''deleted'') \<and> status \<noteq> ''deleted'') cannot_transition) (\<lambda>_.
         sbind (if status = ''deleted'' then sbind (alloc d0) (\<lambda>b. sbind (bind_document i b) (\<lambda>_. ret b)) else ret a0) (\<lambda>a.
         sbind (of_result (if status = ''published'' then commit_receipts repr clock d0 table else Inr table)) (\<lambda>table'.
         sbind (assign a (doc_status_update (\<lambda>_. status))) (\<lambda>_.
         sbind (if status = ''deleted'' then bury i else ret ()) (\<lambda>_.
         sbind (on_object a (materialize_lineage now (status = ''published''))) (\<lambda>_.
         writing (ps_publications_update (\<lambda>_. table'))))))))))))))"

definition delete_document :: "string \<Rightarrow> nat kop" where
  "delete_document i =
     sbind (reading (\<lambda>s. map_of (ks_chunks s) i)) (\<lambda>cs.
     sbind (writing (\<lambda>s. s\<lparr>ks_chunks := AList.delete i (ks_chunks s)\<rparr>)) (\<lambda>_.
     sbind (reading (\<lambda>s. map_of (ks_documents s) i)) (\<lambda>slot.
     sbind (case slot of
              None \<Rightarrow> ret ()
            | Some a \<Rightarrow>
                sbind (deref a) (\<lambda>d. sbind (alloc (d\<lparr>doc_status := ''deleted''\<rparr>)) (\<lambda>b.
                sbind (bind_document i b) (\<lambda>_. bury i)))) (\<lambda>_.
     ret (case cs of None \<Rightarrow> 0 | Some xs \<Rightarrow> length xs)))))"

definition replace_document_chunks :: "string \<Rightarrow> addr list \<Rightarrow> unit kop" where
  "replace_document_chunks i chunks =
     sbind (reading (\<lambda>s. map_of (ks_documents s) i)) (\<lambda>slot.
     case slot of
       None \<Rightarrow> raises (StoreKeyError i)
     | Some a \<Rightarrow>
         sbind (deref a) (\<lambda>d.
         sbind (reading ks_tombstones) (\<lambda>buried.
         sbind (guard_op ((i \<in> buried \<or> doc_status d = ''deleted'') \<and> chunks \<noteq> [])
                  (StoreValueError ''deleted documents cannot receive chunks'')) (\<lambda>_.
         sbind (reading ks_chunk_heap) (\<lambda>h.
         sbind (of_result (checked (concat (map (\<lambda>c.
                  [(ch_document_id (h c) \<noteq> i, StoreValueError ''chunk document_id does not match parent''),
                   (ch_tenant_id (h c) \<noteq> doc_tenant_id d, StoreValueError ''chunk tenant_id does not match parent'')])
                  chunks)) ())) (\<lambda>_.
         writing (\<lambda>s. s\<lparr>ks_chunks := AList.update i chunks (ks_chunks s)\<rparr>)))))))"

definition get_chunks :: "string \<Rightarrow> addr list kop" where
  "get_chunks i = reading (\<lambda>s. case map_of (ks_chunks s) i of None \<Rightarrow> [] | Some xs \<Rightarrow> xs)"

text \<open>The maintenance operation that undoes a failed delete; a failure of its second half is rolled back.\<close>

definition restore_deleted_document :: "string \<Rightarrow> document \<Rightarrow> addr list \<Rightarrow> unit kop" where
  "restore_deleted_document now snapshot chunks =
     (let i = doc_document_id snapshot in
      sbind (get_document i None None) (\<lambda>slot.
      sbind (reading (\<lambda>s. map_option (ks_heap s) slot)) (\<lambda>current.
      sbind (of_result (require_deleted_snapshot now current snapshot)) (\<lambda>restored.
      sbind (get_chunks i) (\<lambda>before_chunks.
      sbind (writing (\<lambda>s. s\<lparr>ks_tombstones := ks_tombstones s - {i}\<rparr>)) (\<lambda>_.
      sbind (alloc restored) (\<lambda>b.
      sbind (bind_document i b) (\<lambda>_ s.
      case replace_document_chunks i chunks s of
        (Inr u, t) \<Rightarrow> (Inr u, t)
      | (Inl e, t) \<Rightarrow>
          (case current of
             None \<Rightarrow> (Inl e, t)
           | Some before \<Rightarrow>
               sbind (alloc before) (\<lambda>c.
               sbind (bind_document i c) (\<lambda>_.
               sbind (writing (\<lambda>s. s\<lparr>ks_chunks := AList.update i before_chunks (ks_chunks s)\<rparr>)) (\<lambda>_.
               sbind (bury i) (\<lambda>_. raises e)))) t)))))))))"

definition empty_kstore :: "(addr \<Rightarrow> document) \<Rightarrow> (addr \<Rightarrow> chunk) \<Rightarrow> kstore" where
  "empty_kstore h ch =
     \<lparr>ps_publications = [], ps_checkpoints = [], ks_heap = h, ks_next = 0, ks_chunk_heap = ch, ks_collections = [],
      ks_documents = [], ks_chunks = [], ks_tombstones = {}\<rparr>"

section \<open>Tombstones\<close>

lemma wp_heap_ops [wps]:
  "wp (alloc d) Q E s = Q (ks_next s) (s\<lparr>ks_heap := (ks_heap s)(ks_next s := d), ks_next := Suc (ks_next s)\<rparr>)"
  "wp (deref a) Q1 E s = Q1 (ks_heap s a) s"
  "wp (assign a f) Q2 E s = Q2 () (s\<lparr>ks_heap := (ks_heap s)(a := f (ks_heap s a))\<rparr>)"
  "wp (bind_document i a) Q2 E s = Q2 () (s\<lparr>ks_documents := AList.update i a (ks_documents s)\<rparr>)"
  "wp (bury i) Q2 E s = Q2 () (s\<lparr>ks_tombstones := insert i (ks_tombstones s)\<rparr>)"
  by (simp_all add: alloc_def deref_def assign_def bind_document_def bury_def wps)

lemma wp_on_object:
  "(\<And>d. P d \<Longrightarrow> wp m (\<lambda>_. P) P d) \<Longrightarrow> P (ks_heap s a) \<Longrightarrow>
   (\<And>d x. P d \<Longrightarrow> Q x (s\<lparr>ks_heap := (ks_heap s)(a := d)\<rparr>) \<and> E (s\<lparr>ks_heap := (ks_heap s)(a := d)\<rparr>)) \<Longrightarrow>
   wp (on_object a m) Q E s"
  by (auto simp: wp_def on_object_def split: prod.splits sum.splits) (metis (mono_tags, lifting) case_prod_conv old.sum.simps(5,6))+

lemma materialize_keeps:
  assumes "\<And>d x. P (d\<lparr>doc_created_at := x\<rparr>) = P d" "\<And>d x. P (d\<lparr>doc_published_at := x\<rparr>) = P d"
    "\<And>d x. P (d\<lparr>doc_ingestion_version := x\<rparr>) = P d" "\<And>d x. P (d\<lparr>doc_object_ref := x\<rparr>) = P d"
  shows "P d \<Longrightarrow> wp (materialize_lineage now b) (\<lambda>_. P) P d"
  using assms unfolding materialize_lineage_def wp_bind
  by (auto simp: wps split: sum.splits)

text \<open>
  What holds of the tables while callers know the addresses \<open>K\<close>: the object of a buried document is
  known to nobody else and has the status \<open>deleted\<close>.
\<close>

definition graves_ok :: "addr set \<Rightarrow> kstore \<Rightarrow> bool" where
  "graves_ok K s =
     ((\<forall>a\<in>K. a < ks_next s) \<and> (\<forall>i a. map_of (ks_documents s) i = Some a \<longrightarrow> a < ks_next s) \<and>
      (\<forall>i\<in>ks_tombstones s. map_of (ks_documents s) i \<noteq> None) \<and>
      (\<forall>i a. i \<in> ks_tombstones s \<longrightarrow> map_of (ks_documents s) i = Some a \<longrightarrow>
         a \<notin> K \<and> doc_status (ks_heap s a) = ''deleted'' \<and> (\<forall>j. j \<noteq> i \<longrightarrow> map_of (ks_documents s) j \<noteq> Some a)))"

definition emptied :: "string \<Rightarrow> kstore \<Rightarrow> bool" where
  "emptied i s = (i \<in> ks_tombstones s \<and> (\<forall>xs. map_of (ks_chunks s) i = Some xs \<longrightarrow> xs = []))"

lemma graves_alloc:
  "graves_ok K s \<Longrightarrow> graves_ok K (s\<lparr>ks_heap := (ks_heap s)(ks_next s := d), ks_next := Suc (ks_next s)\<rparr>)"
  "graves_ok L s \<Longrightarrow> graves_ok (insert (ks_next s) L) (s\<lparr>ks_heap := (ks_heap s)(ks_next s := d), ks_next := Suc (ks_next s)\<rparr>)"
  unfolding graves_ok_def by (auto simp: less_Suc_eq)

lemma graves_write:
  "graves_ok K s \<Longrightarrow> doc_status d = ''deleted'' \<or> (\<forall>i\<in>ks_tombstones s. map_of (ks_documents s) i \<noteq> Some a) \<Longrightarrow>
     graves_ok K (s\<lparr>ks_heap := (ks_heap s)(a := d)\<rparr>)"
  unfolding graves_ok_def by auto

lemma graves_known: "graves_ok K s \<Longrightarrow> a \<in> K \<Longrightarrow> i \<in> ks_tombstones s \<Longrightarrow> map_of (ks_documents s) i \<noteq> Some a"
  unfolding graves_ok_def by auto

lemma graves_bind:
  "graves_ok K s \<Longrightarrow> a \<in> K \<Longrightarrow> i \<notin> ks_tombstones s \<Longrightarrow> graves_ok K (s\<lparr>ks_documents := AList.update i a (ks_documents s)\<rparr>)"
  unfolding graves_ok_def by (auto simp: update_conv' split: if_splits)

lemma graves_bury:
  "graves_ok K s \<Longrightarrow> doc_status d = ''deleted'' \<Longrightarrow>
     graves_ok K (s\<lparr>ks_heap := (ks_heap s)(ks_next s := d), ks_next := Suc (ks_next s),
       ks_documents := AList.update i (ks_next s) (ks_documents s), ks_tombstones := insert i (ks_tombstones s)\<rparr>)"
  unfolding graves_ok_def by (auto simp: update_conv' less_Suc_eq split: if_splits)

lemma graves_other [simp]:
  "graves_ok K (s\<lparr>ps_publications := p\<rparr>) = graves_ok K s" "graves_ok K (s\<lparr>ps_checkpoints := c\<rparr>) = graves_ok K s"
  "graves_ok K (s\<lparr>ks_chunks := x\<rparr>) = graves_ok K s" "graves_ok K (s\<lparr>ks_collections := y\<rparr>) = graves_ok K s"
  "graves_ok K (s\<lparr>ks_chunk_heap := z\<rparr>) = graves_ok K s"
  by (simp_all add: graves_ok_def)

lemma grave_sole:
  "graves_ok K s \<Longrightarrow> j \<in> ks_tombstones s \<Longrightarrow> map_of (ks_documents s) j = Some a \<Longrightarrow> i \<noteq> j \<Longrightarrow> map_of (ks_documents s) i \<noteq> Some a"
  by (simp add: graves_ok_def)

lemma graves_cong:
  "ks_heap s = ks_heap t \<Longrightarrow> ks_next s = ks_next t \<Longrightarrow> ks_documents s = ks_documents t \<Longrightarrow> ks_tombstones s = ks_tombstones t \<Longrightarrow>
     graves_ok K s = graves_ok K t"
  by (simp add: graves_ok_def)

lemma not_grave:
  assumes "graves_ok K s" and "map_of (ks_documents s) i = Some a" and "i \<notin> ks_tombstones s"
  shows "\<forall>j\<in>ks_tombstones s. map_of (ks_documents s) j \<noteq> Some a"
  using grave_sole [OF assms(1), of _ a i] assms(2,3) by metis

lemma delete_graves: "graves_ok K s \<Longrightarrow> wp (delete_document i) (\<lambda>_. graves_ok K) (graves_ok K) s"
  using graves_bury [of K "s\<lparr>ks_chunks := AList.delete i (ks_chunks s)\<rparr>"]
  by (auto simp: delete_document_def wps split: option.splits)

lemma get_document_graves:
  assumes "graves_ok K s"
  shows "wp (get_document i t w) (\<lambda>r. graves_ok (K \<union> set_option r)) (graves_ok K) s"
proof -
  have live: "graves_ok (insert a K) s" if "map_of (ks_documents s) i = Some a" "i \<notin> ks_tombstones s" for a
    using not_grave [OF assms that] assms that unfolding graves_ok_def by auto
  show ?thesis
    using assms graves_write [OF assms] graves_alloc(2) [OF graves_write [OF assms]] graves_alloc(2) [OF assms] live
    by (auto simp: get_document_def wps split: option.splits)
qed

lemma store_document_graves:
  assumes "graves_ok K s" and "doc_status (ks_heap s a) = ''deleted'' \<or> a \<in> K \<and> i \<notin> ks_tombstones s"
  shows "wp (store_document i a) (\<lambda>_. graves_ok K) (graves_ok K) s"
  using assms graves_bury [OF assms(1)] graves_bind [OF assms(1)] by (auto simp: store_document_def wps)

lemma unchanged_tombstone_status:
  assumes "require_unchanged_tombstone now e d = Inr r"
  shows "doc_status r = doc_status d"
proof -
  have "wp (materialize_lineage now False) (\<lambda>_ x. doc_status x = doc_status d) (\<lambda>x. doc_status x = doc_status d) d"
    by (rule materialize_keeps) simp_all
  then show ?thesis
    using assms unfolding wp_def require_unchanged_tombstone_def
    by (auto simp: Let_def split: option.splits if_splits prod.splits sum.splits)
qed

lemma replace_stored_graves:
  assumes g: "graves_ok K s" and a: "a \<in> K"
    and d: "i \<in> ks_tombstones s \<or> (\<exists>e. map_option (ks_heap s) slot = Some e \<and> doc_status e = ''deleted'') \<Longrightarrow>
      doc_status (ks_heap s a) = ''deleted''"
  shows "wp (replace_stored now i slot a) (\<lambda>_. graves_ok K) (graves_ok K) s"
proof (cases "\<exists>e. map_option (ks_heap s) slot = Some e \<and> doc_status e = ''deleted''")
  case True
  have "wp (alloc r) (\<lambda>b. wp (store_document i b) (\<lambda>_. graves_ok K) (graves_ok K)) (graves_ok K) s"
    if "doc_status r = ''deleted''" for r
    using that store_document_graves [OF graves_alloc(1) [OF g], where i = i] by (simp add: wps)
  then show ?thesis
    using g d [OF disjI2 [OF True]] True unchanged_tombstone_status
    unfolding replace_stored_def wp_bind wp_simple wp_if wp_heap_ops(2) by (auto intro!: wp_result)
next
  case False
  have "wp (store_document i a) (\<lambda>_. graves_ok K) (graves_ok K) s"
    using d a by (intro store_document_graves [OF g]) auto
  then show ?thesis
    using False unfolding replace_stored_def wp_bind wp_simple wp_if by auto
qed

lemma upsert_graves:
  assumes g: "graves_ok K s" and a: "a \<in> K"
  shows "wp (upsert_document now a) (\<lambda>_. graves_ok K) (graves_ok K) s"
proof -
  let ?i = "doc_document_id (ks_heap s a)"
  have kept: "graves_ok K (s\<lparr>ks_heap := (ks_heap s)(a := d)\<rparr>)" for d
    using graves_write [OF g] graves_known [OF g a] by blast
  have "wp (on_object a (materialize_lineage now b)) (\<lambda>_. wp (replace_stored now ?i slot a) (\<lambda>_. graves_ok K) (graves_ok K))
      (graves_ok K) s"
    if d: "?i \<in> ks_tombstones s \<or> (\<exists>e. map_option (ks_heap s) slot = Some e \<and> doc_status e = ''deleted'') \<longrightarrow>
        doc_status (ks_heap s a) = ''deleted''" for b slot
  proof (rule wp_on_object [where P = "\<lambda>d. doc_status d = doc_status (ks_heap s a)"])
    fix d :: document and x
    assume st: "doc_status d = doc_status (ks_heap s a)"
    show "wp (replace_stored now ?i slot a) (\<lambda>_. graves_ok K) (graves_ok K) (s\<lparr>ks_heap := (ks_heap s)(a := d)\<rparr>) \<and>
      graves_ok K (s\<lparr>ks_heap := (ks_heap s)(a := d)\<rparr>)"
      using d st kept by (intro conjI replace_stored_graves a) (auto split: if_splits)
  qed (auto intro: materialize_keeps)
  then show ?thesis
    using g unfolding upsert_document_def Let_def wp_bind wp_simple wp_heap_ops(2) by (auto split: option.splits)
qed

lemma set_status_graves:
  assumes g: "graves_ok K s"
  shows "wp (set_document_status repr clock now i st) (\<lambda>_. graves_ok K) (graves_ok K) s"
proof -
  have obj: "wp (on_object a (materialize_lineage now b)) (\<lambda>_. graves_ok K) (graves_ok K) t"
    if "\<And>d. doc_status d = doc_status (ks_heap t a) \<Longrightarrow> graves_ok K (t\<lparr>ks_heap := (ks_heap t)(a := d)\<rparr>)" for a b t
    using that
    by (intro wp_on_object [where P = "\<lambda>d. doc_status d = doc_status (ks_heap t a)"]) (auto intro: materialize_keeps)
  have dead: "graves_ok K (s\<lparr>ks_next := Suc (ks_next s), ks_documents := AList.update i (ks_next s) (ks_documents s),
       ks_tombstones := insert i (ks_tombstones s), ks_heap := (ks_heap s)(ks_next s := d)\<rparr>)"
    if "doc_status d = ''deleted''" for d
    by (rule iffD1 [OF graves_cong graves_bury [OF g that, of i]]) simp_all
  have live: "graves_ok K (s\<lparr>ks_heap := (ks_heap s)(a := d)\<rparr>)"
    if "map_of (ks_documents s) i = Some a" "i \<notin> ks_tombstones s" for a d
    using graves_write [OF g] not_grave [OF g that] by blast
  show ?thesis
    unfolding set_document_status_def wp_bind wp_simple wp_case_option
    using g dead live
    by (auto simp: wps split: option.split sum.splits intro!: obj)
qed

text \<open>The identifiers of the document table are distinct.\<close>

definition ids_distinct :: "kstore \<Rightarrow> bool" where
  "ids_distinct s = distinct (map fst (ks_documents s))"

lemma ids_distinct_simps [simp]:
  "ids_distinct (s\<lparr>ks_heap := h\<rparr>) = ids_distinct s" "ids_distinct (s\<lparr>ks_next := n\<rparr>) = ids_distinct s"
  "ids_distinct (s\<lparr>ks_tombstones := t\<rparr>) = ids_distinct s" "ids_distinct (s\<lparr>ks_chunks := x\<rparr>) = ids_distinct s"
  "ids_distinct (s\<lparr>ps_publications := p\<rparr>) = ids_distinct s" "ids_distinct (s\<lparr>ps_checkpoints := c\<rparr>) = ids_distinct s"
  "ids_distinct (s\<lparr>ks_collections := y\<rparr>) = ids_distinct s" "ids_distinct (s\<lparr>ks_chunk_heap := z\<rparr>) = ids_distinct s"
  by (simp_all add: ids_distinct_def distinct_update)

lemma ids_distinct_update [simp]:
  "ids_distinct (s\<lparr>ks_documents := d\<rparr>) = distinct (map fst d)"
  "ids_distinct s \<Longrightarrow> distinct (map fst (AList.update i a (ks_documents s)))"
  by (simp_all add: ids_distinct_def distinct_update)

lemma ids_on_object: "ids_distinct s \<Longrightarrow> (\<And>t. ids_distinct t \<Longrightarrow> Q t) \<Longrightarrow> wp (on_object a m) (\<lambda>_. Q) ids_distinct s"
  by (rule wp_on_object [where P = "\<lambda>_. True"]) (auto simp: wp_def split: prod.split sum.split)

lemma store_document_ids: "ids_distinct s \<Longrightarrow> wp (store_document i a) (\<lambda>_. ids_distinct) ids_distinct s"
  by (simp add: store_document_def wps)

lemma replace_stored_ids: "ids_distinct s \<Longrightarrow> wp (replace_stored now i slot a) (\<lambda>_. ids_distinct) ids_distinct s"
  by (auto simp: replace_stored_def wps store_document_ids split: sum.splits)

lemma document_ops_ids:
  assumes "ids_distinct s"
  shows "wp (upsert_document now a) (\<lambda>_. ids_distinct) ids_distinct s"
    and "wp (get_document i t w) (\<lambda>_. ids_distinct) ids_distinct s"
    and "wp (set_document_status repr clock now i st) (\<lambda>_. ids_distinct) ids_distinct s"
    and "wp (delete_document i) (\<lambda>_. ids_distinct) ids_distinct s"
    and "wp (replace_document_chunks i chs) (\<lambda>_. ids_distinct) ids_distinct s"
proof -
  show "wp (upsert_document now a) (\<lambda>_. ids_distinct) ids_distinct s"
    unfolding upsert_document_def Let_def wp_bind wp_simple wp_heap_ops(2)
    using assms by (auto intro!: ids_on_object replace_stored_ids)
  show "wp (get_document i t w) (\<lambda>_. ids_distinct) ids_distinct s"
    using assms by (simp add: get_document_def wps split: option.splits)
  show "wp (set_document_status repr clock now i st) (\<lambda>_. ids_distinct) ids_distinct s"
    unfolding set_document_status_def wp_bind wp_simple wp_case_option
    using assms by (auto simp: wps split: option.split sum.splits intro!: ids_on_object)
  show "wp (delete_document i) (\<lambda>_. ids_distinct) ids_distinct s"
    using assms by (simp add: delete_document_def wps split: option.splits)
  show "wp (replace_document_chunks i chs) (\<lambda>_. ids_distinct) ids_distinct s"
    unfolding replace_document_chunks_def wp_bind using assms by (auto simp: wps split: option.splits sum.splits)
qed

lemma listed_addresses:
  assumes g: "graves_ok K s" "ids_distinct s"
    and x: "\<And>a. a \<in> set xs \<Longrightarrow> (\<exists>i. (i, a) \<in> set (ks_documents s)) \<and> doc_status (ks_heap s a) \<noteq> ''deleted''"
  shows "graves_ok (K \<union> set xs) s"
proof -
  have "\<exists>i. map_of (ks_documents s) i = Some a" if "a \<in> set xs" for a
    using x [OF that] g(2) by (auto simp: ids_distinct_def)
  then have "\<forall>a\<in>set xs. a < ks_next s" using g(1) by (auto simp: graves_ok_def)
  then show ?thesis using g(1) x by (auto simp: graves_ok_def)
qed

lemma found_listed:
  "a \<in> set (found_documents s w t c aft sts al) \<Longrightarrow>
     (\<exists>i. (i, a) \<in> set (ks_documents s)) \<and> doc_status (ks_heap s a) \<noteq> ''deleted''"
  by (force simp: found_documents_def Let_def listed_def split: option.splits)

lemma list_documents_graves:
  assumes g: "graves_ok K s" "ids_distinct s"
  shows "wp (list_documents w c t aft n sts al) (\<lambda>xs u. u = s \<and> graves_ok (K \<union> set xs) s) (\<lambda>u. u = s) s"
  unfolding list_documents_def wp_if wp_bind wp_simple
  by (auto simp: wps split: pyval.split)
     (auto intro!: listed_addresses [OF g] dest!: in_set_takeD dest: found_listed)

lemma replace_chunks_graves: "graves_ok K s \<Longrightarrow> wp (replace_document_chunks i cs) (\<lambda>_. graves_ok K) (graves_ok K) s"
  unfolding replace_document_chunks_def wp_bind by (auto simp: wps split: option.splits sum.splits)

lemma collection_mutation_reads: "E s \<Longrightarrow> (\<And>x. Q x s) \<Longrightarrow> wp (collection_mutation b c) Q E s"
  by (auto simp: collection_mutation_def get_collection_def Let_def wps split: sum.splits option.splits)

lemma collection_ops_keep:
  assumes "\<And>s x. P (s\<lparr>ks_collections := x\<rparr>) = P s" and "P s"
  shows "wp (ensure_collection c) (\<lambda>_. P) P s" and "wp (upsert_collection c) (\<lambda>_. P) P s"
  unfolding ensure_collection_def upsert_collection_def wp_bind using assms
  by (auto intro!: collection_mutation_reads simp: wps put_collection_def split: sum.split option.split)

text \<open>What becomes of a document that was deleted, with its chunks.\<close>

lemma emptied_simps [simp]:
  "emptied i (s\<lparr>ps_publications := p\<rparr>) = emptied i s" "emptied i (s\<lparr>ps_checkpoints := c\<rparr>) = emptied i s"
  "emptied i (s\<lparr>ks_heap := x\<rparr>) = emptied i s" "emptied i (s\<lparr>ks_next := n\<rparr>) = emptied i s"
  "emptied i (s\<lparr>ks_collections := y\<rparr>) = emptied i s" "emptied i (s\<lparr>ks_documents := z\<rparr>) = emptied i s"
  "emptied i (s\<lparr>ks_chunk_heap := h\<rparr>) = emptied i s"
  by (simp_all add: emptied_def)

lemma emptied_bury [simp]: "emptied i s \<Longrightarrow> ks_tombstones s \<subseteq> T \<Longrightarrow> emptied i (s\<lparr>ks_tombstones := T\<rparr>)"
  by (auto simp: emptied_def)

lemma emptied_on_object: "emptied i s \<Longrightarrow> wp (on_object a m) (\<lambda>_. emptied i) (emptied i) s"
  by (auto simp: wp_def on_object_def split: prod.split sum.split)

lemma store_document_emptied: "emptied i s \<Longrightarrow> wp (store_document j a) (\<lambda>_. emptied i) (emptied i) s"
  by (simp add: store_document_def wps subset_insertI)

lemma replace_stored_emptied: "emptied i s \<Longrightarrow> wp (replace_stored now j slot a) (\<lambda>_. emptied i) (emptied i) s"
  by (auto simp: replace_stored_def wps store_document_emptied split: sum.splits)

lemma document_ops_emptied:
  assumes "emptied i s"
  shows "wp (upsert_document now a) (\<lambda>_. emptied i) (emptied i) s"
    and "wp (get_document j t w) (\<lambda>_. emptied i) (emptied i) s"
    and "wp (set_document_status repr clock now j st) (\<lambda>_. emptied i) (emptied i) s"
    and "wp (delete_document j) (\<lambda>_. emptied i) (emptied i) s"
    and "wp (replace_document_chunks j chs) (\<lambda>_. emptied i) (emptied i) s"
proof -
  have obj: "emptied i t \<Longrightarrow> (\<And>u. emptied i u \<Longrightarrow> Q u) \<Longrightarrow> wp (on_object a m) (\<lambda>_. Q) (emptied i) t" for a m Q t
    by (rule wp_mono [OF emptied_on_object])
  show "wp (upsert_document now a) (\<lambda>_. emptied i) (emptied i) s"
    unfolding upsert_document_def Let_def wp_bind wp_simple wp_heap_ops(2)
    using assms by (auto intro!: obj replace_stored_emptied)
  show "wp (get_document j t w) (\<lambda>_. emptied i) (emptied i) s"
    using assms by (simp add: get_document_def wps split: option.splits)
  show "wp (set_document_status repr clock now j st) (\<lambda>_. emptied i) (emptied i) s"
    unfolding set_document_status_def wp_bind wp_simple wp_case_option
    using assms by (auto simp: wps subset_insertI split: option.split sum.splits intro!: obj)
  have del: "emptied i (s\<lparr>ks_chunks := AList.delete j (ks_chunks s)\<rparr>)"
    using assms by (auto simp: emptied_def delete_conv')
  then show "wp (delete_document j) (\<lambda>_. emptied i) (emptied i) s"
    by (auto simp: delete_document_def wps subset_insertI split: option.splits)
  show "wp (replace_document_chunks j chs) (\<lambda>_. emptied i) (emptied i) s"
    unfolding replace_document_chunks_def wp_bind using assms
    by (auto simp: wps emptied_def update_conv' split: option.splits sum.splits if_splits)
qed

section \<open>Publishing commits receipts\<close>

lemma commit_receipts_map:
  "commit_receipts repr clock d t = Inr t' \<Longrightarrow>
     (case map_of t k of
        None \<Rightarrow> map_of t' k = None
      | Some r \<Rightarrow> (\<exists>r'. map_of t' k = Some r' \<and>
          (if pb_outcome r = Pending_o \<and> publication_matches r d
           then terminal_publication repr clock r Committed_o = Inr r' else r' = r)))"
proof (induction t arbitrary: t')
  case (Cons x t)
  obtain j r where x: "x = (j, r)" by (cases x)
  obtain y u where y: "(if pb_outcome r = Pending_o \<and> publication_matches r d
       then rbind (terminal_publication repr clock r Committed_o) (\<lambda>r'. Inr (j, r')) else Inr (j, r)) = Inr y"
    and u: "commit_receipts repr clock d t = Inr u" and t': "t' = y # u"
    using Cons.prems by (auto simp: commit_receipts_def x rbind_Inr)
  show ?case
    using Cons.IH [OF u] y by (auto simp: t' x rbind_Inr split: if_splits option.splits)
qed (simp add: commit_receipts_def)

lemma table_inv_store [simp]:
  "table_inv p (s\<lparr>ks_heap := x1\<rparr>) = table_inv p s" "table_inv p (s\<lparr>ks_next := x2\<rparr>) = table_inv p s"
  "table_inv p (s\<lparr>ks_collections := x3\<rparr>) = table_inv p s" "table_inv p (s\<lparr>ks_documents := x4\<rparr>) = table_inv p s"
  "table_inv p (s\<lparr>ks_chunk_heap := x5\<rparr>) = table_inv p s" "table_inv p (s\<lparr>ks_chunks := x6\<rparr>) = table_inv p s"
  "table_inv p (s\<lparr>ks_tombstones := x7\<rparr>) = table_inv p s"
  by (simp_all add: table_inv_def receipts_ok_def)

lemma committed_receipt:
  assumes "terminal_publication repr clock r Committed_o = Inr r'"
  shows "receipt_ok r' \<and> same_receipt r r' \<and> pb_outcome r' = Committed_o"
  using terminal_publication_Inr [OF assms] by (auto simp: receipt_ok_def same_receipt_def)

lemma commit_receipts_inv:
  assumes "table_inv p s" and "commit_receipts repr clock d (ps_publications s) = Inr t"
  shows "table_inv p (s\<lparr>ps_publications := t\<rparr>)"
proof -
  note m = commit_receipts_map [OF assms(2)]
  have old: "\<exists>r. map_of (ps_publications s) k = Some r \<and> same_receipt r r' \<and> receipt_ok r'" if k: "map_of t k = Some r'" for k r'
  proof (cases "map_of (ps_publications s) k")
    case None
    then show ?thesis using m [of k] k by simp
  next
    case (Some r)
    then show ?thesis using m [of k] k committed_receipt [of repr clock r r'] table_inv_ok [OF assms(1) Some]
      by (auto split: if_splits)
  qed
  have "receipts_ok (s\<lparr>ps_publications := t\<rparr>)"
    unfolding receipts_ok_def using old table_inv_ok [OF assms(1)] same_receipt_attempt by simp metis
  moreover have "table_evolves (ps_publications s) t"
    unfolding table_evolves_def
  proof (intro allI impI)
    fix k r assume "map_of (ps_publications s) k = Some r"
    then obtain r' where r': "map_of t k = Some r'" using m [of k] by auto
    with old [OF r'] \<open>map_of (ps_publications s) k = Some r\<close>
    show "\<exists>r'. map_of t k = Some r' \<and> evolves r r'" by (auto simp: evolves_def)
  qed
  ultimately show ?thesis
    using assms(1) table_evolves_trans by (auto simp: table_inv_def)
qed

lemma table_on_object: "table_inv p s \<Longrightarrow> (\<And>t. ps_publications t = ps_publications s \<Longrightarrow> table_inv p t \<Longrightarrow> Q t) \<Longrightarrow>
  wp (on_object a m) (\<lambda>_. Q) (table_inv p) s"
  by (auto simp: wp_def on_object_def split: prod.split sum.split)

lemma store_document_table: "table_inv p s \<Longrightarrow> wp (store_document i a) (\<lambda>_. table_inv p) (table_inv p) s"
  by (simp add: store_document_def wps)

lemma replace_stored_table: "table_inv p s \<Longrightarrow> wp (replace_stored now i slot a) (\<lambda>_. table_inv p) (table_inv p) s"
  by (auto simp: replace_stored_def wps store_document_table split: sum.splits)

lemma document_ops_table:
  assumes "table_inv p s"
  shows "wp (upsert_document now a) (\<lambda>_. table_inv p) (table_inv p) s"
    and "wp (get_document i t w) (\<lambda>_. table_inv p) (table_inv p) s"
    and "wp (set_document_status repr clock now i st) (\<lambda>_. table_inv p) (table_inv p) s"
    and "wp (delete_document i) (\<lambda>_. table_inv p) (table_inv p) s"
    and "wp (replace_document_chunks i chs) (\<lambda>_. table_inv p) (table_inv p) s"
proof -
  have any: "table_inv p (u\<lparr>ps_publications := x\<rparr>)" if "commit_receipts repr clock d (ps_publications s) = Inr x" for u :: kstore and x d
    using commit_receipts_inv [OF assms that] by (simp add: table_inv_def receipts_ok_def)
  have same: "table_inv p (u\<lparr>ps_publications := ps_publications s\<rparr>)" for u :: kstore
    using assms by (simp add: table_inv_def receipts_ok_def)
  show "wp (upsert_document now a) (\<lambda>_. table_inv p) (table_inv p) s"
    unfolding upsert_document_def Let_def wp_bind wp_simple wp_heap_ops(2)
    using assms by (auto intro!: table_on_object replace_stored_table)
  show "wp (get_document i t w) (\<lambda>_. table_inv p) (table_inv p) s"
    using assms by (simp add: get_document_def wps split: option.splits)
  show "wp (set_document_status repr clock now i st) (\<lambda>_. table_inv p) (table_inv p) s"
    unfolding set_document_status_def wp_bind wp_simple wp_case_option
    using assms any same by (auto simp: wps split: option.split sum.splits intro!: table_on_object)
  show "wp (delete_document i) (\<lambda>_. table_inv p) (table_inv p) s"
    using assms by (simp add: delete_document_def wps split: option.splits)
  show "wp (replace_document_chunks i chs) (\<lambda>_. table_inv p) (table_inv p) s"
    unfolding replace_document_chunks_def wp_bind using assms by (auto simp: wps split: option.splits sum.splits)
qed

section \<open>Restoring\<close>

lemma wp_catch:
  "wp m Q F s \<Longrightarrow> (\<And>e t. F t \<Longrightarrow> wp (h e) Q E t) \<Longrightarrow>
     wp (\<lambda>s. case m s of (Inr u, t) \<Rightarrow> (Inr u, t) | (Inl e, t) \<Rightarrow> h e t) Q E s"
  by (cases "m s"; cases "fst (m s)") (simp_all add: wp_def)

lemma deleted_snapshot_current:
  "require_deleted_snapshot now current snapshot = Inr r \<Longrightarrow> \<exists>cur. current = Some cur \<and> doc_status cur = ''deleted''"
  by (auto simp: require_deleted_snapshot_def require_unchanged_tombstone_def split: option.splits if_splits)

text \<open>
  What \<open>restore_deleted_document\<close> keeps: a property kept by the read of the document, by binding a fresh
  object after the tombstone is gone, by the replacement of the chunks, and by the rollback, which buries a fresh object
  of status \<open>deleted\<close> again.
\<close>

lemma restore_rule:
  fixes snapshot :: document
  defines "i \<equiv> doc_document_id snapshot"
  assumes "wp (get_document i None None) (\<lambda>_. P) P s"
    and live: "\<And>t d. P t \<Longrightarrow> P (t\<lparr>ks_tombstones := ks_tombstones t - {i}, ks_heap := (ks_heap t)(ks_next t := d),
      ks_next := Suc (ks_next t), ks_documents := AList.update i (ks_next t) (ks_documents t)\<rparr>)"
    and chunks: "\<And>t. P t \<Longrightarrow> wp (replace_document_chunks i cs) (\<lambda>_. P) P t"
    and dead: "\<And>t d xs. P t \<Longrightarrow> doc_status d = ''deleted'' \<Longrightarrow> P (t\<lparr>ks_heap := (ks_heap t)(ks_next t := d),
      ks_next := Suc (ks_next t), ks_documents := AList.update i (ks_next t) (ks_documents t),
      ks_chunks := AList.update i xs (ks_chunks t), ks_tombstones := insert i (ks_tombstones t)\<rparr>)"
  shows "wp (restore_deleted_document now snapshot cs) (\<lambda>_. P) P s"
proof -
  have rollback: "wp (\<lambda>t. case current of None \<Rightarrow> (Inl e, t)
      | Some before \<Rightarrow> sbind (alloc before) (\<lambda>c. sbind (bind_document i c) (\<lambda>_.
          sbind (writing (\<lambda>s. s\<lparr>ks_chunks := AList.update i xs (ks_chunks s)\<rparr>)) (\<lambda>_. sbind (bury i) (\<lambda>_. raises e)))) t)
      (\<lambda>_. P) P t"
    if r: "require_deleted_snapshot now current snapshot = Inr r" and t: "P t" for current r e xs t
  proof -
    obtain cur where "current = Some cur" "doc_status cur = ''deleted''" using deleted_snapshot_current [OF r] by blast
    then show ?thesis using dead [OF t] by (simp add: wps)
  qed
  show ?thesis
    unfolding restore_deleted_document_def Let_def i_def [symmetric] wp_bind wp_simple wp_heap_ops get_chunks_def
    by (rule wp_mono [OF assms(2)])
       (auto intro!: wp_result wp_catch [OF chunks] live rollback simp: live)
qed

lemma graves_live:
  assumes "graves_ok K s"
  shows "graves_ok K (s\<lparr>ks_tombstones := ks_tombstones s - {i}, ks_heap := (ks_heap s)(ks_next s := d),
     ks_next := Suc (ks_next s), ks_documents := AList.update i (ks_next s) (ks_documents s)\<rparr>)" (is "graves_ok K ?t")
proof -
  let ?u = "s\<lparr>ks_tombstones := ks_tombstones s - {i}\<rparr>"
  have "graves_ok K ?u" using assms unfolding graves_ok_def by simp blast
  from graves_bind [OF graves_alloc(2) [OF this, of d], of "ks_next s" i]
  have "graves_ok (insert (ks_next s) K) ?t" by simp
  then show ?thesis unfolding graves_ok_def by blast
qed

lemma restore_graves:
  assumes "graves_ok K s"
  shows "wp (restore_deleted_document now snapshot cs) (\<lambda>_. graves_ok K) (graves_ok K) s"
proof (rule restore_rule)
  show "wp (get_document (doc_document_id snapshot) None None) (\<lambda>_. graves_ok K) (graves_ok K) s"
    by (rule wp_mono [OF get_document_graves [OF assms]]) (auto simp: graves_ok_def)
  fix t :: kstore and d :: document and xs and i
  assume t: "graves_ok K t" and d: "doc_status d = ''deleted''"
  show "graves_ok K (t\<lparr>ks_heap := (ks_heap t)(ks_next t := d), ks_next := Suc (ks_next t),
      ks_documents := AList.update (doc_document_id snapshot) (ks_next t) (ks_documents t),
      ks_chunks := AList.update (doc_document_id snapshot) xs (ks_chunks t),
      ks_tombstones := insert (doc_document_id snapshot) (ks_tombstones t)\<rparr>)"
    by (rule iffD1 [OF graves_cong graves_bury [OF t d]]) simp_all
qed (auto intro: graves_live replace_chunks_graves)

lemma restore_keeps:
  "ids_distinct s \<Longrightarrow> wp (restore_deleted_document now snapshot cs) (\<lambda>_. ids_distinct) ids_distinct s"
  "table_inv p t \<Longrightarrow> wp (restore_deleted_document now snapshot cs) (\<lambda>_. table_inv p) (table_inv p) t"
  "emptied i u \<Longrightarrow> doc_document_id snapshot \<noteq> i \<Longrightarrow>
     wp (restore_deleted_document now snapshot cs) (\<lambda>_. emptied i) (emptied i) u"
  by (auto intro!: restore_rule document_ops_ids document_ops_table document_ops_emptied)
     (auto simp: emptied_def update_conv')

text \<open>A document and a chunk for concrete runs.\<close>

definition sample_document :: document where
  "sample_document = \<lparr>doc_document_id = ''d'', doc_workspace_id = ''w'', doc_collection_id = ''c'', doc_tenant_id = ''t'',
     doc_document_version = ''v1'', doc_content_checksum = '''', doc_filename = ''f'', doc_display_filename = '''', doc_title = '''',
     doc_source_type = '''', doc_mime_type = '''', doc_language = None, doc_status = ''draft'', doc_parser_version = '''',
     doc_chunker_version = '''', doc_embedding_model = '''', doc_embedding_version = '''',
     doc_metadata = [(ATTEMPT_METADATA_KEY, Val (PStr ''p''))], doc_ingestion_version = PNone, doc_object_ref = PNone,
     doc_created_at = StampNone, doc_published_at = StampNone\<rparr>"

definition sample_chunk :: chunk where
  "sample_chunk = \<lparr>ch_chunk_id = [], ch_document_id = ''d'', ch_tenant_id = ''t'', ch_parent_chunk_id = None, ch_chunk_index = 0,
     ch_text = [], ch_page_start = None, ch_page_end = None, ch_section = None, ch_heading = None, ch_token_count = 0,
     ch_checksum = [], ch_parser_version = [], ch_chunker_version = [], ch_embedding_version = [], ch_index_version = [],
     ch_metadata = []\<rparr>"

end
