(* ===== verification/EvidenceGate.thy ===== *)
theory EvidenceGate
  imports RequestPolicy Authorization Knowledge
begin

text \<open>
  The evidence gate between retrieval and the professor
  (\<open>apps/api/src/services/professor_backend.py\<close>, \<open>EvidenceDecisionGate\<close>): retrieval results are
  resolved against the knowledge store, issued as evidence and decided upon; only an \<open>ANSWER\<close> delivers
  evidence. Before an answer is delivered, and before a cached one is returned, everything is resolved again.

  The knowledge store is seen through what its three reading methods return (\<open>kview\<close>). Every candidate has a view of its own,
  and nothing relates the results within a view, so the store may change between any two reads. The retrieval
  backend is an argument: what the call of an attempt returns, \<open>None\<close> when it raises. \<open>float_str\<close> is \<open>float\<close> on a
  text. Values of retrieval results that are not plain become \<open>POther\<close> where a field is read.
\<close>

section \<open>The knowledge authority\<close>

type_synonym pydict = "(string \<times> pyobj) list"

text \<open>Reading a document, a collection and chunks: the outer \<open>None\<close> is an exception.\<close>

record kview =
  kv_document :: "string \<Rightarrow> string \<Rightarrow> string \<Rightarrow> document option option" \<comment> \<open>identifier, tenant, workspace\<close>
  kv_collection :: "string \<Rightarrow> string \<Rightarrow> string \<Rightarrow> collection option option" \<comment> \<open>workspace, collection, tenant\<close>
  kv_chunks :: "string \<Rightarrow> string \<Rightarrow> string \<Rightarrow> chunk list option" \<comment> \<open>document, and tenant and workspace if asked for\<close>

definition plain :: "pyobj \<Rightarrow> pyval" where
  "plain x = (case x of Val v \<Rightarrow> v | _ \<Rightarrow> POther)"

definition plain_fields :: "pydict \<Rightarrow> fields" where
  "plain_fields d = map (\<lambda>(k, x). (k, plain x)) d"

definition field_default :: "fields \<Rightarrow> string \<Rightarrow> pyval \<Rightarrow> pyval" where
  "field_default d k dflt = (case map_of d k of None \<Rightarrow> dflt | Some v \<Rightarrow> v)"

definition int_value :: "int option \<Rightarrow> pyval" where
  "int_value x = (case x of None \<Rightarrow> PNone | Some n \<Rightarrow> PInt n)"

definition resolved_record :: "document \<Rightarrow> chunk \<Rightarrow> fields \<Rightarrow> fields" where
  "resolved_record d c raw =
     [(''tenant_id'', PStr (doc_tenant_id d)), (''workspace_id'', PStr (doc_workspace_id d)),
      (''collection_id'', PStr (doc_collection_id d)), (''document_id'', PStr (doc_document_id d)),
      (''document_version'', PStr (doc_document_version d)), (''document_checksum'', PStr (doc_content_checksum d)),
      (''chunk_id'', PStr (ch_chunk_id c)),
      (''source'', PStr (or_text (doc_display_filename d) (doc_filename d))),
      (''title'', PStr (or_text (doc_title d) (or_text (doc_display_filename d) (doc_filename d)))),
      (''checksum'', PStr (or_text (ch_checksum c) (doc_content_checksum d))),
      (''text'', PStr (ch_text c)), (''page_start'', int_value (ch_page_start c)),
      (''page_end'', int_value (ch_page_end c)), (''section'', optional_pyval (ch_section c)),
      (''retrieval_score'', field_default raw ''retrieval_score'' (field_default raw ''score'' (PFloat (Fin 0)))),
      (''reranking_score'', field_default raw ''reranking_score'' (field_default raw ''rerank_score'' (PFloat (Fin 0))))]"

definition document_in_scope :: "document \<Rightarrow> string \<Rightarrow> evidence_scope \<Rightarrow> bool" where
  "document_in_scope d i scope =
     (doc_document_id d = i \<and> doc_tenant_id d = es_tenant_id scope \<and> doc_workspace_id d = es_workspace_id scope \<and>
      doc_collection_id d = es_collection_id scope)"

definition collection_admits :: "collection \<Rightarrow> evidence_scope \<Rightarrow> bool" where
  "collection_admits c scope =
     (co_tenant_id c = es_tenant_id scope \<and> co_workspace_id c = es_workspace_id scope \<and>
      co_collection_id c = es_collection_id scope \<and> co_status c = ''active'')"

definition read_chunk :: "kview \<Rightarrow> string \<Rightarrow> string \<Rightarrow> evidence_scope \<Rightarrow> chunk option" where
  "read_chunk k i c scope =
     (case kv_chunks k i (es_tenant_id scope) (es_workspace_id scope) of
        None \<Rightarrow> None
      | Some chunks \<Rightarrow> find (\<lambda>ch. ch_chunk_id ch = c \<and> ch_document_id ch = i \<and> ch_tenant_id ch = es_tenant_id scope) chunks)"

definition resolve_ids :: "kview \<Rightarrow> string \<Rightarrow> string \<Rightarrow> fields \<Rightarrow> evidence_scope \<Rightarrow> fields option" where
  "resolve_ids k i c raw scope =
     (case kv_document k i (es_tenant_id scope) (es_workspace_id scope) of
        Some (Some d) \<Rightarrow>
          if \<not> document_in_scope d i scope then None
          else if doc_status d \<noteq> ''published'' then None
          else (case kv_collection k (es_workspace_id scope) (es_collection_id scope) (es_tenant_id scope) of
            Some (Some co) \<Rightarrow>
              if \<not> collection_admits co scope then None
              else map_option (\<lambda>ch. resolved_record d ch raw) (read_chunk k i c scope)
          | _ \<Rightarrow> None)
      | _ \<Rightarrow> None)"

definition knowledge_resolve :: "kview \<Rightarrow> fields \<Rightarrow> evidence_scope \<Rightarrow> fields option" where
  "knowledge_resolve k raw scope =
     (case field raw ''document_id'' of
        PStr i \<Rightarrow>
          if strip i = [] then None
          else (case field raw ''chunk_id'' of
            PStr c \<Rightarrow> if strip c = [] then None else resolve_ids k i c raw scope
          | _ \<Rightarrow> None)
      | _ \<Rightarrow> None)"

section \<open>The gate\<close>

record gate_context =
  gc_tenant_id :: pyval
  gc_workspace_id :: pyval
  gc_user_id :: pyval
  gc_allowed_collection_ids :: "pyval list option" \<comment> \<open>\<open>None\<close>: missing, or no list\<close>
  gc_permissions :: "pyval list option"

record evidence_gate =
  eg_authority :: bool \<comment> \<open>whether the gate was composed with a knowledge store\<close>
  eg_classifier :: "(pyval \<Rightarrow> pyval list option \<Rightarrow> classification option) option"
  eg_revalidator :: "(gate_context \<Rightarrow> gate_context option) option"
    \<comment> \<open>the result is \<open>None\<close> when the callback raises or returns no mapping\<close>

definition view_authority :: "kview \<Rightarrow> authority" where
  "view_authority k = Resolver (\<lambda>c scope.
     case knowledge_resolve k (case c of CMapping d \<Rightarrow> d | _ \<Rightarrow> []) scope of None \<Rightarrow> AuthMissing | Some d \<Rightarrow> AuthRecord d)"

definition gate_validator :: "evidence_gate \<Rightarrow> kview \<Rightarrow> evidence_validator" where
  "gate_validator g k =
     default_validator\<lparr>v_max_bundle_items := 8, v_authority := (if eg_authority g then Some (view_authority k) else None),
       v_require_authority := eg_authority g\<rparr>"

subsection \<open>Citation metrics\<close>

definition METRIC_KEYS :: "string list" where
  "METRIC_KEYS = [''citation_precision'', ''citation_recall'', ''citation_completeness'', ''unsupported_claim_rate'', ''faithfulness'']"

definition support_status_of :: "pyobj \<Rightarrow> support_status option" where
  "support_status_of x =
     (case x of
        Val (PStr s) \<Rightarrow> map_of [(''PASS'', PASS), (''FAIL'', FAIL), (''INCONCLUSIVE'', INCONCLUSIVE), (''NOT_RUN'', NOT_RUN)] s
      | _ \<Rightarrow> None)"

text \<open>\<open>values[target]\<close> with its aliases: the first name that is a key.\<close>

fun first_key :: "pydict \<Rightarrow> string list \<Rightarrow> pyobj option" where
  "first_key d [] = None"
| "first_key d (k # ks) = (case map_of d k of Some x \<Rightarrow> Some x | None \<Rightarrow> first_key d ks)"

text \<open>\<open>CitationSupportMetrics.model_validate\<close>; any exception is \<open>None\<close>.\<close>

definition parse_metrics :: "pydict \<Rightarrow> support_metrics option" where
  "parse_metrics raw =
     (let opt = (\<lambda>k. case map_of raw k of None \<Rightarrow> PNone | Some x \<Rightarrow> plain x);
          status = (case first_key raw [''status'', ''citation_support_status''] of None \<Rightarrow> Some NOT_RUN | Some x \<Rightarrow> support_status_of x);
          claims = (case first_key raw [''evaluated_claims'', ''citation_evaluated_claims'', ''claim_count''] of None \<Rightarrow> PInt 0 | Some x \<Rightarrow> plain x)
      in case (status, first_key raw [''source'', ''citation_support_source'']) of
           (Some st, Some src) \<Rightarrow>
             (case make_support_metrics st (opt ''citation_precision'') (opt ''citation_recall'') (opt ''citation_completeness'')
                (opt ''unsupported_claim_rate'') (opt ''faithfulness'') claims (plain src) of
                Inl e \<Rightarrow> None | Inr m \<Rightarrow> Some m)
         | _ \<Rightarrow> None)"

definition citation_support_metrics :: "pydict \<Rightarrow> support_metrics option \<times> bool" where
  "citation_support_metrics payload =
     (case get_key payload ''metadata'' of
        Dct metadata \<Rightarrow>
          (case map_of metadata ''citation_support_metrics'' of
             Some (Dct raw) \<Rightarrow> (parse_metrics raw, True)
           | Some _ \<Rightarrow> (None, True)
           | None \<Rightarrow>
               (case map_of metadata ''citation_support'' of
                  Some (Dct raw) \<Rightarrow> (parse_metrics raw, True)
                | Some _ \<Rightarrow> (None, True)
                | None \<Rightarrow>
                    if list_ex (\<lambda>k. map_of metadata k \<noteq> None)
                         (METRIC_KEYS @ [''citation_support_status'', ''citation_evaluated_claims''])
                    then (parse_metrics metadata, True) else (None, False)))
      | _ \<Rightarrow> (None, False))"

subsection \<open>Issuing candidates\<close>

definition dict_of :: "pyobj \<Rightarrow> pydict" where
  "dict_of x = (case x of Dct d \<Rightarrow> d | _ \<Rightarrow> [])"

definition default_get :: "pydict \<Rightarrow> string \<Rightarrow> string \<Rightarrow> pyobj" where
  "default_get d k k' = get_default d k (get_default d k' (Val (PFloat (Fin 0))))"

definition normalized_item :: "pydict \<Rightarrow> fields option \<Rightarrow> evidence \<Rightarrow> pydict" where
  "normalized_item candidate authoritative e =
     (let raw_quality = default_get candidate ''retrieval_quality_score'' ''confidence_score'' in
      [(''evidence_id'', Val (PStr (evidence_id e))), (''tenant_id'', Val (PStr (ev_tenant_id e))),
       (''workspace_id'', Val (PStr (ev_workspace_id e))), (''collection_id'', Val (PStr (ev_collection_id e))),
       (''document_id'', Val (PStr (ev_document_id e))), (''document_version'', Val (PStr (ev_document_version e))),
       (''document_checksum'', Val (case authoritative of None \<Rightarrow> PNone | Some a \<Rightarrow> field a ''document_checksum'')),
       (''chunk_id'', Val (PStr (ev_chunk_id e))), (''source'', Val (PStr (ev_source e))),
       (''title'', (case authoritative of None \<Rightarrow> get_default candidate ''title'' (Val (PStr []))
                    | Some a \<Rightarrow> Val (field_default a ''title'' (PStr [])))),
       (''checksum'', Val (PStr (ev_checksum e))), (''text'', Val (PStr (ev_text e))),
       (''page_start'', Val (int_value (ev_page_start e))), (''page_end'', Val (int_value (ev_page_end e))),
       (''section'', Val (optional_pyval (ev_section e))),
       (''retrieval_quality_score'', raw_quality), (''confidence_score'', raw_quality),
       (''score'', get_default candidate ''score'' (Val (PFloat (Fin 0)))),
       (''rank'', get_default candidate ''rank'' (Val (PInt 0))),
       (''dense_score'', get_default candidate ''dense_score'' (Val (PFloat (Fin 0)))),
       (''sparse_score'', get_default candidate ''sparse_score'' (Val (PFloat (Fin 0)))),
       (''reranking_score'', Val (PFloat (Fin (ev_reranking_score e)))),
       (''retrieval_score'', Val (PFloat (Fin (ev_retrieval_score e))))])"

text \<open>
  The quality of a candidate, \<open>None\<close> when it is not finite. An integer too large for a float raises an
  exception that is not caught; a value without a conversion counts as zero.
\<close>

definition retrieval_quality_of :: "(string \<Rightarrow> pyfloat option) \<Rightarrow> pyobj \<Rightarrow> evidence_error + real option" where
  "retrieval_quality_of float_str x =
     (let finite = (\<lambda>y. case y of Fin r \<Rightarrow> Some (max 0 (min 1 r)) | _ \<Rightarrow> None) in
      case x of
        Val (PBool b) \<Rightarrow> Inr (Some (if b then 1 else 0))
      | Val (PInt n) \<Rightarrow> if float_overflows (PInt n) then Inl OverflowError else Inr (finite (Fin (of_int n)))
      | Val (PFloat y) \<Rightarrow> Inr (finite y)
      | Val (PStr s) \<Rightarrow> Inr (case float_str s of None \<Rightarrow> Some 0 | Some y \<Rightarrow> finite y)
      | _ \<Rightarrow> Inr (Some 0))"

record loop_state =
  ls_selected :: "string option"
  ls_issued :: "evidence list"
  ls_normalized :: "pydict list"
  ls_quality :: "real list"

text \<open>One candidate in the scope of its collection: the evidence with the record it was resolved to, or nothing.\<close>

definition admit_candidate ::
  "(payload \<Rightarrow> string) \<Rightarrow> evidence_gate \<Rightarrow> kview \<Rightarrow> string \<Rightarrow> string \<Rightarrow> string \<Rightarrow> fields \<Rightarrow>
     evidence_error + (evidence \<times> fields option) option" where
  "admit_candidate sha g k tenant workspace c candidate =
     rbind (make_evidence_scope (PStr tenant) (PStr workspace) (PStr c)) (\<lambda>scope.
     let authoritative = (if eg_authority g then knowledge_resolve k candidate scope else None) in
     if eg_authority g \<and> authoritative = None then Inr None
     else case issue sha (gate_validator g k) (CMapping candidate) (ScopeObj scope) None authoritative of
       Inl e \<Rightarrow> Inr None
     | Inr e \<Rightarrow> Inr (Some (e, authoritative)))"

definition issue_step ::
  "(payload \<Rightarrow> string) \<Rightarrow> (string \<Rightarrow> pyfloat option) \<Rightarrow> evidence_gate \<Rightarrow> kview \<Rightarrow> string \<Rightarrow> string \<Rightarrow> pyval list \<Rightarrow>
     loop_state \<Rightarrow> pyobj \<Rightarrow> evidence_error + loop_state" where
  "issue_step sha float_str g k tenant workspace allowed st raw =
     (let candidate = dict_of raw in
      case field (plain_fields candidate) ''collection_id'' of
        PStr c \<Rightarrow>
          if c = [] then Inr st
          else if PStr ''*'' \<notin> set allowed \<and> PStr c \<notin> set allowed then Inr st
          else if ls_selected st \<noteq> None \<and> ls_selected st \<noteq> Some c then Inr st
          else rbind (admit_candidate sha g k tenant workspace c (plain_fields candidate)) (\<lambda>admitted.
            case admitted of
              None \<Rightarrow> Inr st
            | Some (e, authoritative) \<Rightarrow>
                if evidence_id e \<in> set (map evidence_id (ls_issued st)) then Inr st
                else rbind (retrieval_quality_of float_str (default_get candidate ''retrieval_quality_score'' ''confidence_score'')) (\<lambda>q.
                  Inr \<lparr>ls_selected = Some c, ls_issued = ls_issued st @ [e],
                       ls_normalized = ls_normalized st @ [normalized_item candidate authoritative e],
                       ls_quality = ls_quality st @ (case q of None \<Rightarrow> [] | Some x \<Rightarrow> [x])\<rparr>))
      | _ \<Rightarrow> Inr st)"

fun issue_loop ::
  "(payload \<Rightarrow> string) \<Rightarrow> (string \<Rightarrow> pyfloat option) \<Rightarrow> evidence_gate \<Rightarrow> (nat \<Rightarrow> kview) \<Rightarrow> string \<Rightarrow> string \<Rightarrow> pyval list \<Rightarrow>
     nat \<Rightarrow> loop_state \<Rightarrow> pyobj list \<Rightarrow> evidence_error + loop_state" where
  "issue_loop sha float_str g views tenant workspace allowed n st [] = Inr st"
| "issue_loop sha float_str g views tenant workspace allowed n st (x # xs) =
     rbind (issue_step sha float_str g (views n) tenant workspace allowed st x) (\<lambda>st'.
     if length (ls_normalized st') \<ge> 8 then Inr st'
     else issue_loop sha float_str g views tenant workspace allowed (Suc n) st' xs)"

text \<open>The qualities lie between zero and one, so \<open>max(quality_values or [0.0])\<close> is a fold from zero.\<close>

definition issue_candidates ::
  "(payload \<Rightarrow> string) \<Rightarrow> (string \<Rightarrow> pyfloat option) \<Rightarrow> evidence_gate \<Rightarrow> (nat \<Rightarrow> kview) \<Rightarrow> string \<Rightarrow> gate_context \<Rightarrow> pyobj list \<Rightarrow>
     evidence_error + (pydict list \<times> evidence_bundle option \<times> real)" where
  "issue_candidates sha float_str g views query ctx candidates =
     (case (gc_tenant_id ctx, gc_workspace_id ctx, gc_allowed_collection_ids ctx) of
        (PStr tenant, PStr workspace, Some (a # as)) \<Rightarrow>
          rbind (issue_loop sha float_str g views tenant workspace (a # as) 0
                   \<lparr>ls_selected = None, ls_issued = [], ls_normalized = [], ls_quality = []\<rparr> candidates) (\<lambda>st.
          case ls_selected st of
            None \<Rightarrow> Inr ([], None, 0)
          | Some c \<Rightarrow>
              if ls_issued st = [] then Inr ([], None, 0)
              else
                rbind (make_evidence_scope (PStr tenant) (PStr workspace) (PStr c)) (\<lambda>scope.
                rbind (build_from_scope sha scope (PStr query) (map Item (ls_issued st))) (\<lambda>b.
                Inr (ls_normalized st, Some b, foldr max (ls_quality st) 0))))
      | _ \<Rightarrow> Inr ([], None, 0))"

subsection \<open>The decision\<close>

definition structural_citation_support :: "(payload \<Rightarrow> string) \<Rightarrow> evidence_bundle option \<Rightarrow> evidence_error + real" where
  "structural_citation_support sha bundle =
     (case bundle of
        None \<Rightarrow> Inr 0
      | Some b \<Rightarrow> rbind (validate_bundle sha bundle None) (\<lambda>report.
          Inr (if er_valid report \<and> er_evidence_count report > 0 then 1 else 0)))"

definition gate_policy :: raw_policy where
  "gate_policy = default_policy\<lparr>rp_min_retrieval_quality := PFloat (Fin (50 / 100)), rp_min_citation_support := PFloat (Fin 1),
     rp_min_provider_confidence_signal := PFloat (Fin 0), rp_max_retrieval_attempts := PInt 1\<rparr>"

definition gate_decision_input ::
  "(payload \<Rightarrow> string) \<Rightarrow> evidence_gate \<Rightarrow> gate_context \<Rightarrow> evidence_bundle option \<Rightarrow> nat \<Rightarrow> real \<Rightarrow> nat \<Rightarrow>
     support_metrics option \<times> bool \<Rightarrow> classification \<Rightarrow> bool \<Rightarrow> evidence_error + decision_input" where
  "gate_decision_input sha g ctx bundle count quality attempt metrics cls retry_available =
     rbind (if snd metrics \<and> fst metrics = None then Inr 0 else structural_citation_support sha bundle) (\<lambda>support.
     rbind (make_policy gate_policy) (\<lambda>policy.
     make_decision_input
       \<lparr>ri_evidence_bundle = bundle,
        ri_tenant_id = (if bundle = None then PNone else gc_tenant_id ctx),
        ri_workspace_id = (if bundle = None then PNone else gc_workspace_id ctx),
        ri_collection_id = (case bundle of None \<Rightarrow> PNone | Some b \<Rightarrow> PStr (eb_collection_id b)),
        ri_retrieval_quality = PFloat (Fin (max 0 (min 1 quality))), ri_evidence_count = PInt (int count),
        ri_citation_support = PFloat (Fin support), ri_citation_support_metrics = fst metrics,
        ri_provider_confidence_signal = PFloat (Fin 1), ri_domain_risk = rc_domain_risk cls, ri_user_intent = rc_intent cls,
        ri_policy = policy, ri_retrieval_attempt = PInt (int attempt), ri_retrieval_available = retry_available,
        ri_integrity_ok = True, ri_policy_allows_answer = (rc_allows_answer cls \<and> eg_authority g),
        ri_human_review_required = rc_human_review_required cls, ri_cited_evidence_ids = None\<rparr>))"

subsection \<open>Retrieval\<close>

datatype gate_error = RetrievalRaised | GateRaised evidence_error

fun risk_value :: "domain_risk \<Rightarrow> string" where
  "risk_value RISK_UNKNOWN = ''UNKNOWN''"
| "risk_value LOW = ''LOW''"
| "risk_value MEDIUM = ''MEDIUM''"
| "risk_value HIGH = ''HIGH''"
| "risk_value CRITICAL = ''CRITICAL''"

fun clarity_value :: "intent_clarity \<Rightarrow> string" where
  "clarity_value CLARITY_UNKNOWN = ''UNKNOWN''"
| "clarity_value CLEAR = ''CLEAR''"
| "clarity_value AMBIGUOUS = ''AMBIGUOUS''"
| "clarity_value UNSUPPORTED = ''UNSUPPORTED''"

fun action_value :: "decision_action \<Rightarrow> string" where
  "action_value ANSWER = ''ANSWER''"
| "action_value RETRIEVE_AGAIN = ''RETRIEVE_AGAIN''"
| "action_value ASK_FOR_CLARIFICATION = ''ASK_FOR_CLARIFICATION''"
| "action_value ABSTAIN = ''ABSTAIN''"
| "action_value ESCALATE = ''ESCALATE''"

definition classification_metadata :: "classification \<Rightarrow> pydict" where
  "classification_metadata c =
     [(''request_policy_version'', Val (PStr (rc_policy_version c))), (''request_policy_reason'', Val (PStr (rc_reason_code c))),
      (''request_domain_risk'', Val (PStr (risk_value (rc_domain_risk c)))),
      (''request_intent'', Val (PStr (ui_intent_code (rc_intent c)))),
      (''request_intent_clarity'', Val (PStr (clarity_value (ui_clarity (rc_intent c))))),
      (''request_policy_allows_answer'', Val (PBool (rc_allows_answer c))),
      (''request_policy_human_review_required'', Val (PBool (rc_human_review_required c))),
      (''domain_acceptance'', Val (PStr (if rc_human_review_required c then ''clinical_broad_intake_human_review''
                                        else ''nonclinical_technical_only'')))]"

text \<open>\<open>d.update(e)\<close>\<close>

definition dict_update :: "pydict \<Rightarrow> pydict \<Rightarrow> pydict" where
  "dict_update d e = fold (\<lambda>(k, x). AList.update k x) e d"

text \<open>What an attempt leaves behind: the payload, the issued items and the decision.\<close>

type_synonym round = "pydict \<times> pydict list \<times> decision"

definition gate_round ::
  "(payload \<Rightarrow> string) \<Rightarrow> (string \<Rightarrow> pyfloat option) \<Rightarrow> evidence_gate \<Rightarrow> (nat \<Rightarrow> kview) \<Rightarrow> string \<Rightarrow> gate_context \<Rightarrow>
     classification \<Rightarrow> bool \<Rightarrow> nat \<Rightarrow> pyobj \<Rightarrow> evidence_error + round" where
  "gate_round sha float_str g views query ctx cls retry_available attempt raw_result =
     (let payload = dict_of raw_result;
          candidates = (case get_default payload ''evidence'' (Lst []) of Lst xs \<Rightarrow> xs | _ \<Rightarrow> [])
      in rbind (issue_candidates sha float_str g views query ctx candidates) (\<lambda>(normalized, bundle, quality).
         rbind (gate_decision_input sha g ctx bundle (length normalized) quality attempt
                  (citation_support_metrics payload) cls retry_available) (\<lambda>input.
         rbind (decide sha (Some input)) (\<lambda>d. Inr (payload, normalized, d)))))"

definition gate_result :: "classification \<Rightarrow> decision_action \<Rightarrow> round \<Rightarrow> pydict" where
  "gate_result cls initial r =
     (case r of (payload, normalized, d) \<Rightarrow>
       let metadata = dict_update (dict_update (dict_update (dict_of (get_key payload ''metadata'')) (classification_metadata cls))
             [(''decision_initial_action'', Val (PStr (action_value initial))),
              (''retrieval_strategy'', Val (PStr (if d_retrieval_attempt d = 0 then ''original'' else ''policy_topic_terms_v1''))),
              (''evidence_collection_mode'', Val (PStr ''first_valid_single_collection'')),
              (''semantic_support_status'', Val (PStr ''NOT_EVALUATED''))])
             [(''decision_action'', Val (PStr (action_value (d_action d)))), (''decision_reason'', Val (PStr (d_reason_code d))),
              (''decision_attempt'', Val (PInt (d_retrieval_attempt d))),
              (''evidence_bundle_id'', opt_text (d_evidence_bundle_id d))];
           delivered = (if d_action d = ANSWER then normalized else [])
       in dict_update payload
            [(''evidence'', Lst (map Dct delivered)), (''selected_count'', Val (PInt (int (length delivered)))),
             (''metadata'', Dct metadata)])"

text \<open>
  The loop of at most two attempts. \<open>backend\<close> is the retrieval call of an attempt (the attempt, the query and the
  allowed collections it gets), \<open>views\<close> what the store returns to the candidates of each attempt. The result comes with the
  queries that were sent.
\<close>

type_synonym retrieval = "nat \<Rightarrow> string option \<Rightarrow> pyval list \<Rightarrow> pyobj option"

definition gate_call ::
  "(payload \<Rightarrow> string) \<Rightarrow> (string \<Rightarrow> pyfloat option) \<Rightarrow> evidence_gate \<Rightarrow> (nat \<Rightarrow> nat \<Rightarrow> kview) \<Rightarrow> retrieval \<Rightarrow> string \<Rightarrow>
     gate_context \<Rightarrow> classification \<Rightarrow> bool \<Rightarrow> nat \<Rightarrow> string option \<Rightarrow> gate_error + round" where
  "gate_call sha float_str g views backend query ctx cls retry_available attempt sent =
     (case backend attempt sent (case gc_allowed_collection_ids ctx of None \<Rightarrow> [] | Some xs \<Rightarrow> xs) of
        None \<Rightarrow> Inl RetrievalRaised
      | Some raw_result \<Rightarrow>
          (case gate_round sha float_str g (views attempt) query ctx cls retry_available attempt raw_result of
             Inl e \<Rightarrow> Inl (GateRaised e) | Inr r \<Rightarrow> Inr r))"

definition retrieve ::
  "(payload \<Rightarrow> string) \<Rightarrow> (string \<Rightarrow> pyfloat option) \<Rightarrow> evidence_gate \<Rightarrow> (nat \<Rightarrow> nat \<Rightarrow> kview) \<Rightarrow> retrieval \<Rightarrow> string \<Rightarrow>
     gate_context \<Rightarrow> pyval list option \<Rightarrow> string option list \<times> (gate_error + pydict)" where
  "retrieve sha float_str g views backend query ctx history =
     (let cls = classify_request (eg_classifier g) (PStr query) history;
          retry_query = rc_retry_query cls;
          retry_available = (case retry_query of None \<Rightarrow> False | Some q \<Rightarrow> strip q \<noteq> strip query);
          call = gate_call sha float_str g views backend query ctx cls retry_available
      in case call 0 (Some query) of
           Inl e \<Rightarrow> ([Some query], Inl e)
         | Inr r \<Rightarrow>
             (let initial = d_action (snd (snd r)) in
              if initial \<noteq> RETRIEVE_AGAIN then ([Some query], Inr (gate_result cls initial r))
              else ([Some query, retry_query],
                    case call 1 retry_query of Inl e \<Rightarrow> Inl e | Inr r' \<Rightarrow> Inr (gate_result cls initial r'))))"

subsection \<open>Revalidation\<close>

definition may_chat :: "gate_context \<Rightarrow> bool" where
  "may_chat ctx =
     (case gc_permissions ctx of None \<Rightarrow> False | Some ps \<Rightarrow> permission_granted None (Iter ps) ''chat.query'' True)"

definition current_context :: "evidence_gate \<Rightarrow> gate_context \<Rightarrow> gate_context option" where
  "current_context g original =
     (case eg_revalidator g of
        None \<Rightarrow> Some original
      | Some f \<Rightarrow>
          (case f (original\<lparr>gc_allowed_collection_ids := Some (case gc_allowed_collection_ids original of None \<Rightarrow> [] | Some xs \<Rightarrow> xs),
                           gc_permissions := Some (case gc_permissions original of None \<Rightarrow> [] | Some xs \<Rightarrow> xs)\<rparr>) of
             None \<Rightarrow> None
           | Some current \<Rightarrow>
               if \<not> (py_eq (gc_tenant_id current) (gc_tenant_id original) \<and>
                     py_eq (gc_workspace_id current) (gc_workspace_id original) \<and>
                     py_eq (gc_user_id current) (gc_user_id original)) then None
               else if \<not> may_chat current then None
               else Some current))"

definition collection_allowed :: "pyval list \<Rightarrow> pyval \<Rightarrow> bool" where
  "collection_allowed allowed c = (PStr ''*'' \<in> set allowed \<or> list_ex (py_eq c) allowed)"

definition falsy :: "pyval \<Rightarrow> bool" where
  "falsy v = (v = PNone \<or> v = PStr [] \<or> v = PBool False \<or> v = PInt 0 \<or> v = PFloat (Fin 0))"

text \<open>The body of the loop of \<open>revalidate\<close>; an exception in it is caught and means false.\<close>

definition item_revalidates ::
  "(payload \<Rightarrow> string) \<Rightarrow> evidence_gate \<Rightarrow> kview \<Rightarrow> gate_context \<Rightarrow> pyval list \<Rightarrow> pyval list \<Rightarrow> fields \<Rightarrow> bool" where
  "item_revalidates sha g k original allowed refreshed item =
     (let c = field item ''collection_id'' in
      if \<not> collection_allowed allowed c \<or> \<not> collection_allowed refreshed c then False
      else case make_evidence_scope (gc_tenant_id original) (gc_workspace_id original) c of
        Inl e \<Rightarrow> False
      | Inr scope \<Rightarrow>
          (case knowledge_resolve k item scope of
             None \<Rightarrow> False
           | Some authoritative \<Rightarrow>
               (case issue sha (gate_validator g k) (CMapping item) (ScopeObj scope) None (Some authoritative) of
                  Inl e \<Rightarrow> False
                | Inr fresh \<Rightarrow>
                    PStr (evidence_id fresh) = field item ''evidence_id'' \<and>
                    \<not> falsy (field item ''document_checksum'') \<and>
                    py_eq (field item ''document_checksum'') (field authoritative ''document_checksum'') \<and>
                    py_eq (field_default item ''title'' (PStr [])) (field_default authoritative ''title'' (PStr [])))))"

fun revalidate ::
  "(payload \<Rightarrow> string) \<Rightarrow> evidence_gate \<Rightarrow> (nat \<Rightarrow> kview) \<Rightarrow> gate_context \<Rightarrow> pyval list \<Rightarrow> pyval list \<Rightarrow> nat \<Rightarrow> fields list \<Rightarrow> bool" where
  "revalidate sha g views original allowed refreshed n [] = True"
| "revalidate sha g views original allowed refreshed n (x # xs) =
     (item_revalidates sha g (views n) original allowed refreshed x \<and>
      revalidate sha g views original allowed refreshed (Suc n) xs)"

text \<open>The evidence items are mappings, as the type of the parameter says.\<close>

definition cited_within :: "pyval list \<Rightarrow> pyval list \<Rightarrow> bool" where
  "cited_within ids cited =
     (list_all is_str (ids @ cited) \<and> distinct ids \<and> cited \<noteq> [] \<and> set cited \<subseteq> set ids)"

definition one_collection :: "fields list \<Rightarrow> bool" where
  "one_collection evidence =
     (case map (\<lambda>x. field x ''collection_id'') evidence of
        [] \<Rightarrow> False | c # cs \<Rightarrow> list_all (\<lambda>c'. c' = c \<or> py_eq c' c) cs)"

definition validate_publication ::
  "(payload \<Rightarrow> string) \<Rightarrow> evidence_gate \<Rightarrow> (nat \<Rightarrow> kview) \<Rightarrow> gate_context \<Rightarrow> fields list \<Rightarrow> pyval list \<Rightarrow> bool" where
  "validate_publication sha g views original evidence cited =
     (if \<not> eg_authority g \<or> \<not> (1 \<le> length evidence \<and> length evidence \<le> 8) then False
      else if \<not> may_chat original then False
      else case current_context g original of
        None \<Rightarrow> False
      | Some current \<Rightarrow>
          (case (gc_allowed_collection_ids original, gc_allowed_collection_ids current) of
             (Some allowed, Some refreshed) \<Rightarrow>
               list_all is_str (allowed @ refreshed) \<and>
               cited_within (map (\<lambda>x. field x ''evidence_id'') evidence) cited \<and>
               one_collection evidence \<and>
               revalidate sha g views original allowed refreshed 0 evidence
           | _ \<Rightarrow> False))"

text \<open>A citation of a cached answer as a snapshot item; \<open>None\<close> stops the loop or is a caught exception.\<close>

definition cached_item ::
  "(payload \<Rightarrow> string) \<Rightarrow> evidence_gate \<Rightarrow> kview \<Rightarrow> gate_context \<Rightarrow> pyobj \<Rightarrow> fields option" where
  "cached_item sha g k ctx citation =
     (case citation of
        Dct d \<Rightarrow>
          (let item = plain_fields d in
           case field item ''collection_id'' of
             PStr c \<Rightarrow>
               if c = [] then None
               else (case make_evidence_scope (gc_tenant_id ctx) (gc_workspace_id ctx) (PStr c) of
                 Inl e \<Rightarrow> None
               | Inr scope \<Rightarrow>
                   (case knowledge_resolve k item scope of
                      None \<Rightarrow> None
                    | Some a \<Rightarrow>
                        if (field item ''checksum'' \<noteq> PNone \<and> \<not> py_eq (field item ''checksum'') (field a ''checksum'')) \<or>
                           (field item ''title'' \<noteq> PNone \<and> \<not> py_eq (field item ''title'') (field a ''title'')) then None
                        else (case issue sha (gate_validator g k) (CMapping item) (ScopeObj scope) None (Some a) of
                          Inl e \<Rightarrow> None
                        | Inr e \<Rightarrow> Some
                            [(''evidence_id'', PStr (evidence_id e)), (''document_id'', PStr (ev_document_id e)),
                             (''chunk_id'', PStr (ev_chunk_id e)), (''collection_id'', PStr (ev_collection_id e)),
                             (''document_checksum'', field a ''document_checksum''),
                             (''title'', field_default a ''title'' (PStr []))])))
           | _ \<Rightarrow> None)
      | _ \<Rightarrow> None)"

fun resolve_snapshot ::
  "(payload \<Rightarrow> string) \<Rightarrow> evidence_gate \<Rightarrow> (nat \<Rightarrow> kview) \<Rightarrow> gate_context \<Rightarrow> nat \<Rightarrow> pyobj list \<Rightarrow> fields list option" where
  "resolve_snapshot sha g views ctx n [] = Some []"
| "resolve_snapshot sha g views ctx n (c # cs) =
     (case cached_item sha g (views n) ctx c of
        None \<Rightarrow> None
      | Some x \<Rightarrow> map_option (Cons x) (resolve_snapshot sha g views ctx (Suc n) cs))"

text \<open>The two resolutions of a cached answer see the views \<open>views 0\<close> and \<open>views 1\<close>.\<close>

definition validate_cached_response ::
  "(payload \<Rightarrow> string) \<Rightarrow> evidence_gate \<Rightarrow> (nat \<Rightarrow> nat \<Rightarrow> kview) \<Rightarrow> gate_context \<Rightarrow> pydict \<Rightarrow> bool" where
  "validate_cached_response sha g views ctx response =
     (case get_key response ''citations'' of
        Lst citations \<Rightarrow>
          if citations = [] then
            get_key (dict_of (get_key response ''metadata'')) ''evidence_status'' \<noteq> Val (PStr ''APPROVED_EVIDENCE'')
          else if \<not> eg_authority g \<or> length citations > 8 then False
          else (case resolve_snapshot sha g (views 0) ctx 0 citations of
            None \<Rightarrow> False
          | Some evidence \<Rightarrow>
              validate_publication sha g (views 1) ctx evidence (map (\<lambda>x. field x ''evidence_id'') evidence))
      | _ \<Rightarrow> False)"

end
