(* ===== verification/Orchestration.thy ===== *)
theory Orchestration
  imports Professor
begin

text \<open>
  The professor's run and stream (\<open>rick_professor/orchestration.py\<close>) and the chat backend around it
  (\<open>apps/api/src/services/professor_backend.py\<close>): one request goes through retrieval, a check of what was
  retrieved against the caller's scope, the provider, and a check of the citations in the answer; before an
  approved answer is delivered its sources are validated again.

  Everything outside is an argument: retrieval, the provider, the validator of a publication and the lease port are
  functions of what they are called with (\<open>None\<close>: the call raises). Timers, a lost lease and the cancellation of the
  caller are events that may come after any number of calls, so a run is a result and the calls that were made.
\<close>

section \<open>The ports\<close>

record lease_port =
  lp_low_level :: bool \<comment> \<open>owner-aware store, or a client with handles\<close>
  lp_renewable :: bool
  lp_acquire :: "string \<Rightarrow> nat \<Rightarrow> pyobj option"

record chat_chunk =
  ck_model :: string
  ck_delta :: string
  ck_tool_indexes :: "nat list"
  ck_finish_reason :: "finish_reason option"
  ck_correlation_id :: string
  ck_usage_total :: "nat option"

text \<open>
  A timer of the reasoning or a lost lease ends the generation; the timer of the whole request or the caller ends the run.
  The number says how many calls there were before (from outside: steps; of a stream: events).
\<close>

datatype stop = Reasoning_timer | Lease_renewal_failed
datatype outer_stop = Total_timer | Caller_cancels

record professor_env =
  pe_limits :: professor_limits
  pe_require_revalidation :: bool
  pe_float_str :: "string \<Rightarrow> pyfloat option"
  pe_lease :: "lease_port option"
  pe_retrieve :: "string \<Rightarrow> retrieval_context \<Rightarrow> string list \<Rightarrow> pyobj option"
  pe_complete :: "provider_message list \<Rightarrow> string \<Rightarrow> completion_result option"
  pe_stream :: "(provider_message list \<Rightarrow> string \<Rightarrow> (chat_chunk list \<times> bool) option) option"
    \<comment> \<open>\<open>None\<close>: no such method; the chunks, and whether the iteration then raises\<close>
  pe_validator :: "(retrieval_context \<Rightarrow> pydict list \<Rightarrow> pyval list \<Rightarrow> pyobj option) option"
  pe_live_grants :: bool
  pe_stop :: "(stop \<times> nat) option"
  pe_outer :: "(outer_stop \<times> nat) option"

section \<open>Validation before delivery\<close>

text \<open>\<open>x in ids\<close> for a set of strings: \<open>None\<close> when the value is not hashable.\<close>

definition in_texts :: "pyobj \<Rightarrow> string list \<Rightarrow> bool option" where
  "in_texts x ids = (case x of Val (PStr s) \<Rightarrow> Some (s \<in> set ids) | Val _ \<Rightarrow> Some False | _ \<Rightarrow> None)"

fun snapshot_of :: "string list \<Rightarrow> pyobj list \<Rightarrow> pydict list option" where
  "snapshot_of ids [] = Some []"
| "snapshot_of ids (x # xs) =
     (case as_mapping x of
        None \<Rightarrow> snapshot_of ids xs
      | Some d \<Rightarrow>
          (case in_texts (get_key d ''evidence_id'') ids of
             None \<Rightarrow> None
           | Some b \<Rightarrow> map_option (\<lambda>ds. if b then d # ds else ds) (snapshot_of ids xs)))"

definition hashable :: "pyobj \<Rightarrow> bool" where
  "hashable x = (case x of Val v \<Rightarrow> True | _ \<Rightarrow> False)"

fun cited_ids_of :: "(string \<times> string) list \<Rightarrow> pydict list \<Rightarrow> pyval list option" where
  "cited_ids_of cited [] = Some []"
| "cited_ids_of cited (d # ds) =
     (let x = get_key d ''document_id''; y = get_key d ''chunk_id'' in
      if \<not> hashable x \<or> \<not> hashable y then None
      else map_option (\<lambda>is. if (case (x, y) of (Val (PStr a), Val (PStr b)) \<Rightarrow> (a, b) \<in> set cited | _ \<Rightarrow> False)
                            then plain (get_key d ''evidence_id'') # is else is) (cited_ids_of cited ds))"

definition evidence_ids :: "professor_response \<Rightarrow> string list" where
  "evidence_ids r = remdups (map (\<lambda>d. case field d ''evidence_id'' of PStr s \<Rightarrow> s | _ \<Rightarrow> []) (pr_evidence r))"

text \<open>The arguments of the validator's call, \<open>None\<close> when there is no call.\<close>

definition publication_call ::
  "professor_env \<Rightarrow> professor_response \<Rightarrow> pyobj option \<Rightarrow>
     ((retrieval_context \<Rightarrow> pydict list \<Rightarrow> pyval list \<Rightarrow> pyobj option) \<times> pydict list \<times> pyval list) option" where
  "publication_call e r snapshot =
     (let ids = evidence_ids r in
      case snapshot_of ids (case snapshot of None \<Rightarrow> [] | Some x \<Rightarrow> retrieved_items x) of
        None \<Rightarrow> None
      | Some items \<Rightarrow>
          (case cited_ids_of (map (\<lambda>c. (pc_document_id c, pc_chunk_id c)) (pr_citations r)) items of
             None \<Rightarrow> None
           | Some cited \<Rightarrow>
               (case pe_validator e of
                  None \<Rightarrow> None
                | Some f \<Rightarrow> if length items = length ids then Some (f, items, cited) else None)))"

definition validated_response ::
  "professor_env \<Rightarrow> professor_request \<Rightarrow> professor_response \<Rightarrow> (request_state, professor_error, professor_response) op" where
  "validated_response e rq r b =
     (if pr_evidence_status r \<noteq> APPROVED_EVIDENCE then (Inr r, b)
      else if pe_validator e = None \<and> \<not> pe_require_revalidation e then (Inr r, b)
      else
        let call = publication_call e r (rb_retrieval_snapshot b);
            b' = (if call = None then b else called Validate b)
        in if (case call of None \<Rightarrow> False | Some (f, items, cited) \<Rightarrow> f (rq_context rq) items cited = Some (Val (PBool True)))
           then (Inr (r\<lparr>pr_metadata := set_fields (pr_metadata r)
                   [(''publication_validation'', PStr ''verified''), (''semantic_support_status'', PStr ''NOT_EVALUATED''),
                    (''publication_authorization'', PStr (if pe_live_grants e then ''live_grants_and_collection''
                                                          else ''request_scope_and_collection''))]\<rparr>), b')
           else (static_response (pe_limits e) rq CITATION_INVALID INVALID_CITATION_ANSWER []
                   (set_fields (pr_metadata r) [(''decision_action'', PStr ''ABSTAIN''),
                      (''decision_reason'', PStr ''publication_sources_changed''), (''publication_validation'', PStr ''failed'')]), b'))"

section \<open>Generation\<close>

definition professor_retrieve :: "professor_env \<Rightarrow> professor_request \<Rightarrow> pyobj step_op" where
  "professor_retrieve e rq =
     sbind (consume_retrieval_round (pe_limits e)) (\<lambda>_.
     sbind (calling Retrieve) (\<lambda>_.
     case pe_retrieve e (rq_query rq) (rq_context rq) (map pm_content (rq_history rq)) of
       None \<Rightarrow> raises StepRaised
     | Some result \<Rightarrow> sbind (writing (\<lambda>b. b\<lparr>rb_retrieval_snapshot := Some result\<rparr>)) (\<lambda>_. ret result)))"

definition professor_complete ::
  "professor_env \<Rightarrow> professor_request \<Rightarrow> provider_message list \<Rightarrow> completion_result step_op" where
  "professor_complete e rq messages =
     sbind (consume_provider_call (pe_limits e)) (\<lambda>_.
     sbind (calling Complete) (\<lambda>_.
     case pe_complete e messages (rq_conversation_id rq) of
       None \<Rightarrow> raises StepRaised
     | Some c \<Rightarrow>
         if \<not> completion_ok c then raises StepRaised
         else sbind (consume_tool_calls (pe_limits e) (cc_tool_calls c)) (\<lambda>_. ret c)))"

definition step_stage :: "string \<Rightarrow> step_error \<Rightarrow> string" where
  "step_stage other x = (case x of BudgetExceeded n \<Rightarrow> n @ ''_budget_exceeded'' | StepRaised \<Rightarrow> other)"

definition NO_EVIDENCE_ANSWER :: string where
  "NO_EVIDENCE_ANSWER = ''I do not have authorized source material to answer this request.''"

definition WEAK_EVIDENCE_ANSWER :: string where
  "WEAK_EVIDENCE_ANSWER = ''I found only weak authorized evidence, so I cannot provide a grounded answer.''"

text \<open>
  The common beginning of a generation: a response that needs no provider, or the evidence with the metadata and the messages.
\<close>

definition prepared ::
  "professor_env \<Rightarrow> professor_request \<Rightarrow> pyobj \<Rightarrow>
     (professor_error + professor_response) + (trusted_evidence list \<times> fields \<times> provider_message list)" where
  "prepared e rq result =
     (let l = pe_limits e; metadata = retrieval_decision_metadata result in
      case trusted_of (pe_float_str e) (rq_context rq) l (retrieved_items result) of
        Inl x \<Rightarrow> Inl (Inl x)
      | Inr evidence \<Rightarrow>
          if evidence = [] then Inl (static_response l rq NO_EVIDENCE NO_EVIDENCE_ANSWER evidence metadata)
          else if list_all (\<lambda>t. te_confidence t < approved_confidence l) evidence
          then Inl (static_response l rq WEAK_EVIDENCE WEAK_EVIDENCE_ANSWER evidence metadata)
          else (case build_messages l rq evidence of
            Inl x \<Rightarrow> Inl (Inl x)
          | Inr messages \<Rightarrow> Inr (evidence, metadata, messages)))"

definition run_generation :: "professor_env \<Rightarrow> professor_request \<Rightarrow> (request_state, professor_error, professor_response) op" where
  "run_generation e rq b =
     (let l = pe_limits e in
      case professor_retrieve e rq b of
        (Inl x, b1) \<Rightarrow> (failed_response l rq (step_stage ''retrieval_failed'' x) [] [], b1)
      | (Inr result, b1) \<Rightarrow>
          (case prepared e rq result of
             Inl r \<Rightarrow> (r, b1)
           | Inr (evidence, metadata, messages) \<Rightarrow>
               (case professor_complete e rq messages b1 of
                  (Inl x, b2) \<Rightarrow> (failed_response l rq (step_stage ''provider_failed'' x) evidence metadata, b2)
                | (Inr c, b2) \<Rightarrow> (completion_response l rq c messages evidence metadata False, b2))))"

section \<open>A run\<close>

definition lease_key :: "professor_request \<Rightarrow> string" where
  "lease_key rq = ''professor:'' @ rc_tenant_id (rq_context rq) @ '':'' @ rc_workspace_id (rq_context rq) @ '':'' @ rq_conversation_id rq"

definition lease_bool :: "pyobj \<Rightarrow> string \<Rightarrow> bool" where
  "lease_bool x field' =
     (case x of Val (PBool b) \<Rightarrow> b | Dct d \<Rightarrow> get_key d field' = Val (PBool True) | _ \<Rightarrow> False)"

definition lease_granted :: "lease_port \<Rightarrow> pyobj \<Rightarrow> bool" where
  "lease_granted p acquired = (if lp_low_level p then lease_bool acquired ''acquired'' else acquired \<noteq> Val PNone)"

text \<open>What ends the generation early; without a heartbeat no renewal fails.\<close>

definition stop_of :: "professor_env \<Rightarrow> bool \<Rightarrow> (string \<times> nat) option" where
  "stop_of e leased =
     (case pe_stop e of
        None \<Rightarrow> None
      | Some (Reasoning_timer, n) \<Rightarrow> Some (''reasoning_timeout'', n)
      | Some (Lease_renewal_failed, n) \<Rightarrow>
          if leased \<and> (case pe_lease e of None \<Rightarrow> False | Some p \<Rightarrow> lp_renewable p) then Some (''lease_lost'', n) else None)"

definition bounded_generation ::
  "professor_env \<Rightarrow> professor_request \<Rightarrow> bool \<Rightarrow> (request_state, professor_error, professor_response) op" where
  "bounded_generation e rq leased b =
     (case run_generation e rq b of (r, b') \<Rightarrow>
        (case stop_of e leased of
           None \<Rightarrow> (r, b')
         | Some (stage, n) \<Rightarrow>
             (failed_response (pe_limits e) rq stage [] [], b'\<lparr>rb_calls := take (length (rb_calls b) + n) (rb_calls b')\<rparr>)))"

text \<open>\<open>_run_request\<close>: whatever ends the generation, an acquired lease is released.\<close>

definition run_request :: "professor_env \<Rightarrow> professor_request \<Rightarrow> (request_state, professor_error, professor_response) op" where
  "run_request e rq b =
     (case pe_lease e of
        None \<Rightarrow> bounded_generation e rq False b
      | Some p \<Rightarrow>
          (let b1 = called Acquire b in
           case lp_acquire p (lease_key rq) (lease_ttl_ms (pe_limits e)) of
             None \<Rightarrow> (failed_response (pe_limits e) rq ''lease_unavailable'' [] [], b1)
           | Some acquired \<Rightarrow>
               if \<not> lease_granted p acquired then (failed_response (pe_limits e) rq ''lease_unavailable'' [] [], b1)
               else (case bounded_generation e rq True b1 of (r, b2) \<Rightarrow>
                 (r, called Release b2))))"

definition deliver :: "professor_env \<Rightarrow> professor_request \<Rightarrow> (request_state, professor_error, professor_response) op" where
  "deliver e rq = sbind (run_request e rq) (validated_response e rq)"

definition RETRIEVAL_CONTEXT_VERSION :: string where
  "RETRIEVAL_CONTEXT_VERSION = ''retrieval-context-v1''"

text \<open>
  The calls of a run that is ended from outside after \<open>n\<close> steps, each call being two, its beginning and its return. When the
  acquisition has returned and the run goes on, the lease was granted, and the \<open>finally\<close> clause releases it.
\<close>

definition ended_calls :: "professor_env \<Rightarrow> nat \<Rightarrow> pcall list \<Rightarrow> pcall list" where
  "ended_calls e n calls =
     (let made = take ((n + 1) div 2) calls in
      if Acquire \<in> set made \<and> 2 \<le> n \<and> 2 \<le> length calls \<and> Release \<notin> set made then made @ [Release] else made)"

definition professor_run :: "professor_env \<Rightarrow> professor_request \<Rightarrow> (professor_error + professor_response) \<times> pcall list" where
  "professor_run e rq =
     (if rq_context_version rq \<noteq> RETRIEVAL_CONTEXT_VERSION
      then (Inl (ProfValueError ''unsupported RetrievalContext contract version''), [])
      else case deliver e rq new_budget of (r, b) \<Rightarrow>
        (case pe_outer e of
           None \<Rightarrow> (r, rb_calls b)
         | Some (Total_timer, n) \<Rightarrow>
             (failed_response (pe_limits e) rq ''total_request_timeout'' [] [], ended_calls e n (rb_calls b))
         | Some (Caller_cancels, n) \<Rightarrow> (Inl ProfCancelled, ended_calls e n (rb_calls b))))"

section \<open>Streams\<close>

datatype pevent = Delta string | Provisional string | Final professor_response

text \<open>The events of a generator and the exception that ended it, if one did.\<close>

type_synonym events = "pevent list \<times> professor_error option"

definition emit :: "professor_error + professor_response \<Rightarrow> events" where
  "emit r = (case r of Inl x \<Rightarrow> ([], Some x) | Inr r' \<Rightarrow> ([Final r'], None))"

definition after_delta :: "string \<Rightarrow> events \<Rightarrow> events" where
  "after_delta d es = (Delta d # fst es, snd es)"

definition chunk_ok :: "chat_chunk \<Rightarrow> bool" where
  "chunk_ok c =
     (text_between 1 256 (ck_model c) \<and> length (ck_delta c) \<le> 1000000 \<and> length (ck_tool_indexes c) \<le> 32 \<and>
      list_all (\<lambda>i. i \<le> 31) (ck_tool_indexes c) \<and> text_between 1 128 (ck_correlation_id c) \<and>
      (case ck_usage_total c of None \<Rightarrow> True | Some n \<Rightarrow> n \<le> 20000000))"

record stream_state =
  ss_content :: string
  ss_model :: string
  ss_finish_reason :: finish_reason
  ss_terminal_seen :: bool
  ss_correlation_id :: string
  ss_usage :: "nat option"
  ss_tool_indexes :: "nat list"
  ss_content_chars :: nat

text \<open>One chunk. Its delta is emitted when the step returns and the delta is not empty.\<close>

definition count_tools :: "professor_limits \<Rightarrow> stream_state \<Rightarrow> chat_chunk \<Rightarrow> stream_state step_op" where
  "count_tools l st c =
     (let new = filter (\<lambda>i. i \<notin> set (ss_tool_indexes st)) (remdups (ck_tool_indexes c)) in
      if new = [] then ret st
      else sbind (consume_tool_calls l (length new)) (\<lambda>_. ret (st\<lparr>ss_tool_indexes := ss_tool_indexes st @ new\<rparr>)))"

definition add_delta :: "professor_limits \<Rightarrow> nat \<Rightarrow> stream_state \<Rightarrow> string \<Rightarrow> stream_state step_op" where
  "add_delta l prompt st d =
     (if d = [] then ret st
      else
        let chars = ss_content_chars st + length d in
        sbind (guard_op (chars > max_answer_chars l + 8 * 140) (BudgetExceeded ''answer'')) (\<lambda>_.
        sbind (guard_op (prompt + (chars + 3) div 4 > max_tokens l) (BudgetExceeded ''token'')) (\<lambda>_.
        ret (st\<lparr>ss_content := ss_content st @ d, ss_content_chars := chars\<rparr>))))"

definition take_chunk :: "professor_limits \<Rightarrow> nat \<Rightarrow> stream_state \<Rightarrow> chat_chunk \<Rightarrow> stream_state step_op" where
  "take_chunk l prompt st c =
     sbind (guard_op (\<not> chunk_ok c) StepRaised) (\<lambda>_.
     sbind (guard_op (ss_terminal_seen st \<and> (ck_delta c \<noteq> [] \<or> ck_tool_indexes c \<noteq> [] \<or> ck_finish_reason c \<noteq> None))
              StepRaised) (\<lambda>_.
     sbind (guard_op (case ck_usage_total c of None \<Rightarrow> False | Some n \<Rightarrow> n > max_tokens l) (BudgetExceeded ''token'')) (\<lambda>_.
     sbind (count_tools l (st\<lparr>ss_model := ck_model c, ss_correlation_id := ck_correlation_id c,
               ss_usage := (if ck_usage_total c = None then ss_usage st else ck_usage_total c)\<rparr>) c) (\<lambda>st1.
     sbind (add_delta l prompt st1 (ck_delta c)) (\<lambda>st2.
     ret (case ck_finish_reason c of None \<Rightarrow> st2
          | Some f \<Rightarrow> st2\<lparr>ss_terminal_seen := True, ss_finish_reason := f\<rparr>))))))"

fun stream_chunks ::
  "professor_limits \<Rightarrow> nat \<Rightarrow> bool \<Rightarrow> stream_state \<Rightarrow> chat_chunk list \<Rightarrow> request_state \<Rightarrow>
     string list \<times> (step_error + stream_state) \<times> request_state" where
  "stream_chunks l prompt raises_after st [] b = ([], if raises_after then Inl StepRaised else Inr st, b)"
| "stream_chunks l prompt raises_after st (c # cs) b =
     (case take_chunk l prompt st c b of
        (Inl x, b') \<Rightarrow> ([], Inl x, b')
      | (Inr st', b') \<Rightarrow>
          (case stream_chunks l prompt raises_after st' cs b' of (ds, out) \<Rightarrow>
             (if ck_delta c = [] then ds else ck_delta c # ds, out)))"

definition start_stream :: "professor_request \<Rightarrow> stream_state" where
  "start_stream rq = \<lparr>ss_content = [], ss_model = [], ss_finish_reason = Finish_unknown, ss_terminal_seen = False,
     ss_correlation_id = take 128 (''chat-'' @ rq_conversation_id rq), ss_usage = None, ss_tool_indexes = [],
     ss_content_chars = 0\<rparr>"

definition stream_final ::
  "professor_limits \<Rightarrow> professor_request \<Rightarrow> provider_message list \<Rightarrow> trusted_evidence list \<Rightarrow> fields \<Rightarrow> stream_state \<Rightarrow>
     professor_error + professor_response" where
  "stream_final l rq messages evidence metadata st =
     (let content = strip (ss_content st);
          c = \<lparr>cc_model = ss_model st, cc_content = content, cc_tool_calls = 0, cc_finish_reason = ss_finish_reason st,
               cc_correlation_id = ss_correlation_id st, cc_usage_total = ss_usage st\<rparr>
      in if content = [] \<or> ss_model st = [] then failed_response l rq ''provider_failed'' evidence metadata
         else if \<not> completion_ok c then failed_response l rq ''provider_failed'' evidence metadata
         else if \<not> completion_within_token_budget c messages (max_tokens l) then
           failed_response l rq ''token_budget_exceeded'' evidence metadata
         else completion_response l rq c messages evidence metadata (ss_tool_indexes st \<noteq> []))"

definition stream_provider ::
  "professor_env \<Rightarrow> professor_request \<Rightarrow> provider_message list \<Rightarrow> trusted_evidence list \<Rightarrow> fields \<Rightarrow>
     (provider_message list \<Rightarrow> string \<Rightarrow> (chat_chunk list \<times> bool) option) \<Rightarrow> request_state \<Rightarrow> events \<times> request_state" where
  "stream_provider e rq messages evidence metadata target b =
     (let l = pe_limits e;
          failing = (\<lambda>x. failed_response l rq (step_stage ''provider_failed'' x) evidence metadata)
      in case consume_provider_call l b of
           (Inl x, b1) \<Rightarrow> (emit (failing x), b1)
         | (Inr _, b1) \<Rightarrow>
             (let b2 = called Complete b1 in
              case target messages (rq_conversation_id rq) of
                None \<Rightarrow> (emit (failing StepRaised), b2)
              | Some (chunks, raises_after) \<Rightarrow>
                  (case stream_chunks l (prompt_tokens messages) raises_after (start_stream rq) chunks b2 of
                     (ds, out, b3) \<Rightarrow>
                       let ending = emit (case out of Inl x \<Rightarrow> failing x
                                        | Inr st \<Rightarrow> stream_final l rq messages evidence metadata st)
                       in ((map Delta ds @ fst ending, snd ending), b3))))"

text \<open>
  A provider without a stream: one delta with the whole content. The response is made inside of the \<open>try\<close>, so an
  exception there becomes \<open>provider_failed\<close>.
\<close>

definition stream_buffered ::
  "professor_env \<Rightarrow> professor_request \<Rightarrow> provider_message list \<Rightarrow> trusted_evidence list \<Rightarrow> fields \<Rightarrow> request_state \<Rightarrow>
     events \<times> request_state" where
  "stream_buffered e rq messages evidence metadata b =
     (let l = pe_limits e;
          failing = (\<lambda>x. failed_response l rq (step_stage ''provider_failed'' x) evidence metadata);
          caught = (\<lambda>r. emit (case r of Inl _ \<Rightarrow> failing StepRaised | Inr _ \<Rightarrow> r))
      in case professor_complete e rq messages b of
           (Inl x, b') \<Rightarrow> (emit (failing x), b')
         | (Inr c, b') \<Rightarrow>
             if \<not> completion_within_token_budget c messages (max_tokens l)
             then (caught (failed_response l rq ''token_budget_exceeded'' evidence metadata), b')
             else (after_delta (cc_content c) (caught (completion_response l rq c messages evidence metadata False)), b'))"

definition stream_generation :: "professor_env \<Rightarrow> professor_request \<Rightarrow> request_state \<Rightarrow> events \<times> request_state" where
  "stream_generation e rq b =
     (case professor_retrieve e rq b of
        (Inl x, b1) \<Rightarrow> (emit (failed_response (pe_limits e) rq (step_stage ''retrieval_failed'' x) [] []), b1)
      | (Inr result, b1) \<Rightarrow>
          (case prepared e rq result of
             Inl r \<Rightarrow> (emit r, b1)
           | Inr (evidence, metadata, messages) \<Rightarrow>
               (case pe_stream e of
                  None \<Rightarrow> stream_buffered e rq messages evidence metadata b1
                | Some target \<Rightarrow> stream_provider e rq messages evidence metadata target b1)))"

definition stopped_events :: "professor_env \<Rightarrow> professor_request \<Rightarrow> string \<Rightarrow> nat \<Rightarrow> events \<Rightarrow> events" where
  "stopped_events e rq stage n es =
     (case emit (failed_response (pe_limits e) rq stage [] []) of (ending, x) \<Rightarrow> (take n (fst es) @ ending, x))"

definition bounded_stream :: "professor_env \<Rightarrow> professor_request \<Rightarrow> bool \<Rightarrow> request_state \<Rightarrow> events \<times> request_state" where
  "bounded_stream e rq leased b =
     (case stream_generation e rq b of (es, b') \<Rightarrow>
        (case stop_of e leased of None \<Rightarrow> (es, b') | Some (stage, n) \<Rightarrow> (stopped_events e rq stage n es, b')))"

definition stream_request :: "professor_env \<Rightarrow> professor_request \<Rightarrow> request_state \<Rightarrow> events \<times> request_state" where
  "stream_request e rq b =
     (case pe_lease e of
        None \<Rightarrow> bounded_stream e rq False b
      | Some p \<Rightarrow>
          (let b1 = called Acquire b; unavailable = emit (failed_response (pe_limits e) rq ''lease_unavailable'' [] []) in
           case lp_acquire p (lease_key rq) (lease_ttl_ms (pe_limits e)) of
             None \<Rightarrow> (unavailable, b1)
           | Some acquired \<Rightarrow>
               if \<not> lease_granted p acquired then (unavailable, b1)
               else (case bounded_stream e rq True b1 of (es, b2) \<Rightarrow> (es, called Release b2))))"

text \<open>\<open>stream\<close>: deltas are marked, a final response is validated; the generation is still suspended at that event.\<close>

fun delivered_events ::
  "professor_env \<Rightarrow> professor_request \<Rightarrow> professor_error option \<Rightarrow> pevent list \<Rightarrow> request_state \<Rightarrow> events" where
  "delivered_events e rq x [] b = ([], x)"
| "delivered_events e rq x (Final r # es) b =
     (case validated_response e rq r b of
        (Inl y, b') \<Rightarrow> ([], Some y)
      | (Inr r', b') \<Rightarrow> (case delivered_events e rq x es b' of (out, y) \<Rightarrow> (Final r' # out, y)))"
| "delivered_events e rq x (Delta d # es) b =
     (case delivered_events e rq x es b of (out, y) \<Rightarrow> (Provisional d # out, y))"
| "delivered_events e rq x (Provisional d # es) b =
     (case delivered_events e rq x es b of (out, y) \<Rightarrow> (Provisional d # out, y))"

definition professor_stream :: "professor_env \<Rightarrow> professor_request \<Rightarrow> events" where
  "professor_stream e rq =
     (if rq_context_version rq \<noteq> RETRIEVAL_CONTEXT_VERSION
      then ([], Some (ProfValueError ''unsupported RetrievalContext contract version''))
      else case stream_request e rq new_budget of ((es, x), b) \<Rightarrow>
        let out = delivered_events e rq x es b in
        (case pe_outer e of
           None \<Rightarrow> out
         | Some (Total_timer, n) \<Rightarrow> stopped_events e rq ''total_request_timeout'' n out
         | Some (Caller_cancels, n) \<Rightarrow> (take n (fst out), Some ProfCancelled)))"

section \<open>The chat backend\<close>

text \<open>\<open>apps/api/src/services/professor_backend.py\<close>: failures of the professor become one of a few stable stages.\<close>

datatype backend_error = BackendStage string | BackendRaised professor_error

definition BACKEND_STAGES :: "string list" where
  "BACKEND_STAGES = [''lease_unavailable'', ''lease_lost'', ''retrieval_failed'', ''provider_failed'', ''citation_invalid'']"

definition backend_stage :: "string \<Rightarrow> backend_error" where
  "backend_stage stage = BackendStage (if stage \<in> set BACKEND_STAGES then stage else ''provider_failed'')"

text \<open>A turn of the history; a role that is not hashable raises. \<open>py_str\<close> is \<open>str\<close> on values that are no texts.\<close>

definition prior_message :: "(pyobj \<Rightarrow> string) \<Rightarrow> pyobj \<Rightarrow> professor_error + provider_message list" where
  "prior_message py_str x =
     (case as_mapping x of
        None \<Rightarrow> Inr []
      | Some d \<Rightarrow>
          (let c = get_key d ''content'';
               content = take 2000 (if falsy_obj c then [] else case c of Val (PStr s) \<Rightarrow> s | _ \<Rightarrow> py_str c);
               message = (\<lambda>r. if message_ok content then [\<lparr>pm_role = r, pm_content = content\<rparr>] else [])
           in case get_key d ''role'' of
                Val (PStr s) \<Rightarrow> Inr (if s = ''user'' then message User else if s = ''assistant'' then message Assistant else [])
              | Val _ \<Rightarrow> Inr []
              | _ \<Rightarrow> Inl ProfTypeError))"

definition backend_request ::
  "(pyobj \<Rightarrow> string) \<Rightarrow> string \<Rightarrow> retrieval_context \<Rightarrow> string \<Rightarrow> string \<Rightarrow> pyobj list \<Rightarrow> professor_error + professor_request" where
  "backend_request py_str message ctx version conversation history =
     rbind (map_res (prior_message py_str) (drop (length history - 50) history)) (\<lambda>prior.
     if text_between 1 20000 message \<and> text_between 1 128 conversation
     then Inr \<lparr>rq_query = message, rq_conversation_id = conversation, rq_context = ctx, rq_context_version = version,
       rq_history = concat prior\<rparr>
     else Inl ProfValidationError)"

fun status_text :: "evidence_status \<Rightarrow> string" where
  "status_text NO_EVIDENCE = ''NO_EVIDENCE''"
| "status_text WEAK_EVIDENCE = ''WEAK_EVIDENCE''"
| "status_text APPROVED_EVIDENCE = ''APPROVED_EVIDENCE''"
| "status_text CITATION_INVALID = ''CITATION_INVALID''"
| "status_text GENERATION_FAILED = ''GENERATION_FAILED''"

record backend_result =
  br_answer :: string
  br_citations :: "professor_citation list"
  br_metadata :: fields

definition failure_stage :: "professor_response \<Rightarrow> string" where
  "failure_stage r = (case map_of (pr_metadata r) ''failure_stage'' of Some (PStr s) \<Rightarrow> s | _ \<Rightarrow> ''provider_failed'')"

definition backend_answer :: "professor_response \<Rightarrow> backend_error + backend_result" where
  "backend_answer r =
     (if pr_evidence_status r = GENERATION_FAILED then Inl (backend_stage (failure_stage r))
      else if pr_evidence_status r = CITATION_INVALID then Inl (backend_stage ''citation_invalid'')
      else Inr \<lparr>br_answer = pr_answer r, br_citations = pr_citations r,
        br_metadata = set_fields [(''backend'', PStr ''professor''), (''evidence_status'', PStr (status_text (pr_evidence_status r)))]
          (pr_metadata r)\<rparr>)"

definition generate ::
  "(pyobj \<Rightarrow> string) \<Rightarrow> professor_env \<Rightarrow> string \<Rightarrow> retrieval_context \<Rightarrow> string \<Rightarrow> string \<Rightarrow> pyobj list \<Rightarrow>
     backend_error + backend_result" where
  "generate py_str e message ctx version conversation history =
     (case backend_request py_str message ctx version conversation history of
        Inl x \<Rightarrow> Inl (BackendRaised x)
      | Inr rq \<Rightarrow>
          (case fst (professor_run e rq) of Inl x \<Rightarrow> Inl (BackendRaised x) | Inr r \<Rightarrow> backend_answer r))"

datatype backend_event = BDelta string | BFinal backend_result

fun backend_events :: "professor_error option \<Rightarrow> pevent list \<Rightarrow> backend_event list \<times> backend_error option" where
  "backend_events x [] = ([], map_option BackendRaised x)"
| "backend_events x (Final r # es) =
     (case backend_answer r of
        Inl y \<Rightarrow> ([], Some y)
      | Inr a \<Rightarrow> (case backend_events x es of (out, y) \<Rightarrow> (BFinal a # out, y)))"
| "backend_events x (Delta d # es) = (case backend_events x es of (out, y) \<Rightarrow> (BDelta d # out, y))"
| "backend_events x (Provisional d # es) = (case backend_events x es of (out, y) \<Rightarrow> (BDelta d # out, y))"

definition generate_stream ::
  "(pyobj \<Rightarrow> string) \<Rightarrow> professor_env \<Rightarrow> string \<Rightarrow> retrieval_context \<Rightarrow> string \<Rightarrow> string \<Rightarrow> pyobj list \<Rightarrow>
     backend_event list \<times> backend_error option" where
  "generate_stream py_str e message ctx version conversation history =
     (case backend_request py_str message ctx version conversation history of
        Inl x \<Rightarrow> ([], Some (BackendRaised x))
      | Inr rq \<Rightarrow> (case professor_stream e rq of (es, x) \<Rightarrow> backend_events x es))"

end
