(* ===== verification/ProfessorSafety.thy ===== *)
theory ProfessorSafety
  imports Orchestration
begin

text \<open>
  What the professor guarantees: an approved answer rests on evidence of the caller's scope, cites it and nothing else, and
  was validated before it was delivered; every run stays within its limits and releases its lease; a stream ends as
  the run with the same completion does.
\<close>

section \<open>Limits\<close>

definition limits_ok :: "professor_limits \<Rightarrow> bool" where
  "limits_ok l =
     (1 \<le> max_evidence_items l \<and> 1 \<le> max_evidence_chars l \<and> 1 \<le> max_evidence_item_chars l \<and> 1 \<le> max_prompt_chars l \<and>
      1 \<le> max_answer_chars l \<and> 0 \<le> approved_confidence l \<and> approved_confidence l \<le> 1 \<and> 1 \<le> lease_ttl_ms l \<and>
      1 \<le> max_retrieval_rounds l \<and> 1 \<le> max_provider_calls l \<and> 1 \<le> max_tokens l \<and>
      0 < max_reasoning_seconds l \<and> 0 < max_total_request_seconds l)"

lemma below_int_one: "\<not> below_int 1 v \<Longrightarrow> 0 < int_of v"
  by (auto simp: below_int_def int_of_def split: pyval.splits)

lemma confidence_limit_Inr: "confidence_limit v = Inr x \<Longrightarrow> 0 \<le> x \<and> x \<le> 1"
  by (auto simp: confidence_limit_def Let_def split: pyval.splits pyfloat.splits if_splits)

lemma seconds_limit_Inr: "seconds_limit n v = Inr x \<Longrightarrow> 0 < x"
  by (auto simp: seconds_limit_def Let_def split: pyval.splits pyfloat.splits if_splits)

lemma make_limits_ok: "make_limits r = Inr l \<Longrightarrow> limits_ok l"
  unfolding make_limits_def
  by (simp only: returns) (auto simp: limits_ok_def Suc_le_eq dest: below_int_one confidence_limit_Inr seconds_limit_Inr)

section \<open>Trusted evidence\<close>

definition safe_id :: "string \<Rightarrow> bool" where
  "safe_id s = re_fullmatch SAFE_ID s"

definition collection_in_scope :: "retrieval_context \<Rightarrow> string \<Rightarrow> bool" where
  "collection_in_scope ctx c = (''*'' \<in> set (rc_allowed_collection_ids ctx) \<or> c \<in> set (rc_allowed_collection_ids ctx))"

definition trusted_ok :: "retrieval_context \<Rightarrow> professor_limits \<Rightarrow> trusted_evidence \<Rightarrow> bool" where
  "trusted_ok ctx l e =
     (te_tenant_id e = rc_tenant_id ctx \<and> te_workspace_id e = rc_workspace_id ctx \<and>
      collection_in_scope ctx (te_collection_id e) \<and>
      list_all safe_id [te_evidence_id e, te_document_id e, te_chunk_id e, te_workspace_id e, te_collection_id e] \<and>
      te_text e \<noteq> [] \<and> length (te_text e) \<le> max_evidence_item_chars l)"

definition evidence_name :: "string option \<Rightarrow> string \<Rightarrow> string" where
  "evidence_name given chunk = (case given of Some i \<Rightarrow> i | None \<Rightarrow> ''ev-'' @ chunk)"

text \<open>\<open>e\<close> was made of the item \<open>d\<close>: its names are the item's, and its text is a part of the item's.\<close>

definition made_of :: "pydict \<Rightarrow> trusted_evidence \<Rightarrow> bool" where
  "made_of d e =
     (safe_optional_string 128 (get_key d ''document_id'') = Some (te_document_id e) \<and>
      safe_optional_string 128 (get_key d ''chunk_id'') = Some (te_chunk_id e) \<and>
      safe_optional_string 128 (get_key d ''tenant_id'') = Some (te_tenant_id e) \<and>
      safe_optional_string 128 (get_key d ''workspace_id'') = Some (te_workspace_id e) \<and>
      safe_optional_string 128 (get_key d ''collection_id'') = Some (te_collection_id e) \<and>
      te_evidence_id e = evidence_name (safe_optional_string 128 (get_key d ''evidence_id'')) (te_chunk_id e) \<and>
      (\<exists>t u. get_key d ''text'' = Val (PStr t) \<and> strip t = te_text e @ u))"

lemma safe_optional_string_length: "safe_optional_string n x = Some s \<Longrightarrow> length s \<le> n"
  by (auto simp: safe_optional_string_def split: pyobj.splits pyval.splits if_splits)

lemma safe_optional_string_text: "safe_optional_string n x = Some s \<Longrightarrow> \<exists>t u. x = Val (PStr t) \<and> strip t = s @ u"
  by (auto simp: safe_optional_string_def split: pyobj.splits pyval.splits if_splits) (metis append_take_drop_id)

lemma safe_optional_string_ne: "safe_optional_string n x = Some s \<Longrightarrow> 1 \<le> n \<Longrightarrow> s \<noteq> []"
  by (auto simp: safe_optional_string_def split: pyobj.splits pyval.splits if_splits)

lemma scoped_item_Some:
  assumes "scoped_item ctx l d = Some e" and "limits_ok l"
  shows "trusted_ok ctx l e \<and> made_of d e"
proof -
  let ?s = "\<lambda>n k. safe_optional_string n (get_key d k)"
  have some: "?s 128 ''document_id'' \<noteq> None" "?s 128 ''chunk_id'' \<noteq> None" "?s 128 ''tenant_id'' \<noteq> None"
      "?s 128 ''workspace_id'' \<noteq> None" "?s 128 ''collection_id'' \<noteq> None" "?s (max_evidence_item_chars l) ''text'' \<noteq> None"
      using assms(1) by (auto simp: scoped_item_def split: option.splits)
    obtain i c t w co x where eq: "?s 128 ''document_id'' = Some i" "?s 128 ''chunk_id'' = Some c" "?s 128 ''tenant_id'' = Some t"
      "?s 128 ''workspace_id'' = Some w" "?s 128 ''collection_id'' = Some co" "?s (max_evidence_item_chars l) ''text'' = Some x"
      using some by blast
    have e: "te_document_id e = i \<and> te_chunk_id e = c \<and> te_tenant_id e = t \<and> te_workspace_id e = w \<and> te_collection_id e = co \<and>
        te_text e = x \<and> te_evidence_id e = evidence_name (?s 128 ''evidence_id'') c \<and>
        safe_id (te_evidence_id e) \<and> safe_id i \<and> safe_id c \<and> safe_id w \<and> safe_id co \<and> t = rc_tenant_id ctx \<and>
        w = rc_workspace_id ctx \<and> collection_in_scope ctx co"
      using assms(1) unfolding scoped_item_def Let_def eq evidence_name_def safe_id_def collection_in_scope_def by (auto split: if_splits)
  then have names: "?s 128 ''document_id'' = Some (te_document_id e)" "?s 128 ''chunk_id'' = Some (te_chunk_id e)"
    "?s 128 ''tenant_id'' = Some (te_tenant_id e)" "?s 128 ''workspace_id'' = Some (te_workspace_id e)"
    "?s 128 ''collection_id'' = Some (te_collection_id e)" "?s (max_evidence_item_chars l) ''text'' = Some (te_text e)"
    using eq by simp_all
  have "1 \<le> max_evidence_item_chars l" using assms(2) by (simp add: limits_ok_def)
  then have "te_text e \<noteq> []" "length (te_text e) \<le> max_evidence_item_chars l"
    using safe_optional_string_ne [OF names(6)] safe_optional_string_length [OF names(6)] by auto
  then show ?thesis
    using names(1-5) e safe_optional_string_text [OF names(6)] by (auto simp: trusted_ok_def made_of_def)
qed

lemma scored_item_Inr:
  assumes "scored_item fs d e = Inr e'"
  shows "\<exists>c s1 s2 s3. e' = e\<lparr>te_confidence := c, te_score := s1, te_dense_score := s2, te_sparse_score := s3\<rparr> \<and>
    fallback_confidence fs d = Inr c"
  using assms by (auto simp: scored_item_def rbind_Inr)

lemma scored_item_same:
  assumes "scored_item fs d e = Inr e'"
  shows "te_evidence_id e' = te_evidence_id e" "te_text e' = te_text e" "trusted_ok ctx l e' = trusted_ok ctx l e" "made_of d e' = made_of d e"
  using scored_item_Inr [OF assms] by (auto simp: trusted_ok_def made_of_def)

lemma trusted_cut:
  assumes "trusted_ok ctx l e" "made_of d e" "take n (te_text e) \<noteq> []"
  shows "trusted_ok ctx l (e\<lparr>te_text := take n (te_text e)\<rparr>)" "made_of d (e\<lparr>te_text := take n (te_text e)\<rparr>)"
proof -
  show "trusted_ok ctx l (e\<lparr>te_text := take n (te_text e)\<rparr>)" using assms(1,3) by (auto simp: trusted_ok_def)
  obtain t u where tu: "get_key d ''text'' = Val (PStr t)" "strip t = te_text e @ u" using assms(2) by (auto simp: made_of_def)
  then have "strip t = take n (te_text e) @ drop n (te_text e) @ u" by simp
  with tu(1) assms(2) show "made_of d (e\<lparr>te_text := take n (te_text e)\<rparr>)" unfolding made_of_def by auto
qed

definition text_total :: "trusted_evidence list \<Rightarrow> nat" where
  "text_total es = sum_list (map (\<lambda>e. length (te_text e)) es)"

definition all_trusted :: "retrieval_context \<Rightarrow> professor_limits \<Rightarrow> pyobj list \<Rightarrow> trusted_evidence list \<Rightarrow> bool" where
  "all_trusted ctx l items es =
     (distinct (map te_evidence_id es) \<and> length es \<le> max_evidence_items l \<and> text_total es \<le> max_evidence_chars l \<and>
      (\<forall>e \<in> set es. trusted_ok ctx l e \<and> (\<exists>d. Dct d \<in> set items \<and> made_of d e)))"

lemma as_mapping_Some: "as_mapping x = Some d \<longleftrightarrow> x = Dct d"
  by (auto simp: as_mapping_def split: pyobj.splits)

lemma trusted_loop_ok:
  assumes "trusted_loop fs ctx l tr used items = Inr es" and "limits_ok l" and "set items \<subseteq> set all"
    and "all_trusted ctx l all tr" and "used = text_total tr" and "length tr < max_evidence_items l"
  shows "all_trusted ctx l all es"
  using assms
proof (induction items arbitrary: tr used)
  case (Cons raw items)
  show ?case
  proof (cases "\<exists>d e. as_mapping raw = Some d \<and> scoped_item ctx l d = Some e \<and> te_evidence_id e \<notin> set (map te_evidence_id tr) \<and>
      used < max_evidence_chars l \<and> take (max_evidence_chars l - used) (te_text e) \<noteq> []")
    case False
    then show ?thesis using Cons by (auto simp: Let_def split: option.splits if_splits)
  next
    case True
    then obtain d e where de: "as_mapping raw = Some d" "scoped_item ctx l d = Some e"
      "te_evidence_id e \<notin> set (map te_evidence_id tr)" "used < max_evidence_chars l"
      and ne: "take (max_evidence_chars l - used) (te_text e) \<noteq> []" by blast
    define cut where "cut = take (max_evidence_chars l - used) (te_text e)"
    have fit: "length cut \<le> max_evidence_chars l - used" by (simp add: cut_def)
    obtain e' where e': "scored_item fs d (e\<lparr>te_text := cut\<rparr>) = Inr e'"
      and rest: "(if length tr + 1 \<ge> max_evidence_items l then Inr (tr @ [e'])
         else trusted_loop fs ctx l (tr @ [e']) (used + length cut) items) = Inr es"
      using Cons.prems(1) de ne unfolding cut_def [symmetric] by (auto simp: Let_def rbind_Inr cut_def [symmetric])
    have ok: "trusted_ok ctx l e' \<and> made_of d e'"
      using trusted_cut [OF _ _ ne] scoped_item_Some [OF de(2) Cons.prems(2)] scored_item_same [OF e'] by (auto simp: cut_def)
    have tot: "text_total (tr @ [e']) = used + length cut"
      using Cons.prems(5) scored_item_same(2) [OF e'] by (simp add: text_total_def)
    have inv: "all_trusted ctx l all (tr @ [e'])"
      using Cons.prems(3,4,6) ok tot fit de(1,3,4) scored_item_same(1) [OF e'] unfolding all_trusted_def
      by (auto simp: as_mapping_Some)
    show ?thesis
    proof (cases "length tr + 1 \<ge> max_evidence_items l")
      case True
      then show ?thesis using rest inv by auto
    next
      case False
      then have "trusted_loop fs ctx l (tr @ [e']) (used + length cut) items = Inr es" using rest by simp
      moreover have "set items \<subseteq> set all" using Cons.prems(3) by simp
      ultimately show ?thesis using Cons.IH [OF _ Cons.prems(2) _ inv tot [symmetric]] False by simp
    qed
  qed
qed simp

lemma trusted_of_ok:
  assumes "trusted_of fs ctx l items = Inr es" and "limits_ok l"
  shows "all_trusted ctx l items es"
proof (cases "rc_allowed_collection_ids ctx = []")
  case True
  then show ?thesis using assms(1) by (auto simp: trusted_of_def all_trusted_def text_total_def)
next
  case False
  then have "trusted_loop fs ctx l [] 0 items = Inr es" using assms(1) by (simp add: trusted_of_def)
  then show ?thesis
    by (rule trusted_loop_ok) (use assms(2) in \<open>auto simp: all_trusted_def text_total_def limits_ok_def\<close>)
qed

section \<open>Responses\<close>

lemma make_response_Inr:
  "make_response conv a st cs ev md = Inr r \<Longrightarrow>
     pr_evidence_status r = st \<and> pr_answer r = a \<and> pr_citations r = cs \<and> pr_evidence r = map response_dict ev \<and>
     pr_metadata r = md \<and> pr_conversation_id r = conv"
  by (auto simp: make_response_def split: if_splits)

lemma static_response_status: "static_response l rq st a ev md = Inr r \<Longrightarrow> pr_evidence_status r = st"
  by (auto simp: static_response_def dest: make_response_Inr)

lemma failed_response_status: "failed_response l rq stage ev md = Inr r \<Longrightarrow> pr_evidence_status r = GENERATION_FAILED"
  by (auto simp: failed_response_def dest: make_response_Inr)

lemma by_id_Some: "distinct (map te_evidence_id ev) \<Longrightarrow> by_id ev i = Some t \<longleftrightarrow> t \<in> set ev \<and> te_evidence_id t = i"
proof -
  assume d: "distinct (map te_evidence_id ev)"
  have "map fst (map (\<lambda>e. (te_evidence_id e, e)) ev) = map te_evidence_id ev" by (simp add: o_def)
  then have "distinct (map fst (rev (map (\<lambda>e. (te_evidence_id e, e)) ev)))" using d by (simp add: rev_map [symmetric] comp_def)
  from map_of_eq_Some_iff [OF this] show ?thesis by (auto simp: by_id_def)
qed

definition markers_in :: "string \<Rightarrow> string list" where
  "markers_in content = find_all CITATION_MARKER (strip content)"

lemma citations_valid:
  assumes "citations l content ev = (answer, cited, False)" and "distinct (map te_evidence_id ev)"
  shows "markers_in content \<noteq> [] \<and> set (markers_in content) \<subseteq> te_evidence_id ` set ev \<and>
    set cited = citation_of ` {t \<in> set ev. te_evidence_id t \<in> set (markers_in content)} \<and>
    length cited = length (dedup (markers_in content)) \<and> answer \<noteq> [] \<and> length answer \<le> max (max_answer_chars l) 61"
proof -
  let ?ms = "find_all CITATION_MARKER (strip content)"
  have ms: "?ms \<noteq> []" "\<forall>i \<in> set ?ms. by_id ev i \<noteq> None"
    and cited: "cited = map (\<lambda>i. citation_of (the (by_id ev i))) (dedup ?ms)"
    and answer: "answer \<noteq> []" "length answer \<le> max (max_answer_chars l) 61"
    using assms(1) by (auto simp: citations_def Let_def list_ex_iff split: if_splits)
  have sub: "set ?ms \<subseteq> te_evidence_id ` set ev"
  proof
    fix i assume "i \<in> set ?ms"
    then obtain t where "by_id ev i = Some t" using ms(2) by blast
    then show "i \<in> te_evidence_id ` set ev" using by_id_Some [OF assms(2)] by auto
  qed
  have "set cited = citation_of ` {t \<in> set ev. te_evidence_id t \<in> set ?ms}"
  proof -
    have "set cited = (\<lambda>i. citation_of (the (by_id ev i))) ` te_evidence_id ` {t \<in> set ev. te_evidence_id t \<in> set ?ms}"
      using sub by (auto simp: cited)
    also have "\<dots> = citation_of ` {t \<in> set ev. te_evidence_id t \<in> set ?ms}"
    proof -
      have "t \<in> set ev \<Longrightarrow> by_id ev (te_evidence_id t) = Some t" for t using by_id_Some [OF assms(2)] by simp
      then show ?thesis unfolding image_image by (intro image_cong) auto
    qed
    finally show ?thesis .
  qed
  then show ?thesis using ms sub cited answer by (simp add: markers_in_def)
qed

text \<open>What makes the professor approve a completion.\<close>

definition approves ::
  "professor_limits \<Rightarrow> provider_message list \<Rightarrow> trusted_evidence list \<Rightarrow> completion_result \<Rightarrow> professor_response \<Rightarrow> bool" where
  "approves l messages ev c r =
     (cc_finish_reason c = Stop \<and> cc_tool_calls c = 0 \<and> completion_within_token_budget c messages (max_tokens l) \<and>
      pr_evidence r = map response_dict ev \<and> markers_in (cc_content c) \<noteq> [] \<and>
      set (markers_in (cc_content c)) \<subseteq> te_evidence_id ` set ev \<and>
      set (pr_citations r) = citation_of ` {t \<in> set ev. te_evidence_id t \<in> set (markers_in (cc_content c))} \<and>
      pr_answer r \<noteq> [] \<and> length (pr_answer r) \<le> max (max_answer_chars l) 61)"

lemma completion_response_approves:
  assumes "completion_response l rq c messages ev md p = Inr r" and "pr_evidence_status r = APPROVED_EVIDENCE"
    and "distinct (map te_evidence_id ev)"
  shows "approves l messages ev c r \<and> \<not> p"
proof -
  obtain answer cited invalid where ci: "citations l (cc_content c) ev = (answer, cited, invalid)" by (metis prod_cases3)
  have c: "cc_finish_reason c = Stop" "cc_tool_calls c = 0" "\<not> p" "completion_within_token_budget c messages (max_tokens l)"
    and nv: "\<not> invalid" and r: "make_response (rq_conversation_id rq) answer APPROVED_EVIDENCE cited ev
      (set_fields md [count_field ev, (''provider_model'', PStr (take 128 (cc_model c))),
             (''finish_reason'', PStr (finish_text (cc_finish_reason c)))]) = Inr r"
    using assms(1,2) by (auto simp: completion_response_def ci split: if_splits dest: failed_response_status static_response_status)
  have "citations l (cc_content c) ev = (answer, cited, False)" using ci nv by simp
  from citations_valid [OF this assms(3)] show ?thesis using c make_response_Inr [OF r] by (simp add: approves_def)
qed

section \<open>Generation\<close>

lemma professor_retrieve_cases:
  "professor_retrieve e rq b =
     (let n = rb_retrieval_rounds b + 1; b1 = b\<lparr>rb_retrieval_rounds := n\<rparr> in
      if n > max_retrieval_rounds (pe_limits e) then (Inl (BudgetExceeded ''retrieval_rounds''), b1)
      else case pe_retrieve e (rq_query rq) (rq_context rq) (map pm_content (rq_history rq)) of
        None \<Rightarrow> (Inl StepRaised, called Retrieve b1)
      | Some result \<Rightarrow> (Inr result, (called Retrieve b1)\<lparr>rb_retrieval_snapshot := Some result\<rparr>))"
  by (simp add: professor_retrieve_def consume_retrieval_round_def calling_def sbind_def op_defs Let_def split: option.splits)

lemma professor_complete_cases:
  "professor_complete e rq messages b =
     (let n = rb_provider_calls b + 1; b1 = b\<lparr>rb_provider_calls := n\<rparr> in
      if n > max_provider_calls (pe_limits e) then (Inl (BudgetExceeded ''provider_calls''), b1)
      else case pe_complete e messages (rq_conversation_id rq) of
        None \<Rightarrow> (Inl StepRaised, called Complete b1)
      | Some c \<Rightarrow>
          if \<not> completion_ok c then (Inl StepRaised, called Complete b1)
          else (if rb_tool_calls b + cc_tool_calls c > max_tool_calls (pe_limits e) then Inl (BudgetExceeded ''tool_calls'') else Inr c,
                (called Complete b1)\<lparr>rb_tool_calls := rb_tool_calls b + cc_tool_calls c\<rparr>))"
  by (simp add: professor_complete_def consume_provider_call_def consume_tool_calls_def calling_def sbind_def op_defs Let_def called_def
      split: option.splits)

lemma prepared_Inr:
  assumes "prepared e rq result = Inr (ev, md, messages)"
  shows "trusted_of (pe_float_str e) (rq_context rq) (pe_limits e) (retrieved_items result) = Inr ev \<and> ev \<noteq> [] \<and>
    (\<exists>t \<in> set ev. approved_confidence (pe_limits e) \<le> te_confidence t) \<and> build_messages (pe_limits e) rq ev = Inr messages \<and>
    md = retrieval_decision_metadata result"
  using assms by (auto simp: prepared_def Let_def list_all_iff not_less split: sum.splits if_splits)

lemma prepared_Inl_status: "prepared e rq result = Inl (Inr r) \<Longrightarrow> pr_evidence_status r \<noteq> APPROVED_EVIDENCE"
  by (auto simp: prepared_def Let_def split: sum.splits if_splits dest: static_response_status)

text \<open>The retrieval result and the completion that an approved response rests on.\<close>

definition rests_on ::
  "professor_env \<Rightarrow> professor_request \<Rightarrow> pyobj \<Rightarrow> trusted_evidence list \<Rightarrow> provider_message list \<Rightarrow> completion_result \<Rightarrow>
     professor_response \<Rightarrow> bool" where
  "rests_on e rq result ev messages c r =
     (pe_retrieve e (rq_query rq) (rq_context rq) (map pm_content (rq_history rq)) = Some result \<and>
      all_trusted (rq_context rq) (pe_limits e) (retrieved_items result) ev \<and>
      (\<exists>t \<in> set ev. approved_confidence (pe_limits e) \<le> te_confidence t) \<and>
      build_messages (pe_limits e) rq ev = Inr messages \<and> approves (pe_limits e) messages ev c r)"

lemma run_generation_approved:
  assumes "run_generation e rq b = (Inr r, b')" and "pr_evidence_status r = APPROVED_EVIDENCE" and "limits_ok (pe_limits e)"
  shows "\<exists>result ev messages c. rests_on e rq result ev messages c r \<and> pe_complete e messages (rq_conversation_id rq) = Some c \<and>
    rb_retrieval_snapshot b' = Some result"
proof -
  obtain result b1 where r1: "professor_retrieve e rq b = (Inr result, b1)"
    using assms(1,2) by (cases "professor_retrieve e rq b")
      (auto simp: run_generation_def Let_def split: sum.splits dest: failed_response_status)
  obtain ev md messages where p: "prepared e rq result = Inr (ev, md, messages)"
    using assms(1,2) prepared_Inl_status [of e rq result r]
    by (cases "prepared e rq result") (auto simp: run_generation_def Let_def r1)
  obtain c where c: "professor_complete e rq messages b1 = (Inr c, b')"
    and r: "completion_response (pe_limits e) rq c messages ev md False = Inr r"
    using assms(1,2) by (cases "professor_complete e rq messages b1")
      (auto simp: run_generation_def Let_def r1 p split: sum.splits dest: failed_response_status)
  note facts = prepared_Inr [OF p]
  have all: "all_trusted (rq_context rq) (pe_limits e) (retrieved_items result) ev"
    using facts trusted_of_ok assms(3) by blast
  then have "approves (pe_limits e) messages ev c r"
    using completion_response_approves [OF r assms(2)] by (simp add: all_trusted_def)
  moreover have "pe_retrieve e (rq_query rq) (rq_context rq) (map pm_content (rq_history rq)) = Some result"
      "rb_retrieval_snapshot b1 = Some result"
    using r1 by (auto simp: professor_retrieve_cases Let_def split: if_splits option.splits)
  moreover have "pe_complete e messages (rq_conversation_id rq) = Some c" "rb_retrieval_snapshot b' = rb_retrieval_snapshot b1"
    using c by (auto simp: professor_complete_cases Let_def called_def split: if_splits option.splits)
  ultimately show ?thesis using facts all by (auto simp: rests_on_def)
qed

lemma run_request_approved:
  assumes "run_request e rq b = (Inr r, b')" and "pr_evidence_status r = APPROVED_EVIDENCE"
  shows "\<exists>b1 b2. run_generation e rq b1 = (Inr r, b2) \<and> rb_retrieval_snapshot b' = rb_retrieval_snapshot b2"
proof -
  have *: "\<exists>b2. run_generation e rq b1 = (Inr r, b2) \<and> rb_retrieval_snapshot b'' = rb_retrieval_snapshot b2"
    if "bounded_generation e rq leased b1 = (Inr r, b'')" for leased b1 b''
    using that assms(2) by (auto simp: bounded_generation_def split: prod.splits option.splits dest: failed_response_status)
  show ?thesis
    using assms * by (fastforce simp: run_request_def called_def Let_def split: option.splits if_splits prod.splits dest: failed_response_status)
qed

section \<open>Validation before delivery\<close>

definition was_validated :: "professor_env \<Rightarrow> professor_request \<Rightarrow> pyobj \<Rightarrow> professor_response \<Rightarrow> bool" where
  "was_validated e rq result r =
     (\<exists>f items cited. pe_validator e = Some f \<and> f (rq_context rq) items cited = Some (Val (PBool True)) \<and>
        snapshot_of (evidence_ids r) (retrieved_items result) = Some items \<and> length items = length (evidence_ids r))"

lemma validated_response_approved:
  assumes "validated_response e rq r b = (Inr r', b')" and "pr_evidence_status r' = APPROVED_EVIDENCE"
  shows "pr_evidence_status r = APPROVED_EVIDENCE \<and> (\<exists>md. r' = r\<lparr>pr_metadata := md\<rparr>) \<and>
    (pe_validator e \<noteq> None \<or> pe_require_revalidation e \<longrightarrow>
       (\<exists>f items cited. publication_call e r (rb_retrieval_snapshot b) = Some (f, items, cited) \<and>
          f (rq_context rq) items cited = Some (Val (PBool True))))"
  using assms
  by (auto simp: validated_response_def Let_def split: if_splits option.splits prod.splits dest: static_response_status
      intro: exI [of _ "pr_metadata r"])

lemma publication_call_Some:
  assumes "publication_call e r (Some result) = Some (f, items, cited)"
  shows "pe_validator e = Some f \<and> snapshot_of (evidence_ids r) (retrieved_items result) = Some items \<and>
    length items = length (evidence_ids r)"
  using assms by (auto simp: publication_call_def Let_def split: option.splits if_splits)

lemma approves_metadata [simp]: "approves l messages ev c (r\<lparr>pr_metadata := md\<rparr>) = approves l messages ev c r"
  by (simp add: approves_def)

lemma rests_on_metadata [simp]: "rests_on e rq result ev messages c (r\<lparr>pr_metadata := md\<rparr>) = rests_on e rq result ev messages c r"
  by (simp add: rests_on_def)

lemma evidence_ids_metadata [simp]: "evidence_ids (r\<lparr>pr_metadata := md\<rparr>) = evidence_ids r"
  by (simp add: evidence_ids_def)

lemma deliver_approved:
  assumes "deliver e rq b = (Inr r, b')" and "pr_evidence_status r = APPROVED_EVIDENCE" and "limits_ok (pe_limits e)"
  shows "\<exists>result ev messages c. rests_on e rq result ev messages c r \<and> pe_complete e messages (rq_conversation_id rq) = Some c \<and>
    (pe_validator e \<noteq> None \<or> pe_require_revalidation e \<longrightarrow> was_validated e rq result r)"
proof -
  obtain r0 b1 where d: "run_request e rq b = (Inr r0, b1)" "validated_response e rq r0 b1 = (Inr r, b')"
    using assms(1) by (auto simp: deliver_def sbind_def split: prod.splits sum.splits)
  note v = validated_response_approved [OF d(2) assms(2)]
  obtain b2 b3 where g: "run_generation e rq b2 = (Inr r0, b3)" "rb_retrieval_snapshot b1 = rb_retrieval_snapshot b3"
    using run_request_approved [OF d(1)] v by blast
  obtain result ev messages c where rest: "rests_on e rq result ev messages c r0"
    "pe_complete e messages (rq_conversation_id rq) = Some c" "rb_retrieval_snapshot b3 = Some result"
    using run_generation_approved [OF g(1) _ assms(3)] v by blast
  obtain md where md: "r = r0\<lparr>pr_metadata := md\<rparr>" using v by blast
  have "was_validated e rq result r" if "pe_validator e \<noteq> None \<or> pe_require_revalidation e"
    using v that publication_call_Some rest(3) g(2) unfolding was_validated_def md evidence_ids_metadata by fastforce
  moreover have "rests_on e rq result ev messages c r" using rest(1) by (simp add: md)
  ultimately show ?thesis using rest(2) by blast
qed

lemma professor_run_deliver:
  assumes "professor_run e rq = (Inr r, calls)" and "pr_evidence_status r = APPROVED_EVIDENCE"
  shows "\<exists>b. deliver e rq new_budget = (Inr r, b) \<and> calls = rb_calls b \<and> pe_outer e = None"
  using assms
  by (auto simp: professor_run_def split: if_splits prod.splits option.splits outer_stop.splits dest: failed_response_status)

text \<open>C3. An answer the professor approves is grounded. When a run returns an approved answer, it rests on what retrieval returned
  for this request: evidence of the caller's tenant and workspace in a collection the caller may read, made of the retrieved items, with
  different identifiers, one of it confident enough; the provider was sent this evidence within the limits, and finished its answer
  without open tool calls and within the token budget; the answer has citation markers, each of them names a piece of the
  evidence, and the citations returned are those of exactly the named pieces; and when there is a validator or one is
  required, it has confirmed the retrieved items with the identifiers of the evidence.\<close>

theorem professor_answers_grounded:
  assumes "make_limits raw = Inr (pe_limits e)" and "professor_run e rq = (Inr r, calls)"
    and "pr_evidence_status r = APPROVED_EVIDENCE"
  shows "\<exists>result ev messages c.
    pe_retrieve e (rq_query rq) (rq_context rq) (map pm_content (rq_history rq)) = Some result \<and>
    all_trusted (rq_context rq) (pe_limits e) (retrieved_items result) ev \<and>
    (\<exists>t \<in> set ev. approved_confidence (pe_limits e) \<le> te_confidence t) \<and>
    build_messages (pe_limits e) rq ev = Inr messages \<and> pe_complete e messages (rq_conversation_id rq) = Some c \<and>
    cc_finish_reason c = Stop \<and> cc_tool_calls c = 0 \<and> completion_within_token_budget c messages (max_tokens (pe_limits e)) \<and>
    pr_evidence r = map response_dict ev \<and> markers_in (cc_content c) \<noteq> [] \<and>
    set (markers_in (cc_content c)) \<subseteq> te_evidence_id ` set ev \<and>
    set (pr_citations r) = citation_of ` {t \<in> set ev. te_evidence_id t \<in> set (markers_in (cc_content c))} \<and>
    (pe_validator e \<noteq> None \<or> pe_require_revalidation e \<longrightarrow> was_validated e rq result r)"
proof -
  obtain b where "deliver e rq new_budget = (Inr r, b)" using professor_run_deliver [OF assms(2,3)] by blast
  from deliver_approved [OF this assms(3) make_limits_ok [OF assms(1)]] show ?thesis
    unfolding rests_on_def approves_def by blast
qed

section \<open>Calls\<close>

definition generation_calls :: "pcall list set" where
  "generation_calls = {[], [Retrieve], [Retrieve, Complete]}"

lemma take_generation_calls: "g \<in> generation_calls \<Longrightarrow> take n g \<in> generation_calls"
  by (auto simp: generation_calls_def take_Cons split: nat.splits)

lemma run_generation_calls: "\<exists>g \<in> generation_calls. rb_calls (snd (run_generation e rq b)) = rb_calls b @ g"
  by (auto simp: generation_calls_def run_generation_def Let_def professor_retrieve_cases professor_complete_cases called_def
      split: if_splits option.splits sum.splits prod.splits)

lemma bounded_generation_calls: "\<exists>g \<in> generation_calls. rb_calls (snd (bounded_generation e rq leased b)) = rb_calls b @ g"
proof -
  obtain r b' where r: "run_generation e rq b = (r, b')" by fastforce
  obtain g where g: "g \<in> generation_calls" "rb_calls b' = rb_calls b @ g"
    using run_generation_calls [of e rq b] r by auto
  show ?thesis
    using g(1) by (auto simp: bounded_generation_def r g(2) intro: take_generation_calls split: option.splits)
qed

lemma rb_calls_called [simp]: "rb_calls (called c b) = rb_calls b @ [c]"
  by (simp add: called_def)

text \<open>The lease manager raises or does not grant the lease.\<close>

definition lease_refused :: "professor_env \<Rightarrow> professor_request \<Rightarrow> lease_port \<Rightarrow> bool" where
  "lease_refused e rq p =
     (case lp_acquire p (lease_key rq) (lease_ttl_ms (pe_limits e)) of None \<Rightarrow> True | Some a \<Rightarrow> \<not> lease_granted p a)"

lemma run_request_calls:
  "case pe_lease e of
     None \<Rightarrow> \<exists>g \<in> generation_calls. rb_calls (snd (run_request e rq b)) = rb_calls b @ g
   | Some p \<Rightarrow> rb_calls (snd (run_request e rq b)) = rb_calls b @ [Acquire] \<and> lease_refused e rq p \<and>
         (\<forall>r. fst (run_request e rq b) = Inr r \<longrightarrow> pr_evidence_status r = GENERATION_FAILED) \<or>
       (\<exists>g \<in> generation_calls. rb_calls (snd (run_request e rq b)) = rb_calls b @ Acquire # g @ [Release])"
proof (cases "pe_lease e")
  case None
  then show ?thesis using bounded_generation_calls [of e rq False b] by (simp add: run_request_def)
next
  case (Some p)
  obtain r b' where r: "bounded_generation e rq True (called Acquire b) = (r, b')" by fastforce
  then obtain g where g: "g \<in> generation_calls" "rb_calls b' = rb_calls b @ Acquire # g"
    using bounded_generation_calls [of e rq True "called Acquire b"] by auto
  show ?thesis
  proof (cases "lease_refused e rq p")
    case False
    then show ?thesis using g by (auto simp: lease_refused_def run_request_def Some Let_def r split: option.splits)
  next
    case True
    then show ?thesis by (auto simp: lease_refused_def run_request_def Some Let_def split: option.splits dest: failed_response_status)
  qed
qed

lemma deliver_calls:
  "\<exists>v \<in> {[], [Validate]}. rb_calls (snd (deliver e rq b)) = rb_calls (snd (run_request e rq b)) @ v \<and>
     (v = [Validate] \<longrightarrow> (\<exists>r. fst (run_request e rq b) = Inr r \<and> pr_evidence_status r = APPROVED_EVIDENCE))"
  by (auto simp: deliver_def sbind_def validated_response_def Let_def split: prod.splits sum.splits if_splits)

lemma ended_generation:
  assumes "g \<in> generation_calls" "v \<in> {[], [Validate]}"
  shows "\<exists>g' \<in> generation_calls. \<exists>v' \<in> {[], [Validate]}. ended_calls e n (g @ v) = g' @ v'"
proof -
  define m where "m = (n + 1) div 2"
  show ?thesis using assms unfolding ended_calls_def m_def [symmetric]
    by (auto simp: generation_calls_def Let_def take_Cons split: nat.splits)
qed

lemma ended_leased:
  assumes "g \<in> generation_calls" "v \<in> {[], [Validate]}"
  shows "ended_calls e n (Acquire # g @ Release # v) = [] \<or> (ended_calls e n (Acquire # g @ Release # v) = [Acquire] \<and> n = 1) \<or>
    (\<exists>g' \<in> generation_calls. \<exists>v' \<in> {[], [Validate]}. ended_calls e n (Acquire # g @ Release # v) = Acquire # g' @ Release # v')"
proof -
  define m where "m = (n + 1) div 2"
  have "2 \<le> m \<Longrightarrow> 2 \<le> n" "m = 1 \<Longrightarrow> n = 1 \<or> 2 \<le> n" unfolding m_def by linarith+
  then show ?thesis using assms unfolding ended_calls_def m_def [symmetric]
    by (auto simp: generation_calls_def Let_def take_Cons split: nat.splits)
qed

text \<open>C15. Every run makes its calls in order, and gives a lease back. Whatever the ports answer, and whenever a timer fires, the lease is
  lost or the caller cancels, a run makes at most one call to retrieval, then at most one to the provider, and at most one to
  the validator at the end. With a lease manager nothing is called before the lease is acquired, and a lease that was
  acquired is released exactly once, after the generation and before the validation: the acquisition is the last call only when
  the lease is refused or the run is ended from outside while it is being acquired.\<close>

theorem professor_releases_lease:
  "case pe_lease e of
     None \<Rightarrow> \<exists>g \<in> {[], [Retrieve], [Retrieve, Complete]}. \<exists>v \<in> {[], [Validate]}. snd (professor_run e rq) = g @ v
   | Some p \<Rightarrow> snd (professor_run e rq) = [] \<or>
       snd (professor_run e rq) = [Acquire] \<and> (lease_refused e rq p \<or> pe_outer e \<in> {Some (Total_timer, 1), Some (Caller_cancels, 1)}) \<or>
       (\<exists>g \<in> {[], [Retrieve], [Retrieve, Complete]}. \<exists>v \<in> {[], [Validate]}. snd (professor_run e rq) = Acquire # g @ Release # v)"
proof -
  obtain r b where d: "deliver e rq new_budget = (r, b)" by fastforce
  obtain v where v: "v \<in> {[], [Validate]}" "rb_calls b = rb_calls (snd (run_request e rq new_budget)) @ v"
      "v = [Validate] \<longrightarrow> (\<exists>r. fst (run_request e rq new_budget) = Inr r \<and> pr_evidence_status r = APPROVED_EVIDENCE)"
    using deliver_calls [of e rq new_budget] d by fastforce
  have run: "snd (professor_run e rq) = [] \<or> snd (professor_run e rq) = rb_calls b \<or>
      (\<exists>x n. pe_outer e = Some (x, n) \<and> snd (professor_run e rq) = ended_calls e n (rb_calls b))"
    by (auto simp: professor_run_def d split: option.splits outer_stop.splits)
  show ?thesis
  proof (cases "pe_lease e")
    case None
    then obtain g where "g \<in> generation_calls" "rb_calls b = g @ v"
      using run_request_calls [of e rq new_budget] v(2) by (auto simp: new_budget_def)
    moreover have "\<exists>g' \<in> generation_calls. \<exists>v' \<in> {[], [Validate]}. ([] :: pcall list) = g' @ v'" by (simp add: generation_calls_def)
    ultimately have "\<exists>g \<in> generation_calls. \<exists>v \<in> {[], [Validate]}. snd (professor_run e rq) = g @ v"
      using run ended_generation [of g v e] v(1) by metis
    then show ?thesis by (simp only: None option.case generation_calls_def)
  next
    case (Some p)
    consider "rb_calls b = [Acquire]" "lease_refused e rq p" | g where "g \<in> generation_calls" "rb_calls b = Acquire # g @ Release # v"
      using run_request_calls [of e rq new_budget] v Some by (fastforce simp: new_budget_def)
    then have "snd (professor_run e rq) = [] \<or>
       snd (professor_run e rq) = [Acquire] \<and> (lease_refused e rq p \<or> (\<exists>x. pe_outer e = Some (x, 1))) \<or>
       (\<exists>g \<in> generation_calls. \<exists>v \<in> {[], [Validate]}. snd (professor_run e rq) = Acquire # g @ Release # v)"
    proof cases
      case 1
      have "ended_calls e n [Acquire] = [] \<or> ended_calls e n [Acquire] = [Acquire]" for n
        by (simp add: ended_calls_def Let_def take_Cons split: nat.splits)
      then have "snd (professor_run e rq) = [] \<or> snd (professor_run e rq) = [Acquire]" using run unfolding 1(1) by (elim disjE exE conjE) auto
      then show ?thesis using 1(2) by blast
    next
      case 2
      have ended: "ended_calls e n (rb_calls b) = [] \<or> ended_calls e n (rb_calls b) = [Acquire] \<and> n = 1 \<or>
          (\<exists>g \<in> generation_calls. \<exists>v \<in> {[], [Validate]}. ended_calls e n (rb_calls b) = Acquire # g @ Release # v)" for n
        unfolding 2(2) by (rule ended_leased [OF 2(1) v(1)])
      from run show ?thesis
      proof (elim disjE exE conjE)
        fix x n
        assume "pe_outer e = Some (x, n)" "snd (professor_run e rq) = ended_calls e n (rb_calls b)"
        then show ?thesis using ended [of n] by auto
      next
        assume "snd (professor_run e rq) = rb_calls b"
        then show ?thesis unfolding 2(2) using 2(1) v(1) by blast
      qed simp
    qed
    moreover have "pe_outer e = Some (x, 1) \<Longrightarrow> pe_outer e \<in> {Some (Total_timer, 1), Some (Caller_cancels, 1)}" for x
      by (cases x) simp_all
    then have "(\<exists>x. pe_outer e = Some (x, 1)) \<longleftrightarrow> pe_outer e \<in> {Some (Total_timer, 1), Some (Caller_cancels, 1)}"
      by blast
    ultimately show ?thesis by (simp only: Some option.case generation_calls_def)
  qed
qed

end
