(* ===== verification/ProfessorStream.thy ===== *)
theory ProfessorStream
  imports ProfessorSafety
begin

text \<open>
  The professor's streams: they emit provisional text and end with the response that the run with the assembled
  completion would give, under the same guarantees; and the bounds on what is sent to the provider.
\<close>

section \<open>Bounds\<close>

lemma user_text_length: "24 \<le> max_prompt_chars l \<Longrightarrow> length (user_text l rq) < max_prompt_chars l"
  by (simp add: user_text_def)

lemma build_messages_length:
  assumes "build_messages l rq ev = Inr messages" and "24 \<le> max_prompt_chars l"
  shows "sum_list (map (\<lambda>m. length (pm_content m)) messages) \<le> max_prompt_chars l"
  using assms user_text_length [OF assms(2), of rq] by (auto simp: build_messages_def Let_def split: if_splits)

text \<open>C28. What goes to the provider is bounded. When a generation gets as far as the provider, it has at most the configured number of pieces of
  evidence, each within its own limit and all together within the limit of the evidence text, and, with a
  prompt limit of at least 24 characters, the messages are together no longer than that limit, whatever retrieval, the query and
  the history contain.\<close>

theorem professor_prompt_bounded:
  assumes "make_limits raw = Inr (pe_limits e)" and "prepared e rq result = Inr (ev, md, messages)"
    and "24 \<le> max_prompt_chars (pe_limits e)"
  shows "1 \<le> length ev \<and> length ev \<le> max_evidence_items (pe_limits e) \<and>
    sum_list (map (\<lambda>t. length (te_text t)) ev) \<le> max_evidence_chars (pe_limits e) \<and>
    (\<forall>t \<in> set ev. length (te_text t) \<le> max_evidence_item_chars (pe_limits e)) \<and>
    sum_list (map (\<lambda>m. length (pm_content m)) messages) \<le> max_prompt_chars (pe_limits e)"
proof -
  note facts = prepared_Inr [OF assms(2)]
  have "all_trusted (rq_context rq) (pe_limits e) (retrieved_items result) ev"
    using facts trusted_of_ok make_limits_ok [OF assms(1)] by blast
  then show ?thesis
    using facts build_messages_length [OF _ assms(3)]
    by (auto simp: all_trusted_def trusted_ok_def text_total_def Suc_le_eq)
qed

section \<open>Chunks\<close>

definition stream_ok :: "professor_limits \<Rightarrow> nat \<Rightarrow> stream_state \<Rightarrow> bool" where
  "stream_ok l prompt st =
     (ss_content_chars st = length (ss_content st) \<and>
      (ss_content st \<noteq> [] \<longrightarrow> prompt + (length (ss_content st) + 3) div 4 \<le> max_tokens l) \<and>
      (case ss_usage st of None \<Rightarrow> True | Some n \<Rightarrow> n \<le> max_tokens l))"

lemma count_tools_Inr:
  assumes "count_tools l st c b = (Inr st', b')"
  shows "ss_content st' = ss_content st \<and> ss_content_chars st' = ss_content_chars st \<and> ss_usage st' = ss_usage st \<and>
    rb_retrieval_snapshot b' = rb_retrieval_snapshot b"
  using assms by (auto simp: count_tools_def consume_tool_calls_def sbind_Inr op_defs Let_def split: if_splits)

lemma add_delta_Inr:
  assumes "add_delta l prompt st d b = (Inr st', b')"
  shows "ss_content st' = ss_content st @ d \<and> ss_content_chars st' = ss_content_chars st + length d \<and> ss_usage st' = ss_usage st \<and>
    b' = b \<and> (d \<noteq> [] \<longrightarrow> prompt + (ss_content_chars st' + 3) div 4 \<le> max_tokens l)"
  using assms by (auto simp: add_delta_def op_defs Let_def split: if_splits)

lemma take_chunk_Inr:
  assumes "take_chunk l prompt st c b = (Inr st', b')"
  shows "(stream_ok l prompt st \<longrightarrow> stream_ok l prompt st') \<and> ss_content st' = ss_content st @ ck_delta c \<and>
    rb_retrieval_snapshot b' = rb_retrieval_snapshot b"
proof -
  define u where "u = (if ck_usage_total c = None then ss_usage st else ck_usage_total c)"
  define st0 where "st0 = st\<lparr>ss_model := ck_model c, ss_correlation_id := ck_correlation_id c, ss_usage := u\<rparr>"
  have usage: "case ck_usage_total c of None \<Rightarrow> True | Some n \<Rightarrow> n \<le> max_tokens l"
    using assms by (auto simp: take_chunk_def op_defs split: if_splits option.splits)
  obtain st1 b1 st2 where s1: "count_tools l st0 c b = (Inr st1, b1)" and s2: "add_delta l prompt st1 (ck_delta c) b1 = (Inr st2, b')"
    and s3: "st' = (case ck_finish_reason c of None \<Rightarrow> st2 | Some f \<Rightarrow> st2\<lparr>ss_terminal_seen := True, ss_finish_reason := f\<rparr>)"
    using assms unfolding take_chunk_def u_def [symmetric] st0_def [symmetric]
    by (auto simp: sbind_Inr op_defs split: if_splits)
  have f: "ss_content st' = ss_content st2" "ss_content_chars st' = ss_content_chars st2" "ss_usage st' = ss_usage st2"
    by (auto simp: s3 split: option.splits)
  show ?thesis
    using count_tools_Inr [OF s1] add_delta_Inr [OF s2] f usage
    by (auto simp: stream_ok_def st0_def u_def split: if_splits option.splits)
qed

lemma stream_chunks_Inr:
  assumes "stream_chunks l prompt raises_after st cs b = (ds, Inr st', b')"
  shows "(stream_ok l prompt st \<longrightarrow> stream_ok l prompt st') \<and> ss_content st' = ss_content st @ concat ds \<and>
    rb_retrieval_snapshot b' = rb_retrieval_snapshot b"
  using assms
proof (induction cs arbitrary: st b ds)
  case (Cons c cs)
  obtain st1 b1 where c: "take_chunk l prompt st c b = (Inr st1, b1)"
    using Cons.prems by (cases "take_chunk l prompt st c b") (auto split: sum.splits)
  obtain ds1 where r: "stream_chunks l prompt raises_after st1 cs b1 = (ds1, Inr st', b')"
    and ds: "ds = (if ck_delta c = [] then ds1 else ck_delta c # ds1)"
    using Cons.prems c by (auto split: prod.splits)
  show ?case using Cons.IH [OF r] take_chunk_Inr [OF c] ds by auto
qed (auto split: if_splits)

text \<open>Only the count of tool calls in the budget matters to the chunks.\<close>

lemma take_chunk_budget:
  assumes "rb_tool_calls b = rb_tool_calls b2"
  shows "fst (take_chunk l prompt st c b) = fst (take_chunk l prompt st c b2) \<and>
    rb_tool_calls (snd (take_chunk l prompt st c b)) = rb_tool_calls (snd (take_chunk l prompt st c b2))"
proof -
  have tools: "fst (count_tools l s c b) = fst (count_tools l s c b2) \<and>
      rb_tool_calls (snd (count_tools l s c b)) = rb_tool_calls (snd (count_tools l s c b2))" for s
    using assms by (simp add: count_tools_def consume_tool_calls_def sbind_def op_defs Let_def)
  have delta: "fst (add_delta l prompt s d b3) = fst (add_delta l prompt s d b4) \<and> snd (add_delta l prompt s d b3) = b3" for s d b3 b4
    by (simp add: add_delta_def op_defs Let_def)
  let ?s = "st\<lparr>ss_model := ck_model c, ss_correlation_id := ck_correlation_id c,
     ss_usage := (if ck_usage_total c = None then ss_usage st else ck_usage_total c)\<rparr>"
  obtain x b1 y b3 where t: "count_tools l ?s c b = (x, b1)" "count_tools l ?s c b2 = (y, b3)" by fastforce
  have same: "y = x" "rb_tool_calls b1 = rb_tool_calls b3" using tools [of ?s] t by auto
  show ?thesis
  proof (cases x)
    case (Inl a)
    then show ?thesis using t same assms by (auto simp: take_chunk_def sbind_def op_defs)
  next
    case (Inr st1)
    obtain z b4 w b5 where d: "add_delta l prompt st1 (ck_delta c) b1 = (z, b4)" "add_delta l prompt st1 (ck_delta c) b3 = (w, b5)"
      by fastforce
    then have "w = z" "b4 = b1" "b5 = b3" using delta [of st1 "ck_delta c"] by (metis fst_conv snd_conv)+
    then show ?thesis using t same Inr d assms by (auto simp: take_chunk_def sbind_def op_defs split: sum.splits)
  qed
qed

lemma stream_chunks_budget:
  assumes "rb_tool_calls b = rb_tool_calls b2"
  shows "fst (stream_chunks l prompt f st cs b) = fst (stream_chunks l prompt f st cs b2) \<and>
    fst (snd (stream_chunks l prompt f st cs b)) = fst (snd (stream_chunks l prompt f st cs b2))"
  using assms
proof (induction cs arbitrary: st b b2)
  case (Cons c cs)
  obtain x b1 y b3 where c: "take_chunk l prompt st c b = (x, b1)" "take_chunk l prompt st c b2 = (y, b3)" by fastforce
  then have same: "y = x" "rb_tool_calls b1 = rb_tool_calls b3" using take_chunk_budget [OF Cons.prems, of l prompt st c] by auto
  show ?case
  proof (cases x)
    case (Inr st1)
    then show ?thesis using c same Cons.IH [OF same(2), of st1] by (auto split: prod.splits)
  qed (simp add: c same)
qed simp

lemma start_stream_ok: "stream_ok l prompt (start_stream rq)"
  by (simp add: stream_ok_def start_stream_def)

text \<open>The completion that a stream assembles.\<close>

definition assembled :: "stream_state \<Rightarrow> completion_result" where
  "assembled st = \<lparr>cc_model = ss_model st, cc_content = strip (ss_content st), cc_tool_calls = 0,
     cc_finish_reason = ss_finish_reason st, cc_correlation_id = ss_correlation_id st, cc_usage_total = ss_usage st\<rparr>"

lemma assembled_tools [simp]: "cc_tool_calls (assembled st) = 0"
  by (simp add: assembled_def)

lemma assembled_within_budget:
  assumes "stream_ok l (prompt_tokens messages) st" and "strip (ss_content st) \<noteq> []"
  shows "completion_within_token_budget (assembled st) messages (max_tokens l)"
proof -
  have "ss_content st \<noteq> []" using assms(2) by (auto simp: strip_def lstrip_def rstrip_def)
  then have "prompt_tokens messages + (length (ss_content st) + 3) div 4 \<le> max_tokens l" "1 \<le> (length (ss_content st) + 3) div 4"
    using assms(1) by (cases "ss_content st"; auto simp: stream_ok_def)+
  moreover have "(length (strip (ss_content st)) + 3) div 4 \<le> (length (ss_content st) + 3) div 4"
    using length_strip_le by (intro div_le_mono) simp
  ultimately show ?thesis
    using assms(1) by (auto simp: completion_within_token_budget_def estimated_tokens_def assembled_def stream_ok_def split: option.splits)
qed

lemma stream_final_eq:
  assumes "stream_ok l (prompt_tokens messages) st" and "ss_tool_indexes st = []"
  shows "stream_final l rq messages ev md st =
    (if completion_ok (assembled st) then completion_response l rq (assembled st) messages ev md False
     else failed_response l rq ''provider_failed'' ev md)"
proof (cases "strip (ss_content st) = [] \<or> ss_model st = []")
  case True
  then have "\<not> completion_ok (assembled st)" by (auto simp: completion_ok_def assembled_def)
  with True show ?thesis by (auto simp: stream_final_def Let_def)
next
  case False
  then show ?thesis using assembled_within_budget [OF assms(1)] assms(2) by (auto simp: stream_final_def Let_def assembled_def)
qed

section \<open>A stream ends as the run does\<close>

definition lease_given :: "professor_env \<Rightarrow> professor_request \<Rightarrow> bool" where
  "lease_given e rq =
     (case pe_lease e of None \<Rightarrow> True
      | Some p \<Rightarrow> \<exists>a. lp_acquire p (lease_key rq) (lease_ttl_ms (pe_limits e)) = Some a \<and> lease_granted p a)"

lemma validated_response_snapshot:
  "rb_retrieval_snapshot b = rb_retrieval_snapshot b2 \<Longrightarrow> fst (validated_response e rq r b) = fst (validated_response e rq r b2)"
  by (simp add: validated_response_def Let_def)

lemma delivered_deltas:
  "delivered_events e rq x (map Delta ds @ es) b =
     (map Provisional ds @ fst (delivered_events e rq x es b), snd (delivered_events e rq x es b))"
  by (induction ds) (auto split: prod.splits)

lemma rb_snapshot_called [simp]: "rb_retrieval_snapshot (called c b) = rb_retrieval_snapshot b"
  by (simp add: called_def)

lemma rb_counts_called [simp]: "rb_tool_calls (called c b) = rb_tool_calls b" "rb_provider_calls (called c b) = rb_provider_calls b"
  "rb_retrieval_rounds (called c b) = rb_retrieval_rounds b"
  by (simp_all add: called_def)

lemma retrieve_fresh:
  assumes "limits_ok (pe_limits e)" and "rb_retrieval_rounds b = 0"
    and "pe_retrieve e (rq_query rq) (rq_context rq) (map pm_content (rq_history rq)) = Some result"
  obtains b1 where "professor_retrieve e rq b = (Inr result, b1)" "rb_retrieval_snapshot b1 = Some result"
    "rb_tool_calls b1 = rb_tool_calls b" "rb_provider_calls b1 = rb_provider_calls b"
  using assms by (simp add: professor_retrieve_cases Let_def limits_ok_def called_def)

lemma generation_pair:
  assumes l: "limits_ok (pe_limits e)" and b: "rb_retrieval_rounds b = 0" "rb_tool_calls b = 0" "rb_provider_calls b = 0"
    and r: "pe_retrieve e (rq_query rq) (rq_context rq) (map pm_content (rq_history rq)) = Some result"
    and p: "prepared e rq result = Inr (ev, md, messages)" and s: "pe_stream e = Some target"
    and t: "target messages (rq_conversation_id rq) = Some (chunks, False)"
    and c: "stream_chunks (pe_limits e) (prompt_tokens messages) False (start_stream rq) chunks new_budget = (ds, Inr st, b')"
    and n: "ss_tool_indexes st = []" and f: "pe_complete e messages (rq_conversation_id rq) = Some (assembled st)"
  shows "\<exists>x b2 b3. run_generation e rq b = (x, b2) \<and> stream_generation e rq b = ((map Delta ds @ fst (emit x), snd (emit x)), b3) \<and>
    rb_retrieval_snapshot b2 = Some result \<and> rb_retrieval_snapshot b3 = Some result"
proof -
  obtain b1 where b1: "professor_retrieve e rq b = (Inr result, b1)" "rb_retrieval_snapshot b1 = Some result"
    "rb_tool_calls b1 = 0" "rb_provider_calls b1 = 0" using retrieve_fresh [OF l b(1) r] b by metis
  let ?b = "called Complete (b1\<lparr>rb_provider_calls := Suc 0\<rparr>)"
  obtain ds' out b3 where "stream_chunks (pe_limits e) (prompt_tokens messages) False (start_stream rq) chunks ?b = (ds', out, b3)"
    by (rule prod_cases3)
  moreover have "rb_tool_calls ?b = rb_tool_calls new_budget" by (simp add: b1(3) new_budget_def)
  ultimately have c2: "stream_chunks (pe_limits e) (prompt_tokens messages) False (start_stream rq) chunks ?b = (ds, Inr st, b3)"
    using stream_chunks_budget [of ?b new_budget "pe_limits e" "prompt_tokens messages" False "start_stream rq" chunks] c by simp
  have ok: "stream_ok (pe_limits e) (prompt_tokens messages) st" using stream_chunks_Inr [OF c] start_stream_ok by blast
  have l1: "\<not> max_provider_calls (pe_limits e) < Suc 0" using l by (simp add: limits_ok_def)
  let ?x = "stream_final (pe_limits e) rq messages ev md st"
  have "stream_generation e rq b = ((map Delta ds @ fst (emit ?x), snd (emit ?x)), b3)"
    using l1 by (simp add: stream_generation_def b1 p s stream_provider_def consume_provider_call_def op_defs Let_def t c2)
  moreover have "\<exists>b2. run_generation e rq b = (?x, b2) \<and> rb_retrieval_snapshot b2 = Some result"
    using l1 by (simp add: run_generation_def b1 p professor_complete_cases Let_def f stream_final_eq [OF ok n] step_stage_def)
  moreover have "rb_retrieval_snapshot b3 = Some result" using stream_chunks_Inr [OF c2] b1(2) by simp
  ultimately show ?thesis by blast
qed

lemma stream_and_run:
  assumes "make_limits raw = Inr (pe_limits e)" and "pe_stop e = None" and "pe_outer e = None" and "lease_given e rq"
    and "rq_context_version rq = RETRIEVAL_CONTEXT_VERSION"
    and "pe_retrieve e (rq_query rq) (rq_context rq) (map pm_content (rq_history rq)) = Some result"
    and "prepared e rq result = Inr (ev, md, messages)" and "pe_stream e = Some target"
    and "target messages (rq_conversation_id rq) = Some (chunks, False)"
    and "stream_chunks (pe_limits e) (prompt_tokens messages) False (start_stream rq) chunks new_budget = (ds, Inr st, b')"
    and "ss_tool_indexes st = []" and "pe_complete e messages (rq_conversation_id rq) = Some (assembled st)"
  shows "professor_stream e rq =
    (map Provisional ds @ (case fst (professor_run e rq) of Inl x \<Rightarrow> [] | Inr r \<Rightarrow> [Final r]),
     case fst (professor_run e rq) of Inl x \<Rightarrow> Some x | Inr r \<Rightarrow> None)"
proof -
  have stop: "stop_of e leased = None" for leased by (simp add: stop_of_def assms(2))
  note pair = generation_pair [OF make_limits_ok [OF assms(1)] _ _ _ assms(6-12)]
  have "\<exists>x b2 b3. run_request e rq new_budget = (x, b2) \<and>
      stream_request e rq new_budget = ((map Delta ds @ fst (emit x), snd (emit x)), b3) \<and>
      rb_retrieval_snapshot b2 = rb_retrieval_snapshot b3"
  proof (cases "pe_lease e")
    case None
    then show ?thesis using pair [of new_budget]
      by (auto simp: run_request_def stream_request_def bounded_generation_def bounded_stream_def stop new_budget_def)
  next
    case (Some p)
    then obtain a where a: "lp_acquire p (lease_key rq) (lease_ttl_ms (pe_limits e)) = Some a" "lease_granted p a"
      using assms(4) by (auto simp: lease_given_def)
    obtain x b2 b3 where "run_generation e rq (called Acquire new_budget) = (x, b2)"
      "stream_generation e rq (called Acquire new_budget) = ((map Delta ds @ fst (emit x), snd (emit x)), b3)"
      "rb_retrieval_snapshot b2 = Some result" "rb_retrieval_snapshot b3 = Some result"
      using pair [of "called Acquire new_budget"] by (auto simp: new_budget_def)
    then show ?thesis using Some a
      by (auto simp: run_request_def stream_request_def bounded_generation_def bounded_stream_def stop Let_def)
  qed
  then obtain x b2 b3 where x: "run_request e rq new_budget = (x, b2)"
    "stream_request e rq new_budget = ((map Delta ds @ fst (emit x), snd (emit x)), b3)"
    and snap: "rb_retrieval_snapshot b2 = rb_retrieval_snapshot b3" by blast
  have run: "fst (professor_run e rq) = fst (deliver e rq new_budget)"
    by (simp add: professor_run_def assms(3,5) split: prod.splits)
  show ?thesis
  proof (cases x)
    case (Inl y)
    then show ?thesis by (simp add: professor_stream_def assms(3,5) x delivered_deltas [of e rq "Some y" ds "[]", simplified] run deliver_def sbind_def emit_def)
  next
    case (Inr r)
    obtain z b4 where z: "validated_response e rq r b3 = (z, b4)" by fastforce
    have "fst (professor_run e rq) = z"
      using validated_response_snapshot [OF snap, of e rq r] z by (simp add: run deliver_def sbind_def x Inr)
    then show ?thesis by (simp add: professor_stream_def assms(3,5) x delivered_deltas emit_def Inr z split: sum.splits)
  qed
qed


section \<open>Approved streams\<close>

abbreviation failed :: "professor_response \<Rightarrow> bool" where
  "failed r \<equiv> pr_evidence_status r = GENERATION_FAILED"

abbreviation approved :: "professor_response \<Rightarrow> bool" where
  "approved r \<equiv> pr_evidence_status r = APPROVED_EVIDENCE"

text \<open>Texts, then final responses: only the first may be approved, and then it has the property \<open>P\<close>; those after it are failures.\<close>

definition shaped :: "(string \<Rightarrow> pevent) \<Rightarrow> (string list \<Rightarrow> professor_response \<Rightarrow> bool) \<Rightarrow> pevent list \<Rightarrow> bool" where
  "shaped mk P es =
     (\<exists>ds rs. es = map mk ds @ map Final rs \<and> list_all failed (tl rs) \<and> (rs \<noteq> [] \<and> approved (hd rs) \<longrightarrow> P ds (hd rs)))"

lemma shaped_mono: "shaped mk P es \<Longrightarrow> (\<And>ds r. P ds r \<Longrightarrow> Q ds r) \<Longrightarrow> shaped mk Q es"
  unfolding shaped_def by blast

lemma shaped_take:
  assumes "shaped mk P es" and rs': "list_all failed rs'"
  shows "shaped mk P (take n es @ map Final rs')"
proof -
  obtain ds rs where es: "es = map mk ds @ map Final rs" "list_all failed (tl rs)" "rs \<noteq> [] \<and> approved (hd rs) \<longrightarrow> P ds (hd rs)"
    using assms by (auto simp: shaped_def)
  let ?rs = "take (n - length ds) rs @ rs'"
  have "take n es @ map Final rs' = map mk (take n ds) @ map Final ?rs" by (simp add: es(1) take_map)
  moreover have "list_all failed (tl ?rs)"
    using es(2) rs' by (cases rs; cases "n - length ds"; cases rs') (auto simp: list_all_iff dest: in_set_takeD)
  moreover have "P (take n ds) (hd ?rs)" if "?rs \<noteq> []" "approved (hd ?rs)"
  proof -
    have "take (n - length ds) rs \<noteq> []"
      using that rs' by (cases "take (n - length ds) rs"; cases rs') auto
    then have "rs \<noteq> []" "length ds \<le> n" "hd ?rs = hd rs" by (auto simp: hd_take)
    then show ?thesis using es(3) that by simp
  qed
  ultimately show ?thesis unfolding shaped_def by blast
qed

lemma shaped_stopped: "shaped mk P es \<Longrightarrow> shaped mk P (fst (stopped_events e rq stage n (es, x)))"
proof (cases "failed_response (pe_limits e) rq stage [] []")
  case (Inl y)
  assume "shaped mk P es"
  then show ?thesis using shaped_take [of mk P es "[]" n] Inl by (simp add: stopped_events_def emit_def)
next
  case (Inr r)
  assume "shaped mk P es"
  then show ?thesis using shaped_take [of mk P es "[r]" n] failed_response_status [OF Inr] Inr by (simp add: stopped_events_def emit_def)
qed

lemma delivered_failed: "list_all failed rs \<Longrightarrow> delivered_events e rq x (map Final rs) b = (map Final rs, x)"
  by (induction rs) (auto simp: validated_response_def)

definition confirmed :: "professor_env \<Rightarrow> professor_request \<Rightarrow> pyobj option \<Rightarrow> professor_response \<Rightarrow> bool" where
  "confirmed e rq snapshot r =
     (pe_validator e \<noteq> None \<or> pe_require_revalidation e \<longrightarrow>
       (\<exists>f items cited. publication_call e r snapshot = Some (f, items, cited) \<and> f (rq_context rq) items cited = Some (Val (PBool True))))"

lemma shaped_delivered:
  assumes "shaped Delta P es"
  shows "shaped Provisional (\<lambda>ds r. \<exists>r0 md. r = r0\<lparr>pr_metadata := md\<rparr> \<and> P ds r0 \<and> confirmed e rq (rb_retrieval_snapshot b) r0)
    (fst (delivered_events e rq x es b))"
proof -
  obtain ds rs where es: "es = map Delta ds @ map Final rs" "list_all failed (tl rs)" "rs \<noteq> [] \<and> approved (hd rs) \<longrightarrow> P ds (hd rs)"
    using assms by (auto simp: shaped_def)
  show ?thesis
  proof (cases rs)
    case Nil
    then have "fst (delivered_events e rq x es b) = map Provisional ds @ map Final []"
      using delivered_deltas [of e rq x ds "[]" b] by (simp add: es(1))
    then show ?thesis unfolding shaped_def by fastforce
  next
    case (Cons r rs')
    obtain z b' where z: "validated_response e rq r b = (z, b')" by fastforce
    show ?thesis
    proof (cases z)
      case (Inl y)
      then have "fst (delivered_events e rq x es b) = map Provisional ds @ map Final []" by (simp add: es(1) delivered_deltas Cons z)
      then show ?thesis unfolding shaped_def by fastforce
    next
      case (Inr r')
      then have d: "fst (delivered_events e rq x es b) = map Provisional ds @ map Final (r' # rs')"
        using es(2) by (simp add: es(1) delivered_deltas Cons z delivered_failed)
      have "\<exists>r0 md. r' = r0\<lparr>pr_metadata := md\<rparr> \<and> P ds r0 \<and> confirmed e rq (rb_retrieval_snapshot b) r0" if "approved r'"
        using validated_response_approved [OF z [unfolded Inr] that] es(3) Cons unfolding confirmed_def by auto
      then show ?thesis unfolding shaped_def d using es(2) Cons by fastforce
    qed
  qed
qed

definition stream_rests :: "professor_env \<Rightarrow> professor_request \<Rightarrow> request_state \<Rightarrow> string list \<Rightarrow> professor_response \<Rightarrow> bool" where
  "stream_rests e rq b ds r =
     (\<exists>result ev messages c. rests_on e rq result ev messages c r \<and> strip (concat ds) = strip (cc_content c) \<and>
        rb_retrieval_snapshot b = Some result)"

lemma shaped_emit: "(\<And>r. x = Inr r \<Longrightarrow> approved r \<Longrightarrow> P ds r) \<Longrightarrow> shaped mk P (map mk ds @ fst (emit x))"
proof (cases x)
  case (Inl y)
  then have "map mk ds @ fst (emit x) = map mk ds @ map Final []" by (simp add: emit_def)
  then show ?thesis unfolding shaped_def by fastforce
next
  case (Inr r)
  assume "\<And>r. x = Inr r \<Longrightarrow> approved r \<Longrightarrow> P ds r"
  moreover have "map mk ds @ fst (emit x) = map mk ds @ map Final [r]" by (simp add: emit_def Inr)
  ultimately show ?thesis unfolding shaped_def using Inr by fastforce
qed

lemma shaped_emit_only: "(\<And>r. x = Inr r \<Longrightarrow> \<not> approved r) \<Longrightarrow> shaped mk P (fst (emit x))"
  using shaped_emit [of x P "[]" mk] by auto

lemma stream_final_approved:
  assumes "stream_final l rq messages ev md st = Inr r" and "approved r" and "distinct (map te_evidence_id ev)"
  shows "approves l messages ev (assembled st) r"
proof -
  have "completion_response l rq (assembled st) messages ev md (ss_tool_indexes st \<noteq> []) = Inr r"
    using assms(1,2) by (auto simp: stream_final_def Let_def assembled_def split: if_splits dest: failed_response_status)
  from completion_response_approves [OF this assms(2,3)] show ?thesis ..
qed

lemma stream_provider_shaped:
  assumes "stream_provider e rq messages ev md target b = ((es, x), b')" and d: "distinct (map te_evidence_id ev)"
    and P: "\<And>c r ds. approves (pe_limits e) messages ev c r \<Longrightarrow> strip (concat ds) = strip (cc_content c) \<Longrightarrow>
      rb_retrieval_snapshot b' = rb_retrieval_snapshot b \<Longrightarrow> P ds r"
  shows "shaped Delta P es"
proof -
  let ?l = "pe_limits e" and ?pt = "prompt_tokens messages"
  let ?f = "\<lambda>a. failed_response ?l rq (step_stage ''provider_failed'' a) ev md"
  have fails: "shaped Delta P (map Delta ds @ fst (emit (?f a)))" for ds a
    by (rule shaped_emit) (auto dest: failed_response_status)
  obtain a b1 where a: "consume_provider_call ?l b = (a, b1)" by fastforce
  have b1: "rb_retrieval_snapshot b1 = rb_retrieval_snapshot b"
    using a by (auto simp: consume_provider_call_def op_defs split: if_splits)
  show ?thesis
  proof (cases "\<exists>chunks f. a = Inr () \<and> target messages (rq_conversation_id rq) = Some (chunks, f)")
    case False
    then have "\<exists>y. es = fst (emit (?f y))"
      using assms(1) a by (cases a) (auto simp: stream_provider_def Let_def prod_eq_iff split: option.splits)
    then show ?thesis using fails [of "[]"] by auto
  next
    case True
    then obtain chunks f where c: "a = Inr ()" "target messages (rq_conversation_id rq) = Some (chunks, f)" by blast
    obtain ds out b3 where ch: "stream_chunks ?l ?pt f (start_stream rq) chunks (called Complete b1) = (ds, out, b3)"
      by (rule prod_cases3)
    let ?y = "case out of Inl x \<Rightarrow> ?f x | Inr st \<Rightarrow> stream_final ?l rq messages ev md st"
    have es: "es = map Delta ds @ fst (emit ?y)" "b' = b3"
      using assms(1) a c ch by (auto simp: stream_provider_def Let_def)
    show ?thesis unfolding es(1)
    proof (rule shaped_emit)
      fix r assume r: "?y = Inr r" "approved r"
      then obtain st where st: "out = Inr st" "stream_final ?l rq messages ev md st = Inr r"
        by (cases out) (auto dest: failed_response_status)
      have content: "ss_content st = concat ds" "rb_retrieval_snapshot b3 = rb_retrieval_snapshot b"
        using stream_chunks_Inr [OF ch [unfolded st(1)]] b1 by (auto simp: start_stream_def)
      show "P ds r"
        using P [OF stream_final_approved [OF st(2) r(2) d], of ds] content es(2) by (simp add: assembled_def)
    qed
  qed
qed

lemma stream_buffered_shaped:
  assumes "stream_buffered e rq messages ev md b = ((es, x), b')" and d: "distinct (map te_evidence_id ev)"
    and P: "\<And>c r ds. approves (pe_limits e) messages ev c r \<Longrightarrow> strip (concat ds) = strip (cc_content c) \<Longrightarrow>
      rb_retrieval_snapshot b' = rb_retrieval_snapshot b \<Longrightarrow> P ds r"
  shows "shaped Delta P es"
proof -
  let ?l = "pe_limits e"
  let ?f = "\<lambda>a. failed_response ?l rq (step_stage ''provider_failed'' a) ev md"
  let ?caught = "\<lambda>r. case r of Inl _ \<Rightarrow> ?f StepRaised | Inr _ \<Rightarrow> r"
  obtain a b1 where a: "professor_complete e rq messages b = (a, b1)" by fastforce
  have b': "rb_retrieval_snapshot b' = rb_retrieval_snapshot b"
    using assms(1) a by (cases a)
      (auto simp: stream_buffered_def Let_def professor_complete_cases split: if_splits option.splits)
  show ?thesis
  proof (cases "\<exists>c. a = Inr c \<and> completion_within_token_budget c messages (max_tokens ?l)")
    case False
    then obtain y where es: "es = fst (emit y)" "\<And>r. y = Inr r \<Longrightarrow> failed r"
      using assms(1) a by (cases a)
        (auto simp: stream_buffered_def Let_def prod_eq_iff split: sum.splits dest: failed_response_status)
    show ?thesis unfolding es(1) by (rule shaped_emit_only) (use es(2) in auto)
  next
    case True
    then obtain c where c: "a = Inr c" "completion_within_token_budget c messages (max_tokens ?l)" by blast
    let ?y = "?caught (completion_response ?l rq c messages ev md False)"
    have es: "es = map Delta [cc_content c] @ fst (emit ?y)"
      using assms(1) a c by (auto simp: stream_buffered_def Let_def after_delta_def)
    show ?thesis unfolding es
    proof (rule shaped_emit)
      fix r assume r: "?y = Inr r" "approved r"
      then have "completion_response ?l rq c messages ev md False = Inr r"
        by (cases "completion_response ?l rq c messages ev md False") (auto dest: failed_response_status)
      then show "P [cc_content c] r" using P [of c r "[cc_content c]"] completion_response_approves [OF _ r(2) d] b' by simp
    qed
  qed
qed

lemma stream_generation_shaped:
  assumes "stream_generation e rq b = ((es, x), b')" and l: "limits_ok (pe_limits e)"
  shows "shaped Delta (stream_rests e rq b') es"
proof -
  obtain y b1 where y: "professor_retrieve e rq b = (y, b1)" by fastforce
  show ?thesis
  proof (cases y)
    case (Inl a)
    then have "es = fst (emit (failed_response (pe_limits e) rq (step_stage ''retrieval_failed'' a) [] []))"
      using assms(1) y by (simp add: stream_generation_def prod_eq_iff)
    then show ?thesis by (auto intro!: shaped_emit_only dest: failed_response_status)
  next
    case (Inr result)
    have snap: "pe_retrieve e (rq_query rq) (rq_context rq) (map pm_content (rq_history rq)) = Some result"
      "rb_retrieval_snapshot b1 = Some result"
      using y Inr by (auto simp: professor_retrieve_cases Let_def split: if_splits option.splits)
    show ?thesis
    proof (cases "prepared e rq result")
      case (Inl r)
      then have "es = fst (emit r)" using assms(1) y Inr by (simp add: stream_generation_def prod_eq_iff)
      then show ?thesis using prepared_Inl_status [of e rq result] Inl by (auto intro!: shaped_emit_only)
    next
      case p: (Inr q)
      obtain ev md messages where q: "q = (ev, md, messages)" by (metis prod_cases3)
      note facts = prepared_Inr [OF p [unfolded q]]
      have all: "all_trusted (rq_context rq) (pe_limits e) (retrieved_items result) ev" using facts trusted_of_ok l by blast
      then have dist: "distinct (map te_evidence_id ev)" by (simp add: all_trusted_def)
      have rest: "stream_rests e rq b2 ds r" if "approves (pe_limits e) messages ev c r" "strip (concat ds) = strip (cc_content c)"
        "rb_retrieval_snapshot b2 = Some result" for b2 ds c r
        using that all facts snap(1) unfolding stream_rests_def rests_on_def by blast
      show ?thesis
      proof (cases "pe_stream e")
        case None
        then have "stream_buffered e rq messages ev md b1 = ((es, x), b')"
          using assms(1) y Inr p q by (simp add: stream_generation_def)
        then show ?thesis using rest snap(2) by (intro stream_buffered_shaped [OF _ dist]) auto
      next
        case (Some target)
        then have "stream_provider e rq messages ev md target b1 = ((es, x), b')"
          using assms(1) y Inr p q by (simp add: stream_generation_def)
        then show ?thesis using rest snap(2) by (intro stream_provider_shaped [OF _ dist]) auto
      qed
    qed
  qed
qed

lemma bounded_stream_shaped:
  assumes "bounded_stream e rq leased b = ((es, x), b')" and "limits_ok (pe_limits e)"
  shows "shaped Delta (stream_rests e rq b') es"
proof -
  obtain es1 x1 where s: "stream_generation e rq b = ((es1, x1), b')"
    using assms(1) by (auto simp: bounded_stream_def split: prod.splits option.splits)
  note sh = stream_generation_shaped [OF s assms(2)]
  show ?thesis
    using assms(1) sh shaped_stopped [OF sh] by (auto simp: bounded_stream_def s prod_eq_iff split: option.splits)
qed

lemma stream_rests_called [simp]: "stream_rests e rq (called c b) = stream_rests e rq b"
  by (simp add: stream_rests_def fun_eq_iff)

lemma stream_request_shaped:
  assumes "stream_request e rq b = ((es, x), b')" and "limits_ok (pe_limits e)"
  shows "shaped Delta (stream_rests e rq b') es"
proof (cases "pe_lease e")
  case None
  then show ?thesis using assms bounded_stream_shaped by (simp add: stream_request_def)
next
  case (Some p)
  show ?thesis
  proof (cases "\<exists>a. lp_acquire p (lease_key rq) (lease_ttl_ms (pe_limits e)) = Some a \<and> lease_granted p a")
    case True
    then obtain b2 where "bounded_stream e rq True (called Acquire b) = ((es, x), b2)" "b' = called Release b2"
      using assms(1) Some by (auto simp: stream_request_def Let_def split: prod.splits)
    then show ?thesis using bounded_stream_shaped assms(2) by simp
  next
    case False
    then have "es = fst (emit (failed_response (pe_limits e) rq ''lease_unavailable'' [] []))"
      using assms(1) Some by (auto simp: stream_request_def Let_def prod_eq_iff split: option.splits)
    then show ?thesis by (auto intro!: shaped_emit_only dest: failed_response_status)
  qed
qed

lemma stream_approved:
  assumes "limits_ok (pe_limits e)" and "professor_stream e rq = (es, x)" and "Final r \<in> set es" and "approved r"
  shows "\<exists>ds rs result ev messages c. es = map Provisional ds @ Final r # map Final rs \<and> list_all failed rs \<and>
    strip (concat ds) = strip (cc_content c) \<and> rests_on e rq result ev messages c r \<and>
    (pe_validator e \<noteq> None \<or> pe_require_revalidation e \<longrightarrow> was_validated e rq result r)"
proof -
  let ?P = "\<lambda>ds r. \<exists>result ev messages c. rests_on e rq result ev messages c r \<and> strip (concat ds) = strip (cc_content c) \<and>
      (pe_validator e \<noteq> None \<or> pe_require_revalidation e \<longrightarrow> was_validated e rq result r)"
  note ok = assms(1)
  have "rq_context_version rq = RETRIEVAL_CONTEXT_VERSION" using assms(2,3) by (auto simp: professor_stream_def split: if_splits)
  obtain es0 x0 b where s: "stream_request e rq new_budget = ((es0, x0), b)" by (metis surj_pair)
  define out where "out = delivered_events e rq x0 es0 b"
  have P: "?P ds r'" if asm: "\<exists>r0 md. r' = r0\<lparr>pr_metadata := md\<rparr> \<and> stream_rests e rq b ds r0 \<and> confirmed e rq (rb_retrieval_snapshot b) r0" for ds r'
  proof -
    obtain r0 md where r0: "r' = r0\<lparr>pr_metadata := md\<rparr>" "stream_rests e rq b ds r0" "confirmed e rq (rb_retrieval_snapshot b) r0"
      using asm by blast
    then obtain result ev messages c where w: "rests_on e rq result ev messages c r0" "strip (concat ds) = strip (cc_content c)"
      "rb_retrieval_snapshot b = Some result" unfolding stream_rests_def by blast
    have "was_validated e rq result r'" if "pe_validator e \<noteq> None \<or> pe_require_revalidation e"
      using r0(3) that publication_call_Some w(3) unfolding confirmed_def was_validated_def r0(1) evidence_ids_metadata by fastforce
    then show ?thesis using w(1,2) unfolding r0(1) rests_on_metadata by blast
  qed
  have sh: "shaped Provisional ?P (fst out)"
    unfolding out_def by (rule shaped_mono [OF shaped_delivered [OF stream_request_shaped [OF s ok]]]) (rule P)
  have out: "professor_stream e rq =
      (case pe_outer e of None \<Rightarrow> out | Some (Total_timer, n) \<Rightarrow> stopped_events e rq ''total_request_timeout'' n out
       | Some (Caller_cancels, n) \<Rightarrow> (take n (fst out), Some ProfCancelled))"
    using \<open>rq_context_version rq = _\<close> by (simp add: professor_stream_def s Let_def out_def split: option.split outer_stop.split)
  have "shaped Provisional ?P es"
  proof (cases "pe_outer e")
    case None
    then have "es = fst out" using out assms(2) by (simp add: prod_eq_iff)
    then show ?thesis using sh by simp
  next
    case (Some q)
    obtain k n where q: "q = (k, n)" by fastforce
    show ?thesis
    proof (cases k)
      case Total_timer
      then have "es = fst (stopped_events e rq ''total_request_timeout'' n (fst out, snd out))"
        using out assms(2) Some q by (simp add: prod_eq_iff)
      then show ?thesis using shaped_stopped [OF sh] by (simp only:)
    next
      case Caller_cancels
      then have "es = take n (fst out) @ map Final []" using out assms(2) Some q by simp
      then show ?thesis using shaped_take [OF sh, of "[]" n] by simp
    qed
  qed
  then obtain ds rs where es: "es = map Provisional ds @ map Final rs" "list_all failed (tl rs)" "rs \<noteq> [] \<and> approved (hd rs) \<longrightarrow> ?P ds (hd rs)"
    unfolding shaped_def by blast
  have "r \<in> set rs" using assms(3) es(1) by auto
  then obtain rs' where rs: "rs = r # rs'" using es(2) assms(4) by (cases rs) (auto simp: list_all_iff)
  have "?P ds r" "es = map Provisional ds @ Final r # map Final rs'" "list_all failed rs'" using es rs assms(4) by auto
  then show ?thesis by blast
qed

text \<open>C14. An approved stream is grounded as well. Whatever interrupts a stream, an approved final response comes after all the provisional texts, and
  what follows it are failures; the completion it approves is what the texts add up to, up to surrounding blanks; and the
  guarantees of a run hold: the evidence is retrieved for the request and in its scope, the markers of the completion name evidence,
  the citations are those of the named pieces, and the validator, if there is one or one is required, has confirmed it.\<close>

theorem stream_answers_grounded:
  assumes "make_limits raw = Inr (pe_limits e)" and "professor_stream e rq = (es, x)" and "Final r \<in> set es"
    and "pr_evidence_status r = APPROVED_EVIDENCE"
  shows "\<exists>ds rs result ev messages c. es = map Provisional ds @ Final r # map Final rs \<and>
    list_all (\<lambda>r'. pr_evidence_status r' = GENERATION_FAILED) rs \<and> strip (concat ds) = strip (cc_content c) \<and>
    pe_retrieve e (rq_query rq) (rq_context rq) (map pm_content (rq_history rq)) = Some result \<and>
    all_trusted (rq_context rq) (pe_limits e) (retrieved_items result) ev \<and> build_messages (pe_limits e) rq ev = Inr messages \<and>
    approves (pe_limits e) messages ev c r \<and>
    (pe_validator e \<noteq> None \<or> pe_require_revalidation e \<longrightarrow> was_validated e rq result r)"
proof -
  obtain ds rs result ev messages c where "es = map Provisional ds @ Final r # map Final rs" "list_all failed rs"
    "strip (concat ds) = strip (cc_content c)" "rests_on e rq result ev messages c r"
    "pe_validator e \<noteq> None \<or> pe_require_revalidation e \<longrightarrow> was_validated e rq result r"
    using stream_approved [OF make_limits_ok [OF assms(1)] assms(2-4)] by blast
  then show ?thesis unfolding rests_on_def by blast
qed

end
