(* ===== verification/ProfessorSamples.thy ===== *)
theory ProfessorSamples
  imports ProfessorStream
begin

text \<open>
  A request that runs to an approved answer, at once and as a stream: the concrete case of the theorems on the professor.
\<close>

section \<open>A run that nothing disturbs\<close>

lemma undisturbed_run:
  assumes "limits_ok (pe_limits e)" and "pe_stop e = None" and "pe_outer e = None" and "lease_given e rq"
    and "rq_context_version rq = RETRIEVAL_CONTEXT_VERSION"
    and "pe_retrieve e (rq_query rq) (rq_context rq) (map pm_content (rq_history rq)) = Some result"
    and "prepared e rq result = Inr (ev, md, messages)" and "pe_complete e messages (rq_conversation_id rq) = Some c"
    and "completion_ok c" and "cc_tool_calls c = 0"
    and r: "completion_response (pe_limits e) rq c messages ev md False = Inr r" "approved r"
    and v: "publication_call e r (Some result) = Some (f, items, cited)" "f (rq_context rq) items cited = Some (Val (PBool True))"
  obtains md' calls where "professor_run e rq = (Inr (r\<lparr>pr_metadata := md'\<rparr>), calls)"
proof -
  have stop: "stop_of e leased = None" for leased by (simp add: stop_of_def assms(2))
  have gen: "\<exists>b2. run_generation e rq b = (Inr r, b2) \<and> rb_retrieval_snapshot b2 = Some result"
    if fresh: "rb_retrieval_rounds b = 0" "rb_tool_calls b = 0" "rb_provider_calls b = 0" for b
  proof -
    obtain b1 where "professor_retrieve e rq b = (Inr result, b1)" "rb_retrieval_snapshot b1 = Some result"
      "rb_tool_calls b1 = 0" "rb_provider_calls b1 = 0" using retrieve_fresh [OF assms(1) fresh(1) assms(6)] fresh by metis
    then show ?thesis using assms(1,7-10) r(1)
      by (simp add: run_generation_def professor_complete_cases Let_def limits_ok_def)
  qed
  have "\<exists>b2. run_request e rq new_budget = (Inr r, b2) \<and> rb_retrieval_snapshot b2 = Some result"
    using gen [of new_budget] gen [of "called Acquire new_budget"] assms(4)
    by (auto simp: run_request_def bounded_generation_def stop lease_given_def Let_def new_budget_def split: option.splits)
  then obtain b2 where b2: "run_request e rq new_budget = (Inr r, b2)" "rb_retrieval_snapshot b2 = Some result" by blast
  have "\<exists>md' b3. validated_response e rq r b2 = (Inr (r\<lparr>pr_metadata := md'\<rparr>), b3)"
  proof (cases "pe_validator e = None \<and> \<not> pe_require_revalidation e")
    case True
    then have "validated_response e rq r b2 = (Inr (r\<lparr>pr_metadata := pr_metadata r\<rparr>), b2)" by (simp add: validated_response_def)
    then show ?thesis by blast
  next
    case False
    then show ?thesis using r(2) v by (auto simp: validated_response_def Let_def b2(2))
  qed
  then show ?thesis using that assms(3,5) by (auto simp: professor_run_def deliver_def sbind_def b2(1))
qed


section \<open>A sample run\<close>

declare find_all.simps [simp del] sub_all.simps [simp del]

definition sample_raw_limits :: raw_limits where
  "sample_raw_limits = \<lparr>rl_max_evidence_items = PInt 2, rl_max_evidence_chars = PInt 20, rl_max_evidence_item_chars = PInt 10,
     rl_max_prompt_chars = PInt 60, rl_max_answer_chars = PInt 80, rl_approved_confidence = PFloat (Fin (1 / 2)),
     rl_lease_ttl_ms = PInt 5, rl_max_retrieval_rounds = PInt 1, rl_max_tool_calls = PInt 0, rl_max_provider_calls = PInt 1,
     rl_max_tokens = PInt 90, rl_max_reasoning_seconds = PInt 1, rl_max_total_request_seconds = PInt 2\<rparr>"

definition sample_limits :: professor_limits where
  "sample_limits = \<lparr>max_evidence_items = 2, max_evidence_chars = 20, max_evidence_item_chars = 10,
     max_prompt_chars = 60, max_answer_chars = 80, approved_confidence = 1 / 2, lease_ttl_ms = 5,
     max_retrieval_rounds = 1, max_tool_calls = 0, max_provider_calls = 1, max_tokens = 90,
     max_reasoning_seconds = 1, max_total_request_seconds = 2\<rparr>"

lemma sample_limits_made: "make_limits sample_raw_limits = Inr sample_limits"
  by (simp add: make_limits_def sample_raw_limits_def sample_limits_def checked_def first_error.simps below_int_def int_of_def
      confidence_limit_def seconds_limit_def float_overflows_def)

definition sample_retrieved :: pyobj where
  "sample_retrieved = Dct [(''evidence'', Lst [Dct
     [(''evidence_id'', Val (PStr ''e'')), (''document_id'', Val (PStr ''d'')), (''chunk_id'', Val (PStr ''c'')),
      (''tenant_id'', Val (PStr ''t'')), (''workspace_id'', Val (PStr ''w'')), (''collection_id'', Val (PStr ''k'')),
      (''text'', Val (PStr ''x'')), (''confidence_score'', Val (PFloat (Fin 1)))]])]"

definition sample_trusted :: trusted_evidence where
  "sample_trusted = \<lparr>te_evidence_id = ''e'', te_document_id = ''d'', te_chunk_id = ''c'', te_tenant_id = ''t'',
     te_workspace_id = ''w'', te_collection_id = ''k'', te_text = ''x'', te_title = [], te_source = [], te_page_start = None,
     te_page_end = None, te_checksum = [], te_document_version = None, te_confidence = 1, te_score = 0, te_rank = 0,
     te_dense_score = 0, te_sparse_score = 0\<rparr>"

definition sample_request :: professor_request where
  "sample_request = \<lparr>rq_query = ''q'', rq_conversation_id = ''v'', rq_context = \<lparr>rc_user_id = None, rc_tenant_id = ''t'',
     rc_workspace_id = ''w'', rc_allowed_collection_ids = [''k''], rc_permissions = [''chat.query'']\<rparr>,
     rq_context_version = RETRIEVAL_CONTEXT_VERSION, rq_history = []\<rparr>"

definition sample_completion :: completion_result where
  "sample_completion = \<lparr>cc_model = ''m'', cc_content = ''A[cite:e]'', cc_tool_calls = 0, cc_finish_reason = Stop,
     cc_correlation_id = ''r'', cc_usage_total = None\<rparr>"

definition sample_chunks :: "chat_chunk list" where
  "sample_chunks =
     [\<lparr>ck_model = ''m'', ck_delta = ''A[ci'', ck_tool_indexes = [], ck_finish_reason = None, ck_correlation_id = ''r'', ck_usage_total = None\<rparr>,
      \<lparr>ck_model = ''m'', ck_delta = ''te:e]'', ck_tool_indexes = [], ck_finish_reason = Some Stop, ck_correlation_id = ''r'',
       ck_usage_total = None\<rparr>]"

definition sample_env :: professor_env where
  "sample_env = \<lparr>pe_limits = sample_limits, pe_require_revalidation = True, pe_float_str = (\<lambda>_. None),
     pe_lease = Some \<lparr>lp_low_level = True, lp_renewable = True, lp_acquire = (\<lambda>_ _. Some (Dct [(''acquired'', Val (PBool True))]))\<rparr>,
     pe_retrieve = (\<lambda>_ _ _. Some sample_retrieved), pe_complete = (\<lambda>_ _. Some sample_completion),
     pe_stream = Some (\<lambda>_ _. Some (sample_chunks, False)), pe_validator = Some (\<lambda>_ _ _. Some (Val (PBool True))),
     pe_live_grants = False, pe_stop = None, pe_outer = None\<rparr>"

lemma one_char: "strip [c] = (if isspace_c c then [] else [c])"
  by (simp add: strip_def lstrip_def rstrip_def)

lemma sample_item_ids: "re_fullmatch SAFE_ID [CHR ''e'']" "re_fullmatch SAFE_ID [CHR ''d'']" "re_fullmatch SAFE_ID [CHR ''c'']"
  "re_fullmatch SAFE_ID [CHR ''t'']" "re_fullmatch SAFE_ID [CHR ''w'']" "re_fullmatch SAFE_ID [CHR ''k'']"
  by (simp_all add: SAFE_ID_def char_defs)

lemma sample_trusted_of:
  "trusted_of fs (rq_context sample_request) sample_limits (retrieved_items sample_retrieved) = Inr [sample_trusted]"
  by (simp add: trusted_of_def sample_request_def retrieved_items_def sample_retrieved_def as_mapping_def get_default_def
      scoped_item_def safe_optional_string_def get_key_def one_char sample_item_ids sample_limits_def char_defs text_or_empty_def safe_page_def
      scored_item_def fallback_confidence_def bounded_float_def to_float_def float_or_zero_def sample_trusted_def)

lemma estimated_le: "estimated_tokens s \<le> length s + 1"
  by (simp add: estimated_tokens_def)

lemma prompt_tokens_le: "prompt_tokens ms \<le> sum_list (map (\<lambda>m. length (pm_content m)) ms) + length ms"
proof (induction ms)
  case (Cons m ms)
  then show ?case using estimated_le [of "pm_content m"] by (simp add: prompt_tokens_def)
qed (simp add: prompt_tokens_def)

lemma sample_fields: "max_tokens sample_limits = 90" "max_answer_chars sample_limits = 80" "max_retrieval_rounds sample_limits = 1"
  "max_provider_calls sample_limits = 1" "max_tool_calls sample_limits = 0" "lease_ttl_ms sample_limits = 5"
  "max_prompt_chars sample_limits = 60"
  by (simp_all add: sample_limits_def)

lemma sample_messages:
  assumes "rq_query rq = ''q''"
  obtains messages where "build_messages sample_limits rq ev = Inr messages" "prompt_tokens messages \<le> 62"
proof -
  have u: "length (user_text sample_limits rq) = 15" by (simp add: user_text_def assms sample_limits_def)
  have s: "system_text sample_limits rq ev \<noteq> []"
    by (simp add: system_text_def Let_def SYSTEM_PROMPT_def)
  have "message_ok (user_text sample_limits rq)"
    "message_ok (take 45 (system_text sample_limits rq ev))"
    using u s by (auto simp: message_ok_def)
  then obtain messages where m: "build_messages sample_limits rq ev = Inr messages" "length messages = 2"
    by (simp add: build_messages_def sample_fields u)
  moreover have "prompt_tokens messages \<le> 62"
    using prompt_tokens_le [of messages] build_messages_length [OF m(1)] m(2) by (simp add: sample_fields)
  ultimately show ?thesis using that by blast
qed

lemma sample_prepared:
  obtains messages where "prepared sample_env sample_request sample_retrieved = Inr ([sample_trusted], [], messages)"
    "prompt_tokens messages \<le> 62"
proof -
  obtain messages where m: "build_messages sample_limits sample_request [sample_trusted] = Inr messages" "prompt_tokens messages \<le> 62"
    using sample_messages [of sample_request] by (auto simp: sample_request_def)
  have "retrieval_decision_metadata sample_retrieved = []"
    by (simp add: retrieval_decision_metadata_def as_mapping_def sample_retrieved_def get_key_def)
  moreover have "te_confidence sample_trusted = 1" "approved_confidence sample_limits = 1 / 2"
    by (simp_all add: sample_trusted_def sample_limits_def)
  ultimately have "prepared sample_env sample_request sample_retrieved = Inr ([sample_trusted], [], messages)"
    using m(1) by (simp add: prepared_def sample_env_def sample_trusted_of Let_def)
  then show ?thesis using that m(2) by blast
qed

lemma sample_markers: "find_all CITATION_MARKER ''A[cite:e]'' = [''e'']" "find_all ANY_CITATION_MARKER ''A[cite:e]'' = [''e'']"
  "sub_all CITATION_MARKER [] ''A[cite:e]'' = ''A''" "strip ''A[cite:e]'' = ''A[cite:e]''" "strip ''A'' = ''A''"
  "sub_all (bracket_group ''[citation:'') [] ''A'' = ''A''" "sub_all BLANKS '' '' ''A'' = ''A''"
  by code_simp+

lemma sample_citations: "citations sample_limits ''A[cite:e]'' [sample_trusted] = (''A'', [citation_of sample_trusted], False)"
  by (simp add: citations_def sample_markers Let_def by_id_def sample_trusted_def sample_limits_def)

lemma sample_dto: "evidence_dto_ok sample_trusted"
  by (simp add: evidence_dto_ok_def text_between_def sample_trusted_def)

lemma sample_response:
  assumes "prompt_tokens messages \<le> 62"
  obtains r where "completion_response sample_limits sample_request sample_completion messages [sample_trusted] [] False = Inr r"
    "approved r" "pr_citations r = [citation_of sample_trusted]" "pr_evidence r = [response_dict sample_trusted]"
proof -
  have "completion_within_token_budget sample_completion messages 90"
    using assms by (simp add: completion_within_token_budget_def estimated_tokens_def sample_completion_def)
  then show ?thesis
    using that by (simp add: completion_response_def sample_completion_def sample_fields sample_markers sample_citations make_response_def
      text_between_def sample_request_def sample_dto count_field_def set_fields_def)
qed

lemma sample_run:
  obtains r calls where "professor_run sample_env sample_request = (Inr r, calls)" "approved r"
    "pr_citations r = [citation_of sample_trusted]"
proof -
  obtain messages where m: "prepared sample_env sample_request sample_retrieved = Inr ([sample_trusted], [], messages)"
    "prompt_tokens messages \<le> 62" by (rule sample_prepared)
  obtain r where r: "completion_response sample_limits sample_request sample_completion messages [sample_trusted] [] False = Inr r"
    "approved r" "pr_citations r = [citation_of sample_trusted]" "pr_evidence r = [response_dict sample_trusted]"
    using sample_response [OF m(2)] by blast
  have "snapshot_of [''e''] (retrieved_items sample_retrieved) = Some [
     [(''evidence_id'', Val (PStr ''e'')), (''document_id'', Val (PStr ''d'')), (''chunk_id'', Val (PStr ''c'')),
      (''tenant_id'', Val (PStr ''t'')), (''workspace_id'', Val (PStr ''w'')), (''collection_id'', Val (PStr ''k'')),
      (''text'', Val (PStr ''x'')), (''confidence_score'', Val (PFloat (Fin 1)))]]"
    by (simp add: retrieved_items_def sample_retrieved_def as_mapping_def get_default_def in_texts_def get_key_def)
  moreover have "evidence_ids r = [''e'']" by (simp add: evidence_ids_def r(4) response_dict_def field_def sample_trusted_def)
  ultimately obtain f items cited where c: "publication_call sample_env r (Some sample_retrieved) = Some (f, items, cited)"
      "f (rq_context sample_request) items cited = Some (Val (PBool True))"
    by (simp add: publication_call_def Let_def hashable_def get_key_def sample_env_def)
  have "completion_ok sample_completion" "cc_tool_calls sample_completion = 0"
    by (simp_all add: completion_ok_def sample_completion_def sample_markers)
  moreover have "lease_given sample_env sample_request"
    by (simp add: lease_given_def sample_env_def lease_granted_def lease_bool_def get_key_def)
  moreover have "limits_ok sample_limits" by (rule make_limits_ok [OF sample_limits_made])
  ultimately obtain md' calls where "professor_run sample_env sample_request = (Inr (r\<lparr>pr_metadata := md'\<rparr>), calls)"
    using undisturbed_run [of sample_env sample_request sample_retrieved "[sample_trusted]" "[]" messages sample_completion r f items cited] m(1) r c
    by (auto simp: sample_env_def sample_request_def)
  then show ?thesis using that [of "r\<lparr>pr_metadata := md'\<rparr>"] r by simp
qed

theorem professor_answers_grounded_witness:
  "\<exists>r calls. professor_run sample_env sample_request = (Inr r, calls) \<and> set (markers_in ''A[cite:e]'') = {''e''} \<and>
     pr_citations r = [citation_of sample_trusted] \<and> was_validated sample_env sample_request sample_retrieved r"
proof -
  obtain r calls where r: "professor_run sample_env sample_request = (Inr r, calls)" "approved r" "pr_citations r = [citation_of sample_trusted]"
    by (rule sample_run)
  have l: "make_limits sample_raw_limits = Inr (pe_limits sample_env)" by (simp add: sample_limits_made sample_env_def)
  have "pe_retrieve sample_env q x h = Some sample_retrieved" for q x h by (simp add: sample_env_def)
  moreover have "pe_require_revalidation sample_env" by (simp add: sample_env_def)
  ultimately have "was_validated sample_env sample_request sample_retrieved r"
    using professor_answers_grounded [OF l r(1,2)] by auto
  then show ?thesis using r by (auto simp: markers_in_def sample_markers)
qed

theorem professor_prompt_bounded_witness:
  "\<exists>ev md messages. prepared sample_env sample_request sample_retrieved = Inr (ev, md, messages) \<and> length ev \<le> 2 \<and>
     sum_list (map (\<lambda>m. length (pm_content m)) messages) \<le> 60"
proof -
  obtain messages where m: "prepared sample_env sample_request sample_retrieved = Inr ([sample_trusted], [], messages)"
    by (rule sample_prepared)
  have l: "make_limits sample_raw_limits = Inr (pe_limits sample_env)" by (simp add: sample_limits_made sample_env_def)
  have "24 \<le> max_prompt_chars (pe_limits sample_env)" by (simp add: sample_env_def sample_fields)
  from professor_prompt_bounded [OF l m this] show ?thesis using m by (simp add: sample_env_def sample_fields)
qed

lemma sample_stream:
  assumes "prompt_tokens messages \<le> 62"
  obtains st b' where "stream_chunks sample_limits (prompt_tokens messages) False (start_stream sample_request) sample_chunks new_budget =
      ([''A[ci'', ''te:e]''], Inr st, b')" "ss_tool_indexes st = []" "assembled st = sample_completion"
  using assms that
  by (simp add: sample_chunks_def take_chunk_def chunk_ok_def text_between_def start_stream_def count_tools_def add_delta_def op_defs sbind_def Let_def
      sample_fields assembled_def sample_completion_def sample_markers)

text \<open>Everything the stream of the sample needs.\<close>

lemma sample_ports:
  obtains messages st b' where "prepared sample_env sample_request sample_retrieved = Inr ([sample_trusted], [], messages)"
    "stream_chunks (pe_limits sample_env) (prompt_tokens messages) False (start_stream sample_request) sample_chunks new_budget =
      ([''A[ci'', ''te:e]''], Inr st, b')" "ss_tool_indexes st = []"
    "pe_complete sample_env messages (rq_conversation_id sample_request) = Some (assembled st)"
proof -
  obtain messages where m: "prepared sample_env sample_request sample_retrieved = Inr ([sample_trusted], [], messages)"
    "prompt_tokens messages \<le> 62" by (rule sample_prepared)
  obtain st b' where "stream_chunks sample_limits (prompt_tokens messages) False (start_stream sample_request) sample_chunks new_budget =
      ([''A[ci'', ''te:e]''], Inr st, b')" "ss_tool_indexes st = []" "assembled st = sample_completion"
    using sample_stream [OF m(2)] by blast
  then show ?thesis using that [OF m(1)] by (simp add: sample_env_def)
qed

lemma sample_conditions: "make_limits sample_raw_limits = Inr (pe_limits sample_env)" "pe_stop sample_env = None" "pe_outer sample_env = None"
  "lease_given sample_env sample_request" "rq_context_version sample_request = RETRIEVAL_CONTEXT_VERSION"
  "pe_retrieve sample_env (rq_query sample_request) (rq_context sample_request) (map pm_content (rq_history sample_request)) = Some sample_retrieved"
  "pe_stream sample_env = Some (\<lambda>_ _. Some (sample_chunks, False))"
  by (simp_all add: sample_limits_made sample_env_def sample_request_def lease_given_def lease_granted_def lease_bool_def get_key_def)


text \<open>The events of the sample, from the same two generations.\<close>

lemma sample_events:
  obtains r where "professor_stream sample_env sample_request = ([Provisional ''A[ci'', Provisional ''te:e]'', Final r], None)" "approved r"
proof -
  obtain messages st b' where p: "prepared sample_env sample_request sample_retrieved = Inr ([sample_trusted], [], messages)"
    "stream_chunks (pe_limits sample_env) (prompt_tokens messages) False (start_stream sample_request) sample_chunks new_budget =
      ([''A[ci'', ''te:e]''], Inr st, b')" "ss_tool_indexes st = []"
    "pe_complete sample_env messages (rq_conversation_id sample_request) = Some (assembled st)" by (rule sample_ports)
  obtain r calls where r: "professor_run sample_env sample_request = (Inr r, calls)" "approved r" by (rule sample_run)
  note e = stream_and_run [OF sample_conditions(1-6) p(1) sample_conditions(7) refl p(2-4)]
  show ?thesis using that e r by simp
qed

theorem stream_answers_grounded_witness:
  "\<exists>es x r. professor_stream sample_env sample_request = (es, x) \<and> Final r \<in> set es \<and>
     was_validated sample_env sample_request sample_retrieved r"
proof -
  obtain r where r: "professor_stream sample_env sample_request = ([Provisional ''A[ci'', Provisional ''te:e]'', Final r], None)" "approved r"
    by (rule sample_events)
  have "Final r \<in> set [Provisional ''A[ci'', Provisional ''te:e]'', Final r]" by simp
  from stream_answers_grounded [OF sample_conditions(1) r(1) this r(2)] show ?thesis
    using r(1) sample_conditions(6) by (fastforce simp: sample_env_def)
qed

section \<open>Two edges of the code\<close>

text \<open>A valid marker inside of an unclosed one: each pattern finds one match, so the answer is approved, and removing the valid
  marker leaves a new one that names no evidence.\<close>

lemma nested_marker_survives:
  "citations sample_limits ''A [cite:x[cite:e]]'' [sample_trusted] = (''A [cite:x]'', [citation_of sample_trusted], False)"
proof -
  have "find_all CITATION_MARKER ''A [cite:x[cite:e]]'' = [''e'']" "find_all ANY_CITATION_MARKER ''A [cite:x[cite:e]]'' = [''x[cite:e'']"
    "sub_all CITATION_MARKER [] ''A [cite:x[cite:e]]'' = ''A [cite:x]''" "strip ''A [cite:x[cite:e]]'' = ''A [cite:x[cite:e]]''"
    "sub_all (bracket_group ''[citation:'') [] ''A [cite:x]'' = ''A [cite:x]''" "sub_all BLANKS '' '' ''A [cite:x]'' = ''A [cite:x]''"
    "strip ''A [cite:x]'' = ''A [cite:x]''" by code_simp+
  then show ?thesis by (simp add: citations_def Let_def by_id_def sample_trusted_def sample_limits_def)
qed

text \<open>A sparse score that is not a number counts as full confidence: \<open>min(1.0, nan)\<close> is \<open>1.0\<close>.\<close>

lemma nan_score_is_confident: "fallback_confidence fs [(''sparse_score'', Val (PFloat NaN))] = Inr 1"
  by (simp add: fallback_confidence_def bounded_float_def to_float_def get_key_def component_confidence_def squashed_def falsy_obj_def
      get_default_def scaled_def clamped_tanh_def blended_confidence_def float_or_zero_def falsy_def)

end
