(* ===== verification/GateSafety.thy ===== *)
theory GateSafety
  imports EvidenceGate
begin

text \<open>
  What the evidence gate guarantees: delivered evidence is grounded in published documents of active
  collections in the caller's scope, at most eight items of one allowed collection after at most two retrievals; what is revalidated.
\<close>

section \<open>Issued items are grounded\<close>

text \<open>The item carries what the view of the store returns for a published document in an active collection.\<close>

definition grounded_item :: "kview \<Rightarrow> evidence_scope \<Rightarrow> pydict \<Rightarrow> bool" where
  "grounded_item k scope item =
     (\<exists>d co ch.
        kv_document k (doc_document_id d) (es_tenant_id scope) (es_workspace_id scope) = Some (Some d) \<and>
        document_in_scope d (doc_document_id d) scope \<and> doc_status d = ''published'' \<and>
        kv_collection k (es_workspace_id scope) (es_collection_id scope) (es_tenant_id scope) = Some (Some co) \<and>
        collection_admits co scope \<and>
        read_chunk k (doc_document_id d) (ch_chunk_id ch) scope = Some ch \<and>
        get_key item ''tenant_id'' = Val (PStr (es_tenant_id scope)) \<and>
        get_key item ''workspace_id'' = Val (PStr (es_workspace_id scope)) \<and>
        get_key item ''collection_id'' = Val (PStr (es_collection_id scope)) \<and>
        get_key item ''document_id'' = Val (PStr (strip (doc_document_id d))) \<and>
        get_key item ''document_version'' = Val (PStr (strip (doc_document_version d))) \<and>
        get_key item ''document_checksum'' = Val (PStr (doc_content_checksum d)) \<and>
        get_key item ''chunk_id'' = Val (PStr (strip (ch_chunk_id ch))) \<and>
        get_key item ''text'' = Val (PStr (strip (ch_text ch))))"

lemma read_chunk_Some:
  "read_chunk k i c scope = Some ch \<Longrightarrow> ch_chunk_id ch = c \<and> ch_document_id ch = i \<and> ch_tenant_id ch = es_tenant_id scope"
  by (auto simp: read_chunk_def find_Some_iff split: option.splits)

text \<open>What a resolved record rests on.\<close>

definition resolved_from :: "kview \<Rightarrow> evidence_scope \<Rightarrow> fields \<Rightarrow> document \<Rightarrow> chunk \<Rightarrow> bool" where
  "resolved_from k scope raw d ch =
     (field raw ''document_id'' = PStr (doc_document_id d) \<and> field raw ''chunk_id'' = PStr (ch_chunk_id ch) \<and>
      kv_document k (doc_document_id d) (es_tenant_id scope) (es_workspace_id scope) = Some (Some d) \<and>
      document_in_scope d (doc_document_id d) scope \<and> doc_status d = ''published'' \<and>
      (\<exists>co. kv_collection k (es_workspace_id scope) (es_collection_id scope) (es_tenant_id scope) = Some (Some co) \<and>
         collection_admits co scope) \<and>
      read_chunk k (doc_document_id d) (ch_chunk_id ch) scope = Some ch)"

lemma resolve_Some:
  assumes "knowledge_resolve k raw scope = Some a"
  shows "\<exists>d ch. resolved_from k scope raw d ch \<and> a = resolved_record d ch raw"
proof -
  obtain i c where ic: "field raw ''document_id'' = PStr i" "field raw ''chunk_id'' = PStr c"
    and r: "resolve_ids k i c raw scope = Some a"
    using assms by (auto simp: knowledge_resolve_def split: pyval.splits if_splits)
  then obtain d co ch where d: "kv_document k i (es_tenant_id scope) (es_workspace_id scope) = Some (Some d)"
    "document_in_scope d i scope" "doc_status d = ''published''"
    "kv_collection k (es_workspace_id scope) (es_collection_id scope) (es_tenant_id scope) = Some (Some co)"
    "collection_admits co scope" "read_chunk k i c scope = Some ch" "a = resolved_record d ch raw"
    by (auto simp: resolve_ids_def split: option.splits if_splits)
  have "doc_document_id d = i" "ch_chunk_id ch = c" using d(2) read_chunk_Some [OF d(6)] by (auto simp: document_in_scope_def)
  then show ?thesis using d ic by (auto simp: resolved_from_def)
qed

lemma issue_resolved:
  assumes "hexdigest sha" and "issue sha v c (ScopeObj s) None (Some a) = Inr e"
  shows "\<exists>version x. candidate_version None a = Inr version \<and> normalize_evidence (raw_candidate s version a) = Inr x \<and>
    e = evidence_data.extend x \<lparr>evidence_id = server_evidence_id sha x\<rparr>"
proof -
  obtain version where v: "candidate_version None a = Inr version" "evidence_issue sha (raw_candidate s version a) = Inr e"
    using assms(2) unfolding issue_def Let_def by (simp only: returns) (auto split: if_splits sum.splits)
  then show ?thesis using evidence_issue_Inr [OF assms(1)] by blast
qed

lemma field_resolved:
  "field (resolved_record d ch raw) ''document_id'' = PStr (doc_document_id d)"
  "field (resolved_record d ch raw) ''document_version'' = PStr (doc_document_version d)"
  "field (resolved_record d ch raw) ''chunk_id'' = PStr (ch_chunk_id ch)"
  "field (resolved_record d ch raw) ''text'' = PStr (ch_text ch)"
  "field (resolved_record d ch raw) ''document_checksum'' = PStr (doc_content_checksum d)"
  by (simp_all add: field_def resolved_record_def)

lemma issued_fields:
  assumes "hexdigest sha" and "scope_ok s" and "issue sha v c (ScopeObj s) None (Some (resolved_record d ch raw)) = Inr e"
  shows "issued sha e \<and> in_scope s e \<and> ev_document_id e = strip (doc_document_id d) \<and>
    ev_document_version e = strip (doc_document_version d) \<and> ev_chunk_id e = strip (ch_chunk_id ch) \<and> ev_text e = strip (ch_text ch)"
proof -
  let ?a = "resolved_record d ch raw"
  obtain version x where v: "candidate_version None ?a = Inr version"
    and x: "normalize_evidence (raw_candidate s version ?a) = Inr x"
    and e: "e = evidence_data.extend x \<lparr>evidence_id = server_evidence_id sha x\<rparr>"
    using issue_resolved [OF assms(1,3)] by blast
  have version: "version = PStr (doc_document_version d)"
    using v by (auto simp: candidate_version_def candidate_value_def field_resolved Let_def split: if_splits)
  have "issued sha e \<and> in_scope s e"
    using issue_in_scope [OF assms(1) _ _ assms(3), of s] assms(2) by simp
  moreover have "ev_document_id x = strip (doc_document_id d)" "ev_document_version x = strip (doc_document_version d)"
      "ev_chunk_id x = strip (ch_chunk_id ch)" "ev_text x = strip (ch_text ch)"
    using x unfolding normalize_evidence_def version
    by (simp only: returns, auto simp: raw_candidate_def candidate_value_def field_resolved token_Inr bounded_text_Inr)+
  ultimately show ?thesis by (simp add: e evidence_data.defs)
qed

text \<open>An item as the loop normalises it, from a candidate that one of the views admitted.\<close>

definition admitted_in :: "(payload \<Rightarrow> string) \<Rightarrow> evidence_gate \<Rightarrow> (nat \<Rightarrow> kview) \<Rightarrow> evidence_scope \<Rightarrow> pydict \<Rightarrow> bool" where
  "admitted_in sha g views scope x =
     (\<exists>n cand candidate e a. x = normalized_item cand a e \<and>
        issue sha (gate_validator g (views n)) (CMapping candidate) (ScopeObj scope) None a = Inr e \<and>
        (eg_authority g \<longrightarrow> knowledge_resolve (views n) candidate scope = a \<and> a \<noteq> None))"

lemma admit_candidate_Some:
  assumes "hexdigest sha" and "admit_candidate sha g (views n) t w c candidate = Inr (Some (e, a))"
  shows "\<exists>scope. make_evidence_scope (PStr t) (PStr w) (PStr c) = Inr scope \<and> issued sha e \<and> in_scope scope e \<and>
    admitted_in sha g views scope (normalized_item cand a e)"
proof -
  obtain scope where scope: "make_evidence_scope (PStr t) (PStr w) (PStr c) = Inr scope"
    and i: "issue sha (gate_validator g (views n)) (CMapping candidate) (ScopeObj scope) None a = Inr e"
    and a: "eg_authority g \<longrightarrow> knowledge_resolve (views n) candidate scope = a \<and> a \<noteq> None"
    using assms(2) by (auto simp: admit_candidate_def rbind_Inr Let_def split: if_splits sum.splits)
  have "issued sha e \<and> in_scope scope e"
    using issue_in_scope [OF assms(1) _ _ i, of scope] make_evidence_scope_Inr [OF scope] by simp
  moreover have "admitted_in sha g views scope (normalized_item cand a e)"
    unfolding admitted_in_def
    by (intro exI [of _ n] exI [of _ cand] exI [of _ candidate] exI [of _ e] exI [of _ a] conjI refl i a)
  ultimately show ?thesis using scope by blast
qed

lemma admitted_resolved:
  assumes "hexdigest sha" and "scope_ok scope" and "eg_authority g" and "admitted_in sha g views scope x"
  shows "\<exists>n cand candidate d ch e. resolved_from (views n) scope candidate d ch \<and>
    x = normalized_item cand (Some (resolved_record d ch candidate)) e \<and>
    issue sha (gate_validator g (views n)) (CMapping candidate) (ScopeObj scope) None (Some (resolved_record d ch candidate)) = Inr e \<and>
    issued sha e \<and> in_scope scope e \<and> ev_document_id e = strip (doc_document_id d) \<and>
    ev_document_version e = strip (doc_document_version d) \<and> ev_chunk_id e = strip (ch_chunk_id ch) \<and> ev_text e = strip (ch_text ch)"
proof -
  obtain n cand candidate e r where x: "x = normalized_item cand (Some r) e"
    and i: "issue sha (gate_validator g (views n)) (CMapping candidate) (ScopeObj scope) None (Some r) = Inr e"
    and r: "knowledge_resolve (views n) candidate scope = Some r"
    using assms(3,4) by (auto simp: admitted_in_def)
  obtain d ch where d: "resolved_from (views n) scope candidate d ch" "r = resolved_record d ch candidate"
    using resolve_Some [OF r] by blast
  show ?thesis using issued_fields [OF assms(1,2) i [unfolded d(2)]] d x i by blast
qed

lemma admitted_grounded:
  assumes "hexdigest sha" and "scope_ok scope" and "eg_authority g" and "admitted_in sha g views scope x"
  shows "\<exists>n. grounded_item (views n) scope x"
proof -
  obtain n cand candidate d ch e where d: "resolved_from (views n) scope candidate d ch"
    and x: "x = normalized_item cand (Some (resolved_record d ch candidate)) e" and f: "in_scope scope e"
      "ev_document_id e = strip (doc_document_id d)" "ev_document_version e = strip (doc_document_version d)"
      "ev_chunk_id e = strip (ch_chunk_id ch)" "ev_text e = strip (ch_text ch)"
    using admitted_resolved [OF assms] by blast
  have "get_key x ''document_checksum'' = Val (PStr (doc_content_checksum d))"
    by (simp add: x normalized_item_def get_key_def field_resolved Let_def)
  with f d have "grounded_item (views n) scope x"
    by (auto simp: x grounded_item_def resolved_from_def normalized_item_def get_key_def in_scope_def Let_def intro!: exI [of _ d] exI [of _ ch])
  then show ?thesis by blast
qed

text \<open>The invariant of the loop over the candidates.\<close>

definition allowed_name :: "pyval list \<Rightarrow> string \<Rightarrow> bool" where
  "allowed_name allowed c = (PStr ''*'' \<in> set allowed \<or> PStr c \<in> set allowed)"

definition scoped_state ::
  "(payload \<Rightarrow> string) \<Rightarrow> evidence_gate \<Rightarrow> (nat \<Rightarrow> kview) \<Rightarrow> evidence_scope \<Rightarrow> loop_state \<Rightarrow> bool" where
  "scoped_state sha g views scope st =
     (list_all (\<lambda>e. issued sha e \<and> in_scope scope e) (ls_issued st) \<and> list_all (admitted_in sha g views scope) (ls_normalized st))"

definition loop_ok ::
  "(payload \<Rightarrow> string) \<Rightarrow> evidence_gate \<Rightarrow> (nat \<Rightarrow> kview) \<Rightarrow> string \<Rightarrow> string \<Rightarrow> pyval list \<Rightarrow> loop_state \<Rightarrow> bool" where
  "loop_ok sha g views t w allowed st =
     (map (\<lambda>x. get_key x ''evidence_id'') (ls_normalized st) = map (\<lambda>e. Val (PStr (evidence_id e))) (ls_issued st) \<and>
      distinct (map evidence_id (ls_issued st)) \<and> list_all (\<lambda>q. 0 \<le> q \<and> q \<le> 1) (ls_quality st) \<and>
      (case ls_selected st of
         None \<Rightarrow> ls_issued st = []
       | Some c \<Rightarrow> allowed_name allowed c \<and>
           (\<exists>scope. make_evidence_scope (PStr t) (PStr w) (PStr c) = Inr scope \<and> scoped_state sha g views scope st)))"

lemma retrieval_quality_of_bounds: "retrieval_quality_of fs x = Inr (Some q) \<Longrightarrow> 0 \<le> q \<and> q \<le> 1"
  by (auto simp: retrieval_quality_of_def Let_def split: pyobj.splits pyval.splits pyfloat.splits if_splits option.splits)

lemma issue_step_changed:
  assumes "issue_step sha fs g k t w allowed st x = Inr st'" and "st' \<noteq> st"
  shows "\<exists>c e a q. (ls_selected st = None \<or> ls_selected st = Some c) \<and> allowed_name allowed c \<and>
    admit_candidate sha g k t w c (plain_fields (dict_of x)) = Inr (Some (e, a)) \<and>
    evidence_id e \<notin> set (map evidence_id (ls_issued st)) \<and>
    retrieval_quality_of fs (default_get (dict_of x) ''retrieval_quality_score'' ''confidence_score'') = Inr q \<and>
    st' = \<lparr>ls_selected = Some c, ls_issued = ls_issued st @ [e],
        ls_normalized = ls_normalized st @ [normalized_item (dict_of x) a e],
        ls_quality = ls_quality st @ (case q of None \<Rightarrow> [] | Some x \<Rightarrow> [x])\<rparr>"
proof (cases "field (plain_fields (dict_of x)) ''collection_id''")
  case (PStr c)
  have c: "ls_selected st = None \<or> ls_selected st = Some c" "allowed_name allowed c"
    using assms PStr by (auto simp: issue_step_def Let_def allowed_name_def split: if_splits)
  then obtain admitted where m: "admit_candidate sha g k t w c (plain_fields (dict_of x)) = Inr admitted"
    using assms PStr by (auto simp: issue_step_def Let_def allowed_name_def rbind_Inr split: if_splits)
  show ?thesis
  proof (cases admitted)
    case None
    then show ?thesis using assms PStr m by (auto simp: issue_step_def Let_def split: if_splits)
  next
    case (Some p)
    obtain e a where p: "p = (e, a)" by (cases p)
    have new: "evidence_id e \<notin> set (map evidence_id (ls_issued st))"
      using assms PStr m Some p by (auto simp: issue_step_def Let_def split: if_splits)
    obtain q where q: "retrieval_quality_of fs (default_get (dict_of x) ''retrieval_quality_score'' ''confidence_score'') = Inr q"
      using assms PStr m Some p new
      by (cases "retrieval_quality_of fs (default_get (dict_of x) ''retrieval_quality_score'' ''confidence_score'')")
        (auto simp: issue_step_def Let_def split: if_splits)
    show ?thesis
      using assms PStr c m Some p new q
      by (intro exI [of _ c] exI [of _ e] exI [of _ a] exI [of _ q]) (auto simp: issue_step_def Let_def split: if_splits)
  qed
qed (use assms in \<open>auto simp: issue_step_def Let_def\<close>)

lemma issue_step_ok:
  assumes "hexdigest sha" and "loop_ok sha g views t w allowed st"
    and "issue_step sha fs g (views n) t w allowed st x = Inr st'"
  shows "loop_ok sha g views t w allowed st' \<and>
    (st' = st \<or> length (ls_normalized st') = Suc (length (ls_normalized st)))"
proof (cases "st' = st")
  case False
  then obtain c e a q where c: "ls_selected st = None \<or> ls_selected st = Some c" "allowed_name allowed c"
    and adm: "admit_candidate sha g (views n) t w c (plain_fields (dict_of x)) = Inr (Some (e, a))"
    and new: "evidence_id e \<notin> set (map evidence_id (ls_issued st))"
    and q: "retrieval_quality_of fs (default_get (dict_of x) ''retrieval_quality_score'' ''confidence_score'') = Inr q"
    and st': "st' = \<lparr>ls_selected = Some c, ls_issued = ls_issued st @ [e],
        ls_normalized = ls_normalized st @ [normalized_item (dict_of x) a e],
        ls_quality = ls_quality st @ (case q of None \<Rightarrow> [] | Some x \<Rightarrow> [x])\<rparr>"
    using issue_step_changed [OF assms(3)] by metis
  obtain scope where scope: "make_evidence_scope (PStr t) (PStr w) (PStr c) = Inr scope" "issued sha e" "in_scope scope e"
    "admitted_in sha g views scope (normalized_item (dict_of x) a e)"
    using admit_candidate_Some [OF assms(1), of g views n t w c "plain_fields (dict_of x)" e a "dict_of x"] adm by blast
  have id: "get_key (normalized_item (dict_of x) a e) ''evidence_id'' = Val (PStr (evidence_id e))"
    by (simp add: normalized_item_def get_key_def Let_def)
  have old: "scoped_state sha g views scope st"
    using assms(2) c(1) scope(1) by (auto simp: loop_ok_def scoped_state_def split: option.splits)
  have "scoped_state sha g views scope st'"
    using old scope(2-4) by (auto simp: scoped_state_def st')
  moreover have "list_all (\<lambda>q. 0 \<le> q \<and> q \<le> 1) (ls_quality st')"
    using assms(2) retrieval_quality_of_bounds q by (auto simp: loop_ok_def st' split: option.splits)
  ultimately show ?thesis
    using assms(2) c(2) scope(1) new id by (auto simp: loop_ok_def st')
qed (use assms in simp)

lemma issue_loop_ok:
  assumes "hexdigest sha"
  shows "loop_ok sha g views t w allowed st \<Longrightarrow> length (ls_normalized st) < 8 \<Longrightarrow>
    issue_loop sha fs g views t w allowed n st xs = Inr st' \<Longrightarrow>
    loop_ok sha g views t w allowed st' \<and> length (ls_normalized st') \<le> 8"
proof (induction xs arbitrary: n st)
  case (Cons x xs)
  obtain st1 where s: "issue_step sha fs g (views n) t w allowed st x = Inr st1"
    and r: "(if length (ls_normalized st1) \<ge> 8 then Inr st1 else issue_loop sha fs g views t w allowed (Suc n) st1 xs) = Inr st'"
    using Cons.prems(3) by (auto simp: rbind_Inr)
  note ok = issue_step_ok [OF assms Cons.prems(1) s]
  show ?case
  proof (cases "length (ls_normalized st1) \<ge> 8")
    case True
    then show ?thesis using r ok Cons.prems(2) by auto
  next
    case False
    then show ?thesis using r ok Cons.IH [of st1 "Suc n"] by simp
  qed
qed simp

section \<open>What is delivered\<close>

text \<open>The issued items and their bundle.\<close>

definition issued_ok ::
  "(payload \<Rightarrow> string) \<Rightarrow> evidence_gate \<Rightarrow> (nat \<Rightarrow> kview) \<Rightarrow> gate_context \<Rightarrow> pydict list \<Rightarrow> evidence_bundle \<Rightarrow> evidence_scope \<Rightarrow> bool" where
  "issued_ok sha g views ctx items b scope =
     (bundle_ok sha scope b \<and> length items \<le> 8 \<and> length items = length (eb_evidence b) \<and>
      map (\<lambda>x. get_key x ''evidence_id'') items = map (\<lambda>e. Val (PStr (evidence_id e))) (eb_evidence b) \<and>
      list_all (admitted_in sha g views scope) items \<and>
      (\<exists>t w c allowed. gc_tenant_id ctx = PStr t \<and> gc_workspace_id ctx = PStr w \<and> gc_allowed_collection_ids ctx = Some allowed \<and>
         allowed_name allowed c \<and> make_evidence_scope (PStr t) (PStr w) (PStr c) = Inr scope))"

lemma foldr_max_unit: "list_all (\<lambda>q. 0 \<le> q \<and> q \<le> 1) qs \<Longrightarrow> 0 \<le> foldr max qs (0::real) \<and> foldr max qs 0 \<le> 1"
  by (induction qs) auto

lemma issue_candidates_ok:
  assumes "hexdigest sha" and "issue_candidates sha fs g views query ctx cs = Inr (items, bundle, q)"
  shows "0 \<le> q \<and> q \<le> 1 \<and> (bundle = None \<longrightarrow> items = []) \<and> (\<forall>b. bundle = Some b \<longrightarrow> (\<exists>scope. issued_ok sha g views ctx items b scope))"
proof (cases "bundle")
  case None
  then show ?thesis using assms(2)
    by (auto simp: issue_candidates_def rbind_Inr split: pyval.splits option.splits list.splits if_splits)
next
  case (Some b)
  let ?st0 = "\<lparr>ls_selected = None, ls_issued = [], ls_normalized = [], ls_quality = []\<rparr>"
  obtain t w allowed st c scope where ctx: "gc_tenant_id ctx = PStr t" "gc_workspace_id ctx = PStr w"
      "gc_allowed_collection_ids ctx = Some allowed"
    and loop: "issue_loop sha fs g views t w allowed 0 ?st0 cs = Inr st" and c: "ls_selected st = Some c"
    and scope: "make_evidence_scope (PStr t) (PStr w) (PStr c) = Inr scope"
    and b: "build_from_scope sha scope (PStr query) (map Item (ls_issued st)) = Inr b"
    and out: "items = ls_normalized st" "q = foldr max (ls_quality st) 0"
    using assms(2) Some
    by (auto simp: issue_candidates_def rbind_Inr split: pyval.splits option.splits list.splits if_splits)
  have "loop_ok sha g views t w allowed ?st0" by (simp add: loop_ok_def)
  then have ok: "loop_ok sha g views t w allowed st" "length items \<le> 8"
    using issue_loop_ok [OF assms(1) _ _ loop] out by auto
  then have st: "scoped_state sha g views scope st" "allowed_name allowed c"
    using c scope by (auto simp: loop_ok_def)
  have "bundle_ok sha scope b \<and> eb_evidence b = ls_issued st"
    using build_from_scope_ok [OF make_evidence_scope_Inr [OF scope] b] st(1) by (simp add: scoped_state_def)
  moreover have "map (\<lambda>x. get_key x ''evidence_id'') items = map (\<lambda>e. Val (PStr (evidence_id e))) (ls_issued st)"
    using ok(1) out by (simp add: loop_ok_def)
  moreover from this have "length items = length (ls_issued st)" by (metis length_map)
  ultimately have "issued_ok sha g views ctx items b scope"
    using ok(2) st ctx scope out(1) by (auto simp: issued_ok_def scoped_state_def)
  then show ?thesis using Some foldr_max_unit [of "ls_quality st"] ok(1) out(2) by (auto simp: loop_ok_def)
qed

text \<open>The decision of an attempt.\<close>

lemma decision_input_fields:
  assumes "make_decision_input r = Inr d"
  shows "di_evidence_bundle d = ri_evidence_bundle r \<and> di_domain_risk d = ri_domain_risk r \<and> di_user_intent d = ri_user_intent r \<and>
    di_policy d = ri_policy r \<and> di_retrieval_available d = ri_retrieval_available r \<and>
    di_policy_allows_answer d = ri_policy_allows_answer r \<and> di_human_review_required d = ri_human_review_required r \<and>
    bounded_signal ''retrieval_quality'' (ri_retrieval_quality r) = Inr (di_retrieval_quality d) \<and>
    int_field 0 100 (ri_retrieval_attempt r) = Inr (di_retrieval_attempt d) \<and>
    int_field 0 100 (ri_evidence_count r) = Inr (di_evidence_count d) \<and>
    normalize_citation_ids (ri_cited_evidence_ids r) = Inr (di_cited_evidence_ids d)"
  using assms unfolding make_decision_input_def
  by (simp only: returns) (auto dest!: validate_scope_same)

lemma gate_policy_made:
  "make_policy gate_policy = Inr p \<Longrightarrow> dp_answerable_risk_levels p = [LOW] \<and> dp_max_retrieval_attempts p = 1 \<and>
     dp_min_retrieval_quality p = 1 / 2 \<and> dp_min_evidence_count p = 1"
  unfolding make_policy_def
  by (simp only: returns)
    (auto simp: gate_policy_def default_policy_def normalize_risk_levels_def int_field_def bounded_signal_def split: if_splits)

definition answerable :: "evidence_gate \<Rightarrow> classification \<Rightarrow> bool" where
  "answerable g cls = (eg_authority g \<and> rc_allows_answer cls \<and> \<not> rc_human_review_required cls \<and> rc_domain_risk cls = LOW \<and>
     ui_clarity (rc_intent cls) = CLEAR)"

lemma gate_round_ok:
  assumes "hexdigest sha" and "gate_round sha fs g views query ctx cls avail attempt raw = Inr (payload, items, d)"
  shows "(d_action d = ANSWER \<longrightarrow> answerable g cls \<and> items \<noteq> [] \<and> (\<exists>b scope. issued_ok sha g views ctx items b scope)) \<and>
    (d_action d = RETRIEVE_AGAIN \<longrightarrow> avail \<and> attempt = 0)"
proof -
  obtain bo q inp cs where c: "issue_candidates sha fs g views query ctx cs = Inr (items, bo, q)"
    and i: "gate_decision_input sha g ctx bo (length items) q attempt (citation_support_metrics payload) cls avail = Inr inp"
    and d: "decide sha (Some inp) = Inr d"
    using assms(2) by (auto simp: gate_round_def rbind_Inr Let_def)
  note ok = issue_candidates_ok [OF assms(1) c]
  obtain r where r: "make_decision_input r = Inr inp" "ri_evidence_bundle r = bo"
      "ri_domain_risk r = rc_domain_risk cls" "ri_user_intent r = rc_intent cls" "make_policy gate_policy = Inr (ri_policy r)"
      "ri_retrieval_attempt r = PInt (int attempt)" "ri_retrieval_available r = avail"
      "ri_policy_allows_answer r = (rc_allows_answer cls \<and> eg_authority g)"
      "ri_human_review_required r = rc_human_review_required cls" "ri_cited_evidence_ids r = None"
      "ri_evidence_count r = PInt (int (length items))"
    using i unfolding gate_decision_input_def by (simp only: returns) auto
  note f = decision_input_fields [OF r(1)] and pol = gate_policy_made [OF r(5)]
  have "input_ok sha inp" using ok f r by (auto simp: input_ok_def issued_ok_def)
  moreover have "few_citations inp" using f r(10) by (auto simp: few_citations_def normalize_citation_ids_def)
  ultimately have spec: "d = spec_decision inp" using decide_spec d by simp
  have att: "di_retrieval_attempt inp = int attempt" "di_evidence_count inp = int (length items)"
    using f r(6,11) by (auto simp: int_field_def split: if_splits)
  show ?thesis
    using spec_answer [of inp] spec_retry [of inp] f r att ok pol
    by (auto simp: spec grounded_def answerable_def)
qed

lemma get_update_same [simp]: "get_key (AList.update k x d) k = x"
  by (simp add: get_key_def update_conv')

lemma get_update_other [simp]: "k' \<noteq> k \<Longrightarrow> get_key (AList.update k x d) k' = get_key d k'"
  by (simp add: get_key_def update_conv')

lemma gate_result_evidence:
  "get_key (gate_result cls a (payload, items, d)) ''evidence'' = Lst (map Dct (if d_action d = ANSWER then items else []))"
  "get_key (gate_result cls a (payload, items, d)) ''selected_count'' =
     Val (PInt (int (length (if d_action d = ANSWER then items else []))))"
  by (simp_all add: gate_result_def dict_update_def Let_def)

text \<open>The result of an attempt, as it is delivered.\<close>

definition delivery_ok ::
  "(payload \<Rightarrow> string) \<Rightarrow> evidence_gate \<Rightarrow> (nat \<Rightarrow> kview) \<Rightarrow> gate_context \<Rightarrow> classification \<Rightarrow> pydict list \<Rightarrow> bool" where
  "delivery_ok sha g views ctx cls items =
     (answerable g cls \<and> (\<exists>b scope. issued_ok sha g views ctx items b scope))"

lemma retrieve_delivery:
  assumes "hexdigest sha" and "retrieve sha fs g views backend query ctx history = (sent, Inr out)"
    and "cls = classify_request (eg_classifier g) (PStr query) history"
  shows "(sent = [Some query] \<or> (\<exists>q. rc_retry_query cls = Some q \<and> strip q \<noteq> strip query \<and> sent = [Some query, Some q])) \<and>
    (\<exists>items. get_key out ''evidence'' = Lst (map Dct items) \<and> get_key out ''selected_count'' = Val (PInt (int (length items))) \<and>
       (items \<noteq> [] \<longrightarrow> (\<exists>attempt < 2. delivery_ok sha g (views attempt) ctx cls items)))"
proof -
  let ?avail = "case rc_retry_query cls of None \<Rightarrow> False | Some q \<Rightarrow> strip q \<noteq> strip query"
  let ?call = "gate_call sha fs g views backend query ctx cls ?avail"
  have call: "(d_action d = ANSWER \<longrightarrow> delivery_ok sha g (views n) ctx cls items) \<and> (d_action d = RETRIEVE_AGAIN \<longrightarrow> ?avail)"
    if "?call n sent = Inr (payload, items, d)" for n sent payload items d
    using that gate_round_ok [OF assms(1), of fs g "views n" query ctx cls ?avail n _ payload items d]
    by (auto simp: gate_call_def delivery_ok_def split: option.splits sum.splits)
  have out: "\<exists>items'. get_key (gate_result cls a (payload, items, d)) ''evidence'' = Lst (map Dct items') \<and>
      get_key (gate_result cls a (payload, items, d)) ''selected_count'' = Val (PInt (int (length items'))) \<and>
      (items' \<noteq> [] \<longrightarrow> (\<exists>attempt < 2. delivery_ok sha g (views attempt) ctx cls items'))"
    if "?call n sent = Inr (payload, items, d)" "n < 2" for n sent payload items d a
    using call [OF that(1)] that(2) unfolding gate_result_evidence by fastforce
  obtain payload items d where c0: "?call 0 (Some query) = Inr (payload, items, d)"
    using assms(2,3) by (cases "?call 0 (Some query)") (auto simp: retrieve_def Let_def)
  show ?thesis
  proof (cases "d_action d = RETRIEVE_AGAIN")
    case False
    then show ?thesis using assms(2,3) c0 out [OF c0, of "d_action d"] by (auto simp: retrieve_def Let_def)
  next
    case True
    then obtain q where q: "rc_retry_query cls = Some q" "strip q \<noteq> strip query" using call [OF c0] by (auto split: option.splits)
    obtain payload' items' d' where c1: "?call 1 (Some q) = Inr (payload', items', d')"
      using assms(2,3) c0 True q by (cases "?call 1 (Some q)") (auto simp: retrieve_def Let_def)
    show ?thesis using assms(2,3) c0 c1 True q out [OF c1, of "d_action d"] by (auto simp: retrieve_def Let_def)
  qed
qed

text \<open>C4. What reaches the professor is grounded. Whenever \<open>retrieve\<close> returns, it has sent the query, and after it at most
  the policy's own retry query, different from it; and if the result has evidence, then the
  gate has a knowledge store, the request was classified as answerable, low-risk and clear without
  human review, there are at most eight items with pairwise different identifiers, all of one collection that the caller
  may read, and every item carries the identity, version and text that the store returned for a published
  document of the caller's tenant and workspace in an active collection.\<close>

theorem gate_delivers_grounded:
  assumes "hexdigest sha" and "retrieve sha fs g views backend query ctx history = (sent, Inr out)"
    and "cls = classify_request (eg_classifier g) (PStr query) history"
  shows "(sent = [Some query] \<or> (\<exists>q. rc_retry_query cls = Some q \<and> strip q \<noteq> strip query \<and> sent = [Some query, Some q])) \<and>
    (\<exists>items. get_key out ''evidence'' = Lst (map Dct items) \<and>
       (items \<noteq> [] \<longrightarrow>
          answerable g cls \<and> length items \<le> 8 \<and> distinct (map (\<lambda>x. get_key x ''evidence_id'') items) \<and>
          (\<exists>t w c allowed scope attempt. gc_tenant_id ctx = PStr t \<and> gc_workspace_id ctx = PStr w \<and>
             gc_allowed_collection_ids ctx = Some allowed \<and> allowed_name allowed c \<and>
             make_evidence_scope (PStr t) (PStr w) (PStr c) = Inr scope \<and> attempt < 2 \<and>
             (\<forall>x \<in> set items. \<exists>n. grounded_item (views attempt n) scope x))))"
proof -
  note r = retrieve_delivery [OF assms]
  then obtain items where items: "get_key out ''evidence'' = Lst (map Dct items)"
    "items \<noteq> [] \<longrightarrow> (\<exists>attempt < 2. delivery_ok sha g (views attempt) ctx cls items)" by blast
  have "answerable g cls \<and> length items \<le> 8 \<and> distinct (map (\<lambda>x. get_key x ''evidence_id'') items) \<and>
      (\<exists>t w c allowed scope. gc_tenant_id ctx = PStr t \<and> gc_workspace_id ctx = PStr w \<and>
         gc_allowed_collection_ids ctx = Some allowed \<and> allowed_name allowed c \<and>
         make_evidence_scope (PStr t) (PStr w) (PStr c) = Inr scope \<and>
         (\<forall>x \<in> set items. \<exists>n. grounded_item (views attempt n) scope x))"
    if del: "delivery_ok sha g (views attempt) ctx cls items" for attempt
  proof -
    obtain b scope where i: "issued_ok sha g (views attempt) ctx items b scope" and a: "answerable g cls"
      using del by (auto simp: delivery_ok_def)
    have "distinct (map (\<lambda>e. Val (PStr (evidence_id e))) (eb_evidence b))"
      using i by (auto simp: issued_ok_def bundle_ok_def citation_ids_def distinct_map inj_on_def)
    moreover have "\<forall>x \<in> set items. \<exists>n. grounded_item (views attempt n) scope x"
      using i a admitted_grounded [OF assms(1), of scope g "views attempt"]
      by (auto simp: issued_ok_def answerable_def list_all_iff bundle_ok_def)
    ultimately show ?thesis using i a by (auto simp: issued_ok_def) blast
  qed
  then show ?thesis using r items by blast
qed

section \<open>Revalidation before delivery\<close>

text \<open>An item of the prompt that the view of the store still backs: the evidence issued from it now has the item's identifier.\<close>

definition backed_item :: "(payload \<Rightarrow> string) \<Rightarrow> kview \<Rightarrow> gate_context \<Rightarrow> fields \<Rightarrow> bool" where
  "backed_item sha k ctx item =
     (\<exists>scope d ch e. make_evidence_scope (gc_tenant_id ctx) (gc_workspace_id ctx) (field item ''collection_id'') = Inr scope \<and>
        resolved_from k scope item d ch \<and> issued sha e \<and> in_scope scope e \<and> ev_document_id e = strip (doc_document_id d) \<and>
        ev_document_version e = strip (doc_document_version d) \<and> ev_chunk_id e = strip (ch_chunk_id ch) \<and>
        ev_text e = strip (ch_text ch) \<and> field item ''evidence_id'' = PStr (evidence_id e) \<and>
        field item ''document_checksum'' = PStr (doc_content_checksum d) \<and> doc_content_checksum d \<noteq> [])"

lemma case_False:
  "(case m of Inl e \<Rightarrow> False | Inr x \<Rightarrow> P x) \<longleftrightarrow> (\<exists>x. m = Inr x \<and> P x)"
  "(case y of None \<Rightarrow> False | Some z \<Rightarrow> Q z) \<longleftrightarrow> (\<exists>z. y = Some z \<and> Q z)"
  by (cases m, auto) (cases y, auto)+

lemma item_revalidates_backed:
  assumes "hexdigest sha" and "item_revalidates sha g k ctx allowed refreshed item"
  shows "backed_item sha k ctx item \<and> collection_allowed allowed (field item ''collection_id'') \<and>
    collection_allowed refreshed (field item ''collection_id'')"
proof -
  obtain scope a e where c: "collection_allowed allowed (field item ''collection_id'')"
      "collection_allowed refreshed (field item ''collection_id'')"
    and s: "make_evidence_scope (gc_tenant_id ctx) (gc_workspace_id ctx) (field item ''collection_id'') = Inr scope"
    and a: "knowledge_resolve k item scope = Some a"
    and e: "issue sha (gate_validator g k) (CMapping item) (ScopeObj scope) None (Some a) = Inr e"
    and id: "PStr (evidence_id e) = field item ''evidence_id''" and nf: "\<not> falsy (field item ''document_checksum'')"
    and ck: "py_eq (field item ''document_checksum'') (field a ''document_checksum'')"
    using assms(2) by (auto simp: item_revalidates_def Let_def case_False split: if_splits)
  obtain d ch where d: "resolved_from k scope item d ch" "a = resolved_record d ch item"
    using resolve_Some [OF a] by blast
  have "obj_eq (Val (field item ''document_checksum'')) (Val (PStr (doc_content_checksum d)))"
    using ck by (simp add: d(2) field_resolved del: obj_eq_str)
  then have ck': "field item ''document_checksum'' = PStr (doc_content_checksum d)" by simp
  have "doc_content_checksum d \<noteq> []" using nf by (simp add: ck' falsy_def)
  then show ?thesis
    using issued_fields [OF assms(1) make_evidence_scope_Inr [OF s] e [unfolded d(2)]] c s d(1) id ck'
    unfolding backed_item_def by (intro conjI exI [of _ scope] exI [of _ d] exI [of _ ch] exI [of _ e]) simp_all
qed

lemma revalidate_all:
  "revalidate sha g views ctx allowed refreshed n xs \<longleftrightarrow>
     (\<forall>j < length xs. item_revalidates sha g (views (n + j)) ctx allowed refreshed (xs ! j))"
proof (induction xs arbitrary: n)
  case (Cons x xs)
  show ?case unfolding revalidate.simps Cons.IH by (auto simp: nth_Cons less_Suc_eq_0_disj split: nat.splits)
qed simp

text \<open>C17. An answer is delivered only on what the store still holds. When \<open>validate_publication\<close> returns true, the gate has a knowledge store,
  the snapshot has one to eight items with different identifiers, every cited identifier is one of them and
  something is cited; the request carries the permission to chat, and so does the authorization that the callback, if
  there is one, returns for the same tenant, workspace and user; and every item is in a collection that both the
  request and that authorization allow, and has the identifier and checksum of evidence issued from the document as
  the store returned it for this check, published in an active collection.\<close>

theorem publication_revalidated:
  assumes "hexdigest sha" and "validate_publication sha g views ctx evidence cited"
  shows "eg_authority g \<and> 1 \<le> length evidence \<and> length evidence \<le> 8 \<and> may_chat ctx \<and>
    cited \<noteq> [] \<and> set cited \<subseteq> set (map (\<lambda>x. field x ''evidence_id'') evidence) \<and>
    distinct (map (\<lambda>x. field x ''evidence_id'') evidence) \<and>
    (\<exists>current allowed refreshed. current_context g ctx = Some current \<and> (eg_revalidator g \<noteq> None \<longrightarrow> may_chat current) \<and>
       gc_allowed_collection_ids ctx = Some allowed \<and> gc_allowed_collection_ids current = Some refreshed \<and>
       (\<forall>j < length evidence. backed_item sha (views j) ctx (evidence ! j) \<and>
          collection_allowed allowed (field (evidence ! j) ''collection_id'') \<and>
          collection_allowed refreshed (field (evidence ! j) ''collection_id'')))"
proof -
  obtain current allowed refreshed where c: "current_context g ctx = Some current"
      "gc_allowed_collection_ids ctx = Some allowed" "gc_allowed_collection_ids current = Some refreshed"
    and b: "eg_authority g" "1 \<le> length evidence" "length evidence \<le> 8" "may_chat ctx"
    and w: "cited_within (map (\<lambda>x. field x ''evidence_id'') evidence) cited"
    and r: "revalidate sha g views ctx allowed refreshed 0 evidence"
    using assms(2) by (auto simp: validate_publication_def split: if_splits option.splits)
  have "eg_revalidator g \<noteq> None \<longrightarrow> may_chat current"
    using c(1) by (auto simp: current_context_def split: option.splits if_splits)
  then show ?thesis
    using b c w r item_revalidates_backed [OF assms(1)] by (auto simp: cited_within_def revalidate_all)
qed

section \<open>Delivered evidence revalidates\<close>

text \<open>A view with identifiers as the ingestion makes them, and documents with a checksum.\<close>

definition tidy_view :: "kview \<Rightarrow> bool" where
  "tidy_view k =
     ((\<forall>i t w d. kv_document k i t w = Some (Some d) \<longrightarrow> strip (doc_document_id d) = doc_document_id d \<and> doc_content_checksum d \<noteq> []) \<and>
      (\<forall>i t w chs ch. kv_chunks k i t w = Some chs \<longrightarrow> ch \<in> set chs \<longrightarrow> strip (ch_chunk_id ch) = ch_chunk_id ch))"

text \<open>Resolving an issued item again changes only the scores, and those to the values that were issued.\<close>

lemma candidate_value_hd: "field d n = v \<Longrightarrow> v \<noteq> PNone \<Longrightarrow> candidate_value d (n # ns) dflt = v"
  by (simp add: candidate_value_def)

lemma raw_candidate_again:
  assumes "normalize_evidence (raw_candidate s v (resolved_record d ch raw)) = Inr x"
    and "field raw' ''retrieval_score'' = PFloat (Fin (ev_retrieval_score x))" "field raw' ''reranking_score'' = PFloat (Fin (ev_reranking_score x))"
  shows "normalize_evidence (raw_candidate s v (resolved_record d ch raw')) = Inr x"
proof -
  let ?r = "raw_candidate s v (resolved_record d ch raw)" and ?r' = "raw_candidate s v (resolved_record d ch raw')"
  have some: "map_of raw' ''retrieval_score'' = Some (PFloat (Fin (ev_retrieval_score x)))"
      "map_of raw' ''reranking_score'' = Some (PFloat (Fin (ev_reranking_score x)))"
    using assms(2,3) by (auto simp: field_def split: option.splits)
  have r': "?r' = ?r\<lparr>re_retrieval_score := PFloat (Fin (ev_retrieval_score x)), re_reranking_score := PFloat (Fin (ev_reranking_score x))\<rparr>"
    by (simp add: raw_candidate_def candidate_value_def field_def resolved_record_def field_default_def some)
  show ?thesis
    using assms(1) unfolding r' normalize_evidence_def by (simp only: returns) (auto dest: again)
qed

lemma candidate_version_resolved: "candidate_version None (resolved_record d ch raw) = candidate_version None (resolved_record d ch raw')"
  by (simp add: candidate_version_def candidate_value_def field_resolved)

definition provenance_ok :: "evidence_validator \<Rightarrow> raw_evidence \<Rightarrow> bool" where
  "provenance_ok v r = (excerpt_ok v (re_text r) \<and> nonblank (re_source r) \<and> nonblank (re_checksum r) \<and>
     nonblank (re_document_id r) \<and> nonblank (re_chunk_id r))"

lemma issue_resolved_iff:
  "issue sha v c (ScopeObj s) None (Some a) = Inr e \<longleftrightarrow>
     \<not> list_ex (\<lambda>(name, x). read_value c name \<noteq> PNone \<and> read_value c name \<noteq> PStr x) (scope_values s) \<and> scope_matches a s \<and>
     (\<exists>version. candidate_version None a = Inr version \<and> provenance_ok v (raw_candidate s version a) \<and>
        evidence_issue sha (raw_candidate s version a) = Inr e)"
  unfolding issue_def Let_def provenance_ok_def
  by (simp only: returns) (auto split: if_splits sum.splits)

lemma provenance_again: "provenance_ok v (raw_candidate s x (resolved_record d ch raw)) = provenance_ok v (raw_candidate s x (resolved_record d ch raw'))"
  by (simp add: provenance_ok_def raw_candidate_def candidate_value_def resolved_record_def field_def)

lemma plain_field: "field (plain_fields d) k = plain (get_key d k)"
  by (induction d) (auto simp: plain_fields_def field_def get_key_def plain_def split: option.splits)

lemma item_fields:
  fixes cand a e
  defines "item \<equiv> plain_fields (normalized_item cand (Some a) e)"
  shows "field item ''evidence_id'' = PStr (evidence_id e)" "field item ''tenant_id'' = PStr (ev_tenant_id e)"
    "field item ''workspace_id'' = PStr (ev_workspace_id e)" "field item ''collection_id'' = PStr (ev_collection_id e)"
    "field item ''document_id'' = PStr (ev_document_id e)" "field item ''chunk_id'' = PStr (ev_chunk_id e)"
    "field item ''document_checksum'' = field a ''document_checksum''"
    "field item ''retrieval_score'' = PFloat (Fin (ev_retrieval_score e))"
    "field item ''reranking_score'' = PFloat (Fin (ev_reranking_score e))"
    "field_default item ''title'' (PStr []) = field_default a ''title'' (PStr [])"
  unfolding item_def plain_field
  by (simp_all add: normalized_item_def get_key_def Let_def plain_def plain_fields_def field_default_def)

lemma issue_again:
  fixes cand
  assumes "hexdigest sha" and "scope_ok s" and "issue sha v c (ScopeObj s) None (Some (resolved_record d ch raw)) = Inr e"
  defines "item \<equiv> plain_fields (normalized_item cand (Some (resolved_record d ch raw)) e)"
  shows "issue sha v (CMapping item) (ScopeObj s) None (Some (resolved_record d ch item)) = Inr e"
proof -
  let ?a = "resolved_record d ch raw" and ?b = "resolved_record d ch item"
  obtain version where v: "scope_matches ?a s" "candidate_version None ?a = Inr version"
      "provenance_ok v (raw_candidate s version ?a)" "evidence_issue sha (raw_candidate s version ?a) = Inr e"
    using assms(3) unfolding issue_resolved_iff by blast
  obtain x where x: "normalize_evidence (raw_candidate s version ?a) = Inr x" "pages_ordered (ev_page_start x) (ev_page_end x)"
      "e = evidence_data.extend x \<lparr>evidence_id = server_evidence_id sha x\<rparr>"
    using v(4) unfolding evidence_issue_Inr [OF assms(1)] by blast
  have "normalize_evidence (raw_candidate s version ?b) = Inr x"
    by (rule raw_candidate_again [OF x(1)]) (simp_all add: item_def item_fields x(3) evidence_data.defs)
  then have "evidence_issue sha (raw_candidate s version ?b) = Inr e"
    using x(2,3) unfolding evidence_issue_Inr [OF assms(1)] by blast
  moreover have "scope_matches ?b s" using v(1) by (simp add: scope_matches_def scope_values_def field_def resolved_record_def)
  moreover have "in_scope s e" using issued_fields [OF assms(1-3)] by simp
  moreover have "candidate_version None ?b = Inr version" "provenance_ok v (raw_candidate s version ?b)"
    using v(2,3) candidate_version_resolved [of d ch item raw] provenance_again [of v s version d ch item raw] by simp_all
  moreover have "\<not> list_ex (\<lambda>(name, x). read_value (CMapping item) name \<noteq> PNone \<and> read_value (CMapping item) name \<noteq> PStr x) (scope_values s)"
    using calculation(3) by (simp add: scope_values_def item_def item_fields in_scope_def)
  ultimately show ?thesis unfolding issue_resolved_iff by blast
qed

lemma resolve_again:
  fixes cand a
  assumes "resolved_from k scope raw d ch" and "tidy_view k" and "token_ok (ev_document_id e)" "token_ok (ev_chunk_id e)"
    and "ev_document_id e = strip (doc_document_id d)" "ev_chunk_id e = strip (ch_chunk_id ch)"
  defines "item \<equiv> plain_fields (normalized_item cand (Some a) e)"
  shows "knowledge_resolve k item scope = Some (resolved_record d ch item)"
proof -
  have tidy: "strip (doc_document_id d) = doc_document_id d" "strip (ch_chunk_id ch) = ch_chunk_id ch"
    using assms(1,2) by (auto simp: resolved_from_def tidy_view_def read_chunk_def find_Some_iff split: option.splits)
  have "field item ''document_id'' = PStr (doc_document_id d)" "field item ''chunk_id'' = PStr (ch_chunk_id ch)"
    using assms(5,6) by (simp_all add: item_def item_fields tidy)
  then show ?thesis
    using assms(1,3-6) tidy by (auto simp: knowledge_resolve_def resolve_ids_def resolved_from_def token_ok_def)
qed

lemma item_revalidates_again:
  assumes "hexdigest sha" and "scope_ok scope" and "eg_authority g" and "admitted_in sha g (\<lambda>_. k) scope x" and "tidy_view k"
    and "make_evidence_scope (gc_tenant_id ctx) (gc_workspace_id ctx) (PStr (es_collection_id scope)) = Inr scope"
    and "collection_allowed allowed (PStr (es_collection_id scope))" "collection_allowed refreshed (PStr (es_collection_id scope))"
  shows "item_revalidates sha g k ctx allowed refreshed (plain_fields x) \<and>
    field (plain_fields x) ''collection_id'' = PStr (es_collection_id scope)"
proof -
  obtain cand candidate d ch e where d: "resolved_from k scope candidate d ch"
    and x: "x = normalized_item cand (Some (resolved_record d ch candidate)) e"
    and i: "issue sha (gate_validator g k) (CMapping candidate) (ScopeObj scope) None (Some (resolved_record d ch candidate)) = Inr e"
    and e: "issued sha e" "in_scope scope e" "ev_document_id e = strip (doc_document_id d)" "ev_chunk_id e = strip (ch_chunk_id ch)"
    using admitted_resolved [OF assms(1-4)] by blast
  let ?x = "plain_fields x"
  have r: "knowledge_resolve k ?x scope = Some (resolved_record d ch ?x)"
    unfolding x using resolve_again [OF d assms(5) _ _ e(3,4)] e(1) by (simp add: issued_def)
  have j: "issue sha (gate_validator g k) (CMapping ?x) (ScopeObj scope) None (Some (resolved_record d ch ?x)) = Inr e"
    unfolding x by (rule issue_again [OF assms(1,2) i])
  have "doc_content_checksum d \<noteq> []" using d assms(5) by (auto simp: resolved_from_def tidy_view_def)
  moreover have "field ?x ''collection_id'' = PStr (es_collection_id scope)" using e(2) by (simp add: x item_fields in_scope_def)
  moreover have "field_default (resolved_record d ch ?x) ''title'' (PStr []) = field_default (resolved_record d ch candidate) ''title'' (PStr [])"
    by (simp add: field_default_def resolved_record_def)
  moreover have "\<exists>y. field_default (resolved_record d ch candidate) ''title'' (PStr []) = PStr y"
    by (simp add: field_default_def resolved_record_def)
  moreover have "field ?x ''evidence_id'' = PStr (evidence_id e)" "field ?x ''document_checksum'' = PStr (doc_content_checksum d)"
      "field_default ?x ''title'' (PStr []) = field_default (resolved_record d ch candidate) ''title'' (PStr [])"
    by (simp_all add: x item_fields field_resolved)
  ultimately show ?thesis
    using assms(6-8) r j by (auto simp: item_revalidates_def falsy_def field_resolved)
qed

lemma delivery_publishes:
  assumes "hexdigest sha" and "retrieve sha fs g (\<lambda>_ _. k) backend query ctx history = (sent, Inr out)"
    and "get_key out ''evidence'' = Lst (map Dct items)" and "items \<noteq> []" and "tidy_view k"
    and "may_chat ctx" and "current_context g ctx = Some ctx"
    and "\<forall>v \<in> set (the (gc_allowed_collection_ids ctx)). \<exists>c. v = PStr c \<and> strip c = c"
    and "cited \<noteq> []" and "set cited \<subseteq> set (map (\<lambda>x. plain (get_key x ''evidence_id'')) items)"
  shows "validate_publication sha g (\<lambda>_. k) ctx (map plain_fields items) cited"
proof -
  obtain items' attempt where "get_key out ''evidence'' = Lst (map Dct items')"
      "items' \<noteq> [] \<longrightarrow> delivery_ok sha g (\<lambda>_. k) ctx (classify_request (eg_classifier g) (PStr query) history) items'"
    using retrieve_delivery [OF assms(1,2) refl] by blast
  moreover from this have "items' = items" using assms(3) by (simp add: inj_map_eq_map inj_def)
  ultimately obtain b scope where g: "eg_authority g" and i: "issued_ok sha g (\<lambda>_. k) ctx items b scope"
    using assms(4) by (auto simp: delivery_ok_def answerable_def)
  obtain t w c allowed where ctx: "gc_tenant_id ctx = PStr t" "gc_workspace_id ctx = PStr w"
      "gc_allowed_collection_ids ctx = Some allowed" "allowed_name allowed c"
      "make_evidence_scope (PStr t) (PStr w) (PStr c) = Inr scope"
    using i by (auto simp: issued_ok_def)
  have sc: "scope_ok scope" using i by (simp add: issued_ok_def bundle_ok_def)
  have coll: "es_collection_id scope = strip c"
    using ctx(5) by (auto simp: make_evidence_scope_def token_Inr split: sum.splits)
  have again: "make_evidence_scope (gc_tenant_id ctx) (gc_workspace_id ctx) (PStr (es_collection_id scope)) = Inr scope"
    using ctx(1,2,5) sc by (auto simp: make_evidence_scope_def scope_ok_def split: sum.splits)
  have al: "collection_allowed allowed (PStr (es_collection_id scope))"
    using assms(8) ctx(3,4) coll by (auto simp: collection_allowed_def allowed_name_def list_ex_iff)
  have items: "item_revalidates sha g k ctx allowed allowed (plain_fields x) \<and>
      field (plain_fields x) ''collection_id'' = PStr (es_collection_id scope)" if "x \<in> set items" for x
    using item_revalidates_again [OF assms(1) sc g _ assms(5) again al al] i that by (simp add: issued_ok_def list_all_iff)
  have ids: "map (\<lambda>x. field x ''evidence_id'') (map plain_fields items) = map (\<lambda>e. PStr (evidence_id e)) (eb_evidence b)"
  proof -
    have "map (\<lambda>x. get_key x ''evidence_id'') items = map (\<lambda>e. Val (PStr (evidence_id e))) (eb_evidence b)"
      using i by (simp add: issued_ok_def)
    then have "map plain (map (\<lambda>x. get_key x ''evidence_id'') items) = map plain (map (\<lambda>e. Val (PStr (evidence_id e))) (eb_evidence b))"
      by (rule arg_cong)
    then show ?thesis by (simp add: plain_field plain_def o_def)
  qed
  have "distinct (map (\<lambda>e. PStr (evidence_id e)) (eb_evidence b))"
    using i by (auto simp: issued_ok_def bundle_ok_def citation_ids_def distinct_map inj_on_def)
  moreover have "set cited \<subseteq> set (map (\<lambda>e. PStr (evidence_id e)) (eb_evidence b))"
    using assms(10) unfolding ids [symmetric] by (auto simp: plain_field)
  ultimately have "cited_within (map (\<lambda>x. field x ''evidence_id'') (map plain_fields items)) cited"
    using assms(9) unfolding ids cited_within_def by (auto simp: list_all_iff)
  moreover have "one_collection (map plain_fields items)"
    using items assms(4) by (cases items) (auto simp: one_collection_def list_all_iff)
  moreover have "list_all is_str (allowed @ allowed)" using assms(8) ctx(3) by (auto simp: list_all_iff)
  moreover have "revalidate sha g (\<lambda>_. k) ctx allowed allowed 0 (map plain_fields items)"
    unfolding revalidate_all using items by simp
  moreover have "1 \<le> length items" "length items \<le> 8" using i assms(4) by (cases items, simp_all add: issued_ok_def)
  ultimately show ?thesis using g assms(6,7) ctx(3) by (simp add: validate_publication_def)
qed

text \<open>C18. What the gate delivers can be published: when the knowledge store does not change, its identifiers carry no surrounding blanks and its
  documents have checksums, the allowed collections are such names too, the request may chat and the
  authorization callback, if there is one, confirms the same scope, then the evidence that \<open>retrieve\<close> returned passes
  \<open>validate_publication\<close> with any non-empty selection of its identifiers as the citations.\<close>

theorem delivered_evidence_publishes:
  assumes "hexdigest sha" and "retrieve sha fs g (\<lambda>_ _. k) backend query ctx history = (sent, Inr out)"
    and "get_key out ''evidence'' = Lst (map Dct items)" and "items \<noteq> []" and "tidy_view k"
    and "may_chat ctx" and "current_context g ctx = Some ctx"
    and "\<forall>v \<in> set (the (gc_allowed_collection_ids ctx)). \<exists>c. v = PStr c \<and> strip c = c"
    and "cited \<noteq> []" and "set cited \<subseteq> set (map (\<lambda>x. plain (get_key x ''evidence_id'')) items)"
  shows "validate_publication sha g (\<lambda>_. k) ctx (map plain_fields items) cited"
  using assms by (rule delivery_publishes)

section \<open>Readers of the knowledge store\<close>

text \<open>
  The interface of a knowledge store to the gate: how a state of the store is seen, which documents are gone and
  which collections are closed in it. What is gone or closed never resolves, so it is not delivered, not
  published and not returned from the cache.
\<close>

locale knowledge_reader =
  fixes view :: "'s \<Rightarrow> kview" and gone :: "'s \<Rightarrow> string \<Rightarrow> bool" and closed :: "'s \<Rightarrow> string \<Rightarrow> string \<Rightarrow> string \<Rightarrow> bool"
  assumes gone_document: "gone s i \<Longrightarrow> kv_document (view s) i t w = Some (Some d) \<Longrightarrow> doc_status d \<noteq> ''published''"
    and closed_collection: "closed s t w c \<Longrightarrow> kv_collection (view s) w c t = Some (Some co) \<Longrightarrow> co_status co \<noteq> ''active''"
begin

lemma gone_unresolved: "gone s i \<Longrightarrow> field raw ''document_id'' = PStr i \<Longrightarrow> knowledge_resolve (view s) raw scope = None"
  using resolve_Some [of "view s" raw scope] gone_document [of s i]
  by (cases "knowledge_resolve (view s) raw scope") (auto simp: resolved_from_def)

lemma closed_unresolved:
  "closed s (es_tenant_id scope) (es_workspace_id scope) (es_collection_id scope) \<Longrightarrow> knowledge_resolve (view s) raw scope = None"
  using resolve_Some [of "view s" raw scope] closed_collection [of s "es_tenant_id scope" "es_workspace_id scope" "es_collection_id scope"]
  by (cases "knowledge_resolve (view s) raw scope") (auto simp: resolved_from_def collection_admits_def)

lemma gone_not_revalidated:
  assumes "\<And>n. gone (states n) i" and "x \<in> set xs" and "field x ''document_id'' = PStr i"
  shows "\<not> revalidate sha g (\<lambda>n. view (states n)) ctx allowed refreshed m xs"
  using assms(2)
proof (induction xs arbitrary: m)
  case (Cons y ys)
  have "\<not> item_revalidates sha g (view (states m)) ctx allowed refreshed x"
    using gone_unresolved [OF assms(1,3)] by (auto simp: item_revalidates_def Let_def split: sum.splits)
  then show ?case using Cons by auto
qed simp

lemma gone_not_cached:
  assumes "\<And>n. gone (states n) i" and "Dct d \<in> set cs" and "get_key d ''document_id'' = Val (PStr i)"
  shows "resolve_snapshot sha g (\<lambda>n. view (states n)) ctx m cs = None"
  using assms(2)
proof (induction cs arbitrary: m)
  case (Cons y ys)
  have "map_of (plain_fields d) k = map_option plain (map_of d k)" for k
    by (induction d) (auto simp: plain_fields_def)
  then have "field (plain_fields d) ''document_id'' = PStr i"
    using assms(3) by (auto simp: field_def get_key_def plain_def split: option.splits)
  then have "cached_item sha g (view (states m)) ctx (Dct d) = None"
    using gone_unresolved [OF assms(1)] by (auto simp: cached_item_def Let_def split: sum.splits pyval.splits)
  then show ?case using Cons by (auto split: option.splits)
qed simp

lemma gone_never_published:
  assumes "\<And>n. gone (states n) i" and "x \<in> set evidence" and "field x ''document_id'' = PStr i"
  shows "\<not> validate_publication sha g (\<lambda>n. view (states n)) ctx evidence cited"
  using gone_not_revalidated [OF assms]
  by (auto simp: validate_publication_def split: option.splits if_splits)

lemma gone_never_from_cache:
  assumes "\<And>n. gone (states n) i" and "get_key response ''citations'' = Lst cs" and "Dct d \<in> set cs"
    and "get_key d ''document_id'' = Val (PStr i)"
  shows "\<not> validate_cached_response sha g (\<lambda>a n. view (states n)) ctx response"
  using gone_not_cached [OF assms(1,3,4)] assms(2,3) by (auto simp: validate_cached_response_def)

end

text \<open>The in-memory store as the gate reads it.\<close>

definition store_view :: "kstore \<Rightarrow> kview" where
  "store_view s =
     \<lparr>kv_document = (\<lambda>i t w. case get_document i (Some t) (Some w) s of
          (Inl e, u) \<Rightarrow> None | (Inr None, u) \<Rightarrow> Some None | (Inr (Some a), u) \<Rightarrow> Some (Some (ks_heap u a))),
      kv_collection = (\<lambda>w c t. case fst (get_collection w c t s) of Inl e \<Rightarrow> None | Inr x \<Rightarrow> Some x),
      kv_chunks = (\<lambda>i t w. case fst (get_chunks i s) of Inl e \<Rightarrow> None | Inr as \<Rightarrow> Some (map (ks_chunk_heap s) as))\<rparr>"

definition archived_for :: "kstore \<Rightarrow> string \<Rightarrow> string \<Rightarrow> string \<Rightarrow> bool" where
  "archived_for s t w c = (\<exists>x. fst (get_collection w c t s) = Inr (Some x) \<and> co_status x = ''archived'')"

interpretation store_reader: knowledge_reader store_view "\<lambda>s i. i \<in> ks_tombstones s" archived_for
proof
  show "doc_status d \<noteq> ''published''"
    if "i \<in> ks_tombstones s" "kv_document (store_view s) i t w = Some (Some d)" for s i t w d
  proof -
    have "wp (get_document i (Some t) (Some w)) (\<lambda>x u. \<forall>a. x = Some a \<longrightarrow> doc_status (ks_heap u a) = ''deleted'') (\<lambda>_. False) s"
      using that(1) by (auto simp: get_document_def wps split: option.splits)
    then show ?thesis using that(2)
      by (auto simp: store_view_def wp_def split: prod.splits sum.splits option.splits)
  qed
  show "co_status co \<noteq> ''active''"
    if "archived_for s t w c" "kv_collection (store_view s) w c t = Some (Some co)" for s t w c co
    using that by (auto simp: store_view_def archived_for_def split: sum.splits)
qed

section \<open>A concrete request\<close>

definition sample_published :: document where
  "sample_published = sample_document\<lparr>doc_status := ''published'', doc_document_version := ''1'', doc_content_checksum := ''x''\<rparr>"

definition sample_text :: chunk where
  "sample_text = sample_chunk\<lparr>ch_chunk_id := ''k'', ch_text := '' dog fever '', ch_page_start := Some 3, ch_checksum := ''x''\<rparr>"

definition sample_view :: kview where
  "sample_view = \<lparr>kv_document = (\<lambda>i t w. Some (if i = ''d'' then Some sample_published else None)),
     kv_collection = (\<lambda>w c t. Some (Some \<lparr>co_workspace_id = ''w'', co_collection_id = ''c'', co_tenant_id = ''t'', co_title = [],
       co_description = [], co_status = ''active'', co_version = 1, co_metadata = []\<rparr>)),
     kv_chunks = (\<lambda>i t w. Some [sample_text])\<rparr>"

definition sample_class :: classification where
  "sample_class = (denial ''v'' ''r'' LOW)\<lparr>rc_intent := \<lparr>ui_intent_code = ''x'', ui_clarity = CLEAR\<rparr>, rc_allows_answer := True\<rparr>"

definition sample_gate :: evidence_gate where
  "sample_gate = \<lparr>eg_authority = True, eg_classifier = Some (\<lambda>_ _. Some sample_class), eg_revalidator = None\<rparr>"

definition sample_context :: gate_context where
  "sample_context = \<lparr>gc_tenant_id = PStr ''t'', gc_workspace_id = PStr ''w'', gc_user_id = PStr ''u'',
     gc_allowed_collection_ids = Some [PStr ''c''], gc_permissions = Some [PStr ''chat.query'']\<rparr>"

definition sample_candidate :: pydict where
  "sample_candidate = [(''collection_id'', Val (PStr ''c'')), (''document_id'', Val (PStr ''d'')), (''chunk_id'', Val (PStr ''k'')),
     (''score'', Val (PInt 1)), (''confidence_score'', Val (PFloat (Fin 1)))]"

definition sample_backend :: retrieval where
  "sample_backend n q allowed = Some (Dct [(''evidence'', Lst [Dct sample_candidate])])"

abbreviation sample_record :: fields where
  "sample_record \<equiv> resolved_record sample_published sample_text (plain_fields sample_candidate)"

lemma strip_samples [simp]: "strip ''c'' = ''c''" "strip ''t'' = ''t''" "strip ''w'' = ''w''"
  by (simp_all add: strip_def lstrip_def rstrip_def char_defs)

lemma sample_scope: "make_evidence_scope (PStr ''t'') (PStr ''w'') (PStr ''c'') = Inr scope_example"
  by (simp add: scope_example_def)

lemma sample_gate_resolve: "knowledge_resolve sample_view (plain_fields sample_candidate) scope_example = Some sample_record"
  by (simp add: knowledge_resolve_def resolve_ids_def sample_view_def plain_fields_def sample_candidate_def field_def plain_def
      scope_example_def document_in_scope_def sample_published_def sample_document_def collection_admits_def read_chunk_def
      sample_text_def sample_chunk_def)

lemma sample_raw: "raw_candidate scope_example (PStr ''1'') sample_record = raw_example"
  by (simp add: raw_candidate_def candidate_value_def field_def resolved_record_def sample_published_def sample_document_def sample_text_def
      sample_chunk_def candidate_example_def field_default_def plain_fields_def sample_candidate_def plain_def or_text_def int_value_def
      optional_pyval_def)

lemma sample_issue:
  "issue sha_example (gate_validator sample_gate sample_view) (CMapping (plain_fields sample_candidate)) (ScopeObj scope_example) None
     (Some sample_record) = Inr evidence_example"
  unfolding issue_resolved_iff
proof (intro conjI exI [of _ "PStr ''1''"])
  show "evidence_issue sha_example (raw_candidate scope_example (PStr ''1'') sample_record) = Inr evidence_example"
    unfolding sample_raw by (rule issue_raw_example)
  show "provenance_ok (gate_validator sample_gate sample_view) (raw_candidate scope_example (PStr ''1'') sample_record)"
    unfolding sample_raw
    by (simp add: provenance_ok_def example_defs excerpt_ok_def nonblank_def gate_validator_def default_validator_def MAX_TEXT_CHARS_def)
qed (simp_all add: scope_values_def field_def plain_fields_def sample_candidate_def plain_def scope_example_def scope_matches_def
      resolved_record_def sample_published_def sample_document_def candidate_version_def candidate_value_def nonblank_def)

abbreviation sample_item :: pydict where
  "sample_item \<equiv> normalized_item sample_candidate (Some sample_record) evidence_example"

lemma sample_bundle: "build_from_scope sha_example scope_example (PStr ''q'') [Item evidence_example] = Inr bundle_example"
proof -
  have "(0::int) < v_max_bundle_items default_validator" by (simp add: default_validator_def)
  then show ?thesis using build_example by (auto simp: build_bundle_def issue_example split: sum.splits)
qed

lemma sample_issue_candidates:
  "issue_candidates sha_example fs sample_gate (\<lambda>_. sample_view) ''q'' sample_context [Dct sample_candidate] =
     Inr ([sample_item], Some bundle_example, 1)"
proof -
  have "admit_candidate sha_example sample_gate sample_view ''t'' ''w'' ''c'' (plain_fields sample_candidate) =
      Inr (Some (evidence_example, Some sample_record))"
    by (simp add: admit_candidate_def sample_scope sample_gate_resolve sample_issue) (simp add: sample_gate_def)
  moreover have "field (plain_fields sample_candidate) ''collection_id'' = PStr ''c''"
      "retrieval_quality_of fs (default_get sample_candidate ''retrieval_quality_score'' ''confidence_score'') = Inr (Some 1)"
    by (simp_all add: field_def plain_fields_def sample_candidate_def plain_def default_get_def get_default_def retrieval_quality_of_def)
  ultimately show ?thesis
    by (simp add: issue_candidates_def sample_context_def issue_step_def dict_of_def sample_scope sample_bundle)
qed

lemma sample_bundle_ok: "bundle_ok sha_example scope_example bundle_example"
proof -
  have "scope_arg_ok (ScopeObj scope_example)" by (simp add: scope_ok_def scope_example_def)
  then show ?thesis using build_bundle_ok [OF hexdigest_example _ build_example] by auto
qed

definition sample_policy :: decision_policy where
  "sample_policy = policy_example\<lparr>dp_min_retrieval_quality := 1 / 2, dp_min_citation_support := 1, dp_min_provider_confidence_signal := 0\<rparr>"

lemma sample_policy_made: "make_policy gate_policy = Inr sample_policy"
  by (simp add: make_policy_def gate_policy_def default_policy_def sample_policy_def policy_example_def as_model_def float_overflows_def int_field_def
      bounded_signal_def optional_field_def normalize_risk_levels_def)

lemma sample_round:
  "\<exists>p d. gate_round sha_example fs sample_gate (\<lambda>_. sample_view) ''q'' sample_context sample_class False 0
     (Dct [(''evidence'', Lst [Dct sample_candidate])]) = Inr (p, [sample_item], d) \<and> d_action d = ANSWER"
proof -
  let ?p = "[(''evidence'', Lst [Dct sample_candidate])]"
  have met: "citation_support_metrics ?p = (None, False)" by (simp add: citation_support_metrics_def get_key_def)
  have len: "length (eb_evidence bundle_example) = 1" "eb_collection_id bundle_example = ''c''" by (simp_all add: bundle_example_def)
  have scope: "bundle_scope bundle_example = Inr \<lparr>es_tenant_id = ''t'', es_workspace_id = ''w'', es_collection_id = ''c''\<rparr>"
    using bundle_ok_scope [OF sample_bundle_ok] by (simp add: scope_example_def)
  have sup: "structural_citation_support sha_example (Some bundle_example) = Inr 1"
    using bundle_ok_report [OF sample_bundle_ok, of None] len by (simp add: structural_citation_support_def)
  obtain inp where inp: "gate_decision_input sha_example sample_gate sample_context (Some bundle_example) 1 1 0 (None, False) sample_class False = Inr inp"
      and f: "inp = \<lparr>di_evidence_bundle = Some bundle_example, di_tenant_id = Some ''t'', di_workspace_id = Some ''w'',
      di_collection_id = Some ''c'', di_retrieval_quality = 1, di_evidence_count = 1, di_citation_support = 1,
      di_citation_support_metrics = None, di_provider_confidence_signal = Some 1, di_domain_risk = LOW,
      di_user_intent = \<lparr>ui_intent_code = ''x'', ui_clarity = CLEAR\<rparr>, di_policy = sample_policy,
      di_retrieval_attempt = 0, di_retrieval_available = False, di_integrity_ok = True,
      di_policy_allows_answer = True, di_human_review_required = False, di_cited_evidence_ids = None\<rparr>"
    by (simp add: gate_decision_input_def sup sample_policy_made make_decision_input_def as_model_def float_overflows_def sample_context_def
      int_field_def bounded_signal_def optional_field_def short_text_def normalize_citation_ids_def sample_class_def denial_def sample_gate_def
      validate_scope_and_bundle_count_def request_scope_def optional_pyval_def len scope)
  have made: "\<exists>r. make_decision_input r = Inr inp"
    using inp unfolding gate_decision_input_def by (simp only: returns) auto
  then have "input_ok sha_example inp" using sample_bundle_ok by (auto simp: input_ok_def f)
  moreover have "few_citations inp" by (simp add: few_citations_def f)
  ultimately have d: "decide sha_example (Some inp) = Inr (spec_decision inp)" by (rule decide_spec)
  have "d_action (spec_decision inp) = ANSWER"
    unfolding spec_answer by (rule exI [of _ bundle_example]) (simp add: grounded_def f sample_policy_def policy_example_def citations_ok_def citation_support_ok_def at_least_def)
  then show ?thesis
    using inp d by (simp add: gate_round_def dict_of_def get_default_def sample_issue_candidates met)
qed

lemma sample_retrieve:
  "\<exists>out. retrieve sha_example fs sample_gate (\<lambda>_ _. sample_view) sample_backend ''q'' sample_context None = ([Some ''q''], Inr out) \<and>
     get_key out ''evidence'' = Lst [Dct sample_item]"
proof -
  obtain p d where r: "gate_round sha_example fs sample_gate (\<lambda>_. sample_view) ''q'' sample_context sample_class False 0
     (Dct [(''evidence'', Lst [Dct sample_candidate])]) = Inr (p, [sample_item], d)" "d_action d = ANSWER"
    using sample_round by blast
  have c: "classify_request (eg_classifier sample_gate) (PStr ''q'') None = sample_class" "rc_retry_query sample_class = None"
    by (simp_all add: classify_request_def sample_gate_def sample_class_def)
  show ?thesis
    using r by (simp add: retrieve_def gate_call_def sample_backend_def c gate_result_evidence)
qed

theorem gate_delivers_grounded_witness:
  "\<exists>out items. retrieve sha_example (\<lambda>_. None) sample_gate (\<lambda>_ _. sample_view) sample_backend ''q'' sample_context None = ([Some ''q''], Inr out) \<and>
     get_key out ''evidence'' = Lst (map Dct items) \<and> items \<noteq> [] \<and> length items \<le> 8 \<and> answerable sample_gate sample_class"
proof -
  obtain out where o: "retrieve sha_example (\<lambda>_. None) sample_gate (\<lambda>_ _. sample_view) sample_backend ''q'' sample_context None = ([Some ''q''], Inr out)"
      "get_key out ''evidence'' = Lst [Dct sample_item]"
    using sample_retrieve by blast
  have c: "sample_class = classify_request (eg_classifier sample_gate) (PStr ''q'') None"
    by (simp add: classify_request_def sample_gate_def)
  from gate_delivers_grounded [OF hexdigest_example o(1) c] obtain items where i: "get_key out ''evidence'' = Lst (map Dct items)"
      "items \<noteq> [] \<longrightarrow> answerable sample_gate sample_class \<and> length items \<le> 8" by blast
  then have "items \<noteq> []" using o(2) by auto
  with i o(1) show ?thesis by blast
qed

lemma sample_tidy: "tidy_view sample_view"
  by (auto simp: tidy_view_def sample_view_def sample_published_def sample_document_def sample_text_def split: if_splits)

lemma sample_may_chat: "may_chat sample_context"
  by code_simp

lemma sample_current: "current_context sample_gate sample_context = Some sample_context"
  by (simp add: current_context_def sample_gate_def)

lemma sample_publication:
  "validate_publication sha_example sample_gate (\<lambda>_. sample_view) sample_context [plain_fields sample_item] [PStr (evidence_id evidence_example)]"
proof -
  obtain out where o: "retrieve sha_example (\<lambda>_. None) sample_gate (\<lambda>_ _. sample_view) sample_backend ''q'' sample_context None = ([Some ''q''], Inr out)"
      "get_key out ''evidence'' = Lst [Dct sample_item]"
    using sample_retrieve by blast
  have i: "plain (get_key sample_item ''evidence_id'') = PStr (evidence_id evidence_example)"
    by (simp add: normalized_item_def get_key_def plain_def Let_def)
  show ?thesis
    using delivery_publishes [OF hexdigest_example o(1), of "[sample_item]" "[PStr (evidence_id evidence_example)]"]
      sample_tidy sample_may_chat sample_current o(2) by (simp add: i) (simp add: sample_context_def)
qed

theorem publication_revalidated_witness:
  "may_chat sample_context \<and> backed_item sha_example sample_view sample_context (plain_fields sample_item)"
  using publication_revalidated [OF hexdigest_example sample_publication] by auto

theorem delivered_evidence_publishes_witness:
  "validate_publication sha_example sample_gate (\<lambda>_. sample_view) sample_context [plain_fields sample_item] [PStr (evidence_id evidence_example)]"
proof -
  obtain out where o: "retrieve sha_example (\<lambda>_. None) sample_gate (\<lambda>_ _. sample_view) sample_backend ''q'' sample_context None = ([Some ''q''], Inr out)"
      "get_key out ''evidence'' = Lst [Dct sample_item]"
    using sample_retrieve by blast
  have e: "get_key out ''evidence'' = Lst (map Dct [sample_item])" using o(2) by simp
  have a: "\<forall>v \<in> set (the (gc_allowed_collection_ids sample_context)). \<exists>c. v = PStr c \<and> strip c = c" by (simp add: sample_context_def)
  have i: "plain (get_key sample_item ''evidence_id'') = PStr (evidence_id evidence_example)"
    by (simp add: normalized_item_def get_key_def plain_def Let_def)
  show ?thesis
    using delivered_evidence_publishes [OF hexdigest_example o(1) e _ sample_tidy sample_may_chat sample_current a,
        of "[PStr (evidence_id evidence_example)]"] by (simp add: i)
qed

end
