(* ===== verification/ProfessorGate.thy ===== *)
theory ProfessorGate
  imports ProfessorSamples GateSafety
begin

text \<open>
  The professor on top of the evidence gate, as the chat backend composes them
  (\<open>ProfessorChatBackend\<close> of \<open>apps/api/src/services/professor_backend.py\<close>). The locale \<open>evidence_port\<close> is what
  the professor needs of its retrieval to know that its answers rest on validated sources; the gate provides it.
\<close>

section \<open>The contract of a retrieval with validation\<close>

text \<open>An item whose identifiers the professor takes as they are.\<close>

definition plain_id :: "pyobj \<Rightarrow> bool" where
  "plain_id x = (\<exists>s. x = Val (PStr s) \<and> safe_optional_string 128 x = Some s)"

definition tidy_item :: "pydict \<Rightarrow> bool" where
  "tidy_item d = (plain_id (get_key d ''evidence_id'') \<and> plain_id (get_key d ''document_id'') \<and> plain_id (get_key d ''chunk_id''))"

definition item_for :: "trusted_evidence \<Rightarrow> pydict \<Rightarrow> bool" where
  "item_for t d =
     (get_key d ''evidence_id'' = Val (PStr (te_evidence_id t)) \<and> get_key d ''document_id'' = Val (PStr (te_document_id t)) \<and>
      get_key d ''chunk_id'' = Val (PStr (te_chunk_id t)))"

lemma plain_id_value: "plain_id x \<Longrightarrow> safe_optional_string 128 x = Some s \<Longrightarrow> x = Val (PStr s)"
  by (auto simp: plain_id_def)

lemma tidy_item_for:
  assumes "tidy_item d" and "made_of d t"
  shows "item_for t d"
proof -
  obtain i where i: "get_key d ''evidence_id'' = Val (PStr i)" "safe_optional_string 128 (get_key d ''evidence_id'') = Some i"
    using assms(1) by (auto simp: tidy_item_def plain_id_def)
  then have "te_evidence_id t = i" using assms(2) by (simp add: made_of_def evidence_name_def)
  then show ?thesis using assms i plain_id_value by (simp add: item_for_def tidy_item_def made_of_def)
qed

lemma snapshot_member:
  assumes "snapshot_of ids xs = Some items" and "Dct d \<in> set xs" and "get_key d ''evidence_id'' = Val (PStr i)" and "i \<in> set ids"
  shows "d \<in> set items"
  using assms
proof (induction xs arbitrary: items)
  case (Cons x xs)
  show ?case
  proof (cases "as_mapping x")
    case None
    then show ?thesis using Cons by (auto simp: as_mapping_def)
  next
    case (Some d')
    then obtain b ds where b: "in_texts (get_key d' ''evidence_id'') ids = Some b" "snapshot_of ids xs = Some ds"
      "items = (if b then d' # ds else ds)" using Cons.prems(1) by (auto split: option.splits)
    have "x = Dct d'" using Some by (simp add: as_mapping_Some)
    then show ?thesis using Cons.IH [OF b(2)] Cons.prems(2-4) b by (auto simp: in_texts_def)
  qed
qed simp

lemma evidence_ids_eq:
  assumes "pr_evidence r = map response_dict ev"
  shows "set (evidence_ids r) = te_evidence_id ` set ev"
  by (simp add: evidence_ids_def assms response_dict_def field_def image_image)

text \<open>A response that a run or a stream delivers.\<close>

definition delivers :: "professor_env \<Rightarrow> professor_request \<Rightarrow> professor_response \<Rightarrow> bool" where
  "delivers e rq r = (fst (professor_run e rq) = Inr r \<or> Final r \<in> set (fst (professor_stream e rq)))"

locale evidence_port =
  fixes port_retrieve :: "string \<Rightarrow> retrieval_context \<Rightarrow> string list \<Rightarrow> pyobj option"
    and port_validate :: "retrieval_context \<Rightarrow> pydict list \<Rightarrow> pyval list \<Rightarrow> pyobj option"
    and clean :: "pydict \<Rightarrow> bool" and backed :: "retrieval_context \<Rightarrow> pydict \<Rightarrow> bool"
  assumes retrieved_clean: "port_retrieve q ctx h = Some result \<Longrightarrow> Dct d \<in> set (retrieved_items result) \<Longrightarrow> clean d"
    and validated_backed: "port_validate ctx items cited = Some (Val (PBool True)) \<Longrightarrow> d \<in> set items \<Longrightarrow> backed ctx d"
begin

lemma rests_backed:
  assumes "pe_retrieve e = port_retrieve" and "pe_validator e = Some port_validate"
    and "rests_on e rq result ev messages c r" and "was_validated e rq result r" and "\<And>d. clean d \<Longrightarrow> tidy_item d" and "t \<in> set ev"
  shows "\<exists>d. Dct d \<in> set (retrieved_items result) \<and> item_for t d \<and> backed (rq_context rq) d"
proof -
  obtain d where d: "Dct d \<in> set (retrieved_items result)" "made_of d t"
    using assms(3,6) by (auto simp: rests_on_def all_trusted_def)
  have "clean d" using assms(1,3) d(1) retrieved_clean by (auto simp: rests_on_def)
  then have f: "item_for t d" using tidy_item_for assms(5) d(2) by blast
  obtain items cited where v: "port_validate (rq_context rq) items cited = Some (Val (PBool True))"
    "snapshot_of (evidence_ids r) (retrieved_items result) = Some items"
    using assms(2,4) by (auto simp: was_validated_def)
  have "te_evidence_id t \<in> set (evidence_ids r)"
    using evidence_ids_eq assms(3,6) by (auto simp: rests_on_def approves_def)
  then have "d \<in> set items" using snapshot_member [OF v(2) d(1)] f by (simp add: item_for_def)
  then show ?thesis using d(1) f validated_backed [OF v(1)] by blast
qed

lemma approved_backed:
  assumes "pe_retrieve e = port_retrieve" and "pe_validator e = Some port_validate" and "limits_ok (pe_limits e)"
    and "delivers e rq r" and "pr_evidence_status r = APPROVED_EVIDENCE" and "\<And>d. clean d \<Longrightarrow> tidy_item d"
  shows "\<exists>ev. ev \<noteq> [] \<and> pr_evidence r = map response_dict ev \<and> set (pr_citations r) \<subseteq> citation_of ` set ev \<and>
    (\<forall>t \<in> set ev. \<exists>d. item_for t d \<and> backed (rq_context rq) d)"
proof -
  obtain result ev messages c where w: "rests_on e rq result ev messages c r" "was_validated e rq result r"
  proof (cases "fst (professor_run e rq) = Inr r")
    case True
    then obtain calls where "professor_run e rq = (Inr r, calls)" by (metis prod.collapse)
    then obtain b where "deliver e rq new_budget = (Inr r, b)" using professor_run_deliver [OF _ assms(5)] by blast
    from deliver_approved [OF this assms(5,3)] show ?thesis using that assms(2) by auto
  next
    case False
    then obtain es x where "professor_stream e rq = (es, x)" "Final r \<in> set es"
      using assms(4) by (metis delivers_def prod.collapse)
    from stream_approved [OF assms(3) this assms(5)] show ?thesis using that assms(2) by auto
  qed
  have "\<forall>t \<in> set ev. \<exists>d. item_for t d \<and> backed (rq_context rq) d"
    using rests_backed [OF assms(1,2) w assms(6)] by blast
  moreover have "pr_evidence r = map response_dict ev" "set (pr_citations r) \<subseteq> citation_of ` set ev" "ev \<noteq> []"
    using w(1) by (auto simp: rests_on_def approves_def)
  ultimately show ?thesis by blast
qed

end

section \<open>The gate as that port\<close>

definition gate_context_of :: "retrieval_context \<Rightarrow> gate_context" where
  "gate_context_of ctx = \<lparr>gc_tenant_id = PStr (rc_tenant_id ctx), gc_workspace_id = PStr (rc_workspace_id ctx),
     gc_user_id = optional_pyval (rc_user_id ctx), gc_allowed_collection_ids = Some (map PStr (rc_allowed_collection_ids ctx)),
     gc_permissions = Some (map PStr (rc_permissions ctx))\<rparr>"

definition gate_retrieve ::
  "(payload \<Rightarrow> string) \<Rightarrow> (string \<Rightarrow> pyfloat option) \<Rightarrow> evidence_gate \<Rightarrow> (nat \<Rightarrow> nat \<Rightarrow> kview) \<Rightarrow> retrieval \<Rightarrow>
     string \<Rightarrow> retrieval_context \<Rightarrow> string list \<Rightarrow> pyobj option" where
  "gate_retrieve sha fs g views backend query ctx history =
     (case snd (retrieve sha fs g views backend query (gate_context_of ctx) (Some (map PStr history))) of
        Inl e \<Rightarrow> None | Inr out \<Rightarrow> Some (Dct out))"

definition gate_validate ::
  "(payload \<Rightarrow> string) \<Rightarrow> evidence_gate \<Rightarrow> (nat \<Rightarrow> kview) \<Rightarrow> retrieval_context \<Rightarrow> pydict list \<Rightarrow> pyval list \<Rightarrow> pyobj option" where
  "gate_validate sha g views ctx items cited =
     Some (Val (PBool (validate_publication sha g views (gate_context_of ctx) (map plain_fields items) cited)))"

lemma token_plain: "token_ok s \<Longrightarrow> plain_id (Val (PStr s))"
  using strip_id [of s] by (auto simp: plain_id_def safe_optional_string_def token_ok_def)

lemma hex_nonspace: "hex_digit c \<Longrightarrow> \<not> isspace_c c"
  by (auto simp: hex_digit_def char_defs Let_def)

lemma server_id_plain:
  assumes "hexdigest sha"
  shows "plain_id (Val (PStr (server_evidence_id sha d)))"
proof -
  let ?s = "server_evidence_id sha d"
  have len: "length ?s = 35" using server_evidence_id_ok [OF assms, of d] by simp
  have "\<forall>c \<in> set ?s. \<not> isspace_c c"
    using take_hex [OF assms, of "evidence_payload d"] hex_nonspace
    by (auto simp: server_evidence_id_def list_all_iff char_defs)
  then have "stripped ?s" using len by (auto simp: stripped_def)
  then show ?thesis using strip_id len by (auto simp: plain_id_def safe_optional_string_def)
qed

lemma issued_tidy:
  assumes "hexdigest sha" and "issued sha e"
  shows "tidy_item (normalized_item cand a e)"
proof -
  have "plain_id (Val (PStr (evidence_id e)))"
    using server_id_plain [OF assms(1)] assms(2) by (simp add: issued_def)
  then show ?thesis using assms(2) token_plain by (simp add: tidy_item_def normalized_item_def get_key_def issued_def Let_def)
qed

lemma retrieve_tidy:
  assumes "hexdigest sha" and "gate_retrieve sha fs g views backend q ctx h = Some result" and "Dct d \<in> set (retrieved_items result)"
  shows "tidy_item d"
proof -
  obtain sent out where r: "retrieve sha fs g views backend q (gate_context_of ctx) (Some (map PStr h)) = (sent, Inr out)" "result = Dct out"
    using assms(2) by (cases "retrieve sha fs g views backend q (gate_context_of ctx) (Some (map PStr h))")
      (auto simp: gate_retrieve_def split: sum.splits)
  obtain items where items: "get_key out ''evidence'' = Lst (map Dct items)"
    "items \<noteq> [] \<longrightarrow> (\<exists>n < 2. delivery_ok sha g (views n) (gate_context_of ctx) (classify_request (eg_classifier g) (PStr q) (Some (map PStr h))) items)"
    using retrieve_delivery [OF assms(1) r(1) refl] by blast
  have "retrieved_items result = map Dct items"
    using items(1) by (auto simp: r(2) retrieved_items_def as_mapping_def get_default_def get_key_def split: option.splits)
  then have d: "d \<in> set items" using assms(3) by auto
  then obtain n b scope where i: "issued_ok sha g (views n) (gate_context_of ctx) items b scope" and a: "eg_authority g"
    using items(2) by (auto simp: delivery_ok_def answerable_def)
  have "admitted_in sha g (views n) scope d" "scope_ok scope"
    using i d make_evidence_scope_Inr by (auto simp: issued_ok_def list_all_iff)
  from admitted_resolved [OF assms(1) this(2) a this(1)] show ?thesis using issued_tidy [OF assms(1)] by auto
qed

lemma validated_items:
  assumes "hexdigest sha" and "validate_publication sha g views ctx evidence cited" and "x \<in> set evidence"
  shows "(\<exists>n. backed_item sha (views n) ctx x) \<and> may_chat ctx"
proof -
  obtain allowed refreshed where r: "revalidate sha g views ctx allowed refreshed 0 evidence" and m: "may_chat ctx"
    using assms(2) by (auto simp: validate_publication_def split: if_splits option.splits)
  obtain j where "j < length evidence" "x = evidence ! j" using assms(3) by (auto simp: in_set_conv_nth)
  then have "item_revalidates sha g (views j) ctx allowed refreshed x" using r by (simp add: revalidate_all)
  then show ?thesis using item_revalidates_backed [OF assms(1)] m by blast
qed

text \<open>With a digest that is not a digest the gate promises nothing, so that the laws hold for every one.\<close>

interpretation gate_port: evidence_port "gate_retrieve sha fs g views backend" "gate_validate sha g later"
    "\<lambda>d. hexdigest sha \<longrightarrow> tidy_item d"
    "\<lambda>ctx d. hexdigest sha \<longrightarrow> (\<exists>n. backed_item sha (later n) (gate_context_of ctx) (plain_fields d)) \<and> may_chat (gate_context_of ctx)"
  for sha fs g views backend later
proof
  fix q ctx h result d
  assume "gate_retrieve sha fs g views backend q ctx h = Some result" "Dct d \<in> set (retrieved_items result)"
  then show "hexdigest sha \<longrightarrow> tidy_item d" using retrieve_tidy by blast
next
  fix ctx items cited d
  assume v: "gate_validate sha g later ctx items cited = Some (Val (PBool True))" and d: "d \<in> set items"
  then have "validate_publication sha g later (gate_context_of ctx) (map plain_fields items) cited" by (simp add: gate_validate_def)
  then show "hexdigest sha \<longrightarrow> (\<exists>n. backed_item sha (later n) (gate_context_of ctx) (plain_fields d)) \<and> may_chat (gate_context_of ctx)"
    using validated_items [of sha g later "gate_context_of ctx" "map plain_fields items" cited "plain_fields d"] d by simp
qed

section \<open>The composition\<close>

text \<open>\<open>OwnedLeaseAdapter\<close> and \<open>ProviderChatAdapter\<close>; \<open>None\<close> is an exception of the lease client or the provider.\<close>

definition owned_lease :: "(string \<Rightarrow> nat \<Rightarrow> bool option) \<Rightarrow> lease_port" where
  "owned_lease acquire = \<lparr>lp_low_level = True, lp_renewable = True,
     lp_acquire = (\<lambda>k ttl. map_option (\<lambda>b. Dct [(''acquired'', Val (PBool b))]) (acquire k ttl))\<rparr>"

record chat_provider =
  cp_chat_completion :: "provider_message list \<Rightarrow> string \<Rightarrow> completion_result option"
  cp_chat_completion_stream :: "(provider_message list \<Rightarrow> string \<Rightarrow> (chat_chunk list \<times> bool) option) option"

definition chat_correlation :: "string \<Rightarrow> string" where
  "chat_correlation conversation = take 128 (''chat-'' @ conversation)"

definition adapter_complete :: "chat_provider \<Rightarrow> provider_message list \<Rightarrow> string \<Rightarrow> completion_result option" where
  "adapter_complete p messages conversation = cp_chat_completion p messages (chat_correlation conversation)"

text \<open>An asynchronous generator: an exception shows when it is iterated.\<close>

definition adapter_stream :: "chat_provider \<Rightarrow> provider_message list \<Rightarrow> string \<Rightarrow> (chat_chunk list \<times> bool) option" where
  "adapter_stream p messages conversation =
     Some (case cp_chat_completion_stream p of
         Some f \<Rightarrow> (case f messages (chat_correlation conversation) of None \<Rightarrow> ([], True) | Some out \<Rightarrow> out)
       | None \<Rightarrow>
           (case adapter_complete p messages conversation of
              None \<Rightarrow> ([], True)
            | Some c \<Rightarrow> ([\<lparr>ck_model = cc_model c, ck_delta = cc_content c, ck_tool_indexes = [0..<cc_tool_calls c],
                ck_finish_reason = Some (cc_finish_reason c), ck_correlation_id = cc_correlation_id c,
                ck_usage_total = cc_usage_total c\<rparr>], False)))"

text \<open>
  \<open>ProfessorChatBackend\<close>: the gate is the retrieval, and validation is required. \<open>views\<close> is what the store returns to the gate during
  retrieval, \<open>later\<close> what it returns during the validation of the answer.
\<close>

definition backend_env ::
  "(payload \<Rightarrow> string) \<Rightarrow> (string \<Rightarrow> pyfloat option) \<Rightarrow> evidence_gate \<Rightarrow> (nat \<Rightarrow> nat \<Rightarrow> kview) \<Rightarrow> retrieval \<Rightarrow> (nat \<Rightarrow> kview) \<Rightarrow>
     professor_limits \<Rightarrow> (string \<Rightarrow> nat \<Rightarrow> bool option) option \<Rightarrow> chat_provider \<Rightarrow> (stop \<times> nat) option \<Rightarrow>
     (outer_stop \<times> nat) option \<Rightarrow> professor_env" where
  "backend_env sha fs g views backend later limits lease provider stop outer =
     \<lparr>pe_limits = limits, pe_require_revalidation = True, pe_float_str = fs, pe_lease = map_option owned_lease lease,
      pe_retrieve = gate_retrieve sha fs g views backend, pe_complete = adapter_complete provider,
      pe_stream = Some (adapter_stream provider), pe_validator = Some (gate_validate sha g later),
      pe_live_grants = (eg_revalidator g \<noteq> None), pe_stop = stop, pe_outer = outer\<rparr>"

text \<open>The source of a piece of evidence, as a view of the store returns it: published, in an active collection.\<close>

definition published_source :: "kview \<Rightarrow> retrieval_context \<Rightarrow> trusted_evidence \<Rightarrow> bool" where
  "published_source k ctx t =
     (\<exists>scope d co ch. es_tenant_id scope = strip (rc_tenant_id ctx) \<and> es_workspace_id scope = strip (rc_workspace_id ctx) \<and>
        kv_document k (te_document_id t) (es_tenant_id scope) (es_workspace_id scope) = Some (Some d) \<and> doc_status d = ''published'' \<and>
        document_in_scope d (te_document_id t) scope \<and>
        kv_collection k (es_workspace_id scope) (es_collection_id scope) (es_tenant_id scope) = Some (Some co) \<and>
        collection_admits co scope \<and> read_chunk k (te_document_id t) (te_chunk_id t) scope = Some ch)"

lemma backed_published:
  assumes "backed_item sha k (gate_context_of ctx) (plain_fields d)" and "item_for t d"
  shows "published_source k ctx t"
proof -
  obtain scope doc ch where s: "make_evidence_scope (PStr (rc_tenant_id ctx)) (PStr (rc_workspace_id ctx)) (field (plain_fields d) ''collection_id'') = Inr scope"
    and r: "resolved_from k scope (plain_fields d) doc ch"
    using assms(1) by (auto simp: backed_item_def gate_context_of_def)
  have scoped: "es_tenant_id scope = strip (rc_tenant_id ctx)" "es_workspace_id scope = strip (rc_workspace_id ctx)"
    using s by (auto simp: make_evidence_scope_def token_Inr split: sum.splits)
  have ids: "doc_document_id doc = te_document_id t" "ch_chunk_id ch = te_chunk_id t"
    using r assms(2) by (auto simp: resolved_from_def plain_field item_for_def plain_def)
  obtain co where "kv_collection k (es_workspace_id scope) (es_collection_id scope) (es_tenant_id scope) = Some (Some co)"
    "collection_admits co scope" using r by (auto simp: resolved_from_def)
  then show ?thesis unfolding published_source_def using r scoped ids
    by (intro exI [of _ scope] exI [of _ doc] exI [of _ co] exI [of _ ch]) (simp add: resolved_from_def)
qed

lemma backend_published:
  assumes "hexdigest sha" and "limits_ok limits"
    and "delivers (backend_env sha fs g views backend later limits lease provider stop outer) rq r"
    and "pr_evidence_status r = APPROVED_EVIDENCE"
  shows "may_chat (gate_context_of (rq_context rq)) \<and>
    (\<exists>ev. ev \<noteq> [] \<and> pr_evidence r = map response_dict ev \<and> set (pr_citations r) \<subseteq> citation_of ` set ev \<and>
      (\<forall>t \<in> set ev. \<exists>n. published_source (later n) (rq_context rq) t))"
proof -
  let ?e = "backend_env sha fs g views backend later limits lease provider stop outer"
  have env: "pe_retrieve ?e = gate_retrieve sha fs g views backend" "pe_validator ?e = Some (gate_validate sha g later)"
    "limits_ok (pe_limits ?e)"
    using assms(2) by (simp_all add: backend_env_def)
  have "\<exists>ev. ev \<noteq> [] \<and> pr_evidence r = map response_dict ev \<and> set (pr_citations r) \<subseteq> citation_of ` set ev \<and>
    (\<forall>t \<in> set ev. \<exists>d. item_for t d \<and> (hexdigest sha \<longrightarrow>
      (\<exists>n. backed_item sha (later n) (gate_context_of (rq_context rq)) (plain_fields d)) \<and> may_chat (gate_context_of (rq_context rq))))"
    by (rule gate_port.approved_backed [OF env assms(3,4)]) (use assms(1) in simp)
  then obtain ev where ev: "ev \<noteq> []" "pr_evidence r = map response_dict ev" "set (pr_citations r) \<subseteq> citation_of ` set ev"
    and b: "\<forall>t \<in> set ev. \<exists>d. item_for t d \<and> (hexdigest sha \<longrightarrow>
       (\<exists>n. backed_item sha (later n) (gate_context_of (rq_context rq)) (plain_fields d)) \<and> may_chat (gate_context_of (rq_context rq)))"
    by (elim exE conjE) simp
  have p: "may_chat (gate_context_of (rq_context rq)) \<and> (\<exists>n. published_source (later n) (rq_context rq) t)" if t: "t \<in> set ev" for t
  proof -
    obtain d n where "item_for t d" "backed_item sha (later n) (gate_context_of (rq_context rq)) (plain_fields d)"
      "may_chat (gate_context_of (rq_context rq))" using bspec [OF b t] assms(1) by (elim exE conjE) auto
    then show ?thesis using backed_published by blast
  qed
  then have "may_chat (gate_context_of (rq_context rq))" using ev(1) last_in_set by blast
  then show ?thesis using ev p by (intro conjI exI [of _ ev]) auto
qed

text \<open>C1. A delivered answer rests on what is published at that moment. When the chat backend's professor, as a run or as a stream, delivers an
  approved answer, the request carries the permission to chat, there is evidence, every citation is of a piece of it, and the
  document of every piece is at the validation of the answer a published document of the caller's tenant and workspace, in an
  active collection, and still has the cited chunk, however the store changed since the retrieval.\<close>

theorem answers_rest_on_published:
  assumes "hexdigest sha" and "make_limits raw = Inr limits"
    and "delivers (backend_env sha fs g views backend later limits lease provider stop outer) rq r"
    and "pr_evidence_status r = APPROVED_EVIDENCE"
  shows "may_chat (gate_context_of (rq_context rq)) \<and>
    (\<exists>ev. ev \<noteq> [] \<and> pr_evidence r = map response_dict ev \<and> set (pr_citations r) \<subseteq> citation_of ` set ev \<and>
      (\<forall>t \<in> set ev. \<exists>n. published_source (later n) (rq_context rq) t))"
  by (rule backend_published [OF assms(1) make_limits_ok [OF assms(2)] assms(3,4)])


section \<open>A request through the whole backend\<close>

abbreviation sample_evidence_id :: string where
  "sample_evidence_id \<equiv> evidence_id evidence_example"

definition served_request :: professor_request where
  "served_request = sample_request\<lparr>rq_context := \<lparr>rc_user_id = Some ''u'', rc_tenant_id = ''t'',
     rc_workspace_id = ''w'', rc_allowed_collection_ids = [''c''], rc_permissions = [''chat.query'']\<rparr>\<rparr>"

definition served_completion :: completion_result where
  "served_completion = sample_completion\<lparr>cc_content := ''A[cite:ev_00000000000000000000000000000000]''\<rparr>"

definition sample_provider :: chat_provider where
  "sample_provider = \<lparr>cp_chat_completion = (\<lambda>_ _. Some served_completion), cp_chat_completion_stream = None\<rparr>"

abbreviation sample_backend_env :: "(nat \<Rightarrow> kview) \<Rightarrow> professor_env" where
  "sample_backend_env later \<equiv> backend_env sha_example (\<lambda>_. None) sample_gate (\<lambda>_ _. sample_view) sample_backend later sample_limits
     (Some (\<lambda>_ _. Some True)) sample_provider None None"

definition served_trusted :: trusted_evidence where
  "served_trusted = \<lparr>te_evidence_id = sample_evidence_id, te_document_id = ''d'', te_chunk_id = ''k'', te_tenant_id = ''t'',
     te_workspace_id = ''w'', te_collection_id = ''c'', te_text = ''dog fever'', te_title = ''f'', te_source = ''f'', te_page_start = Some 3,
     te_page_end = None, te_checksum = ''x'', te_document_version = Some ''1'', te_confidence = 1, te_score = 1, te_rank = 0,
     te_dense_score = 0, te_sparse_score = 0\<rparr>"

lemma sample_evidence_id_eq: "sample_evidence_id = ''ev_00000000000000000000000000000000''"
  by (simp add: evidence_example_def evidence_data.defs server_evidence_id_def sha_example_def numeral_eq_Suc)

lemma served_context: "gate_context_of (rq_context served_request) = sample_context"
  by (simp add: gate_context_of_def served_request_def sample_context_def optional_pyval_def)

lemma served_fields: "rq_query served_request = ''q''" "rq_conversation_id served_request = ''v''" "rq_history served_request = []"
  "rq_context_version served_request = RETRIEVAL_CONTEXT_VERSION"
  by (simp_all add: served_request_def sample_request_def)

lemma served_retrieved:
  obtains out where "gate_retrieve sha_example (\<lambda>_. None) sample_gate (\<lambda>_ _. sample_view) sample_backend ''q'' (rq_context served_request) [] =
    Some (Dct out)" "get_key out ''evidence'' = Lst [Dct sample_item]"
proof -
  obtain p d where r: "gate_round sha_example (\<lambda>_. None) sample_gate (\<lambda>_. sample_view) ''q'' sample_context sample_class False 0
     (Dct [(''evidence'', Lst [Dct sample_candidate])]) = Inr (p, [sample_item], d)" "d_action d = ANSWER"
    using sample_round by blast
  have c: "classify_request (eg_classifier sample_gate) (PStr ''q'') (Some []) = sample_class" "rc_retry_query sample_class = None"
    by (simp_all add: classify_request_def sample_gate_def sample_class_def)
  have "\<exists>out. retrieve sha_example (\<lambda>_. None) sample_gate (\<lambda>_ _. sample_view) sample_backend ''q'' sample_context (Some []) = ([Some ''q''], Inr out) \<and>
     get_key out ''evidence'' = Lst [Dct sample_item]"
    using r by (simp add: retrieve_def gate_call_def sample_backend_def c gate_result_evidence)
  then show ?thesis using that by (auto simp: gate_retrieve_def served_context)
qed

lemma sample_item_keys:
  "get_key sample_item ''evidence_id'' = Val (PStr sample_evidence_id)" "get_key sample_item ''document_id'' = Val (PStr ''d'')"
  "get_key sample_item ''chunk_id'' = Val (PStr ''k'')" "get_key sample_item ''tenant_id'' = Val (PStr ''t'')"
  "get_key sample_item ''workspace_id'' = Val (PStr ''w'')" "get_key sample_item ''collection_id'' = Val (PStr ''c'')"
  "get_key sample_item ''text'' = Val (PStr ''dog fever'')" "get_key sample_item ''title'' = Val (PStr ''f'')"
  "get_key sample_item ''source'' = Val (PStr ''f'')" "get_key sample_item ''page_start'' = Val (PInt 3)"
  "get_key sample_item ''page_end'' = Val PNone" "get_key sample_item ''checksum'' = Val (PStr ''x'')"
  "get_key sample_item ''document_version'' = Val (PStr ''1'')" "get_key sample_item ''confidence_score'' = Val (PFloat (Fin 1))"
  "get_key sample_item ''score'' = Val (PInt 1)" "get_key sample_item ''rank'' = Val (PInt 0)"
  "get_key sample_item ''dense_score'' = Val (PFloat (Fin 0))" "get_key sample_item ''sparse_score'' = Val (PFloat (Fin 0))"
  by (simp_all add: normalized_item_def get_key_def Let_def evidence_example_def data_example_def evidence_data.defs int_value_def
      default_get_def get_default_def sample_candidate_def field_default_def resolved_record_def sample_published_def sample_document_def or_text_def)


lemma served_ids: "re_fullmatch SAFE_ID ''ev_00000000000000000000000000000000''" "re_fullmatch SAFE_ID ''d''" "re_fullmatch SAFE_ID ''k''"
  "re_fullmatch SAFE_ID ''t''" "re_fullmatch SAFE_ID ''w''" "re_fullmatch SAFE_ID ''c''"
  by code_simp+

lemma served_texts: "strip ''ev_00000000000000000000000000000000'' = ''ev_00000000000000000000000000000000''"
  "strip ''d'' = ''d''" "strip ''k'' = ''k''" "strip ''f'' = ''f''" "strip ''x'' = ''x''" "strip ''1'' = ''1''" "strip ''dog fever'' = ''dog fever''"
  by code_simp+

lemma served_trusted_of:
  "trusted_of fs (rq_context served_request) sample_limits [Dct sample_item] = Inr [served_trusted]"
  by (simp add: trusted_of_def served_request_def as_mapping_def scoped_item_def safe_optional_string_def sample_item_keys
      sample_evidence_id_eq served_ids served_texts sample_limits_def text_or_empty_def safe_page_def scored_item_def fallback_confidence_def
      bounded_float_def to_float_def float_or_zero_def served_trusted_def float_overflows_def)

lemma served_markers: "find_all CITATION_MARKER (cc_content served_completion) = [sample_evidence_id]"
  "find_all ANY_CITATION_MARKER (cc_content served_completion) = [sample_evidence_id]"
  "sub_all CITATION_MARKER [] (cc_content served_completion) = ''A''" "strip (cc_content served_completion) = cc_content served_completion"
  unfolding sample_evidence_id_eq by code_simp+

lemma served_citations:
  "citations sample_limits (cc_content served_completion) [served_trusted] = (''A'', [citation_of served_trusted], False)"
  by (simp add: citations_def served_markers sample_markers Let_def by_id_def served_trusted_def sample_limits_def)

lemma metadata_few: "length (retrieval_decision_metadata x) \<le> 24"
proof -
  have "length (concat (map (scalar_entry d) ks)) \<le> length ks" for d ks
    by (induction ks) (auto simp: scalar_entry_def split: option.splits pyobj.splits)
  moreover have "length DECISION_KEYS = 24" by (simp add: DECISION_KEYS_def)
  ultimately have "length (concat (map (scalar_entry d) DECISION_KEYS)) \<le> 24" for d by metis
  then show ?thesis by (simp add: retrieval_decision_metadata_def split: option.splits pyobj.splits)
qed


lemma length_update: "length (AList.update k v d) \<le> Suc (length d)"
  by (induction d) auto

lemma length_set_fields: "length (set_fields d e) \<le> length d + length e"
proof (induction e arbitrary: d)
  case (Cons p e)
  obtain k v where p: "p = (k, v)" by force
  show ?case using Cons [of "AList.update k v d"] length_update [of k v d] by (simp add: set_fields_def p)
qed (simp add: set_fields_def)

lemma served_response:
  assumes "prompt_tokens messages \<le> 62" and "length md \<le> 24"
  obtains r where "completion_response sample_limits served_request served_completion messages [served_trusted] md False = Inr r"
    "approved r" "pr_citations r = [citation_of served_trusted]" "pr_evidence r = [response_dict served_trusted]"
proof -
  have "completion_within_token_budget served_completion messages 90"
    using assms by (simp add: completion_within_token_budget_def estimated_tokens_def served_completion_def sample_completion_def)
  moreover have "evidence_dto_ok served_trusted"
    by (simp add: evidence_dto_ok_def text_between_def served_trusted_def sample_evidence_id_eq)
  moreover have "length (set_fields md es) \<le> 32" if "length es = 3" for es using length_set_fields [of md es] assms(2) that by simp
  moreover have "cc_finish_reason served_completion = Stop" "cc_tool_calls served_completion = 0"
    by (simp_all add: served_completion_def sample_completion_def)
  ultimately show ?thesis
    using that by (simp add: completion_response_def sample_fields served_markers sample_markers served_citations make_response_def
      text_between_def served_fields)
qed

lemma served_validated:
  assumes "pr_citations r = [citation_of served_trusted]" "pr_evidence r = [response_dict served_trusted]"
    and "retrieved_items result = [Dct sample_item]" "pe_validator e = Some f"
  shows "publication_call e r (Some result) = Some (f, [sample_item], [PStr sample_evidence_id])"
proof -
  have "evidence_ids r = [sample_evidence_id]" by (simp add: evidence_ids_def assms(2) response_dict_def field_def served_trusted_def)
  then show ?thesis
    by (simp add: publication_call_def assms Let_def as_mapping_def in_texts_def sample_item_keys hashable_def plain_def citation_of_def served_trusted_def)
qed

text \<open>The request, with a validation that reads \<open>later\<close>.\<close>

lemma served_run:
  assumes "validate_publication sha_example sample_gate later sample_context [plain_fields sample_item] [PStr sample_evidence_id]"
  obtains r where "delivers (sample_backend_env later) served_request r" "approved r" "pr_evidence r = [response_dict served_trusted]"
proof -
  let ?e = "sample_backend_env later"
  obtain out where o: "gate_retrieve sha_example (\<lambda>_. None) sample_gate (\<lambda>_ _. sample_view) sample_backend ''q'' (rq_context served_request) [] =
    Some (Dct out)" "get_key out ''evidence'' = Lst [Dct sample_item]" by (rule served_retrieved)
  have items: "retrieved_items (Dct out) = [Dct sample_item]"
    using o(2) by (simp add: retrieved_items_def as_mapping_def get_default_def get_key_def split: option.splits)
  obtain messages where m: "build_messages sample_limits served_request [served_trusted] = Inr messages" "prompt_tokens messages \<le> 62"
    using sample_messages [of served_request] served_fields by auto
  let ?md = "retrieval_decision_metadata (Dct out)"
  obtain r where r: "completion_response sample_limits served_request served_completion messages [served_trusted] ?md False = Inr r"
    "approved r" "pr_citations r = [citation_of served_trusted]" "pr_evidence r = [response_dict served_trusted]"
    using served_response [OF m(2) metadata_few] by blast
  have conf: "te_confidence served_trusted = 1" "approved_confidence sample_limits = 1 / 2"
    by (simp_all add: served_trusted_def sample_limits_def)
  have l: "limits_ok sample_limits" by (rule make_limits_ok [OF sample_limits_made])
  have "lease_given ?e served_request"
    by (simp add: lease_given_def backend_env_def owned_lease_def lease_granted_def lease_bool_def get_key_def)
  moreover have "prepared ?e served_request (Dct out) = Inr ([served_trusted], ?md, messages)"
    using m(1) conf by (simp add: prepared_def backend_env_def items served_trusted_of Let_def)
  moreover have "completion_ok served_completion" "cc_tool_calls served_completion = 0"
    by (simp_all add: completion_ok_def served_markers) (simp_all add: served_completion_def sample_completion_def)
  moreover have "publication_call ?e r (Some (Dct out)) = Some (gate_validate sha_example sample_gate later, [sample_item], [PStr sample_evidence_id])"
    using served_validated [OF r(3,4) items] by (simp add: backend_env_def)
  moreover have "gate_validate sha_example sample_gate later (rq_context served_request) [sample_item] [PStr sample_evidence_id] =
      Some (Val (PBool True))" using assms by (simp add: gate_validate_def served_context)
  ultimately obtain md' calls where "professor_run ?e served_request = (Inr (r\<lparr>pr_metadata := md'\<rparr>), calls)"
    using undisturbed_run [of ?e served_request "Dct out" "[served_trusted]" ?md messages served_completion r] l o(1) r
    by (auto simp: backend_env_def served_fields adapter_complete_def sample_provider_def)
  then show ?thesis using that [of "r\<lparr>pr_metadata := md'\<rparr>"] r by (simp add: delivers_def)
qed

theorem answers_rest_on_published_witness:
  "\<exists>r. delivers (sample_backend_env (\<lambda>_. sample_view)) served_request r \<and> may_chat sample_context \<and> pr_evidence r \<noteq> []"
proof -
  obtain r where r: "delivers (sample_backend_env (\<lambda>_. sample_view)) served_request r" "approved r"
    using served_run [OF sample_publication] by blast
  from answers_rest_on_published [OF hexdigest_example sample_limits_made r] show ?thesis using r(1) by (auto simp: served_context)
qed

end
