(* ===== verification/Identity.thy ===== *)
theory Identity
  imports Knowledge Regex
begin

text \<open>
  Identities and the payload of indexed points (\<open>packages/knowledge/src/rick_knowledge\<close>:
  \<open>identity.py\<close> and \<open>payload.py\<close>): names of tenants and collections, identifiers of documents, points and chunks,
  and the payload with its drift check. SHA-256 and the version 5 UUID under the contract's namespace are the arguments \<open>sha\<close>
  and \<open>uuid5\<close>.
\<close>

section \<open>Names\<close>

definition name_c :: "char \<Rightarrow> bool" where
  "name_c c = (alnum_ascii c \<or> c = CHR ''_'' \<or> c = CHR ''-'')"

definition COLLECTION_NAME :: regex where "COLLECTION_NAME = anchored (Rep (Cls name_c) 1 (Some 64))"
definition TENANT_NAME :: regex where "TENANT_NAME = anchored (Rep (Cls name_c) 1 (Some 128))"
definition CANONICAL_COLLECTION_NAME :: string where "CANONICAL_COLLECTION_NAME = ''rag_phase0''"

definition dash_rule :: string where
  "dash_rule = [CHR 0x27, CHR ''_'', CHR 0x27] @ '' or '' @ [CHR 0x27, CHR ''-'', CHR 0x27]"

text \<open>The collection may be \<open>None\<close>; \<open>str(collection_id or CANONICAL_COLLECTION_NAME)\<close>.\<close>

definition normalize_collection_name :: "string option \<Rightarrow> store_error + string" where
  "normalize_collection_name c =
     (let candidate = strip (case c of None \<Rightarrow> CANONICAL_COLLECTION_NAME | Some x \<Rightarrow> or_text x CANONICAL_COLLECTION_NAME) in
      if \<not> re_fullmatch COLLECTION_NAME candidate
      then Inl (StoreValueError (''collection_id must use 1-64 letters, numbers, '' @ dash_rule))
      else Inr (case map_of COLLECTION_ALIASES candidate of None \<Rightarrow> candidate | Some x \<Rightarrow> x))"

definition normalize_tenant_id :: "string option \<Rightarrow> store_error + string" where
  "normalize_tenant_id tenant =
     (case tenant of
        None \<Rightarrow> Inl (StoreValueError ''tenant_id is required'')
      | Some t \<Rightarrow>
          if strip t = [] then Inl (StoreValueError ''tenant_id is required'')
          else if \<not> re_fullmatch TENANT_NAME (strip t)
          then Inl (StoreValueError (''tenant_id must use 1-128 letters, numbers, '' @ dash_rule))
          else Inr (strip t))"

section \<open>Identifiers\<close>

text \<open>\<open>content.encode("utf-8")\<close> for code points below 256.\<close>

definition utf8_c :: "char \<Rightarrow> string" where
  "utf8_c c = (let n = ord_c c in if n < 128 then [c] else [char_of (192 + n div 64), char_of (128 + n mod 64)])"

datatype content = Text string | Bytes string

definition content_checksum :: "(string \<Rightarrow> string) \<Rightarrow> content \<Rightarrow> string" where
  "content_checksum sha c = sha (case c of Text s \<Rightarrow> concat (map utf8_c s) | Bytes b \<Rightarrow> b)"

definition legacy_name :: "string \<Rightarrow> string \<Rightarrow> string \<Rightarrow> string \<Rightarrow> string" where
  "legacy_name tenant workspace resolved checksum =
     (if tenant \<noteq> ''default''
      then ''document:tenant:'' @ tenant @ '':'' @ workspace @ '':'' @ resolved @ '':'' @ checksum
      else ''document:'' @ workspace @ '':'' @ resolved @ '':'' @ checksum)"

definition legacy_document_id_for_content ::
  "(string \<Rightarrow> string) \<Rightarrow> string \<Rightarrow> string option \<Rightarrow> string \<Rightarrow> string option \<Rightarrow> store_error + string" where
  "legacy_document_id_for_content uuid5 workspace c checksum tenant_id =
     rbind (normalize_tenant_id tenant_id) (\<lambda>tenant.
     rbind (normalize_collection_name c) (\<lambda>resolved.
     Inr (uuid5 (legacy_name tenant workspace resolved checksum))))"

text \<open>\<open>json.dumps\<close> of a list of strings with \<open>ensure_ascii=True\<close>.\<close>

definition ascii_escape_c :: "char \<Rightarrow> string" where
  "ascii_escape_c c =
     (if ord_c c > 126
      then [CHR 0x5C, CHR ''u'', CHR ''0'', CHR ''0'', hex_c (ord_c c div 16), hex_c (ord_c c mod 16)]
      else json_escape_c c)"

definition ascii_quote :: "string \<Rightarrow> string" where
  "ascii_quote s = CHR 0x22 # concat (map ascii_escape_c s) @ [CHR 0x22]"

definition tuple_text :: "string list \<Rightarrow> string" where
  "tuple_text xs = CHR ''['' # json_join (map ascii_quote xs) @ '']''"

definition document_id_for_content ::
  "(string \<Rightarrow> string) \<Rightarrow> string \<Rightarrow> string option \<Rightarrow> string \<Rightarrow> string option \<Rightarrow> store_error + string" where
  "document_id_for_content uuid5 workspace c checksum tenant_id =
     (if strip workspace = [] then Inl (StoreValueError ''workspace_id is required'')
      else if checksum = [] then Inl (StoreValueError ''checksum is required'')
      else
        rbind (normalize_tenant_id tenant_id) (\<lambda>tenant.
        if tenant = ''default'' \<and> CHR '':'' \<notin> set workspace
        then legacy_document_id_for_content uuid5 workspace c checksum (Some tenant)
        else rbind (normalize_collection_name c) (\<lambda>resolved.
          Inr (uuid5 (''document:v2:'' @ tuple_text [tenant, workspace, resolved, checksum])))))"

definition point_id_for_chunk :: "(string \<Rightarrow> string) \<Rightarrow> string \<Rightarrow> string" where
  "point_id_for_chunk uuid5 chunk_id = uuid5 (''point:'' @ chunk_id)"

definition document_version :: "string \<Rightarrow> string" where
  "document_version checksum = ''sha256:'' @ take 16 checksum"

text \<open>\<open>f"{n:04d}"\<close>, which refuses integers of more than 4300 digits.\<close>

definition format_04d :: "int \<Rightarrow> store_error + string" where
  "format_04d n =
     (let ds = nat_digits (nat \<bar>n\<bar>) in
      if length ds > 4300 then Inl (StoreValueError ''Exceeds the limit (4300 digits) for integer string conversion'')
      else Inr (if n < 0 then CHR ''-'' # replicate (3 - length ds) (CHR ''0'') @ ds
                else replicate (4 - length ds) (CHR ''0'') @ ds))"

definition chunk_id_for_document :: "string \<Rightarrow> int \<Rightarrow> store_error + string" where
  "chunk_id_for_document document_id chunk_index =
     rbind (format_04d chunk_index) (\<lambda>t. Inr (''chunk_'' @ document_id @ ''_'' @ t))"

section \<open>Payloads\<close>

definition REQUIRED_PAYLOAD_FIELDS :: "string list" where
  "REQUIRED_PAYLOAD_FIELDS =
     [''schema_version'', ''tenant_id'', ''workspace_id'', ''collection_id'', ''document_id'', ''document_version'',
      ''ingestion_version'', ''chunk_id'', ''parent_chunk_id'', ''chunk_index'', ''text'', ''source'', ''title'',
      ''page_start'', ''page_end'', ''section'', ''checksum'', ''object_ref'', ''created_at'', ''published_at'',
      ''parser_version'', ''chunker_version'', ''embedding_model'', ''embedding_version'', ''index_version'', ''metadata'']"

definition opt_int :: "int option \<Rightarrow> pyobj" where
  "opt_int x = (case x of None \<Rightarrow> Val PNone | Some n \<Rightarrow> Val (PInt n))"

text \<open>A timestamp that \<open>materialize_lineage\<close> has left: a text, or \<open>None\<close>.\<close>

definition stamp_obj :: "stamp \<Rightarrow> pyobj" where
  "stamp_obj t = (case t of StampText s \<Rightarrow> Val (PStr s) | StampTime s \<Rightarrow> Val (PStr s) | _ \<Rightarrow> Val PNone)"

abbreviation text_obj :: "string \<Rightarrow> pyobj" where
  "text_obj s \<equiv> Val (PStr s)"

definition payload_of :: "string \<Rightarrow> string \<Rightarrow> chunk \<Rightarrow> document \<Rightarrow> (string \<times> pyobj) list" where
  "payload_of schema tenant c d =
     [(''schema_version'', text_obj schema),
      (''tenant_id'', text_obj tenant),
      (''workspace_id'', text_obj (doc_workspace_id d)),
      (''collection_id'', text_obj (doc_collection_id d)),
      (''document_id'', text_obj (doc_document_id d)),
      (''document_version'', text_obj (doc_document_version d)),
      (''ingestion_version'', Val (doc_ingestion_version d)),
      (''chunk_id'', text_obj (ch_chunk_id c)),
      (''parent_chunk_id'', opt_text (ch_parent_chunk_id c)),
      (''chunk_index'', Val (PInt (ch_chunk_index c))),
      (''text'', text_obj (ch_text c)),
      (''source'', text_obj (or_text (doc_display_filename d) (doc_filename d))),
      (''title'', text_obj (or_text (doc_title d) (or_text (doc_display_filename d) (doc_filename d)))),
      (''page_start'', opt_int (ch_page_start c)),
      (''page_end'', opt_int (ch_page_end c)),
      (''section'', opt_text (ch_section c)),
      (''checksum'', text_obj (or_text (ch_checksum c) (doc_content_checksum d))),
      (''object_ref'', Val (doc_object_ref d)),
      (''created_at'', stamp_obj (doc_created_at d)),
      (''published_at'', stamp_obj (doc_published_at d)),
      (''parser_version'', text_obj (or_text (ch_parser_version c) (doc_parser_version d))),
      (''chunker_version'', text_obj (or_text (ch_chunker_version c) (doc_chunker_version d))),
      (''embedding_model'', text_obj (doc_embedding_model d)),
      (''embedding_version'', text_obj (or_text (ch_embedding_version c) (doc_embedding_version d))),
      (''index_version'', text_obj (ch_index_version c)),
      (''metadata'', Dct (ch_metadata c)),
      (''document_filename'', text_obj (or_text (doc_display_filename d) (doc_filename d))),
      (''qdrant_collection'', text_obj (doc_collection_id d)),
      (''object_key'', Val (doc_object_ref d))]"

text \<open>An operation on the document, whose lineage it fills in.\<close>

definition build_point_payload ::
  "string \<Rightarrow> string \<Rightarrow> chunk \<Rightarrow> (document, store_error, (string \<times> pyobj) list) op" where
  "build_point_payload now schema c =
     sbind (reading (\<lambda>d. normalize_tenant_id (Some (doc_tenant_id d)))) (\<lambda>r.
     sbind (of_result r) (\<lambda>document_tenant.
     sbind (of_result (normalize_tenant_id (Some (ch_tenant_id c)))) (\<lambda>chunk_tenant.
     sbind (guard_op (document_tenant \<noteq> chunk_tenant) (StoreValueError ''document and chunk tenant_id must match'')) (\<lambda>_.
     sbind (reading (\<lambda>d. doc_status d = ''published'')) (\<lambda>published.
     sbind (materialize_lineage now published) (\<lambda>_.
     reading (payload_of schema document_tenant c)))))))"

definition blank_obj :: "pyobj \<Rightarrow> bool" where
  "blank_obj x = (case x of Val v \<Rightarrow> blank_value v | _ \<Rightarrow> True)"

definition NONBLANK_FIELDS :: "string list" where
  "NONBLANK_FIELDS =
     [''tenant_id'', ''workspace_id'', ''collection_id'', ''document_id'', ''document_version'', ''ingestion_version'',
      ''chunk_id'', ''object_ref'', ''created_at'']"

definition validate_payload :: "pyobj \<Rightarrow> string list" where
  "validate_payload payload =
     (case payload of
        Dct d \<Rightarrow>
          (let missing = filter (\<lambda>f. map_of d f = None) REQUIRED_PAYLOAD_FIELDS in
           if missing \<noteq> [] then missing
           else filter (\<lambda>f. blank_obj (get_key d f)) NONBLANK_FIELDS @
             (let published_at = get_key d ''published_at'' in
              if published_at \<noteq> Val PNone \<and> blank_obj published_at then [''published_at''] else []))
      | _ \<Rightarrow> REQUIRED_PAYLOAD_FIELDS)"

section \<open>Names are unambiguous\<close>

lemma fullmatch_rep1:
  "re_fullmatch (Rep (Cls q) 1 (Some (Suc n))) s \<longleftrightarrow> s \<noteq> [] \<and> length s \<le> Suc n \<and> list_all q s"
proof (cases s)
  case Nil
  then show ?thesis by (simp add: re_fullmatch_def)
next
  case (Cons c cs)
  have rep: "ends (Rep (Cls q) 1 (Some (Suc n))) s 0 = reach n (ends (Cls q) s) (if q c then [Suc 0] else [])"
    using Cons by (simp del: reach.simps)
  have "re_fullmatch (Rep (Cls q) 1 (Some (Suc n))) s \<longleftrightarrow>
      q c \<and> length s \<le> Suc n \<and> (\<forall>k. Suc 0 \<le> k \<and> k < length s \<longrightarrow> q (s ! k))"
    unfolding re_fullmatch_def rep List.member_iff
    using set_reach_cls [of "Suc 0" s "length s" n q] Cons
    by (cases "q c") (simp_all only: if_True if_False reach_Nil, simp_all del: reach.simps ends.simps)
  also have "\<dots> \<longleftrightarrow> length s \<le> Suc n \<and> (\<forall>k < length s. q (s ! k))"
    using Cons by (auto simp: less_Suc_eq_0_disj Suc_le_eq)
  also have "\<dots> \<longleftrightarrow> length s \<le> Suc n \<and> list_all q s" by (simp add: list_all_length)
  finally show ?thesis using Cons by simp
qed

lemma collection_name_iff: "re_fullmatch COLLECTION_NAME s \<longleftrightarrow> s \<noteq> [] \<and> length s \<le> 64 \<and> list_all name_c s"
  using fullmatch_rep1 [of name_c 63 s] by (simp add: COLLECTION_NAME_def del: ends.simps)

lemma normalized_collection:
  "normalize_collection_name c = Inr r \<Longrightarrow> r \<noteq> [] \<and> list_all name_c r"
  by (auto simp: normalize_collection_name_def Let_def collection_name_iff COLLECTION_ALIASES_def name_c_def char_defs
      split: if_splits option.splits)

lemma no_colon: "list_all name_c s \<Longrightarrow> CHR '':'' \<notin> set s"
  by (auto simp: list_all_iff name_c_def char_defs)

lemma upto_first: "x \<notin> set a \<Longrightarrow> x \<notin> set b \<Longrightarrow> a @ x # r = b @ x # r' \<longleftrightarrow> a = b \<and> r = r'"
proof (induction a arbitrary: b)
  case Nil
  then show ?case by (cases b) auto
next
  case (Cons y a)
  then show ?case by (cases b) auto
qed

text \<open>The decoder of JSON strings recovers what \<open>ascii_quote\<close> writes, so a tuple determines its components.\<close>

lemma hex4_any: "hex4 (CHR ''0'') (CHR ''0'') (hex_c (ord_c c div 16)) (hex_c (ord_c c mod 16)) = Some c"
proof -
  have z: "hex_value (CHR ''0'') = Some 0" by (simp add: hex_value_def)
  have n: "16 * (ord_c c div 16) + ord_c c mod 16 = ord_c c" by simp
  have "ord_c c div 16 < 16" "ord_c c mod 16 < 16" using ord_c_less [of c] by (auto intro: div_less_dividend less_mult_imp_div_less)
  then show ?thesis unfolding hex4_def z by (simp add: hex_value_hex_c n ord_c_less)
qed

lemma json_string_ascii:
  "json_string (concat (map ascii_escape_c s) @ CHR 0x22 # rest) = Some (s, rest)"
  by (induction s) (auto simp: ascii_escape_c_def json_string_escape hex4_any)

lemma ascii_quote_inject: "ascii_quote s @ r = ascii_quote s' @ r' \<longleftrightarrow> s = s' \<and> r = r'"
proof
  assume "ascii_quote s @ r = ascii_quote s' @ r'"
  then have "json_string (concat (map ascii_escape_c s) @ CHR 0x22 # r) = json_string (concat (map ascii_escape_c s') @ CHR 0x22 # r')"
    by (simp add: ascii_quote_def)
  then show "s = s' \<and> r = r'" by (simp add: json_string_ascii)
qed simp

lemma tuple_text_inject: "tuple_text [a, b, c, d] = tuple_text [a', b', c', d'] \<longleftrightarrow> a = a' \<and> b = b' \<and> c = c' \<and> d = d'"
  using ascii_quote_inject [of d "[]" d' "[]"] by (auto simp: tuple_text_def ascii_quote_inject)

text \<open>The name whose digest is a document's identifier.\<close>

definition document_name :: "string \<Rightarrow> string \<Rightarrow> string \<Rightarrow> string \<Rightarrow> string" where
  "document_name tenant workspace resolved checksum =
     (if tenant = ''default'' \<and> CHR '':'' \<notin> set workspace then legacy_name tenant workspace resolved checksum
      else ''document:v2:'' @ tuple_text [tenant, workspace, resolved, checksum])"

lemma normalize_tenant_idem: "normalize_tenant_id t = Inr x \<Longrightarrow> normalize_tenant_id (Some x) = Inr x"
  by (auto simp: normalize_tenant_id_def strip_idem split: option.splits if_splits)

lemma document_id_name:
  "document_id_for_content uuid5 w c k t = Inr i \<longleftrightarrow>
     strip w \<noteq> [] \<and> k \<noteq> [] \<and>
     (\<exists>tenant resolved. normalize_tenant_id t = Inr tenant \<and> normalize_collection_name c = Inr resolved \<and>
        i = uuid5 (document_name tenant w resolved k))"
proof (cases "normalize_tenant_id t")
  case (Inr tenant)
  then show ?thesis using normalize_tenant_idem [OF Inr]
    by (auto simp: document_id_for_content_def legacy_document_id_for_content_def document_name_def rbind_Inr)
qed (simp add: document_id_for_content_def)

lemma document_name_inject:
  assumes "r \<noteq> []" "list_all name_c r" and "r' \<noteq> []" "list_all name_c r'"
  shows "document_name t w r k = document_name t' w' r' k' \<longleftrightarrow> t = t' \<and> w = w' \<and> r = r' \<and> k = k'"
proof -
  note nc = no_colon [OF assms(2)] no_colon [OF assms(4)]
  have mixed: "''document:'' @ w @ '':'' @ r @ '':'' @ k \<noteq> ''document:v2:'' @ tuple_text xs" if "CHR '':'' \<notin> set w" "r \<noteq> []" "list_all name_c r" for w r k xs
  proof
    assume "''document:'' @ w @ '':'' @ r @ '':'' @ k = ''document:v2:'' @ tuple_text xs"
    then have "w @ CHR '':'' # r @ '':'' @ k = ''v2'' @ CHR '':'' # tuple_text xs" by simp
    then have "r @ '':'' @ k = tuple_text xs"
      using upto_first [of "CHR '':''" w "''v2''"] that(1) by simp
    then have "hd r = CHR ''[''" using that(2) by (cases r) (simp_all add: tuple_text_def)
    then show False using that(2,3) by (cases r) (simp_all add: name_c_def char_defs)
  qed
  show ?thesis
    using assms nc mixed mixed [symmetric]
    by (auto simp: document_name_def legacy_name_def tuple_text_inject upto_first)
qed

section \<open>Chunk identifiers\<close>

definition read_digits :: "string \<Rightarrow> nat" where
  "read_digits s = foldl (\<lambda>n c. 10 * n + (ord_c c - 48)) 0 s"

lemma read_digits_snoc: "read_digits (s @ [c]) = 10 * read_digits s + (ord_c c - 48)"
  by (simp add: read_digits_def)

lemma digit_code [simp]: "d < 10 \<Longrightarrow> ord_c (char_of (48 + d)) = 48 + d"
  by (simp add: of_char_of)

lemma read_nat_digits: "read_digits (nat_digits n) = n"
proof (induction n rule: nat_digits.induct)
  case (1 n)
  show ?case
  proof (cases "n < 10")
    case True
    then show ?thesis by (simp add: nat_digits.simps [of n] read_digits_def)
  next
    case False
    with 1 show ?thesis by (simp add: nat_digits.simps [of n] read_digits_snoc)
  qed
qed

lemma read_padded: "read_digits (replicate k (CHR ''0'') @ s) = read_digits s"
  by (induction k) (simp_all add: read_digits_def)

lemma nat_digits_digits: "list_all digit_c (nat_digits n)"
proof (induction n rule: nat_digits.induct)
  case (1 n)
  have d: "digit_c (char_of (48 + m))" if "m < 10" for m :: nat using that by (simp add: digit_c_def of_char_of Let_def)
  show ?case
  proof (cases "n < 10")
    case True
    then show ?thesis by (simp add: nat_digits.simps [of n] d)
  next
    case False
    with 1 show ?thesis by (simp add: nat_digits.simps [of n] d)
  qed
qed

lemma nat_digits_not_Nil [simp]: "nat_digits n \<noteq> []"
  by (simp add: nat_digits.simps [of n])

lemma format_sign: "format_04d n = Inr t \<Longrightarrow> hd t = CHR ''-'' \<longleftrightarrow> n < 0"
proof -
  have h: "hd (replicate k (CHR ''0'') @ nat_digits m) \<noteq> CHR ''-''" for k m
    using nat_digits_digits [of m] nat_digits_not_Nil [of m]
    by (cases k; cases "nat_digits m") (auto simp: digit_c_def)
  show "format_04d n = Inr t \<Longrightarrow> hd t = CHR ''-'' \<longleftrightarrow> n < 0"
    using h by (auto simp: format_04d_def Let_def split: if_splits)
qed

lemma format_inject: "format_04d m = Inr t \<Longrightarrow> format_04d n = Inr t \<Longrightarrow> m = n"
proof -
  assume a: "format_04d m = Inr t" "format_04d n = Inr t"
  have s: "m < 0 \<longleftrightarrow> n < 0" using format_sign [OF a(1)] format_sign [OF a(2)] by simp
  have r: "read_digits (if k < 0 then tl t else t) = nat \<bar>k\<bar>" if "format_04d k = Inr t" for k
    using that by (auto simp: format_04d_def Let_def read_padded read_nat_digits split: if_splits)
  show "m = n" using s r [OF a(1)] r [OF a(2)] by (auto split: if_splits)
qed

lemma format_no_bar: "format_04d n = Inr t \<Longrightarrow> CHR ''_'' \<notin> set t"
proof -
  have "CHR ''_'' \<notin> set (nat_digits m)" for m
    using nat_digits_digits [of m] by (auto simp: list_all_iff digit_c_def)
  then show "format_04d n = Inr t \<Longrightarrow> CHR ''_'' \<notin> set t"
    by (auto simp: format_04d_def Let_def split: if_splits)
qed

lemma after_last: "x \<notin> set r \<Longrightarrow> x \<notin> set r' \<Longrightarrow> a @ x # r = b @ x # r' \<longleftrightarrow> a = b \<and> r = r'"
  using upto_first [of x "rev r" "rev r'" "rev a" "rev b"]
  by (metis append.assoc append_Cons append_Nil rev.simps(2) rev_append rev_rev_ident set_rev)

section \<open>Properties\<close>

text \<open>C19. Document identifiers are unambiguous. Whenever \<open>document_id_for_content\<close> returns, the workspace is not blank, the
  checksum not empty, and the identifier is the digest of a name; and two such names are equal exactly when the
  normalised tenant, the workspace, the normalised collection and the checksum are, so that only a collision of the digest
  makes two different contents share an identifier.\<close>

theorem document_ids_unambiguous:
  assumes "document_id_for_content uuid5 w c k t = Inr i" and "document_id_for_content uuid5 w' c' k' t' = Inr i'"
  shows "\<exists>n n'. i = uuid5 n \<and> i' = uuid5 n' \<and>
    (n = n' \<longleftrightarrow> normalize_tenant_id t = normalize_tenant_id t' \<and> w = w' \<and>
       normalize_collection_name c = normalize_collection_name c' \<and> k = k')"
proof -
  obtain tenant r where 1: "normalize_tenant_id t = Inr tenant" "normalize_collection_name c = Inr r"
      "i = uuid5 (document_name tenant w r k)"
    using assms(1) unfolding document_id_name by blast
  obtain tenant' r' where 2: "normalize_tenant_id t' = Inr tenant'" "normalize_collection_name c' = Inr r'"
      "i' = uuid5 (document_name tenant' w' r' k')"
    using assms(2) unfolding document_id_name by blast
  show ?thesis
    using 1 2 document_name_inject [of r r' tenant w k tenant' w' k'] normalized_collection [OF 1(2)] normalized_collection [OF 2(2)]
    by auto
qed

theorem document_ids_unambiguous_witness:
  "\<exists>i i'. document_id_for_content id ''w:1'' None ''k'' (Some '' t '') = Inr i \<and>
    document_id_for_content id ''w'' (Some ''cvg_master_rag'') ''k'' (Some ''default'') = Inr i' \<and>
    (\<exists>n n'. i = id n \<and> i' = id n' \<and> n \<noteq> n')"
proof -
  have names: "normalize_tenant_id (Some '' t '') = Inr ''t''" "normalize_tenant_id (Some ''default'') = Inr ''default''"
      "normalize_collection_name None = Inr ''rag_phase0''" "normalize_collection_name (Some ''cvg_master_rag'') = Inr ''rag_phase0''"
    by code_simp+
  have blank: "strip ''w:1'' \<noteq> []" "strip ''w'' \<noteq> []" by code_simp+
  obtain i where 1: "document_id_for_content id ''w:1'' None ''k'' (Some '' t '') = Inr i"
    using names blank by (simp add: document_id_name)
  obtain i' where 2: "document_id_for_content id ''w'' (Some ''cvg_master_rag'') ''k'' (Some ''default'') = Inr i'"
    using names blank by (simp add: document_id_name)
  from document_ids_unambiguous [OF 1 2] 1 2 show ?thesis by (auto simp: names)
qed

text \<open>Chunk identifiers are unambiguous: for two documents and two integer indices, equal chunk identifiers mean the
  same document and the same index, whatever characters the document identifiers contain.\<close>

theorem chunk_ids_unambiguous:
  assumes "chunk_id_for_document d i = Inr x" and "chunk_id_for_document d' i' = Inr x"
  shows "d = d' \<and> i = i'"
proof -
  obtain t t' where t: "format_04d i = Inr t" "format_04d i' = Inr t'"
    and x: "d @ CHR ''_'' # t = d' @ CHR ''_'' # t'"
    using assms by (auto simp: chunk_id_for_document_def rbind_Inr)
  have "d = d' \<and> t = t'" using x after_last [OF format_no_bar [OF t(1)] format_no_bar [OF t(2)]] by blast
  then show ?thesis using format_inject [of i t i'] t by auto
qed

theorem chunk_ids_unambiguous_witness: "chunk_id_for_document ''a_0001'' 2 \<noteq> chunk_id_for_document ''a'' 12"
proof
  assume eq: "chunk_id_for_document ''a_0001'' 2 = chunk_id_for_document ''a'' 12"
  have 1: "chunk_id_for_document ''a_0001'' 2 = Inr ''chunk_a_0001_0002''" by code_simp
  have 2: "chunk_id_for_document ''a'' 12 = Inr ''chunk_a_0001_0002''" using eq 1 by simp
  from chunk_ids_unambiguous [OF 1 2] show False by simp
qed

text \<open>What \<open>materialize_lineage\<close> leaves: the lineage fields are texts.\<close>

definition stamps_ok :: "document \<Rightarrow> bool" where
  "stamps_ok d = (\<forall>t. StampTime t \<in> {doc_created_at d, doc_published_at d} \<longrightarrow> strip t \<noteq> [])"

definition same_identity :: "document \<Rightarrow> document \<Rightarrow> bool" where
  "same_identity d d' = (doc_workspace_id d' = doc_workspace_id d \<and> doc_collection_id d' = doc_collection_id d \<and>
     doc_document_id d' = doc_document_id d \<and> doc_document_version d' = doc_document_version d)"

lemma timestamp_text_Inr:
  "timestamp_text v = Inr (Some t) \<Longrightarrow> (\<forall>u. v = StampTime u \<longrightarrow> strip u \<noteq> []) \<Longrightarrow> strip t \<noteq> []"
  by (auto simp: timestamp_text_def strip_idem split: stamp.splits if_splits)

lemma materialized:
  assumes "materialize_lineage now pub d = (Inr (), d')" and "strip now \<noteq> []" and "stamps_ok d"
  shows "same_identity d d' \<and> \<not> blank_obj (stamp_obj (doc_created_at d')) \<and>
    (doc_published_at d' = StampNone \<or> \<not> blank_obj (stamp_obj (doc_published_at d'))) \<and>
    (pub \<longrightarrow> doc_published_at d' \<noteq> StampNone) \<and>
    (blank_value (doc_ingestion_version d') \<longrightarrow> strip (doc_document_version d) = [])"
proof -
  obtain created pb where c: "timestamp_text (doc_created_at d) = Inr created" and p: "timestamp_text (doc_published_at d) = Inr pb"
    using assms(1) by (auto simp: materialize_lineage_def sbind_def op_defs split: sum.splits)
  let ?cr = "case created of None \<Rightarrow> now | Some t \<Rightarrow> t"
  have cr: "strip ?cr \<noteq> []" and pb: "pb = Some t \<Longrightarrow> strip t \<noteq> []" for t
    using timestamp_text_Inr c p assms(2,3) by (auto simp: stamps_ok_def split: option.split)
  have f: "doc_created_at d' = StampText ?cr" "doc_published_at d' = (if pub \<and> pb = None then StampText now else stamp_of pb)"
    "doc_ingestion_version d' = (if blank_value (doc_ingestion_version d) then PStr (doc_document_version d)
       else strip_value (doc_ingestion_version d))" "same_identity d d'"
    using assms(1) c p by (auto simp: materialize_lineage_def op_defs same_identity_def)
  have "\<not> blank_obj (stamp_obj (doc_created_at d'))" using cr by (simp add: f(1) stamp_obj_def blank_obj_def blank_value_def)
  moreover have "doc_published_at d' = StampNone \<or> \<not> blank_obj (stamp_obj (doc_published_at d'))"
    using pb assms(2) by (cases pb) (auto simp: f(2) stamp_of_def stamp_obj_def blank_obj_def blank_value_def)
  moreover have "pub \<longrightarrow> doc_published_at d' \<noteq> StampNone" by (cases pb) (auto simp: f(2) stamp_of_def)
  moreover have "blank_value (doc_ingestion_version d') \<longrightarrow> strip (doc_document_version d) = []"
    unfolding f(3) by (cases "doc_ingestion_version d") (auto simp: blank_value_def strip_value_def strip_idem)
  ultimately show ?thesis using f(4) by simp
qed

text \<open>C40. The payload of an indexed point. When \<open>build_point_payload\<close> returns, the document and the chunk have the same
  tenant, which the payload carries; no required field is missing; the drift check passes exactly when the
  workspace, collection, document, version and chunk identifiers are not blank and an object reference was
  found; and a published document gets a publication time. The texts of the clock and of a \<open>datetime\<close> are not
  blank.\<close>

theorem payload_complete:
  assumes "build_point_payload now schema c d = (Inr p, d')" and "strip now \<noteq> []" and "stamps_ok d"
  shows "get_key p ''tenant_id'' = text_obj (strip (doc_tenant_id d)) \<and> strip (doc_tenant_id d) = strip (ch_tenant_id c) \<and>
    (\<forall>f \<in> set REQUIRED_PAYLOAD_FIELDS. map_of p f \<noteq> None) \<and>
    (validate_payload (Dct p) = [] \<longleftrightarrow>
       (\<forall>x \<in> {doc_workspace_id d, doc_collection_id d, doc_document_id d, doc_document_version d, ch_chunk_id c}. strip x \<noteq> []) \<and>
       \<not> blank_value (doc_object_ref d')) \<and>
    (doc_status d = ''published'' \<longrightarrow> get_key p ''published_at'' \<noteq> Val PNone)"
proof -
  have t: "strip (doc_tenant_id d) \<noteq> []" "strip (doc_tenant_id d) = strip (ch_tenant_id c)"
    and m: "materialize_lineage now (doc_status d = ''published'') d = (Inr (), d')"
    and p: "p = payload_of schema (strip (doc_tenant_id d)) c d'"
    using assms(1) by (auto simp: build_point_payload_def normalize_tenant_id_def sbind_def op_defs split: if_splits sum.splits prod.splits)
  note M = materialized [OF m assms(2,3), unfolded same_identity_def]
  have req: "\<forall>f \<in> set REQUIRED_PAYLOAD_FIELDS. map_of p f \<noteq> None"
    by (simp add: p payload_of_def REQUIRED_PAYLOAD_FIELDS_def)
  have bt: "blank_value (PStr s) \<longleftrightarrow> strip s = []" for s by (simp add: blank_value_def)
  have bv: "blank_obj (Val v) = blank_value v" for v by (simp add: blank_obj_def)
  have valid: "validate_payload (Dct p) = [] \<longleftrightarrow> (\<forall>f \<in> set NONBLANK_FIELDS. \<not> blank_obj (get_key p f)) \<and>
      \<not> (get_key p ''published_at'' \<noteq> Val PNone \<and> blank_obj (get_key p ''published_at''))"
    using req by (auto simp: validate_payload_def filter_empty_conv)
  have pub: "get_key p ''published_at'' = stamp_obj (doc_published_at d')" "get_key p ''tenant_id'' = text_obj (strip (doc_tenant_id d))"
    by (simp_all add: p payload_of_def get_key_def)
  have none: "stamp_obj StampNone = Val PNone" "blank_obj (Val PNone)"
    by (simp_all add: blank_obj_def blank_value_def stamp_obj_def)
  have fields: "(\<forall>f \<in> set NONBLANK_FIELDS. \<not> blank_obj (get_key p f)) \<longleftrightarrow>
      (\<forall>x \<in> {doc_workspace_id d, doc_collection_id d, doc_document_id d, doc_document_version d, ch_chunk_id c}. strip x \<noteq> []) \<and>
       \<not> blank_value (doc_object_ref d')"
    using M t by (simp add: p payload_of_def get_key_def NONBLANK_FIELDS_def bt bv strip_idem) blast
  have published: "get_key p ''published_at'' = Val PNone \<or> \<not> blank_obj (get_key p ''published_at'')"
    unfolding pub using M none by auto
  have "doc_status d = ''published'' \<longrightarrow> get_key p ''published_at'' \<noteq> Val PNone" unfolding pub using M none by auto
  with valid fields published t req pub(2) show ?thesis by blast
qed

theorem payload_complete_witness:
  "\<exists>p d'. build_point_payload ''2026'' ''v1'' sample_chunk sample_document = (Inr p, d') \<and>
     validate_payload (Dct p) = [''chunk_id''] \<and> get_key p ''tenant_id'' = text_obj ''t''"
proof -
  have "case build_point_payload ''2026'' ''v1'' sample_chunk sample_document of
      (Inr p, d') \<Rightarrow> validate_payload (Dct p) = [''chunk_id''] | _ \<Rightarrow> False" by code_simp
  then obtain p d' where b: "build_point_payload ''2026'' ''v1'' sample_chunk sample_document = (Inr p, d')"
      "validate_payload (Dct p) = [''chunk_id'']"
    by (auto split: prod.splits sum.splits)
  have now: "strip ''2026'' \<noteq> []" and t: "strip (doc_tenant_id sample_document) = ''t''" by code_simp+
  have ok: "stamps_ok sample_document" by (simp add: stamps_ok_def sample_document_def)
  show ?thesis using payload_complete [OF b(1) now ok] b t by auto
qed

end
