(* ===== verification/ChunkSafety.thy ===== *)
theory ChunkSafety
  imports Chunking
begin

text \<open>
  What holds of the chunks of a document: the positions the splitter tracks are those of the characters, so that the pages of a
  chunk are right; no text is lost; and the lengths of chunks. The paragraphs and the sentences are pieces laid out in
  the document with only white space between them (\<open>laid\<close>), and the loop over them keeps \<open>chunk_inv\<close>.
\<close>

section \<open>White space\<close>

definition white_s :: "string \<Rightarrow> bool" where
  "white_s s = list_all isspace_c s"

lemma white_simps [simp]: "white_s []" "white_s (c # s) \<longleftrightarrow> isspace_c c \<and> white_s s" "white_s (s @ t) \<longleftrightarrow> white_s s \<and> white_s t"
  by (simp_all add: white_s_def)

lemma strip_decomp:
  obtains u v where "s = u @ strip s @ v" "white_s u" "white_s v"
    "strip s \<noteq> [] \<Longrightarrow> length u = length s - length (lstrip s)" "strip s \<noteq> [] \<Longrightarrow> length v = length s - length (rstrip s)"
proof -
  define u where "u = takeWhile isspace_c s"
  define m where "m = lstrip s"
  define v where "v = rev (takeWhile isspace_c (rev m))"
  have s: "s = u @ m" by (simp add: u_def m_def lstrip_def)
  have m: "m = strip s @ v"
  proof -
    have "rev m = takeWhile isspace_c (rev m) @ dropWhile isspace_c (rev m)" by simp
    then have "m = rev (dropWhile isspace_c (rev m)) @ rev (takeWhile isspace_c (rev m))" by (metis rev_append rev_rev_ident)
    then show ?thesis by (simp add: v_def strip_def rstrip_def m_def)
  qed
  have b: "white_s u" "white_s v" by (auto simp: u_def v_def white_s_def list_all_iff dest: set_takeWhileD)
  have "length v = length s - length (rstrip s)" if "strip s \<noteq> []"
  proof -
    have "dropWhile isspace_c (rev s) = dropWhile isspace_c (rev v @ rev (strip s) @ rev u)" by (metis s m rev_append append_assoc)
    also have "\<dots> = dropWhile isspace_c (rev (strip s) @ rev u)" using b(2) by (simp add: dropWhile_append white_s_def list_all_iff)
    also have "\<dots> = rev (strip s) @ rev u"
      using that strip_stripped [of s] by (cases "rev (strip s)") (auto simp: stripped_def hd_rev [symmetric])
    finally have "rstrip s = u @ strip s" by (simp add: rstrip_def)
    then show ?thesis using s m by (metis append.assoc diff_add_inverse length_append)
  qed
  moreover have "length u = length s - length (lstrip s)" using s unfolding m_def by (metis diff_add_inverse2 length_append)
  moreover have "s = u @ strip s @ v" by (subst m [symmetric]) (rule s)
  ultimately show ?thesis using that [of u v] b by blast
qed

lemma white_strip: "white_s s \<longleftrightarrow> strip s = []"
proof
  assume "white_s s"
  then have "lstrip s = []" by (simp add: lstrip_def white_s_def list_all_iff)
  then show "strip s = []" by (simp add: strip_def rstrip_def)
next
  assume e: "strip s = []"
  obtain u v where "s = u @ strip s @ v" "white_s u" "white_s v" by (rule strip_decomp)
  then show "white_s s" using e by (metis append_Nil white_simps(3))
qed

section \<open>Pieces of a text in their places\<close>

definition gap :: "string \<Rightarrow> nat \<Rightarrow> nat \<Rightarrow> bool" where
  "gap t a b = (\<forall>j. a \<le> j \<and> j < b \<longrightarrow> isspace_c (t ! j))"

lemma gap_empty [simp]: "b \<le> a \<Longrightarrow> gap t a b"
  by (auto simp: gap_def)

lemma gap_join: "gap t a b \<Longrightarrow> gap t b c \<Longrightarrow> gap t a c"
  by (auto simp: gap_def not_le) (meson not_le)

lemma slice_nth: "a \<le> length t \<Longrightarrow> k < length (slice t a b) \<Longrightarrow> slice t a b ! k = t ! (a + k)"
  by (simp add: slice_def)

lemma length_slice: "b \<le> length t \<Longrightarrow> length (slice t a b) = b - a"
  by (simp add: slice_def)

lemma slice_slice: "a + y \<le> b \<Longrightarrow> slice (slice t a b) x y = slice t (a + x) (a + y)"
  by (simp add: slice_def drop_take min_def add.commute)

lemma white_slice: "b \<le> length t \<Longrightarrow> white_s (slice t a b) \<longleftrightarrow> gap t a b"
proof -
  assume b: "b \<le> length t"
  have "white_s (slice t a b) \<longleftrightarrow> (\<forall>k < b - a. isspace_c (t ! (a + k)))"
  proof (cases "a \<le> length t")
    case True
    then show ?thesis using b slice_nth [OF True, of _ b] by (simp add: white_s_def list_all_length length_slice)
  qed (use b in \<open>simp add: slice_def\<close>)
  also have "\<dots> \<longleftrightarrow> gap t a b" unfolding gap_def by (metis add_diff_cancel_left' diff_less_mono le_add1 le_add_diff_inverse less_diff_conv add.commute)
  finally show ?thesis .
qed

text \<open>Trimming a piece that starts at \<open>a\<close>.\<close>

lemma trimmed_slice:
  assumes "b \<le> length t" and "a \<le> b" and "trimmed_span a (slice t a b) = (x, y)"
  shows "if white_s (slice t a b) then \<not> x < y
    else a \<le> x \<and> x < y \<and> y \<le> b \<and> gap t a x \<and> gap t y b \<and> strip (slice t a b) = slice t x y"
proof (cases "white_s (slice t a b)")
  case True
  then have "lstrip (slice t a b) = []" "rstrip (slice t a b) = []"
    by (auto simp: lstrip_def rstrip_def white_s_def list_all_iff)
  then show ?thesis using True assms(3) by (auto simp: trimmed_span_def)
next
  case False
  let ?r = "slice t a b"
  obtain u v where d: "?r = u @ strip ?r @ v" "white_s u" "white_s v"
    "strip ?r \<noteq> [] \<Longrightarrow> length u = length ?r - length (lstrip ?r)" "strip ?r \<noteq> [] \<Longrightarrow> length v = length ?r - length (rstrip ?r)"
    using strip_decomp [of ?r] by blast
  have ne: "strip ?r \<noteq> []" using False white_strip by blast
  have len: "length u + length (strip ?r) + length v = b - a" using d(1) assms(1) length_slice by (metis length_append add.assoc)
  have "length (rstrip ?r) \<le> length ?r" using length_dropWhile_le [of isspace_c "rev ?r"] by (simp add: rstrip_def)
  then have "length (rstrip ?r) = length u + length (strip ?r)" using d(5) [OF ne] len assms(1) length_slice [of b t a] by simp
  then have xy: "x = a + length u" "y = a + length u + length (strip ?r)"
    using assms(3) d(4) [OF ne] by (auto simp: trimmed_span_def)
  have parts: "u = slice t a x" "strip ?r = slice t x y" "v = slice t y b"
  proof -
    have "slice ?r 0 (length u) = u" "slice ?r (length u) (length u + length (strip ?r)) = strip ?r"
      "slice ?r (length u + length (strip ?r)) (b - a) = v"
      by (subst d(1), use len in \<open>simp add: slice_def\<close>)+
    then show "u = slice t a x" "strip ?r = slice t x y" "v = slice t y b"
      using len assms(2) slice_slice [of a _ b t] unfolding xy by (simp_all add: add.assoc)
  qed
  have "x \<le> length t" using len xy assms(1,2) by linarith
  then have "gap t a x" "gap t y b"
    using white_slice [of x t a] white_slice [of b t y] d(2,3) assms(1) unfolding parts(1,3) by blast+
  moreover have "a \<le> x" "x < y" "y \<le> b" 
    unfolding xy using ne len assms(2) by (simp_all add: Suc_le_eq)
  ultimately show ?thesis using False parts(2) by simp
qed


text \<open>Stripped pieces in order, with nothing but white space before, between and after them.\<close>

fun laid :: "string \<Rightarrow> nat \<Rightarrow> nat \<Rightarrow> (string \<times> nat \<times> nat) list \<Rightarrow> bool" where
  "laid t lo hi [] = gap t lo hi"
| "laid t lo hi ((s, a, b) # ss) =
     (lo \<le> a \<and> gap t lo a \<and> a < b \<and> b \<le> hi \<and> s = slice t a b \<and> stripped s \<and> laid t b hi ss)"

lemma laid_gap: "laid t a hi ss \<Longrightarrow> gap t lo a \<Longrightarrow> lo \<le> a \<Longrightarrow> laid t lo hi ss"
  by (cases ss) (auto intro: gap_join)

lemma laid_trimmed:
  assumes "b \<le> length t" and "a \<le> b" and "trimmed_span a (slice t a b) = (x, y)" and "laid t b hi ss" and "b \<le> hi"
  shows "laid t a hi (if white_s (slice t a b) then ss else (strip (slice t a b), x, y) # ss)"
proof (cases "white_s (slice t a b)")
  case True
  then have "gap t a b" using white_slice assms(1) by blast
  then show ?thesis using True assms(2,4) laid_gap by auto
next
  case False
  then have "a \<le> x" "x < y" "y \<le> b" "gap t a x" "gap t y b" "strip (slice t a b) = slice t x y"
    using trimmed_slice [OF assms(1-3)] by auto
  then show ?thesis using False assms(4,5) laid_gap strip_stripped [of "slice t a b"] by auto
qed

section \<open>Paragraphs\<close>

fun pieces :: "string list \<Rightarrow> string \<Rightarrow> bool" where
  "pieces [] s = white_s s"
| "pieces (p # ps) s = (\<exists>w r. s = w @ p @ r \<and> white_s w \<and> pieces ps r)"

lemma pieces_white: "pieces ps r \<Longrightarrow> white_s w \<Longrightarrow> pieces ps (w @ r)"
  by (cases ps) (auto, metis append.assoc white_simps(3))

lemma space_nl: "isspace_c (CHR 0x0A)"
  by (simp add: isspace_c_def)

lemma newline_parts_ne: "newline_parts s \<noteq> []"
  by (cases s) (auto split: list.splits)

lemma split_on_ne: "split_on c s \<noteq> []"
  by (cases s) (auto split: list.splits)

lemma newline_parts_pieces: "newline_parts s = p # ps \<Longrightarrow> \<exists>r. s = p @ r \<and> pieces ps r"
proof (induction s arbitrary: p ps rule: newline_parts.induct)
  case (2 c s)
  show ?case
  proof (cases "c = CHR 0x0A \<and> s \<noteq> [] \<and> hd s = CHR 0x0A")
    case True
    let ?r = "dropWhile (\<lambda>c. c = CHR 0x0A) s" and ?w = "takeWhile (\<lambda>c. c = CHR 0x0A) s"
    have p: "p = []" "newline_parts ?r = ps" using 2(3) True by auto
    then obtain p' ps' where ps: "ps = p' # ps'" using newline_parts_ne by (metis list.exhaust)
    obtain r where "?r = p' @ r" "pieces ps' r" using 2(1) [OF True] p(2) ps by blast
    moreover have "white_s (c # ?w)" using True space_nl by (auto simp: white_s_def list_all_iff dest: set_takeWhileD)
    moreover have "c # s = (c # ?w) @ ?r" by simp
    ultimately have "c # s = (c # ?w) @ p' @ r \<and> white_s (c # ?w) \<and> pieces ps' r" by metis
    then have "pieces ps (c # s)" unfolding ps pieces.simps(2) by blast
    then show ?thesis using p(1) by simp
  next
    case False
    show ?thesis
    proof (cases "newline_parts s")
      case Nil
      then show ?thesis using newline_parts_ne by blast
    next
      case (Cons q qs)
      then obtain r where "s = q @ r" "pieces qs r" using 2(2) [OF False] by blast
      moreover have "p = c # q" "ps = qs" using 2(3) False Cons by auto
      ultimately show ?thesis by auto
    qed
  qed
qed auto

lemma split_on_pieces: "split_on (CHR 0x0A) s = p # ps \<Longrightarrow> \<exists>r. s = p @ r \<and> pieces ps r"
proof (induction s arbitrary: p ps)
  case (Cons c s)
  obtain q qs where q: "split_on (CHR 0x0A) s = q # qs" using split_on_ne by (metis list.exhaust)
  then obtain r where r: "s = q @ r" "pieces qs r" using Cons.IH by blast
  show ?case
  proof (cases "c = CHR 0x0A")
    case True
    then have "p = []" "ps = q # qs" using Cons.prems q by auto
    moreover have "c # s = [c] @ q @ r" "white_s [c]" using r(1) True space_nl by auto
    ultimately show ?thesis using r(2) by (metis append_Nil pieces.simps(2))
  qed (use Cons.prems q r in auto)
qed simp

lemma find_s_first: "white_s w \<Longrightarrow> \<not> white_s p \<Longrightarrow> find_s p (w @ p @ r) = Some (length w)"
proof (induction w)
  case Nil
  have "prefix_of p (p @ r)" by (simp add: prefix_of_iff)
  then show ?case using Nil by (cases "p @ r") auto
next
  case (Cons c w)
  have "\<not> prefix_of p (c # w @ p @ r)"
  proof
    assume "prefix_of p (c # w @ p @ r)"
    then obtain u where u: "c # w @ p @ r = p @ u" by (auto simp: prefix_of_iff)
    define k where "k = length (takeWhile isspace_c p)"
    have "takeWhile isspace_c p \<noteq> p" using Cons.prems(2) by (auto simp: white_s_def list_all_iff takeWhile_eq_all_conv)
    then have k: "k < length p" "\<not> isspace_c (p ! k)"
      unfolding k_def by (metis length_takeWhile_le nat_less_le takeWhile_eq_take take_all_iff not_le, metis length_takeWhile_le nat_less_le nth_length_takeWhile takeWhile_eq_take take_all_iff order_refl)
    have low: "isspace_c (p ! j)" if "j < k" for j using that unfolding k_def by (metis nth_mem set_takeWhileD takeWhile_nth)
    have "(c # w @ p @ r) ! k = p ! k" unfolding u using k(1) by (simp add: nth_append)
    moreover have "isspace_c (((c # w) @ p @ r) ! k)"
    proof (cases "k < length (c # w)")
      case True
      then have "((c # w) @ p @ r) ! k = (c # w) ! k" by (simp only: nth_append if_True)
      then show ?thesis using Cons.prems(1) True by (metis white_s_def list_all_length)
    next
      case False
      then have "((c # w) @ p @ r) ! k = (p @ r) ! (k - length (c # w))" by (simp only: nth_append if_False)
      also have "\<dots> = p ! (k - length (c # w))" by (simp only: nth_append less_imp_diff_less [OF k(1)] if_True)
      finally have "((c # w) @ p @ r) ! k = p ! (k - length (c # w))" .
      then show ?thesis using low [of "k - length (c # w)"] False by simp
    qed
    ultimately show False using k(2) by simp
  qed
  then show ?case using Cons by simp
qed

definition trimmed :: "nat \<times> string \<Rightarrow> string \<times> nat \<times> nat" where
  "trimmed q = (strip (snd q), trimmed_span (fst q) (snd q))"

lemma locate_laid: "pos \<le> length t \<Longrightarrow> pieces ps (drop pos t) \<Longrightarrow> laid t pos (length t) (map trimmed (locate t pos ps))"
proof (induction ps arbitrary: pos)
  case Nil
  then show ?case using white_slice [of "length t" t pos] by (simp add: slice_def)
next
  case (Cons p ps)
  obtain w r where d: "drop pos t = w @ p @ r" "white_s w" "pieces ps r" using Cons.prems(2) by auto
  show ?case
  proof (cases "white_s p")
    case True
    then have "pieces ps (drop pos t)" using d pieces_white [of ps r "w @ p"] by simp
    then show ?thesis using Cons.IH Cons.prems(1) True by (simp add: white_strip)
  next
    case False
    let ?i = "pos + length w"
    have f: "find_from p t pos = Some ?i" using find_s_first [OF d(2) False, of r] Cons.prems(1) d(1) by (simp add: find_from_def)
    have len: "pos + length w + length p + length r = length t"
      using arg_cong [OF d(1), of length] Cons.prems(1) by simp
    have "drop (?i + length p) t = r" using arg_cong [OF d(1), of "drop (length w + length p)"] by (simp add: add.commute add.left_commute)
    then have IH: "laid t (?i + length p) (length t) (map trimmed (locate t (?i + length p) ps))"
      using Cons.IH [of "?i + length p"] d(3) len by simp
    have sl: "slice t ?i (?i + length p) = p" "slice t pos ?i = w"
      using arg_cong [OF d(1), of "\<lambda>x. take (length p) (drop (length w) x)"] arg_cong [OF d(1), of "take (length w)"]
      by (simp_all add: slice_def add.commute)
    obtain x y where xy: "trimmed_span ?i p = (x, y)" by fastforce
    have "laid t ?i (length t) ((strip p, x, y) # map trimmed (locate t (?i + length p) ps))"
      using laid_trimmed [of "?i + length p" t ?i x y "length t", OF _ _ _ IH] xy len False unfolding sl(1) by (simp del: laid.simps)
    moreover have "gap t pos ?i" using white_slice [of ?i t pos] sl(2) d(2) len by simp
    ultimately have "laid t pos (length t) ((strip p, x, y) # map trimmed (locate t (?i + length p) ps))" by (rule laid_gap) simp
    moreover have "locate t pos (p # ps) = (?i, p) # locate t (?i + length p) ps" using False f by (simp add: white_strip)
    moreover have "trimmed (?i, p) = (strip p, x, y)" using xy by (simp add: trimmed_def)
    ultimately show ?thesis by (simp del: laid.simps locate.simps)
  qed
qed

lemma paragraphs_laid: "laid t 0 (length t) (map trimmed (paragraphs_with_positions t))"
proof -
  have whole: "pieces ps t" if ne: "ps \<noteq> []" and tl: "\<And>p qs. ps = p # qs \<Longrightarrow> \<exists>r. t = p @ r \<and> pieces qs r" for ps
  proof -
    obtain p qs where ps: "ps = p # qs" using ne by (cases ps) auto
    then obtain r where "t = [] @ p @ r" "pieces qs r" using tl by auto
    then show ?thesis unfolding ps pieces.simps(2) using white_simps(1) by blast
  qed
  have "pieces (newline_parts t) t" "pieces (split_on (CHR 0x0A) t) t"
    using newline_parts_ne newline_parts_pieces split_on_ne split_on_pieces by (metis whole)+
  then show ?thesis unfolding paragraphs_with_positions_def by (auto intro!: locate_laid)
qed


section \<open>Sentences\<close>

text \<open>No sentence ends inside of the text: no white space follows the end of a sentence.\<close>

fun no_break :: "string \<Rightarrow> bool" where
  "no_break (x # y # s) = (\<not> (sentence_end_c x \<and> isspace_c y) \<and> no_break (y # s))"
| "no_break s = True"

lemma no_break_snoc: "no_break (s @ [c]) \<longleftrightarrow> no_break s \<and> (s \<noteq> [] \<longrightarrow> \<not> (sentence_end_c (last s) \<and> isspace_c c))"
  by (induction s rule: no_break.induct) auto

lemma no_break_prefix: "no_break (s @ t) \<Longrightarrow> no_break s"
  by (induction t rule: rev_induct) (auto simp: no_break_snoc simp flip: append_assoc)

lemma no_break_suffix: "no_break (s @ t) \<Longrightarrow> no_break t"
proof (induction s)
  case (Cons c s)
  then show ?case by (cases "s @ t") auto
qed simp

lemma no_break_strip: "no_break s \<Longrightarrow> no_break (strip s)"
  using strip_decomp [of s] no_break_prefix no_break_suffix by metis

text \<open>A text at position \<open>t0\<close> of the document.\<close>

definition inside :: "string \<Rightarrow> nat \<Rightarrow> string \<Rightarrow> bool" where
  "inside D t0 t = (t0 + length t \<le> length D \<and> t = slice D t0 (t0 + length t))"

lemma segment_laid:
  assumes "inside D t0 t" and "a \<le> b" and "b \<le> length t" and "laid D (t0 + b) hi ss" and "t0 + b \<le> hi" and "no_break (slice t a b)"
  shows "laid D (t0 + a) hi (segment t t0 a b @ ss) \<and> (\<forall>q \<in> set (segment t t0 a b). no_break (fst q))"
proof -
  obtain x y where xy: "trimmed_span a (slice t a b) = (x, y)" by fastforce
  have D: "slice t p q = slice D (t0 + p) (t0 + q)" if "q \<le> length t" for p q
    using slice_slice [of t0 q "t0 + length t" D p] that assms(1) unfolding inside_def by simp
  have span: "trimmed_span (t0 + a) (slice D (t0 + a) (t0 + b)) = (t0 + x, t0 + y)"
    using xy D [OF assms(3), of a] by (auto simp: trimmed_span_def)
  have len: "t0 + b \<le> length D" using assms(1,3) by (simp add: inside_def)
  have L: "laid D (t0 + a) hi (if white_s (slice t a b) then ss else (strip (slice t a b), t0 + x, t0 + y) # ss)"
    using laid_trimmed [OF len _ span assms(4,5)] assms(2) unfolding D [OF assms(3), of a, symmetric] by simp
  show ?thesis
  proof (cases "white_s (slice t a b)")
    case True
    then have "\<not> x < y" using trimmed_slice [OF assms(3,2) xy] by simp
    then show ?thesis using L True by (simp add: segment_def xy)
  next
    case False
    then have "x < y" "strip (slice t a b) = slice t x y" using trimmed_slice [OF assms(3,2) xy] by auto
    then show ?thesis using L False no_break_strip [OF assms(6)] by (simp add: segment_def xy del: laid.simps)
  qed
qed

lemma end_not_space: "isspace_c c \<Longrightarrow> \<not> sentence_end_c c"
  by (auto simp: isspace_c_def sentence_end_c_def)

lemma spans_from_laid:
  assumes "inside D t0 t" and "t = pre @ cur @ s" and "i = length pre + length cur" and "no_break cur"
    and "b \<longleftrightarrow> pre @ cur \<noteq> [] \<and> sentence_end_c (last (pre @ cur))"
  shows "laid D (t0 + length pre) (t0 + length t) (spans_from t t0 (length pre) (sentence_endings b i s)) \<and>
    (\<forall>q \<in> set (spans_from t t0 (length pre) (sentence_endings b i s)). no_break (fst q))"
  using assms(2-5)
proof (induction b i s arbitrary: pre cur rule: sentence_endings.induct)
  case (1 b i)
  have "slice t (length pre) (length t) = cur" using 1(1) by (simp add: slice_def)
  then show ?case using segment_laid [OF assms(1), of "length pre" "length t" "t0 + length t" "[]"] 1 by simp
next
  case (2 b i c s)
  show ?case
  proof (cases "b \<and> isspace_c c")
    case True
    let ?n = "length (takeWhile isspace_c (c # s))" and ?w = "takeWhile isspace_c (c # s)"
    have t: "t = (pre @ cur @ ?w) @ [] @ drop ?n (c # s)" using 2(3) by (simp add: dropWhile_eq_drop [symmetric])
    have last: "last ?w \<in> set ?w" using True by (intro last_in_set) simp
    have "isspace_c (last ?w)" using last by (auto dest: set_takeWhileD)
    then have nb: "False \<longleftrightarrow> (pre @ cur @ ?w) @ [] \<noteq> [] \<and> sentence_end_c (last ((pre @ cur @ ?w) @ []))"
      using end_not_space True by (simp add: last_append)
    have ci: "i + ?n = length (pre @ cur @ ?w) + length ([] :: string)" using 2(4) by simp
    note IH = 2(1) [OF True refl t ci _ nb]
    let ?rest = "spans_from t t0 (length (pre @ cur @ ?w)) (sentence_endings False (i + ?n) (drop ?n (c # s)))"
    have eq: "spans_from t t0 (length pre) (sentence_endings b i (c # s)) = segment t t0 (length pre) i @ ?rest"
      using True 2(4) by (simp add: Let_def add.assoc del: takeWhile.simps)
    have sl: "slice t (length pre) i = cur" "slice t i (i + ?n) = ?w"
      using 2(3,4) by (simp_all add: slice_def takeWhile_eq_take [symmetric] del: takeWhile.simps)
    have bound: "i + ?n \<le> length t" using arg_cong [OF t, of length] 2(4) by simp
    have D: "slice t p q = slice D (t0 + p) (t0 + q)" if "q \<le> length t" for p q
      using slice_slice [of t0 q "t0 + length t" D p] that assms(1) unfolding inside_def by simp
    have "white_s ?w" by (auto simp: white_s_def list_all_iff dest: set_takeWhileD)
    then have "gap D (t0 + i) (t0 + (i + ?n))"
      using white_slice [of "t0 + (i + ?n)" D "t0 + i"] D [OF bound, of i] sl(2) bound assms(1) by (simp add: inside_def)
    then have "laid D (t0 + i) (t0 + length t) ?rest"
      using IH laid_gap [of D "t0 + (i + ?n)" "t0 + length t" ?rest "t0 + i"] 2(4) by (simp add: add.assoc)
    then show ?thesis
      using segment_laid [OF assms(1), of "length pre" i "t0 + length t" ?rest] sl(1) 2(4,5) IH bound unfolding eq by auto
  next
    case False
    have "no_break (cur @ [c])" using 2(5,6) False by (cases "cur = []") (auto simp: no_break_snoc last_append)
    then show ?thesis
      using 2(2) [OF False, of pre "cur @ [c]"] 2(3,4) False by (auto simp: last_append)
  qed
qed

lemma sentence_spans_laid:
  assumes "inside D t0 t"
  shows "laid D t0 (t0 + length t) (sentence_spans t t0) \<and> (\<forall>q \<in> set (sentence_spans t t0). no_break (fst q))"
  using spans_from_laid [OF assms, of "[]" "[]" t 0 False] by (simp add: sentence_spans_def)


section \<open>Tracked positions\<close>

text \<open>The characters of \<open>s\<close> come from the positions \<open>ps\<close> of the document; the white space may be that of a join.\<close>

definition placed :: "string \<Rightarrow> nat list \<Rightarrow> string \<Rightarrow> bool" where
  "placed D ps s = (sorted ps \<and> list_all2 (\<lambda>p c. p < length D \<and> (isspace_c c \<or> D ! p = c)) ps s)"

lemma placed_length: "placed D ps s \<Longrightarrow> length ps = length s"
  by (auto simp: placed_def dest: list_all2_lengthD)

lemma placed_Nil [simp]: "placed D [] []" "placed D ps [] \<longleftrightarrow> ps = []"
  by (auto simp: placed_def)

lemma placed_range:
  assumes "s = slice D a b" and "b \<le> length D"
  shows "placed D [a..<b] s"
  using assms by (auto simp: placed_def list_all2_conv_all_nth slice_def)

lemma placed_join:
  assumes "placed D ps s" and "placed D qs t" and "isspace_c c" and "\<forall>p \<in> set ps. p \<le> j" and "\<forall>q \<in> set qs. j \<le> q" and "j < length D"
  shows "placed D (ps @ [j] @ qs) (s @ [c] @ t)"
proof -
  have "list_all2 (\<lambda>p c. p < length D \<and> (isspace_c c \<or> D ! p = c)) ([j] @ qs) ([c] @ t)" using assms by (simp add: placed_def)
  then show ?thesis using assms unfolding placed_def by (auto simp: sorted_append list_all2_appendI dest: le_trans)
qed

lemma placed_drop: "placed D ps s \<Longrightarrow> placed D (drop n ps) (drop n s)"
  by (auto simp: placed_def sorted_wrt_drop list_all2_dropI)

lemma placed_take: "placed D ps s \<Longrightarrow> placed D (take n ps) (take n s)"
  by (auto simp: placed_def sorted_wrt_take list_all2_takeI)

text \<open>The positions that belong to \<open>strip s\<close>, as \<open>append_plan\<close> cuts them out.\<close>

definition clean_positions :: "nat list \<Rightarrow> string \<Rightarrow> nat list" where
  "clean_positions ps s = drop (length s - length (lstrip s)) (take (length ps - (length s - length (rstrip s))) ps)"

lemma clean_positions_placed:
  assumes "placed D ps s" and "strip s \<noteq> []"
  shows "placed D (clean_positions ps s) (strip s) \<and>
    (\<forall>i c. (i, c) \<in> set (zip ps s) \<and> \<not> isspace_c c \<longrightarrow> (i, c) \<in> set (zip (clean_positions ps s) (strip s)))"
proof -
  obtain u v where d: "s = u @ strip s @ v" "white_s u" "white_s v"
    "length u = length s - length (lstrip s)" "length v = length s - length (rstrip s)"
    using strip_decomp [of s] assms(2) by metis
  let ?m = "strip s"
  have len: "length ps = length u + length ?m + length v"
    using placed_length [OF assms(1)] d(1) by (metis add.assoc length_append)
  let ?pu = "take (length u) ps" and ?pm = "take (length ?m) (drop (length u) ps)" and ?pv = "drop (length u + length ?m) ps"
  have ps: "ps = ?pu @ ?pm @ ?pv" by (metis add.commute append_take_drop_id drop_drop)
  have clean: "clean_positions ps s = ?pm" unfolding clean_positions_def d(4) [symmetric] d(5) [symmetric] by (simp add: len drop_take)
  have m: "take (length ?m) (drop (length u) s) = ?m" by (subst d(1)) simp
  have "placed D ?pm ?m" using placed_take [OF placed_drop [OF assms(1)], of "length ?m" "length u"] unfolding m .
  moreover have "(i, c) \<in> set (zip ?pm ?m)" if z: "(i, c) \<in> set (zip ps s)" and c: "\<not> isspace_c c" for i c
  proof -
    have "zip ps s = zip (?pu @ ?pm @ ?pv) (u @ ?m @ v)" using ps d(1) by presburger
    also have "\<dots> = zip ?pu u @ zip ?pm ?m @ zip ?pv v" using len by (simp add: zip_append)
    finally have "(i, c) \<in> set (zip ?pu u) \<or> (i, c) \<in> set (zip ?pm ?m) \<or> (i, c) \<in> set (zip ?pv v)" using z by simp
    then show ?thesis using d(2,3) c by (auto simp: white_s_def list_all_iff dest: set_zip_rightD)
  qed
  ultimately show ?thesis unfolding clean by blast
qed

lemma zip_range:
  assumes "s = slice D a b" and "b \<le> length D" and "a \<le> i" and "i < b"
  shows "(i, D ! i) \<in> set (zip [a..<b] s)"
proof -
  have "i - a < b - a" "s ! (i - a) = D ! i" using assms by (auto simp: slice_def)
  moreover have "length s = b - a" using assms by (simp add: slice_def)
  ultimately show ?thesis using assms(3) by (auto simp: set_zip intro!: exI [of _ "i - a"])
qed

section \<open>Packing sentences\<close>

text \<open>The character at \<open>i\<close> is in a piece that was packed.\<close>

definition packed :: "string \<Rightarrow> (string \<times> nat list) list \<Rightarrow> nat \<Rightarrow> bool" where
  "packed D out i = (\<exists>(s, ps) \<in> set out. (i, D ! i) \<in> set (zip ps s))"

definition pack_ok :: "string \<Rightarrow> int \<Rightarrow> string \<times> nat list \<Rightarrow> bool" where
  "pack_ok D limit q = (placed D (snd q) (fst q) \<and> (int (length (fst q)) \<le> limit \<or> no_break (fst q)))"

lemma stripped_join: "stripped s \<Longrightarrow> stripped t \<Longrightarrow> s \<noteq> [] \<Longrightarrow> t \<noteq> [] \<Longrightarrow> stripped (s @ u @ t)"
  by (auto simp: stripped_def)

lemma pack_sentences_ok:
  assumes "placed D ps cur" and "\<forall>p \<in> set ps. p < lo" and "laid D lo hi ss" and "hi \<le> length D"
    and "int (length cur) \<le> limit \<or> no_break cur" and "\<forall>q \<in> set ss. no_break (fst q)" and "stripped cur"
  shows "list_all (pack_ok D limit) (pack_sentences limit cur ps ss) \<and>
    (\<forall>i c. (i, c) \<in> set (zip ps cur) \<and> \<not> isspace_c c \<longrightarrow> (\<exists>(s, qs) \<in> set (pack_sentences limit cur ps ss). (i, c) \<in> set (zip qs s))) \<and>
    (\<forall>i. lo \<le> i \<and> i < hi \<and> \<not> isspace_c (D ! i) \<longrightarrow> packed D (pack_sentences limit cur ps ss) i)"
  using assms
proof (induction limit cur ps ss arbitrary: lo rule: pack_sentences.induct)
  case (1 limit cur ps)
  have "strip cur = cur" using strip_id 1(7) by blast
  then show ?case using 1 by (auto simp: pack_ok_def gap_def)
next
  case (2 limit cur ps s a b ss)
  have l: "lo \<le> a" "gap D lo a" "a < b" "b \<le> hi" "s = slice D a b" "stripped s" "laid D b hi ss" using 2(6) by auto
  have b: "b \<le> length D" using l(4) 2(7) by simp
  have s: "placed D [a..<b] s" using placed_range [OF l(5) b] .
  have sne: "s \<noteq> []" using l(3,5) b by (simp add: slice_def)
  have nb: "no_break s" "\<forall>q \<in> set ss. no_break (fst q)" using 2(9) by auto
  let ?out = "pack_sentences limit cur ps ((s, a, b) # ss)"
  have lens: "length ps = length cur" "length [a..<b] = length s" using placed_length [OF 2(4)] placed_length [OF s] by auto
  have split: "lo \<le> i \<and> i < hi \<and> \<not> isspace_c (D ! i) \<Longrightarrow> (i, D ! i) \<in> set (zip [a..<b] s) \<or> b \<le> i \<and> i < hi" for i
    using zip_range [OF l(5) b, of i] l(2) by (cases "a \<le> i") (auto simp: gap_def not_le)
  show ?case
  proof (cases "int (length cur) + int (length s) + 1 \<le> limit")
    case fits: True
    show ?thesis
    proof (cases "cur = []")
      case True
      then have ps: "ps = []" using lens by simp
      have "placed D (ps @ [a..<b]) s" "\<forall>p \<in> set (ps @ [a..<b]). p < b" using s ps by auto
      from 2(2) [OF fits _ this l(7) 2(7) _ nb(2) l(6)] True nb(1) fits ps show ?thesis
        using split by (auto simp: packed_def) blast+
    next
      case False
      let ?cur = "cur @ '' '' @ s" and ?ps = "ps @ [a - 1] @ [a..<b]"
      have "placed D ?ps ?cur"
        using placed_join [OF 2(4) s, of "CHR '' ''" "a - 1"] 2(5) l(1,3) b by (fastforce simp: isspace_c_def)
      moreover have "\<forall>p \<in> set ?ps. p < b" using 2(5) l(1,3) by auto
      moreover have "int (length ?cur) \<le> limit \<or> no_break ?cur" using fits by simp
      moreover have "stripped ?cur" using stripped_join [OF 2(10) l(6) False sne] .
      ultimately have IH: "list_all (pack_ok D limit) (pack_sentences limit ?cur ?ps ss) \<and>
        (\<forall>i c. (i, c) \<in> set (zip ?ps ?cur) \<and> \<not> isspace_c c \<longrightarrow> (\<exists>(s, qs) \<in> set (pack_sentences limit ?cur ?ps ss). (i, c) \<in> set (zip qs s))) \<and>
        (\<forall>i. b \<le> i \<and> i < hi \<and> \<not> isspace_c (D ! i) \<longrightarrow> packed D (pack_sentences limit ?cur ?ps ss) i)"
        using 2(1) [OF fits False _ _ l(7) 2(7) _ nb(2)] by blast
      have out: "?out = pack_sentences limit ?cur ?ps ss" using fits False by simp
      have z: "set (zip ?ps ?cur) = set (zip ps cur) \<union> {(a - 1, CHR '' '')} \<union> set (zip [a..<b] s)" using lens by (auto simp: zip_append)
      have "packed D ?out i" if i: "lo \<le> i \<and> i < hi \<and> \<not> isspace_c (D ! i)" for i
        using split [OF i] IH i unfolding out packed_def z by blast
      then show ?thesis using IH unfolding out z by blast
    qed
  next
    case False
    have "placed D [a..<b] s" "\<forall>p \<in> set [a..<b]. p < b" using s by auto
    from 2(3) [OF False this l(7) 2(7) _ nb(2) l(6)] nb(1)
    have IH: "list_all (pack_ok D limit) (pack_sentences limit s [a..<b] ss) \<and>
      (\<forall>i c. (i, c) \<in> set (zip [a..<b] s) \<and> \<not> isspace_c c \<longrightarrow> (\<exists>(s, qs) \<in> set (pack_sentences limit s [a..<b] ss). (i, c) \<in> set (zip qs s))) \<and>
      (\<forall>i. b \<le> i \<and> i < hi \<and> \<not> isspace_c (D ! i) \<longrightarrow> packed D (pack_sentences limit s [a..<b] ss) i)"
      by blast
    have out: "?out = (if cur \<noteq> [] then [(cur, ps)] else []) @ pack_sentences limit s [a..<b] ss" using False by simp
    have rest: "packed D (pack_sentences limit s [a..<b] ss) i" if i: "lo \<le> i \<and> i < hi \<and> \<not> isspace_c (D ! i)" for i
      using split [OF i] IH i unfolding packed_def by blast
    have "packed D ?out i" if "lo \<le> i \<and> i < hi \<and> \<not> isspace_c (D ! i)" for i
      using rest [OF that] unfolding out packed_def set_append by blast
    moreover have "pack_ok D limit (cur, ps)" using 2(4,8) by (simp add: pack_ok_def)
    ultimately show ?thesis using IH unfolding out by auto
  qed
qed

lemma split_sentences_ok:
  assumes "inside D t0 t"
  shows "list_all (pack_ok D limit) (split_sentences_with_positions t t0 limit) \<and>
    (\<forall>i. t0 \<le> i \<and> i < t0 + length t \<and> \<not> isspace_c (D ! i) \<longrightarrow> packed D (split_sentences_with_positions t t0 limit) i)"
  using pack_sentences_ok [of D "[]" "[]" t0 "t0 + length t" "sentence_spans t t0" limit] sentence_spans_laid [OF assms] assms
  by (simp add: split_sentences_with_positions_def inside_def stripped_def)


section \<open>Plans\<close>

text \<open>The number of the page with position \<open>p\<close>; a newline belongs to the page it ends.\<close>

fun page_of :: "(int \<times> string) list \<Rightarrow> nat \<Rightarrow> int option" where
  "page_of [] p = None"
| "page_of ((n, t) # pages) p = (if p \<le> length t then Some n else page_of pages (p - (length t + 1)))"

lemma page_hint_page_of: "p < length (all_text pages) \<Longrightarrow> page_hint (pos + p) (page_boundaries pos pages) = page_of pages p"
proof (induction pages arbitrary: pos p)
  case Nil
  then show ?case by (simp add: all_text_def)
next
  case (Cons x pages)
  obtain n t where x: "x = (n, t)" by force
  show ?case
  proof (cases pages)
    case Nil
    then show ?thesis using Cons.prems by (simp add: x all_text_def)
  next
    case c: (Cons y ys)
    obtain n' t' where y: "y = (n', t')" by force
    show ?thesis
    proof (cases "p \<le> length t")
      case False
      then have "p - (length t + 1) < length (all_text pages)" using Cons.prems by (simp add: x all_text_def)
      from Cons.IH [OF this, of "pos + length t + 1"] False show ?thesis by (simp add: x c y)
    qed (simp add: x c y)
  qed
qed

definition tracks :: "(string \<Rightarrow> string) \<Rightarrow> (int \<times> string) list \<Rightarrow> chunk_plan \<Rightarrow> nat list \<Rightarrow> bool" where
  "tracks sha pages pl ps =
     (pl_text pl \<noteq> [] \<and> stripped (pl_text pl) \<and> placed (all_text pages) ps (pl_text pl) \<and>
      pl_page_start pl = page_of pages (hd ps) \<and> pl_page_end pl = page_of pages (last ps) \<and>
      pl_checksum pl = content_checksum sha (Text (pl_text pl)))"

definition covered :: "(string \<Rightarrow> string) \<Rightarrow> (int \<times> string) list \<Rightarrow> chunk_plan list \<Rightarrow> nat \<Rightarrow> bool" where
  "covered sha pages plans i =
     (\<exists>pl \<in> set plans. \<exists>ps. tracks sha pages pl ps \<and> (i, all_text pages ! i) \<in> set (zip ps (pl_text pl)))"

definition fits_text :: "int \<Rightarrow> int \<Rightarrow> string \<Rightarrow> bool" where
  "fits_text limit overlap s = (int (length s) \<le> limit + max 0 overlap + 1 \<or> no_break s)"

definition plans_ok :: "(string \<Rightarrow> string) \<Rightarrow> (int \<times> string) list \<Rightarrow> int \<Rightarrow> int \<Rightarrow> chunk_plan list \<Rightarrow> bool" where
  "plans_ok sha pages limit overlap plans =
     ((\<forall>pl \<in> set plans. (\<exists>ps. tracks sha pages pl ps) \<and> fits_text limit overlap (pl_text pl)) \<and>
      map pl_chunk_index plans = [0..<length plans])"

lemma page_span_sorted:
  assumes "sorted ps" and "ps \<noteq> []"
  shows "page_span ps bs = (page_hint (hd ps) bs, page_hint (last ps) bs)"
proof -
  have "fold min xs x = x" if "\<forall>y \<in> set xs. x \<le> y" for xs and x :: nat using that by (induction xs) (auto simp: min_def)
  moreover have "fold max xs x = (if xs = [] then x else last xs)" if "sorted (x # xs)" for xs and x :: nat
    using that by (induction xs arbitrary: x) (auto simp: max_def)
  ultimately show ?thesis using assms by (cases ps) (auto simp: page_span_def)
qed

lemma short_strip: "fits_text limit overlap s \<Longrightarrow> fits_text limit overlap (strip s)"
  using length_strip_le [of s] no_break_strip [of s] by (auto simp: fits_text_def)

lemma append_plan_ok:
  assumes "placed (all_text pages) ps s" and "fits_text limit overlap s" and "plans_ok sha pages limit overlap plans"
  defines "plans' \<equiv> append_plan sha (page_boundaries 0 pages) s ps plans"
  shows "plans_ok sha pages limit overlap plans' \<and> (\<forall>i. covered sha pages plans i \<longrightarrow> covered sha pages plans' i) \<and>
    (\<forall>i. (i, all_text pages ! i) \<in> set (zip ps s) \<and> \<not> isspace_c (all_text pages ! i) \<longrightarrow> covered sha pages plans' i)"
proof (cases "strip s = []")
  case True
  then have "white_s s" by (simp add: white_strip)
  then have "\<not> ((i, c) \<in> set (zip ps s) \<and> \<not> isspace_c c)" for i c
    by (auto simp: white_s_def list_all_iff dest: set_zip_rightD)
  then show ?thesis using True assms(3) by (auto simp: plans'_def append_plan_def)
next
  case False
  let ?D = "all_text pages" and ?qs = "clean_positions ps s"
  note c = clean_positions_placed [OF assms(1) False]
  have q: "sorted ?qs" "?qs \<noteq> []" "hd ?qs < length ?D" "last ?qs < length ?D"
  proof -
    have p: "placed ?D ?qs (strip s)" using c by blast
    show ne: "?qs \<noteq> []" using placed_length [OF p] False by auto
    have "\<forall>x \<in> set ?qs. x < length ?D" using p by (auto simp: placed_def list_all2_conv_all_nth in_set_conv_nth)
    then show "hd ?qs < length ?D" "last ?qs < length ?D" using ne by auto
    show "sorted ?qs" using p by (simp add: placed_def)
  qed
  define pl where "pl = \<lparr>pl_text = strip s, pl_chunk_index = length plans, pl_page_start = page_of pages (hd ?qs),
     pl_checksum = content_checksum sha (Text (strip s)), pl_page_end = page_of pages (last ?qs)\<rparr>"
  have plans': "plans' = plans @ [pl]"
    using False page_span_sorted [OF q(1,2)] page_hint_page_of [OF q(3), of 0] page_hint_page_of [OF q(4), of 0]
    by (simp add: plans'_def append_plan_def Let_def pl_def clean_positions_def)
  have t: "tracks sha pages pl ?qs" using c False strip_stripped by (simp add: tracks_def pl_def)
  have "plans_ok sha pages limit overlap plans'"
    using assms(2,3) t short_strip by (auto simp: plans_ok_def plans' pl_def)
  moreover have "covered sha pages plans' i" if "(i, ?D ! i) \<in> set (zip ps s)" "\<not> isspace_c (?D ! i)" for i
  proof -
    have "(i, ?D ! i) \<in> set (zip ?qs (pl_text pl))" using c that by (simp add: pl_def)
    then show ?thesis using t by (auto simp: covered_def plans')
  qed
  ultimately show ?thesis by (auto simp: covered_def plans')
qed

lemma fold_append_ok:
  assumes "list_all (pack_ok (all_text pages) limit) out" and "plans_ok sha pages limit overlap plans"
  defines "plans' \<equiv> fold (\<lambda>(s, ps). append_plan sha (page_boundaries 0 pages) s ps) out plans"
  shows "plans_ok sha pages limit overlap plans' \<and> (\<forall>i. covered sha pages plans i \<longrightarrow> covered sha pages plans' i) \<and>
    (\<forall>i. packed (all_text pages) out i \<and> \<not> isspace_c (all_text pages ! i) \<longrightarrow> covered sha pages plans' i)"
  using assms(1,2) unfolding plans'_def
proof (induction out arbitrary: plans)
  case (Cons q out)
  obtain s ps where q: "q = (s, ps)" by force
  let ?plans = "append_plan sha (page_boundaries 0 pages) s ps plans"
  have "placed (all_text pages) ps s" "fits_text limit overlap s"
    using Cons.prems(1) by (auto simp: q pack_ok_def fits_text_def)
  note a = append_plan_ok [OF this Cons.prems(2)]
  have "list_all (pack_ok (all_text pages) limit) out" using Cons.prems(1) by simp
  note IH = Cons.IH [OF this conjunct1 [OF a]]
  show ?case using IH a unfolding packed_def by (auto simp: q)
qed (simp add: packed_def)


section \<open>The loop over the paragraphs\<close>

definition separator_at :: "string \<Rightarrow> nat \<Rightarrow> bool" where
  "separator_at D i = (\<exists>(s, a, b) \<in> set (map trimmed (paragraphs_with_positions D)). a \<le> i \<and> i < b \<and> is_separator s)"

definition chunk_inv :: "(string \<Rightarrow> string) \<Rightarrow> (int \<times> string) list \<Rightarrow> int \<Rightarrow> int \<Rightarrow> nat \<Rightarrow> chunk_state \<Rightarrow> bool" where
  "chunk_inv sha pages limit overlap lo st =
     (plans_ok sha pages limit overlap (cs_plans st) \<and> placed (all_text pages) (cs_positions st) (cs_text st) \<and>
      (\<forall>p \<in> set (cs_positions st). p < lo) \<and>
      (cs_text st = [] \<or> int (length (cs_text st)) \<le> limit + max 0 overlap + 1) \<and>
      (\<forall>i < lo. \<not> isspace_c (all_text pages ! i) \<longrightarrow> separator_at (all_text pages) i \<or> covered sha pages (cs_plans st) i \<or>
         (i, all_text pages ! i) \<in> set (zip (cs_positions st) (cs_text st))))"

lemma flush_plans: "cs_plans (flush sha bs st) = append_plan sha bs (cs_text st) (cs_positions st) (cs_plans st)"
  by (simp add: flush_def append_plan_def)

lemma overlap_plans [simp]: "cs_plans (start_with_overlap overlap prev ps st) = cs_plans st"
  by (simp add: start_with_overlap_def Let_def)

text \<open>The current chunk is put among the plans.\<close>

lemma flushed_inv:
  assumes "chunk_inv sha pages limit overlap lo st"
  defines "plans \<equiv> append_plan sha (page_boundaries 0 pages) (cs_text st) (cs_positions st) (cs_plans st)"
  shows "plans_ok sha pages limit overlap plans \<and>
    (\<forall>i < lo. \<not> isspace_c (all_text pages ! i) \<longrightarrow> separator_at (all_text pages) i \<or> covered sha pages plans i)"
proof -
  have "fits_text limit overlap (cs_text st)" using assms(1) by (auto simp: chunk_inv_def fits_text_def)
  from append_plan_ok [OF _ this] show ?thesis using assms(1) unfolding chunk_inv_def plans_def by blast
qed

lemma closed_inv:
  assumes "chunk_inv sha pages limit overlap lo st"
  shows "chunk_inv sha pages limit overlap lo (close_chunk sha (page_boundaries 0 pages) overlap st)"
  using flushed_inv [OF assms] by (simp add: chunk_inv_def close_chunk_def flush_plans)

lemma overlap_inv:
  assumes "chunk_inv sha pages limit overlap lo st"
  defines "st' \<equiv> start_with_overlap overlap (cs_text st) (cs_positions st) (flush sha (page_boundaries 0 pages) st)"
  shows "placed (all_text pages) (cs_positions st') (cs_text st') \<and> (\<forall>p \<in> set (cs_positions st'). p < lo) \<and>
    int (length (cs_text st')) \<le> max 0 overlap"
proof -
  have p: "placed (all_text pages) (cs_positions st) (cs_text st)" "\<forall>p \<in> set (cs_positions st). p < lo"
    using assms(1) by (auto simp: chunk_inv_def)
  let ?k = "length (cs_text st) - nat overlap"
  have st': "cs_text st' = (if overlap > 0 then drop ?k (cs_text st) else [])"
    "cs_positions st' = (if overlap > 0 then drop ?k (cs_positions st) else [])"
  proof -
    show "cs_text st' = (if overlap > 0 then drop ?k (cs_text st) else [])"
      by (simp add: st'_def start_with_overlap_def Let_def tail_of_def)
    have n: "length (cs_positions st) - length (drop ?k (cs_text st)) = ?k" if "drop ?k (cs_text st) \<noteq> []"
      using placed_length [OF p(1)] that by simp
    have "drop ?k (cs_positions st) = []" if "drop ?k (cs_text st) = []" using placed_length [OF p(1)] that by simp
    then show "cs_positions st' = (if overlap > 0 then drop ?k (cs_positions st) else [])"
      using n by (auto simp: st'_def start_with_overlap_def Let_def tail_of_def simp del: drop_eq_Nil length_drop)
  qed
  show ?thesis
  proof (cases "overlap > 0")
    case True
    then show ?thesis using placed_drop [OF p(1), of ?k] p(2) by (auto simp: st' dest: in_set_dropD)
  qed (simp add: st')
qed

lemma add_paragraph_inv:
  assumes "plans_ok sha pages limit overlap (cs_plans st)" and "placed (all_text pages) (cs_positions st) (cs_text st)"
    and "\<forall>p \<in> set (cs_positions st). p < lo"
    and "\<forall>i < lo. \<not> isspace_c (all_text pages ! i) \<longrightarrow> separator_at (all_text pages) i \<or> covered sha pages (cs_plans st) i \<or>
         (i, all_text pages ! i) \<in> set (zip (cs_positions st) (cs_text st))"
    and "int (length para) \<le> limit" and "cs_text st \<noteq> [] \<longrightarrow> int (length (cs_text st)) + int (length para) \<le> limit + max 0 overlap"
    and "lo \<le> a" "gap (all_text pages) lo a" "a < b" "b \<le> length (all_text pages)" "para = slice (all_text pages) a b"
  shows "chunk_inv sha pages limit overlap b (add_paragraph para a b st)"
proof -
  let ?D = "all_text pages"
  have new: "placed ?D [a..<b] para" using placed_range [OF assms(11,10)] .
  have here: "(i, ?D ! i) \<in> set (zip [a..<b] para) \<or> i < lo" if "i < b" "\<not> isspace_c (?D ! i)" for i
    using zip_range [OF assms(11,10)] that assms(8) by (cases "a \<le> i") (auto simp: gap_def not_le)
  show ?thesis
  proof (cases "cs_text st = []")
    case True
    then have "\<forall>i < b. \<not> isspace_c (?D ! i) \<longrightarrow> separator_at ?D i \<or> covered sha pages (cs_plans st) i \<or> (i, ?D ! i) \<in> set (zip [a..<b] para)"
      using here assms(4) by fastforce
    moreover have "int (length para) \<le> limit + max 0 overlap + 1" using assms(5) by linarith
    ultimately show ?thesis using assms(1) new True by (simp add: chunk_inv_def add_paragraph_def)
  next
    case False
    let ?ps = "cs_positions st @ [a - 1] @ [a..<b]" and ?s = "cs_text st @ [CHR 0x0A] @ para"
    have "placed ?D ?ps ?s"
      using placed_join [OF assms(2) new space_nl, of "a - 1"] assms(3,7,9,10) by fastforce
    moreover have "\<forall>p \<in> set ?ps. p < b" using assms(3,7,9) by auto
    moreover have z: "set (zip ?ps ?s) = set (zip (cs_positions st) (cs_text st)) \<union> {(a - 1, CHR 0x0A)} \<union> set (zip [a..<b] para)"
      using placed_length [OF assms(2)] by (auto simp: zip_append)
    have "\<forall>i < b. \<not> isspace_c (?D ! i) \<longrightarrow> separator_at ?D i \<or> covered sha pages (cs_plans st) i \<or> (i, ?D ! i) \<in> set (zip ?ps ?s)"
      unfolding z using here assms(4) by blast
    moreover have "int (length ?s) \<le> limit + max 0 overlap + 1" using assms(6) False by simp
    ultimately show ?thesis using assms(1) False unfolding chunk_inv_def add_paragraph_def by auto
  qed
qed

lemma chunk_paragraph_inv:
  assumes "chunk_inv sha pages limit overlap lo st" and "q \<in> set (paragraphs_with_positions (all_text pages))"
    and "trimmed q = (para, a, b)" and "lo \<le> a" "gap (all_text pages) lo a" "a < b" "b \<le> length (all_text pages)"
    "para = slice (all_text pages) a b"
  shows "chunk_inv sha pages limit overlap b (chunk_paragraph sha (page_boundaries 0 pages) limit overlap q st)"
proof -
  let ?D = "all_text pages" and ?bs = "page_boundaries 0 pages"
  obtain start raw where q: "q = (start, raw)" by force
  have t: "trimmed_span start raw = (a, b)" "strip raw = para" using assms(3) by (auto simp: trimmed_def q)
  have len: "length para = b - a" using assms(7,8) length_slice by simp
  then have ne: "para \<noteq> []" using assms(6) by auto
  have later: "i < lo \<or> a \<le> i" if "\<not> isspace_c (?D ! i)" for i using that assms(5) unfolding gap_def by (meson not_le)
  consider (sep) "is_separator para" | (long) "\<not> is_separator para" "int (length para) > limit"
    | (add) "\<not> is_separator para" "int (length para) \<le> limit" by linarith
  then show ?thesis
  proof cases
    case sep
    have "separator_at ?D i" if "a \<le> i" "i < b" for i
      using assms(2,3) sep that unfolding separator_at_def by (force simp: image_iff)
    then have widen: "chunk_inv sha pages limit overlap lo s \<Longrightarrow> chunk_inv sha pages limit overlap b s" for s
      using later assms(4,6) unfolding chunk_inv_def by (smt (verit) le_less_trans less_imp_le not_le order.trans)
    show ?thesis using sep ne assms(1) closed_inv [OF assms(1)] widen by (simp add: chunk_paragraph_def q t)
  next
    case long
    define st1 where "st1 = (if cs_text st \<noteq> [] then close_chunk sha ?bs overlap st else st)"
    have st1: "chunk_inv sha pages limit overlap lo st1" "cs_text st1 = []"
      using assms(1) closed_inv [OF assms(1)] by (auto simp: st1_def close_chunk_def)
    have "inside ?D a para" using assms(6-8) len by (simp add: inside_def)
    note sp = split_sentences_ok [OF this, of limit]
    have "plans_ok sha pages limit overlap (cs_plans st1)" using st1(1) by (simp add: chunk_inv_def)
    note f = fold_append_ok [OF conjunct1 [OF sp] this]
    let ?plans = "fold (\<lambda>(s, ps). append_plan sha ?bs s ps) (split_sentences_with_positions para a limit) (cs_plans st1)"
    have "separator_at ?D i \<or> covered sha pages ?plans i" if i: "i < b" "\<not> isspace_c (?D ! i)" for i
    proof (cases "i < lo")
      case True
      then have "separator_at ?D i \<or> covered sha pages (cs_plans st1) i" using st1 i(2) by (auto simp: chunk_inv_def)
      then show ?thesis using f by blast
    next
      case False
      then have "packed ?D (split_sentences_with_positions para a limit) i" using later [OF i(2)] sp i len assms(6) by auto
      then show ?thesis using f i(2) by blast
    qed
    moreover have "cs_positions st1 = []" using st1 by (simp add: chunk_inv_def)
    ultimately have "chunk_inv sha pages limit overlap b (st1\<lparr>cs_plans := ?plans\<rparr>)"
      using st1(2) f by (simp add: chunk_inv_def)
    then show ?thesis using long ne by (simp add: chunk_paragraph_def q t st1_def Let_def)
  next
    case add
    define st2 where "st2 = (if int (length (cs_text st)) + int (length para) + 1 > limit \<and> cs_text st \<noteq> []
      then start_with_overlap overlap (cs_text st) (cs_positions st) (flush sha ?bs st) else st)"
    have "chunk_inv sha pages limit overlap b (add_paragraph para a b st2)"
    proof (cases "int (length (cs_text st)) + int (length para) + 1 > limit \<and> cs_text st \<noteq> []")
      case True
      then have st2: "st2 = start_with_overlap overlap (cs_text st) (cs_positions st) (flush sha ?bs st)" by (simp add: st2_def)
      note o = overlap_inv [OF assms(1), folded st2] and fl = flushed_inv [OF assms(1)]
      have pl: "cs_plans st2 = append_plan sha ?bs (cs_text st) (cs_positions st) (cs_plans st)" by (simp add: st2 flush_plans)
      show ?thesis by (rule add_paragraph_inv [of _ _ _ _ _ lo]) (use o fl add assms(4-8) in \<open>auto simp: pl\<close>)
    next
      case False
      then have st2: "st2 = st" by (auto simp: st2_def)
      show ?thesis by (rule add_paragraph_inv [of _ _ _ _ _ lo]) (use False assms add in \<open>auto simp: st2 chunk_inv_def\<close>)
    qed
    then show ?thesis using add ne by (simp add: chunk_paragraph_def q t st2_def)
  qed
qed


lemma fold_paragraphs_inv:
  assumes "chunk_inv sha pages limit overlap lo st" and "set qs \<subseteq> set (paragraphs_with_positions (all_text pages))"
    and "laid (all_text pages) lo (length (all_text pages)) (map trimmed qs)"
  shows "\<exists>lo'. chunk_inv sha pages limit overlap lo' (fold (chunk_paragraph sha (page_boundaries 0 pages) limit overlap) qs st) \<and>
    gap (all_text pages) lo' (length (all_text pages))"
  using assms
proof (induction qs arbitrary: lo st)
  case (Cons q qs)
  obtain para a b where q: "trimmed q = (para, a, b)" by (rule prod_cases3)
  have l: "lo \<le> a" "gap (all_text pages) lo a" "a < b" "b \<le> length (all_text pages)" "para = slice (all_text pages) a b"
    "laid (all_text pages) b (length (all_text pages)) (map trimmed qs)" using Cons.prems(3) by (auto simp: q)
  have "chunk_inv sha pages limit overlap b (chunk_paragraph sha (page_boundaries 0 pages) limit overlap q st)"
    using chunk_paragraph_inv [OF Cons.prems(1) _ q l(1-5)] Cons.prems(2) by simp
  from Cons.IH [OF this _ l(6)] show ?case using Cons.prems(2) by simp
qed auto

lemma chunk_document_ok:
  "plans_ok sha pages limit overlap (chunk_document sha pages limit overlap) \<and>
   (\<forall>i < length (all_text pages). \<not> isspace_c (all_text pages ! i) \<longrightarrow>
      separator_at (all_text pages) i \<or> covered sha pages (chunk_document sha pages limit overlap) i)"
proof -
  let ?D = "all_text pages" and ?bs = "page_boundaries 0 pages"
  define st where "st = fold (chunk_paragraph sha ?bs limit overlap) (paragraphs_with_positions ?D) \<lparr>cs_plans = [], cs_text = [], cs_positions = []\<rparr>"
  have "chunk_inv sha pages limit overlap 0 \<lparr>cs_plans = [], cs_text = [], cs_positions = []\<rparr>"
    by (simp add: chunk_inv_def plans_ok_def)
  from fold_paragraphs_inv [OF this order_refl paragraphs_laid]
  obtain lo where lo: "chunk_inv sha pages limit overlap lo st" "gap ?D lo (length ?D)" by (auto simp: st_def)
  have "chunk_document sha pages limit overlap = append_plan sha ?bs (cs_text st) (cs_positions st) (cs_plans st)"
    by (simp add: chunk_document_def Let_def st_def [symmetric] flush_plans) (simp add: append_plan_def)
  then show ?thesis using flushed_inv [OF lo(1)] lo(2) unfolding gap_def by (metis not_le)
qed

section \<open>What a document is split into\<close>

text \<open>C22. Every chunk says where it comes from. For any pages, chunk size and overlap, the chunks are numbered from zero; the text of
  a chunk is not empty and has no white space at its ends; its characters come, in order, from
  positions of the document (white space may stand for other white space where paragraphs or sentences are joined), the pages it
  carries are those of its first and its last character, and its checksum is that of its text.\<close>

theorem chunks_track_source:
  "map pl_chunk_index (chunk_document sha pages limit overlap) = [0..<length (chunk_document sha pages limit overlap)] \<and>
   list_all (\<lambda>pl. \<exists>ps. pl_text pl \<noteq> [] \<and> stripped (pl_text pl) \<and> placed (all_text pages) ps (pl_text pl) \<and>
     all_text pages ! hd ps = hd (pl_text pl) \<and> all_text pages ! last ps = last (pl_text pl) \<and>
     pl_page_start pl = page_of pages (hd ps) \<and> pl_page_end pl = page_of pages (last ps) \<and>
     pl_checksum pl = content_checksum sha (Text (pl_text pl))) (chunk_document sha pages limit overlap)"
proof -
  have "\<exists>ps. pl_text pl \<noteq> [] \<and> stripped (pl_text pl) \<and> placed (all_text pages) ps (pl_text pl) \<and>
     all_text pages ! hd ps = hd (pl_text pl) \<and> all_text pages ! last ps = last (pl_text pl) \<and>
     pl_page_start pl = page_of pages (hd ps) \<and> pl_page_end pl = page_of pages (last ps) \<and>
     pl_checksum pl = content_checksum sha (Text (pl_text pl))" if "tracks sha pages pl ps" for pl ps
  proof -
    have t: "pl_text pl \<noteq> []" "stripped (pl_text pl)" "placed (all_text pages) ps (pl_text pl)" using that by (auto simp: tracks_def)
    have "ps \<noteq> []" using placed_length [OF t(3)] t(1) by auto
    moreover have "all_text pages ! (ps ! k) = pl_text pl ! k" if "k < length (pl_text pl)" "\<not> isspace_c (pl_text pl ! k)" for k
      using t(3) that by (auto simp: placed_def list_all2_conv_all_nth)
    ultimately have "all_text pages ! hd ps = hd (pl_text pl)" "all_text pages ! last ps = last (pl_text pl)"
      using placed_length [OF t(3)] t(1,2) by (auto simp: stripped_def hd_conv_nth last_conv_nth)
    then show ?thesis using that by (auto simp: tracks_def)
  qed
  then show ?thesis using chunk_document_ok [of sha pages limit overlap] unfolding plans_ok_def list_all_iff by blast
qed

text \<open>C21. Chunking loses nothing. Every character of the document that is not white space and not in a separator line is in a chunk, in the
  place of the chunk that is tracked to its position.\<close>

theorem chunks_lose_nothing:
  assumes "i < length (all_text pages)" and "\<not> isspace_c (all_text pages ! i)" and "\<not> separator_at (all_text pages) i"
  shows "\<exists>pl \<in> set (chunk_document sha pages limit overlap). \<exists>ps. tracks sha pages pl ps \<and>
    (i, all_text pages ! i) \<in> set (zip ps (pl_text pl))"
  using chunk_document_ok [of sha pages limit overlap] assms unfolding covered_def by blast

text \<open>C29. How long a chunk can get. A chunk is at most as long as the chunk size, the overlap and the newline between them, unless it
  has no end of a sentence inside of it: only a sentence that is too long by itself makes a longer chunk.\<close>

theorem chunk_lengths_bounded:
  "list_all (\<lambda>pl. int (length (pl_text pl)) \<le> limit + max 0 overlap + 1 \<or> no_break (pl_text pl)) (chunk_document sha pages limit overlap)"
  using chunk_document_ok [of sha pages limit overlap] by (simp add: plans_ok_def fits_text_def list_all_iff)

section \<open>A concrete document\<close>

definition sample_pages :: "(int \<times> string) list" where
  "sample_pages = [(1, ''A b.''), (2, ''C'')]"

theorem chunks_lose_nothing_witness:
  "\<exists>pl \<in> set (chunk_document id sample_pages 10 2). \<exists>ps. tracks id sample_pages pl ps \<and> (5, CHR ''C'') \<in> set (zip ps (pl_text pl))"
proof -
  have "paragraphs_with_positions (all_text sample_pages) = [(0, ''A b.''), (5, ''C'')]" by code_simp
  moreover have "\<not> is_separator ''A b.''" "\<not> is_separator ''C''" by code_simp+
  moreover have "strip ''A b.'' = ''A b.''" "strip ''C'' = ''C''" by code_simp+
  ultimately have "\<not> separator_at (all_text sample_pages) 5" by (simp add: separator_at_def trimmed_def split: prod.splits)
  moreover have "5 < length (all_text sample_pages)" "all_text sample_pages ! 5 = CHR ''C''" "\<not> isspace_c (CHR ''C'')"
    by (simp_all add: all_text_def sample_pages_def isspace_c_def)
  ultimately show ?thesis using chunks_lose_nothing [of 5 sample_pages id 10 2] by simp
qed

end
