(* ===== verification/KnowledgeRuns.thy ===== *)
theory KnowledgeRuns
  imports Knowledge
begin

text \<open>
  Runs of the in-memory knowledge store: every sequence of its operations by any number of
  callers, with what callers do in between to the document and chunk objects they share with it, and
  with the operations that slip in between the two halves of \<open>save_publication_snapshot\<close>. Deleted
  documents stay deleted until they are restored, decided publications stay decided, and an archived collection family stays
  archived.
\<close>

section \<open>Steps\<close>

text \<open>
  A configuration is the store, the addresses of document objects that callers hold, and the receipt
  that a caller of \<open>save_publication_snapshot\<close> is about to write while it holds the mutation lock.
  With that lock taken, the steps of methods that need it do not apply. The maintenance operation
  \<open>restore_deleted_document\<close> is a step for the documents of the set \<open>R\<close>: runs with
  \<open>R = UNIV\<close> use every method of the store, runs with \<open>R = - {i}\<close> restore any document
  but \<open>i\<close>.
\<close>

type_synonym kconfig = "kstore \<times> addr set \<times> publication option"

inductive kstep :: "(real \<Rightarrow> string) \<Rightarrow> string set \<Rightarrow> kconfig \<Rightarrow> kconfig \<Rightarrow> bool" for repr R where
  client_new: "kstep repr R (s, K, h) (snd (alloc d s), insert (ks_next s) K, h)"
| client_write: "a \<in> K \<Longrightarrow> kstep repr R (s, K, h) (s\<lparr>ks_heap := (ks_heap s)(a := d)\<rparr>, K, h)"
| client_chunk: "kstep repr R (s, K, h) (s\<lparr>ks_chunk_heap := c\<rparr>, K, h)"
| read_document: "get_document i t w s = (Inr r, s') \<Longrightarrow> kstep repr R (s, K, h) (s', K \<union> set_option r, h)"
| read_documents: "list_documents w c t aft n sts al s = (Inr xs, s') \<Longrightarrow> kstep repr R (s, K, h) (s', K \<union> set xs, h)"
| upsert: "a \<in> K \<Longrightarrow> kstep repr R (s, K, None) (snd (upsert_document now a s), K, None)"
| status: "kstep repr R (s, K, None) (snd (set_document_status repr clock now i st s), K, None)"
| delete: "kstep repr R (s, K, None) (snd (delete_document i s), K, None)"
| chunks: "kstep repr R (s, K, None) (snd (replace_document_chunks i cs s), K, None)"
| restore: "doc_document_id snapshot \<in> R \<Longrightarrow>
    kstep repr R (s, K, None) (snd (restore_deleted_document now snapshot cs s), K, None)"
| ensure: "kstep repr R (s, K, None) (snd (ensure_collection co s), K, None)"
| collection: "kstep repr R (s, K, None) (snd (upsert_collection co s), K, None)"
| begin_pub: "kstep repr R (s, K, None) (snd (begin_publication repr job da n s), K, None)"
| resolve: "kstep repr R (s, K, None) (snd (resolve_publication repr clock r out s), K, None)"
| repair: "kstep repr R (s, K, None) (snd (repair_deduplicated_checkpoint repr job s), K, None)"
| save_read: "snapshot_candidate repr job s = (Inr r, s') \<Longrightarrow> kstep repr R (s, K, None) (s', K, Some r)"
| save_write: "kstep repr R (s, K, Some r) (snd (write_publication r s), K, None)"
| begin_cp: "kstep repr R (s, K, h) (snd (begin_ingestion_checkpoint repr job s), K, h)"
| save_cp: "kstep repr R (s, K, h) (snd (save_ingestion_checkpoint repr job fp arts s), K, h)"
| finish_cp: "kstep repr R (s, K, h) (snd (finish_ingestion_checkpoint repr job s), K, h)"
| cancel_cp: "kstep repr R (s, K, h) (snd (request_ingestion_cancel repr job s), K, h)"
| cancel_pub: "kstep repr R (s, K, h) (snd (request_publication_cancel job s), K, h)"

abbreviation kruns :: "(real \<Rightarrow> string) \<Rightarrow> string set \<Rightarrow> kconfig \<Rightarrow> kconfig \<Rightarrow> bool" where
  "kruns repr R \<equiv> (kstep repr R)\<^sup>*\<^sup>*"

section \<open>The invariant\<close>

fun kinv :: "receipts \<Rightarrow> kconfig \<Rightarrow> bool" where
  "kinv p (s, K, h) =
     (graves_ok K s \<and> ids_distinct s \<and> table_inv p s \<and> (\<forall>r. h = Some r \<longrightarrow> candidate_for s r))"

lemma candidate_for_store [simp]:
  "candidate_for (s\<lparr>ks_heap := x1\<rparr>) r = candidate_for s r" "candidate_for (s\<lparr>ks_next := x2\<rparr>) r = candidate_for s r"
  "candidate_for (s\<lparr>ks_chunk_heap := x5\<rparr>) r = candidate_for s r"
  by (simp_all add: candidate_for_def)

lemma get_document_candidate: "candidate_for s r \<Longrightarrow> wp (get_document i t w) (\<lambda>_ u. candidate_for u r) (\<lambda>u. candidate_for u r) s"
  by (simp add: get_document_def wps split: option.splits)

lemma list_documents_state: "list_documents w c t aft n sts al s = (Inr xs, s') \<Longrightarrow> s' = s"
  by (auto simp: list_documents_def op_defs split: if_splits pyval.splits)

lemma wp_snd: "wp m (\<lambda>_. P) P s \<Longrightarrow> P (snd (m s))"
  by (simp add: wp_state)

lemma kinv_cancel:
  assumes "kinv p (s, K, h)"
  shows "kinv p (snd (request_ingestion_cancel repr job s), K, h)" "kinv p (snd (request_publication_cancel job s), K, h)"
proof -
  let ?P = "\<lambda>s. kinv p (s, K, h)"
  have mark: "wp (mark_publication_cancel job) (\<lambda>_. ?P) ?P s" if "?P s" for s
  proof -
    have "?P (snd (mark_publication_cancel job s))"
      using that receipt_ops_keep(1) [of "graves_ok K", THEN wp_snd] receipt_ops_keep(1) [of ids_distinct, THEN wp_snd]
        mark_cancel_keeps [THEN wp_snd] mark_cancel_candidate [THEN wp_snd] by (auto 0 4)
    then show ?thesis by (simp add: wp_state)
  qed
  show "?P (snd (request_ingestion_cancel repr job s))" "?P (snd (request_publication_cancel job s))"
    using cancel_op_keeps [of ?P, OF _ mark assms] by (simp_all add: wp_state)
qed

lemma kinv_checkpoint:
  assumes "kinv p (s, K, h)"
  shows "kinv p (snd (begin_ingestion_checkpoint repr job s), K, h)"
    "kinv p (snd (save_ingestion_checkpoint repr job fp arts s), K, h)"
    "kinv p (snd (finish_ingestion_checkpoint repr job s), K, h)"
    "kinv p (snd (repair_deduplicated_checkpoint repr job s), K, h)"
  using checkpoint_ops_keep [of "\<lambda>s. kinv p (s, K, h)", OF _ assms] by (simp_all add: wp_state)

lemma kinv_pub:
  assumes "kinv p (s, K, None)"
  shows "kinv p (snd (begin_publication repr job da n s), K, None)"
    "kinv p (snd (resolve_publication repr clock r out s), K, None)"
  using assms receipt_ops_keep(3,4) [of "graves_ok K", THEN wp_snd] receipt_ops_keep(3,4) [of ids_distinct, THEN wp_snd]
    begin_keeps [THEN wp_snd] resolve_keeps [THEN wp_snd] by auto

lemma kinv_save:
  "kinv p (s, K, None) \<Longrightarrow> snapshot_candidate repr job s = (Inr r, s') \<Longrightarrow> kinv p (s', K, Some r)"
  "kinv q (u, L, Some r) \<Longrightarrow> kinv q (snd (write_publication r u), L, None)"
  using snapshot_candidate_ok [of p s repr job, THEN wp_Inr] receipt_ops_keep(2) [of "graves_ok L", THEN wp_snd]
    receipt_ops_keep(2) [of ids_distinct, THEN wp_snd] write_candidate_keeps [THEN wp_snd] by (auto 0 4)

lemma kinv_documents:
  assumes "kinv p (s, K, None)"
  shows "a \<in> K \<Longrightarrow> kinv p (snd (upsert_document now a s), K, None)"
    "kinv p (snd (set_document_status repr clock now i st s), K, None)"
    "kinv p (snd (delete_document i s), K, None)"
    "kinv p (snd (replace_document_chunks i cs s), K, None)"
    "kinv p (snd (restore_deleted_document now snapshot cs s), K, None)"
    "kinv p (snd (ensure_collection co s), K, None)"
    "kinv p (snd (upsert_collection co s), K, None)"
  using assms upsert_graves [THEN wp_snd] set_status_graves [THEN wp_snd] delete_graves [THEN wp_snd]
    replace_chunks_graves [THEN wp_snd] restore_graves [THEN wp_snd] restore_keeps(1,2) [THEN wp_snd] document_ops_ids [THEN wp_snd] document_ops_table [THEN wp_snd]
    collection_ops_keep [of "\<lambda>s. kinv p (s, K, None)", THEN wp_snd] by auto

lemma kinv_reads:
  assumes "kinv p (s, K, h)"
  shows "get_document i t w s = (Inr r, s') \<Longrightarrow> kinv p (s', K \<union> set_option r, h)"
    "list_documents ws cl tn aft n sts al s = (Inr xs, s') \<Longrightarrow> kinv p (s', K \<union> set xs, h)"
proof -
  assume g: "get_document i t w s = (Inr r, s')"
  show "kinv p (s', K \<union> set_option r, h)"
    using assms wp_Inr [OF get_document_graves g] wp_Inr [OF document_ops_ids(2) g] wp_Inr [OF document_ops_table(2) g]
      wp_Inr [OF get_document_candidate g] by auto
next
  assume l: "list_documents ws cl tn aft n sts al s = (Inr xs, s')"
  show "kinv p (s', K \<union> set xs, h)"
    using assms list_documents_state [OF l] wp_Inr [OF list_documents_graves l] by auto
qed

declare kinv.simps [simp del]

lemma kinv_step: "kstep repr R c c' \<Longrightarrow> kinv p c \<Longrightarrow> kinv p c'"
proof (induction rule: kstep.induct)
  case (client_new s K h d)
  then show ?case using graves_alloc(2) [of K s d] by (auto simp: kinv.simps alloc_def op_defs sbind_def)
next
  case (client_write a K s h d)
  then show ?case using graves_write [of K s d a] graves_known [of K s a] by (auto simp: kinv.simps)
next
  case client_chunk
  then show ?case by (simp add: kinv.simps)
qed (fact kinv_cancel kinv_checkpoint kinv_pub kinv_save kinv_documents kinv_reads
  | rule kinv_cancel kinv_checkpoint kinv_pub kinv_save kinv_documents kinv_reads; assumption)+

lemma kinv_runs: "kruns repr R c c' \<Longrightarrow> kinv p c \<Longrightarrow> kinv p c'"
  by (induction rule: rtranclp_induct) (auto intro: kinv_step)

lemma kinv_start: "kinv [] (empty_kstore h ch, {}, None)"
  by (simp add: kinv.simps graves_ok_def ids_distinct_def table_inv_def receipts_ok_def table_evolves_def empty_kstore_def)

text \<open>A reachable configuration satisfies the invariant, from its own receipts on.\<close>

lemma kinv_reachable:
  assumes "kruns repr R (empty_kstore h ch, {}, None) (s, K, v)"
  shows "kinv (ps_publications s) (s, K, v)"
  using kinv_runs [OF assms kinv_start] by (auto simp: kinv.simps table_inv_def)

section \<open>Deleted documents\<close>

lemma emptied_step: "kstep repr R c c' \<Longrightarrow> i \<notin> R \<Longrightarrow> emptied i (fst c) \<Longrightarrow> emptied i (fst c')"
proof (induction rule: kstep.induct)
  case (client_new s K h d)
  then show ?case by (simp add: alloc_def op_defs sbind_def)
next
  case (read_document j t w s r s' K h)
  then show ?case using wp_Inr [OF document_ops_emptied(2) read_document.hyps] by simp
next
  case (read_documents ws cl tn aft n sts al s xs s' K h)
  then show ?case using list_documents_state [OF read_documents.hyps] by simp
next
  case (save_read job s r s' K)
  then show ?case using wp_Inr [OF receipt_ops_keep(5) [of "emptied i"] save_read.hyps] by simp
next
  case (restore snapshot s K now cs)
  then show ?case using restore_keeps(3) [THEN wp_snd, of i s snapshot] by auto
next
  case (cancel_cp s K h job)
  then show ?case
    using cancel_op_keeps(1) [of "emptied i", THEN wp_snd] receipt_ops_keep(1) [of "emptied i"] by simp
next
  case (cancel_pub s K h job)
  then show ?case
    using cancel_op_keeps(2) [of "emptied i", THEN wp_snd] receipt_ops_keep(1) [of "emptied i"] by simp
qed (use document_ops_emptied [THEN wp_snd] collection_ops_keep [of "emptied i", THEN wp_snd]
       receipt_ops_keep [of "emptied i", THEN wp_snd] checkpoint_ops_keep [of "emptied i", THEN wp_snd] in simp_all)

lemma emptied_runs: "kruns repr R c c' \<Longrightarrow> i \<notin> R \<Longrightarrow> emptied i (fst c) \<Longrightarrow> emptied i (fst c')"
  by (induction rule: rtranclp_induct) (auto intro: emptied_step)

lemma delete_empties:
  "map_of (ks_documents s) i \<noteq> None \<Longrightarrow> emptied i (snd (delete_document i s))"
  by (auto simp: delete_document_def alloc_def deref_def bind_document_def bury_def emptied_def delete_conv' op_defs sbind_def
      split: option.splits)

lemma get_document_buried:
  assumes "i \<in> ks_tombstones s" and "get_document i t w s = (r, u)"
  shows "r = Inr None \<or> (\<exists>a. r = Inr (Some a) \<and> doc_status (ks_heap u a) = ''deleted'')"
proof -
  have "wp (get_document i t w) (\<lambda>x u. x = None \<or> (\<exists>a. x = Some a \<and> doc_status (ks_heap u a) = ''deleted'')) (\<lambda>_. False) s"
    using assms(1) by (auto simp: get_document_def wps split: option.splits)
  then show ?thesis using assms(2) by (auto simp: wp_def split: sum.splits)
qed

text \<open>C7. Deleted documents stay deleted until they are restored, even though callers hold references to the stored
  objects: after any run of the store, restores included, and \<open>delete_document\<close> on a stored document, whatever
  operations follow except \<open>restore_deleted_document\<close> for this very document (other documents may be
  restored) and whatever callers assign to the document and chunk objects they hold, the document has no chunks,
  reading it returns nothing or a document of status \<open>deleted\<close>, no listing contains it, and no other status
  can be set.\<close>

theorem deleted_stays_deleted:
  assumes "kruns repr UNIV (empty_kstore h ch, {}, None) (s, K, None)" and "map_of (ks_documents s) i \<noteq> None"
    and "kruns repr (- {i}) (snd (delete_document i s), K, None) (s', K', v)"
  shows "get_chunks i s' = (Inr [], s') \<and>
    (\<forall>t w r u. get_document i t w s' = (r, u) \<longrightarrow>
       r = Inr None \<or> (\<exists>a. r = Inr (Some a) \<and> doc_status (ks_heap u a) = ''deleted'')) \<and>
    (\<forall>ws cl tn aft n sts al xs u a. list_documents ws cl tn aft n sts al s' = (Inr xs, u) \<longrightarrow>
       map_of (ks_documents s') i = Some a \<longrightarrow> a \<notin> set xs) \<and>
    (\<forall>clock now st. st \<noteq> ''deleted'' \<longrightarrow> (\<exists>e. fst (set_document_status repr clock now i st s') = Inl e))"
proof -
  have inv: "kinv (ps_publications s) (s', K', v)"
    using kinv_runs [OF assms(3) kinv_documents(3) [OF kinv_reachable [OF assms(1)]]] .
  have e: "emptied i s'" using emptied_runs [OF assms(3), of i] delete_empties [OF assms(2)] by simp
  then have buried: "i \<in> ks_tombstones s'" by (simp add: emptied_def)
  have chunks: "get_chunks i s' = (Inr [], s')"
    using e by (auto simp: get_chunks_def emptied_def op_defs split: option.splits)
  have listed: "a \<notin> set xs"
    if l: "list_documents ws cl tn aft n sts al s' = (Inr xs, u)" and a: "map_of (ks_documents s') i = Some a" for ws cl tn aft n sts al xs u a
  proof -
    have "graves_ok (K' \<union> set xs) s'"
      using wp_Inr [OF list_documents_graves l] inv by (auto simp: kinv.simps)
    then show ?thesis using graves_known [of "K' \<union> set xs" s' a i] a buried by auto
  qed
  have status: "\<exists>e. fst (set_document_status repr clock now i st s') = Inl e" if "st \<noteq> ''deleted''" for clock now st
  proof -
    have "wp (set_document_status repr clock now i st) (\<lambda>_ _. False) (\<lambda>_. True) s'"
      unfolding set_document_status_def wp_bind wp_simple wp_case_option
      using that buried by (auto simp: wps split: option.split)
    then show ?thesis by (auto simp: wp_def split: prod.splits sum.splits)
  qed
  show ?thesis using chunks get_document_buried [OF buried] listed status by blast
qed

section \<open>Decided publications\<close>

text \<open>C8. A decided publication is final: once the receipt of a job says that its publication was committed
  or cancelled, every later state of the store has a receipt for that job with the same outcome, attempt, document,
  document owner, times and finish, whatever is begun, saved, resolved, published, cancelled, deleted or restored in between.\<close>

theorem decided_publication_final:
  assumes "kruns repr UNIV (empty_kstore h ch, {}, None) (s, K, v)" and "map_of (ps_publications s) k = Some r"
    and "pb_outcome r \<in> {Committed_o, Cancelled_o}" and "kruns repr UNIV (s, K, v) (s', K', v')"
  shows "\<exists>r'. map_of (ps_publications s') k = Some r' \<and> pb_outcome r' = pb_outcome r \<and> same_facts r r' \<and>
    finish_no r' = finish_no r \<and> (pb_cancel_requested r \<longrightarrow> pb_cancel_requested r')"
proof -
  have "kinv (ps_publications s) (s', K', v')"
    using kinv_runs [OF assms(4) kinv_reachable [OF assms(1)]] .
  then obtain r' where "map_of (ps_publications s') k = Some r'" "evolves r r'"
    using assms(2) unfolding kinv.simps table_inv_def table_evolves_def by blast
  then show ?thesis using assms(3) by (auto simp: evolves_def same_receipt_def)
qed

text \<open>C26. Publishing and its receipts go together: when a document is published through the store, every pending
  receipt for it had no request to cancel and is committed afterwards with its facts unchanged, and all other receipts
  stay as they are; when a pending receipt for it has such a request, publishing is refused and the store is
  unchanged.\<close>

theorem publish_commits_receipts:
  assumes "map_of (ks_documents s) i = Some a"
  shows "(\<forall>s' k r. set_document_status repr clock now i ''published'' s = (Inr (), s') \<and> map_of (ps_publications s) k = Some r \<longrightarrow>
      doc_status (ks_heap s' a) = ''published'' \<and>
      (if pb_outcome r = Pending_o \<and> publication_matches r (ks_heap s a)
       then \<not> pb_cancel_requested r \<and>
         (\<exists>r'. map_of (ps_publications s') k = Some r' \<and> pb_outcome r' = Committed_o \<and> same_facts r r')
       else map_of (ps_publications s') k = Some r)) \<and>
    ((\<exists>k r. map_of (ps_publications s) k = Some r \<and> pb_outcome r = Pending_o \<and> pb_cancel_requested r \<and>
        publication_matches r (ks_heap s a)) \<longrightarrow>
     set_document_status repr clock now i ''published'' s =
       (Inl (OwnershipLostError ''publication cancelled before commit''), s))"
proof (intro conjI allI impI)
  let ?m = "set_document_status repr clock now i ''published''"
  have pub: "''published'' \<in> set DOCUMENT_STATUSES" by (simp add: DOCUMENT_STATUSES_def)
  assume "\<exists>k r. map_of (ps_publications s) k = Some r \<and> pb_outcome r = Pending_o \<and> pb_cancel_requested r \<and>
        publication_matches r (ks_heap s a)"
  then have "list_ex (\<lambda>(k, r). pb_outcome r = Pending_o \<and> pb_cancel_requested r \<and> publication_matches r (ks_heap s a))
      (ps_publications s)"
    by (auto simp: list_ex_iff dest!: map_of_SomeD)
  then show "?m s = (Inl (OwnershipLostError ''publication cancelled before commit''), s)"
    using assms pub by (simp add: set_document_status_def deref_def)
next
  fix s' k r
  assume run: "set_document_status repr clock now i ''published'' s = (Inr (), s') \<and> map_of (ps_publications s) k = Some r"
  let ?Q = "\<lambda>t. doc_status (ks_heap t a) = ''published'' \<and>
      commit_receipts repr clock (ks_heap s a) (ps_publications s) = Inr (ps_publications t) \<and>
      \<not> list_ex (\<lambda>(k, r). pb_outcome r = Pending_o \<and> pb_cancel_requested r \<and> publication_matches r (ks_heap s a))
          (ps_publications s)"
  have obj: "wp (on_object a (materialize_lineage now b)) (\<lambda>_ t. doc_status (ks_heap t a) = ''published'') (\<lambda>_. True) t"
    if "doc_status (ks_heap t a) = ''published''" for b t
    by (rule wp_on_object [where P = "\<lambda>d. doc_status d = ''published''"]) (use that in \<open>auto intro: materialize_keeps\<close>)
  have "wp (set_document_status repr clock now i ''published'') (\<lambda>_. ?Q) (\<lambda>_. True) s"
    unfolding set_document_status_def wp_bind wp_simple wp_case_option
    using assms by (auto simp: wps split: sum.splits intro!: wp_mono [OF obj])
  then have Q: "?Q s'" using run by (auto simp: wp_def)
  then show "doc_status (ks_heap s' a) = ''published''" by simp
  show "if pb_outcome r = Pending_o \<and> publication_matches r (ks_heap s a)
       then \<not> pb_cancel_requested r \<and>
         (\<exists>r'. map_of (ps_publications s') k = Some r' \<and> pb_outcome r' = Committed_o \<and> same_facts r r')
       else map_of (ps_publications s') k = Some r"
    using commit_receipts_map [of repr clock "ks_heap s a" "ps_publications s" "ps_publications s'" k] Q run
    by (auto simp: list_ex_iff dest!: terminal_publication_Inr dest: map_of_SomeD)
qed

section \<open>Archived collections\<close>

definition family :: "string list" where
  "family = catalog_collection_ids ''rag_phase0''"

text \<open>Rows are keyed by their own fields, and one row of the family is archived.\<close>

definition rows_ok :: "kstore \<Rightarrow> bool" where
  "rows_ok s = (\<forall>k c. map_of (ks_collections s) k = Some c \<longrightarrow> collection_key c = k)"

definition archived_in :: "string \<Rightarrow> string \<Rightarrow> kstore \<Rightarrow> bool" where
  "archived_in t w s = (\<exists>k c. k \<in> set family \<and> map_of (ks_collections s) (t, w, k) = Some c \<and> co_status c = ''archived'')"

lemma first_min_in: "first_min f xs = Some x \<Longrightarrow> x \<in> set xs"
  by (induction xs arbitrary: x) (auto split: option.splits if_splits)

lemma first_min_None [simp]: "first_min f xs = None \<longleftrightarrow> xs = []"
  by (cases xs) (auto split: option.splits if_splits)

lemma first_min_le: "first_min f xs = Some x \<Longrightarrow> y \<in> set xs \<Longrightarrow> f x \<le> f y"
proof (induction xs arbitrary: x)
  case (Cons z xs)
  show ?case
  proof (cases "first_min f xs")
    case None
    then show ?thesis using Cons.prems by auto
  next
    case (Some m)
    then show ?thesis
      using Cons.prems Cons.IH [OF Some] by (auto split: if_splits)
  qed
qed simp

lemma alias_ids:
  "canonical_catalog_id c = ''rag_phase0'' \<and> catalog_collection_ids c = family \<or>
   canonical_catalog_id c = c \<and> catalog_collection_ids c = [c] \<and> c \<notin> set family"
proof (cases "map_of COLLECTION_ALIASES (strip c)")
  case None
  then have c: "canonical_catalog_id c = c" "strip c \<notin> {''rag_phase0'', ''cvg_master_rag'', ''rickvet_documents''}"
    by (auto simp: canonical_catalog_id_def COLLECTION_ALIASES_def split: if_splits)
  then have "c \<notin> {''rag_phase0'', ''cvg_master_rag'', ''rickvet_documents''}"
    using strip_id [of c] by (auto simp: stripped_def isspace_c_def)
  then show ?thesis
    using c by (auto simp: catalog_collection_ids_def family_def canonical_catalog_id_def COLLECTION_ALIASES_def strip_id stripped_def
        isspace_c_def)
next
  case (Some x)
  then have "canonical_catalog_id c = ''rag_phase0''"
    by (auto simp: canonical_catalog_id_def COLLECTION_ALIASES_def split: if_splits)
  moreover have "canonical_catalog_id ''rag_phase0'' = ''rag_phase0''"
    by (simp add: canonical_catalog_id_def COLLECTION_ALIASES_def strip_id stripped_def isspace_c_def)
  ultimately show ?thesis by (simp add: catalog_collection_ids_def family_def)
qed

lemma select_archived:
  assumes "rows_ok s" and "catalog_collection_ids c = family"
  shows "(\<exists>x. select_catalog_collection (map (\<lambda>k. map_of (ks_collections s) (t, w, k)) (catalog_collection_ids c)) c = Some x \<and>
      co_status x = ''archived'') \<longleftrightarrow> archived_in t w s"
    (is "(\<exists>x. ?sel = Some x \<and> _) \<longleftrightarrow> _")
proof -
  let ?f = "\<lambda>x. (co_status x \<noteq> ''archived'', index_of family (co_collection_id x))"
  let ?cs = "concat (map (\<lambda>x. case x of None \<Rightarrow> [] | Some y \<Rightarrow> if co_collection_id y \<in> set family then [y] else [])
      (map (\<lambda>k. map_of (ks_collections s) (t, w, k)) family))"
  have sel: "?sel = first_min ?f ?cs" by (simp add: select_catalog_collection_def assms(2))
  have in_cs: "y \<in> set ?cs \<longleftrightarrow> (\<exists>k. k \<in> set family \<and> map_of (ks_collections s) (t, w, k) = Some y)" for y
  proof -
    have key: "map_of (ks_collections s) (t, w, k) = Some y \<Longrightarrow> co_collection_id y = k" for k
      using assms(1) by (auto simp: rows_ok_def collection_key_def)
    have one: "y \<in> set (case r of None \<Rightarrow> [] | Some z \<Rightarrow> if co_collection_id z \<in> set family then [z] else []) \<longleftrightarrow>
        r = Some y \<and> co_collection_id y \<in> set family" for r
      by (auto split: option.split)
    show ?thesis unfolding set_concat set_map UN_iff image_image one using key by metis
  qed
  show ?thesis
  proof
    assume "\<exists>x. ?sel = Some x \<and> co_status x = ''archived''"
    then obtain x where x: "first_min ?f ?cs = Some x" "co_status x = ''archived''" unfolding sel by blast
    have "x \<in> set ?cs" using x(1) by (rule first_min_in)
    then show "archived_in t w s" using x(2) unfolding in_cs archived_in_def by metis
  next
    assume "archived_in t w s"
    then obtain y where y: "y \<in> set ?cs" "co_status y = ''archived''" unfolding archived_in_def in_cs by blast
    have "?cs \<noteq> []" using y(1) by (metis empty_iff list.set(1))
    then have "first_min ?f ?cs \<noteq> None" unfolding first_min_None .
    then obtain x where x: "first_min ?f ?cs = Some x" unfolding not_None_eq by blast
    have "?f x \<le> ?f y" using first_min_le [OF x y(1)] .
    then have "co_status x = ''archived''" using y(2) by (simp add: less_eq_prod_def)
    then show "\<exists>x. ?sel = Some x \<and> co_status x = ''archived''" using x sel by auto
  qed
qed

lemma get_collection_archived:
  assumes "rows_ok s" and "catalog_collection_ids c = family" and "strip tenant \<noteq> []"
  shows "(\<exists>x. get_collection w c tenant s = (Inr (Some x), s) \<and> co_status x = ''archived'') \<longleftrightarrow> archived_in (strip tenant) w s"
  using select_archived [OF assms(1,2), of "strip tenant" w] assms(3) by (auto simp: get_collection_def op_defs)

text \<open>A row that may be put into the table while the family of that scope is archived.\<close>

definition harmless :: "string \<Rightarrow> string \<Rightarrow> collection \<Rightarrow> bool" where
  "harmless t w d =
     (collection_status_ok d \<longrightarrow> co_status d = ''archived'' \<or>
      \<not> (co_tenant_id d = t \<and> co_workspace_id d = w \<and> co_collection_id d \<in> set family))"

lemma archived_put:
  assumes "archived_in t w s" and "rows_ok s" and "harmless t w c" and "collection_status_ok c"
  shows "archived_in t w (s\<lparr>ks_collections := AList.update (collection_key c) c (ks_collections s)\<rparr>)"
    "rows_ok (s\<lparr>ks_collections := AList.update (collection_key c) c (ks_collections s)\<rparr>)"
proof -
  let ?s = "s\<lparr>ks_collections := AList.update (collection_key c) c (ks_collections s)\<rparr>"
  obtain k x where k: "k \<in> set family" "map_of (ks_collections s) (t, w, k) = Some x" "co_status x = ''archived''"
    using assms(1) by (auto simp: archived_in_def)
  define y where "y = (if collection_key c = (t, w, k) then c else x)"
  have "map_of (ks_collections ?s) (t, w, k) = Some y" using k(2) by (simp add: y_def update_conv' eq_commute)
  moreover have "co_status y = ''archived''"
    using k(1,3) assms(3,4) by (auto simp: y_def harmless_def collection_key_def)
  ultimately show "archived_in t w ?s" using k(1) unfolding archived_in_def by blast
  show "rows_ok ?s" using assms(2) by (auto simp: rows_ok_def update_conv')
qed

lemma selected_row:
  assumes "rows_ok s" and "select_catalog_collection (map (\<lambda>k. map_of (ks_collections s) (t, w, k)) ids) c = Some x"
  shows "co_tenant_id x = t \<and> co_workspace_id x = w"
proof -
  obtain k where "map_of (ks_collections s) (t, w, k) = Some x"
    using first_min_in [OF assms(2) [unfolded select_catalog_collection_def Let_def]] by (auto split: option.splits if_splits)
  then show ?thesis using assms(1) by (auto simp: rows_ok_def collection_key_def)
qed

lemma mutation_archived:
  assumes r: "rows_ok s" and a: "archived_in t w s" and t: "strip t = t"
  shows "wp (collection_mutation b c) (\<lambda>x u. u = s \<and> (\<forall>d. x = Inr d \<longrightarrow> harmless t w d)) (\<lambda>u. u = s) s"
proof -
  consider "canonical_catalog_id (co_collection_id c) = ''rag_phase0''"
    | "canonical_catalog_id (co_collection_id c) = co_collection_id c"
      "catalog_collection_ids (co_collection_id c) = [co_collection_id c]" "co_collection_id c \<notin> set family"
    using alias_ids [of "co_collection_id c"] by blast
  then show ?thesis
  proof cases
    case 1
    have fam: "catalog_collection_ids ''rag_phase0'' = family" by (simp add: family_def)
    have len: "length (catalog_collection_ids ''rag_phase0'') > 1"
      by (simp add: catalog_collection_ids_def canonical_catalog_id_def COLLECTION_ALIASES_def strip_id stripped_def isspace_c_def)
    define sel where "sel = select_catalog_collection (map (\<lambda>k. map_of (ks_collections s)
        (strip (co_tenant_id c), co_workspace_id c, k)) (catalog_collection_ids ''rag_phase0'')) ''rag_phase0''"
    have arch: "\<exists>x. sel = Some x \<and> co_status x = ''archived''" if "strip (co_tenant_id c) = t" "co_workspace_id c = w"
      using select_archived [OF r fam, of t w] a that by (simp add: sel_def)
    have row: "co_tenant_id x = strip (co_tenant_id c) \<and> co_workspace_id x = co_workspace_id c" if "sel = Some x" for x
      using selected_row [OF r that [unfolded sel_def]] .
    have new: "harmless t w (c\<lparr>co_collection_id := i\<rparr>)" if "sel = None" for i
      using arch that t by (auto simp: harmless_def)
    have copied: "harmless t w (x\<lparr>co_collection_id := i\<rparr>)" if "sel = Some x" "co_status x \<noteq> ''archived''" for x i
      using arch row [OF that(1)] that by (auto simp: harmless_def)
    have over: "harmless t w (c\<lparr>co_collection_id := i\<rparr>)" if "sel = Some x" "\<not> (co_status x = ''archived'' \<and> co_status c = ''active'')" for x i
      using arch that t by (auto simp: harmless_def collection_status_ok_def)
    show ?thesis
    proof (cases sel)
      case None
      then show ?thesis
        unfolding collection_mutation_def get_collection_def Let_def 1 wp_bind wp_if wp_simple wp_of_result sel_def [symmetric]
        using new len by (simp add: wp_simple split: sum.split)
    next
      case (Some x)
      then show ?thesis
        unfolding collection_mutation_def get_collection_def Let_def 1 wp_bind wp_if wp_simple wp_of_result sel_def [symmetric]
        using copied over len by (simp add: wp_simple wp_if split: sum.split)
    qed
  next
    case 2
    then show ?thesis
      by (auto simp: collection_mutation_def wps harmless_def split: sum.splits)
  qed
qed

lemma collection_ops_archived:
  assumes "rows_ok s" and "archived_in t w s" and "strip t = t"
  shows "wp (ensure_collection c) (\<lambda>_ u. rows_ok u \<and> archived_in t w u) (\<lambda>u. rows_ok u \<and> archived_in t w u) s"
    and "wp (upsert_collection c) (\<lambda>_ u. rows_ok u \<and> archived_in t w u) (\<lambda>u. rows_ok u \<and> archived_in t w u) s"
  unfolding ensure_collection_def upsert_collection_def wp_bind
  by (rule wp_mono [OF mutation_archived [OF assms]];
      use assms archived_put [OF assms(2,1)] in \<open>auto simp: wps put_collection_def split: sum.split option.split\<close>)+

lemma rows_put: "rows_ok s \<Longrightarrow> rows_ok (s\<lparr>ks_collections := AList.update (collection_key c) c (ks_collections s)\<rparr>)"
  by (auto simp: rows_ok_def update_conv')

lemma collection_ops_rows:
  "rows_ok s \<Longrightarrow> wp (ensure_collection c) (\<lambda>_. rows_ok) rows_ok s"
  "rows_ok s' \<Longrightarrow> wp (upsert_collection c) (\<lambda>_. rows_ok) rows_ok s'"
  unfolding ensure_collection_def upsert_collection_def wp_bind
  by (auto intro!: collection_mutation_reads rows_put simp: wps put_collection_def split: sum.split option.split)

text \<open>
  Properties of the catalogue: the operations other than the two on collections do not touch it.
\<close>

definition catalogue_is :: "((string \<times> string \<times> string) \<times> collection) list \<Rightarrow> kstore \<Rightarrow> bool" where
  "catalogue_is C s = (ks_collections s = C)"

lemma catalogue_simps [simp]:
  "catalogue_is C (s\<lparr>ps_publications := p\<rparr>) = catalogue_is C s"
  "catalogue_is C (s\<lparr>ps_checkpoints := c\<rparr>) = catalogue_is C s"
  "catalogue_is C (s\<lparr>ks_heap := x\<rparr>) = catalogue_is C s"
  "catalogue_is C (s\<lparr>ks_next := n\<rparr>) = catalogue_is C s"
  "catalogue_is C (s\<lparr>ks_documents := z\<rparr>) = catalogue_is C s"
  "catalogue_is C (s\<lparr>ks_chunk_heap := h\<rparr>) = catalogue_is C s"
  "catalogue_is C (s\<lparr>ks_chunks := y\<rparr>) = catalogue_is C s"
  "catalogue_is C (s\<lparr>ks_tombstones := g\<rparr>) = catalogue_is C s"
  "catalogue_is (ks_collections s) s"
  by (simp_all add: catalogue_is_def)

lemma document_ops_catalogue:
  assumes "catalogue_is C s"
  shows "wp (upsert_document now a) (\<lambda>_. catalogue_is C) (catalogue_is C) s"
    and "wp (get_document j t w) (\<lambda>_. catalogue_is C) (catalogue_is C) s"
    and "wp (set_document_status repr clock now j st) (\<lambda>_. catalogue_is C) (catalogue_is C) s"
    and "wp (delete_document j) (\<lambda>_. catalogue_is C) (catalogue_is C) s"
    and "wp (replace_document_chunks j chs) (\<lambda>_. catalogue_is C) (catalogue_is C) s"
proof -
  have obj: "catalogue_is C t \<Longrightarrow> (\<And>u. catalogue_is C u \<Longrightarrow> Q u) \<Longrightarrow> wp (on_object a m) (\<lambda>_. Q) (catalogue_is C) t" for a m Q t
    by (auto simp: wp_def on_object_def split: prod.split sum.split)
  have "wp (store_document i b) (\<lambda>_. catalogue_is C) (catalogue_is C) t" if "catalogue_is C t" for i b t
    using that by (simp add: store_document_def wps)
  then have stored: "wp (replace_stored now i slot b) (\<lambda>_. catalogue_is C) (catalogue_is C) t" if "catalogue_is C t" for i slot b t
    using that by (auto simp: replace_stored_def wps split: sum.splits)
  show "wp (upsert_document now a) (\<lambda>_. catalogue_is C) (catalogue_is C) s"
    unfolding upsert_document_def Let_def wp_bind wp_simple wp_heap_ops(2)
    using assms by (auto intro!: obj stored)
  show "wp (get_document j t w) (\<lambda>_. catalogue_is C) (catalogue_is C) s"
    using assms by (simp add: get_document_def wps split: option.splits)
  show "wp (set_document_status repr clock now j st) (\<lambda>_. catalogue_is C) (catalogue_is C) s"
    unfolding set_document_status_def wp_bind wp_simple wp_case_option
    using assms by (auto simp: wps split: option.split sum.splits intro!: obj)
  show "wp (delete_document j) (\<lambda>_. catalogue_is C) (catalogue_is C) s"
    using assms by (simp add: delete_document_def wps split: option.splits)
  show "wp (replace_document_chunks j chs) (\<lambda>_. catalogue_is C) (catalogue_is C) s"
    unfolding replace_document_chunks_def wp_bind using assms by (auto simp: wps split: option.splits sum.splits)
qed

lemma restore_catalogue:
  "catalogue_is C s \<Longrightarrow> wp (restore_deleted_document now snapshot cs) (\<lambda>_. catalogue_is C) (catalogue_is C) s"
  by (rule restore_rule) (auto intro: document_ops_catalogue)

lemma catalogue_step: "kstep repr R c c' \<Longrightarrow> catalogue_is (ks_collections (fst c)) (fst c') \<or>
  (\<exists>co. fst c' = snd (ensure_collection co (fst c))) \<or> (\<exists>co. fst c' = snd (upsert_collection co (fst c)))"
proof (induction rule: kstep.induct)
  case (client_new s K h d)
  then show ?case by (simp add: alloc_def op_defs sbind_def)
next
  case (read_document j t w s r s' K h)
  then show ?case using wp_Inr [OF document_ops_catalogue(2) read_document.hyps] by simp
next
  case (read_documents ws cl tn aft n sts al s xs s' K h)
  then show ?case using list_documents_state [OF read_documents.hyps] by simp
next
  case (save_read job s r s' K)
  then show ?case using wp_Inr [OF receipt_ops_keep(5) [of "catalogue_is (ks_collections s)"] save_read.hyps] by simp
next
  case (cancel_cp s K h job)
  then show ?case
    using cancel_op_keeps(1) [of "catalogue_is (ks_collections s)", THEN wp_snd]
      receipt_ops_keep(1) [of "catalogue_is (ks_collections s)"] by simp
next
  case (cancel_pub s K h job)
  then show ?case
    using cancel_op_keeps(2) [of "catalogue_is (ks_collections s)", THEN wp_snd]
      receipt_ops_keep(1) [of "catalogue_is (ks_collections s)"] by simp
next
  case (restore snapshot s K now cs)
  then show ?case using restore_catalogue [THEN wp_snd] by simp
next
  case (ensure s K co)
  then show ?case by auto
next
  case (collection s K co)
  then show ?case by auto
qed (use document_ops_catalogue [THEN wp_snd] receipt_ops_keep [of "catalogue_is C" for C, THEN wp_snd]
       checkpoint_ops_keep [of "catalogue_is C" for C, THEN wp_snd] in simp_all)

lemma rows_catalogue: "catalogue_is (ks_collections s) u \<Longrightarrow> rows_ok u = rows_ok s \<and> archived_in t w u = archived_in t w s"
  by (simp add: rows_ok_def archived_in_def catalogue_is_def)

lemma rows_runs: "kruns repr R c c' \<Longrightarrow> rows_ok (fst c) \<Longrightarrow> rows_ok (fst c')"
proof (induction rule: rtranclp_induct)
  case (step y z)
  then show ?case
    using catalogue_step [OF step(2)] collection_ops_rows [THEN wp_snd, of "fst y"] rows_catalogue [of "fst y" "fst z"] by auto
qed

lemma archived_runs:
  assumes "strip t = t"
  shows "kruns repr R c c' \<Longrightarrow> rows_ok (fst c) \<and> archived_in t w (fst c) \<Longrightarrow> rows_ok (fst c') \<and> archived_in t w (fst c')"
proof (induction rule: rtranclp_induct)
  case (step y z)
  then show ?case
    using catalogue_step [OF step(2)] collection_ops_archived [THEN wp_snd, of "fst y" t w] assms
      rows_catalogue [of "fst y" "fst z" t w] by auto
qed

text \<open>An archived collection family stays archived: when a collection under one of the alias names of the
  canonical collection reads as archived in a workspace, it reads as archived after every run of the store, under every
  one of these names, whatever collections are ensured or upserted.\<close>

theorem archived_family_final:
  assumes "kruns repr UNIV (empty_kstore h ch, {}, None) (s, K, v)" and "kruns repr UNIV (s, K, v) (s', K', v')"
    and "map_of COLLECTION_ALIASES (strip c) \<noteq> None" and "map_of COLLECTION_ALIASES (strip c') \<noteq> None"
    and "get_collection w c tenant s = (Inr (Some x), s)" and "co_status x = ''archived''"
  shows "\<exists>y. get_collection w c' tenant s' = (Inr (Some y), s') \<and> co_status y = ''archived''"
proof -
  have fam: "catalog_collection_ids d = family" if "map_of COLLECTION_ALIASES (strip d) \<noteq> None" for d
    using alias_ids [of d] that
    by (auto simp: family_def catalog_collection_ids_def canonical_catalog_id_def COLLECTION_ALIASES_def split: if_splits)
  have t: "strip tenant \<noteq> []" using assms(5) by (auto simp: get_collection_def op_defs split: if_splits)
  have rows: "rows_ok s" using rows_runs [OF assms(1)] by (simp add: rows_ok_def empty_kstore_def)
  have "archived_in (strip tenant) w s"
    using get_collection_archived [OF rows fam [OF assms(3)] t, of w] assms(5,6) by blast
  then have "rows_ok s' \<and> archived_in (strip tenant) w s'"
    using archived_runs [OF strip_idem assms(2), of tenant w] rows by simp
  then show ?thesis using get_collection_archived [of s' c' tenant w] fam [OF assms(4)] t by blast
qed

section \<open>Concrete runs\<close>

text \<open>
  A document stored, a publication begun and committed, a cancelled one refused, and an archived collection.
\<close>

definition sample_pub_job :: pub_job where
  "sample_pub_job = \<lparr>pj_job_id = ''j'', pj_tenant_id = ''t'', pj_workspace_id = ''w'', pj_collection_id = ''c'',
     pj_document_id = Some ''d'', pj_status = ''processing'', pj_attempt = PInt 1, pj_created_at = PInt 1,
     pj_started_at = PNone, pj_finished_at = PNone, pj_cancel_requested = False,
     pj_metadata = [(''publication_attempt'', Val (PStr ''p''))], pj_heartbeats = Lst []\<rparr>"

abbreviation sample_start :: kstore where
  "sample_start \<equiv> empty_kstore (\<lambda>_. sample_document) (\<lambda>_. sample_chunk)"

definition sample_stored :: kstore where
  "sample_stored = snd (upsert_document ''now'' 0 (snd (alloc sample_document sample_start)))"

lemma sample_stored_run: "kruns repr R (sample_start, {}, None) (sample_stored, {0}, None)"
proof -
  have 1: "kstep repr R (sample_start, {}, None) (snd (alloc sample_document sample_start), {0}, None)"
    using kstep.client_new [of repr R sample_start "{}" None sample_document] by (simp add: empty_kstore_def)
  have 2: "kstep repr R (snd (alloc sample_document sample_start), {0}, None) (sample_stored, {0}, None)"
    unfolding sample_stored_def by (rule kstep.upsert) simp
  from 1 2 show ?thesis by (meson converse_rtranclp_into_rtranclp rtranclp.rtrancl_refl)
qed

lemma sample_stored_row: "map_of (ks_documents sample_stored) ''d'' = Some 0"
  by code_simp

text \<open>The deleted document, while the caller sets the status of the object it handed in.\<close>

definition sample_deleted :: kstore where
  "sample_deleted = snd (delete_document ''d'' sample_stored)"

definition sample_tampered :: kstore where
  "sample_tampered = sample_deleted\<lparr>ks_heap := (ks_heap sample_deleted)(0 := sample_document\<lparr>doc_status := ''published''\<rparr>)\<rparr>"

theorem deleted_stays_deleted_witness:
  "get_chunks ''d'' sample_tampered = (Inr [], sample_tampered) \<and>
   (\<exists>e. fst (set_document_status (\<lambda>_. []) (PInt 0) ''now'' ''d'' ''published'' sample_tampered) = Inl e)"
proof -
  have run: "kruns (\<lambda>_. []) (- {''d''}) (snd (delete_document ''d'' sample_stored), {0}, None) (sample_tampered, {0}, None)"
    unfolding sample_tampered_def sample_deleted_def by (rule r_into_rtranclp) (rule kstep.client_write, simp)
  have row: "map_of (ks_documents sample_stored) ''d'' \<noteq> None" using sample_stored_row by simp
  note gone = deleted_stays_deleted [OF sample_stored_run row run]
  have "''published'' \<noteq> ''deleted''" by simp
  then have "\<exists>e. fst (set_document_status (\<lambda>_. []) (PInt 0) ''now'' ''d'' ''published'' sample_tampered) = Inl e"
    by (rule gone [THEN conjunct2, THEN conjunct2, THEN conjunct2, rule_format])
  with gone [THEN conjunct1] show ?thesis by (rule conjI)
qed

text \<open>Restoring it with the object as it was brings the document back with its status: the exception is needed.\<close>

lemma sample_restored:
  "(case get_document ''d'' None None (snd (restore_deleted_document ''later'' (ks_heap sample_stored 0) [] sample_deleted)) of
      (Inr (Some a), u) \<Rightarrow> Some (doc_status (ks_heap u a)) | _ \<Rightarrow> None) = Some ''draft''"
  by code_simp

definition sample_snapshot :: snapshot where
  "sample_snapshot = \<lparr>sn_attempt = PInt 1, sn_created_at = PInt 1, sn_started_at = PNone, sn_finished_at = PNone,
     sn_metadata = [(''publication_attempt'', Val (PStr ''p''))], sn_heartbeats = Lst []\<rparr>"

lemma utf8_length_le: "utf8_length s \<le> 2 * length s"
  by (induction s) (simp_all add: utf8_length_def)

lemma sample_valid: "validate_publication_snapshot (\<lambda>_. ''0'') sample_snapshot (Val (PStr ''p'')) (Val (PStr ''p'')) = Inr ()"
proof -
  have "map_option (\<lambda>t. length t < 200) (json_text (\<lambda>_. ''0'') (Dct (snapshot_entries sample_snapshot))) = Some True"
    by code_simp
  then obtain t where "json_text (\<lambda>_. ''0'') (Dct (snapshot_entries sample_snapshot)) = Some t" "length t < 200" by auto
  then have "encode_metadata (\<lambda>_. ''0'') (snapshot_entries sample_snapshot) = Inr t"
    using utf8_length_le [of t] by (simp add: encode_metadata_def MAX_METADATA_JSON_BYTES_def del: json_text.simps)
  then show ?thesis
    by (simp add: validate_publication_snapshot_def checked_def, simp add: snapshot_checks_def sample_snapshot_def attempt_count_ok_def timestamp_checks_def
        times_out_of_order_def document_owner_ok_def queue_attempt_ok_def get_key_def get_default_def sn_number_def float_overflows_def first_error.simps)
qed

lemma sample_identities: "list_all identity_ok (map (\<lambda>s. Val (PStr s)) [''j'', ''t'', ''w'', ''c'', ''d'', ''p''])"
  by code_simp

lemma sample_publication_snapshot: "publication_snapshot (\<lambda>_. ''0'') sample_pub_job (Some (Val (PStr ''p''))) = Inr sample_snapshot"
  using sample_valid by (simp add: publication_snapshot_def publication_attempt_def sample_pub_job_def get_key_def sample_snapshot_def)

definition sample_receipt :: publication where
  "sample_receipt = pending_receipt sample_pub_job (Val (PStr ''p'')) (Val (PStr ''p'')) 0 sample_snapshot None"

definition sample_pending :: kstore where
  "sample_pending = sample_start\<lparr>ps_publications := [((''t'', ''w'', ''c'', ''j''), sample_receipt)]\<rparr>"

definition sample_decided :: kstore where
  "sample_decided = snd (resolve_publication (\<lambda>_. ''0'') (PInt 2) sample_receipt Committed_o sample_pending)"

lemma sample_begin: "begin_publication (\<lambda>_. ''0'') sample_pub_job (Val PNone) (PInt 0) sample_start = (Inr (), sample_pending)"
proof -
  have j: "pj_attempt sample_pub_job = PInt 1" "pj_finished_at sample_pub_job = PNone"
    "pj_metadata sample_pub_job = [(''publication_attempt'', Val (PStr ''p''))]" "pj_document_id sample_pub_job = Some ''d''" 
    "pj_job_id sample_pub_job = ''j''" "pj_tenant_id sample_pub_job = ''t''" "pj_workspace_id sample_pub_job = ''w''" "pj_collection_id sample_pub_job = ''c''" 
    by (simp_all add: sample_pub_job_def)
  show ?thesis
  using sample_identities
  by (simp add: begin_publication_def begin_publication_at_def publication_attempt_def j Let_def
    require_publication_identities_def opt_text_def sample_publication_snapshot job_publication_def get_publication_def job_checkpoint_def get_ingestion_checkpoint_def
    empty_kstore_def begin_receipt_def sbind_def op_defs write_publication_def merge_publication_def sample_pending_def sample_receipt_def
    publication_key_def pending_receipt_def  del: identity_ok.simps)
qed

lemma sample_resolve: "map_option pb_outcome (map_of (ps_publications sample_decided) (''t'', ''w'', ''c'', ''j'')) = Some Committed_o"
  using sample_identities sample_valid
  by (simp add: sample_decided_def resolve_publication_def get_publication_def sample_pending_def sample_receipt_def
    pending_receipt_def sample_pub_job_def require_publication_identities_def sbind_def op_defs terminal_publication_def Let_def 
    write_publication_def merge_publication_def publication_key_def float_overflows_def del: identity_ok.simps)

lemma sample_decided_run: "kruns (\<lambda>_. ''0'') R (sample_start, {}, None) (sample_decided, {}, None)"
  using kstep.begin_pub [of "\<lambda>_. ''0''" R sample_start "{}" sample_pub_job "Val PNone" "PInt 0"]
    kstep.resolve [of "\<lambda>_. ''0''" R sample_pending "{}" "PInt 2" sample_receipt Committed_o]
  by (simp add: sample_begin sample_decided_def)

theorem decided_publication_final_witness:
  "\<exists>r. map_of (ps_publications sample_decided) (''t'', ''w'', ''c'', ''j'') = Some r \<and> pb_outcome r = Committed_o"
proof -
  obtain r where r: "map_of (ps_publications sample_decided) (''t'', ''w'', ''c'', ''j'') = Some r" "pb_outcome r = Committed_o"
    using sample_resolve by auto
  have "pb_outcome r \<in> {Committed_o, Cancelled_o}" using r(2) by simp
  from decided_publication_final [OF sample_decided_run r(1) this rtranclp.rtrancl_refl] show ?thesis using r(2) by auto
qed

definition sample_cancelling :: kstore where
  "sample_cancelling = sample_stored\<lparr>ps_publications := [((''t'', ''w'', ''c'', ''j''), sample_receipt\<lparr>pb_cancel_requested := True\<rparr>)]\<rparr>"

lemma sample_stored_object: "publication_matches sample_receipt (ks_heap sample_stored 0)"
  by code_simp

theorem publish_commits_receipts_witness:
  "set_document_status (\<lambda>_. ''0'') (PInt 2) ''now'' ''d'' ''published'' sample_cancelling =
     (Inl (OwnershipLostError ''publication cancelled before commit''), sample_cancelling)"
proof -
  have m: "map_of (ks_documents sample_cancelling) ''d'' = Some 0" using sample_stored_row by (simp add: sample_cancelling_def)
  have "\<exists>k r. map_of (ps_publications sample_cancelling) k = Some r \<and> pb_outcome r = Pending_o \<and> pb_cancel_requested r \<and>
        publication_matches r (ks_heap sample_cancelling 0)"
    using sample_stored_object
    by (intro exI [of _ "(''t'', ''w'', ''c'', ''j'')"] exI [of _ "sample_receipt\<lparr>pb_cancel_requested := True\<rparr>"])
      (simp add: sample_cancelling_def sample_receipt_def pending_receipt_def publication_matches_def)
  with publish_commits_receipts [OF m, of "\<lambda>_. ''0''" "PInt 2" "''now''"] show ?thesis by blast
qed

definition sample_archive :: kstore where
  "sample_archive = snd (upsert_collection \<lparr>co_workspace_id = ''w'', co_collection_id = ''cvg_master_rag'', co_tenant_id = ''t'',
     co_title = [], co_description = [], co_status = ''archived'', co_version = 1, co_metadata = []\<rparr> sample_start)"

theorem archived_family_final_witness:
  "\<exists>y. get_collection ''w'' ''rickvet_documents'' ''t'' sample_archive = (Inr (Some y), sample_archive) \<and> co_status y = ''archived''"
proof -
  have run: "kruns (\<lambda>_. []) UNIV (sample_start, {}, None) (sample_archive, {}, None)"
    unfolding sample_archive_def by (rule r_into_rtranclp) (rule kstep.collection)
  have "case get_collection ''w'' ''rag_phase0'' ''t'' sample_archive of (Inr (Some x), _) \<Rightarrow> co_status x = ''archived'' | _ \<Rightarrow> False"
    by code_simp
  moreover have "snd (get_collection ''w'' ''rag_phase0'' ''t'' sample_archive) = sample_archive"
    by (simp add: get_collection_def op_defs)
  ultimately obtain x where x: "get_collection ''w'' ''rag_phase0'' ''t'' sample_archive = (Inr (Some x), sample_archive)"
      "co_status x = ''archived''"
    by (auto split: prod.splits sum.splits option.splits)
  have a: "map_of COLLECTION_ALIASES (strip ''rag_phase0'') \<noteq> None" "map_of COLLECTION_ALIASES (strip ''rickvet_documents'') \<noteq> None"
    by code_simp+
  show ?thesis using archived_family_final [OF run rtranclp.rtrancl_refl a x] by blast
qed

end
