(* ===== verification/JobValues.thy ===== *)
theory JobValues
  imports Regex
begin

text \<open>
  The bounded values of the durable job contract (\<open>packages/jobs/src/rick_jobs/contracts.py\<close>):
  the text, identifier, field-name and metadata validators, the timestamp and attempt-number
  validators, and the value objects \<open>JobFailure\<close>, \<open>JobResult\<close>, \<open>JobContinuation\<close>,
  \<open>JobPublicationFacts\<close>, \<open>JobPublicationResult\<close>, \<open>JobPublicationCancellation\<close> and
  \<open>JobLease\<close>. A frozen dataclass is a record; its \<open>__post_init__\<close> is a function that
  returns the normalised record or the exception. The lemmas show that validation is a
  projection: what it returns it accepts again, unchanged.
\<close>

datatype job_error =
    JobValidationError string
  | JobIdempotencyConflictError string
  | InvalidTransitionError string

type_synonym 'a job_res = "job_error + 'a"

section \<open>Patterns and limits\<close>

definition ident_tail :: "char \<Rightarrow> bool" where
  "ident_tail c = (alnum_ascii c \<or> c \<in> set ''_.:-'')"

definition IDENTIFIER :: regex where
  "IDENTIFIER = anchored (name_pattern alnum_ascii ident_tail 127)"

definition OPERATION :: regex where
  "OPERATION = anchored (name_pattern alnum_ascii ident_tail 63)"

definition field_tail :: "char \<Rightarrow> bool" where
  "field_tail c = (lower_c c \<or> digit_c c \<or> c \<in> set ''_.:-'')"

definition FIELD :: regex where
  "FIELD = anchored (name_pattern lower_c field_tail 63)"

definition SAFE_ERROR :: regex where
  "SAFE_ERROR = anchored (name_pattern lower_c field_tail 63)"

definition METADATA_VALUE :: regex where
  "METADATA_VALUE = anchored (name_pattern alnum_ascii
     (\<lambda>c. alnum_ascii c \<or> c \<in> set ''_.:/@?=&%+~,-'') 511)"

text \<open>The pattern carries the flags \<open>(?ix)\<close>: case-insensitive, blanks of the pattern ignored.\<close>

definition sep_opt :: regex where
  "sep_opt = opt_r (one_of ''-_. '')"

definition not_alnum_i :: regex where
  "not_alnum_i = cls_i (\<lambda>c. \<not> (lower_c c \<or> digit_c c))"

definition SENSITIVE_METADATA_VALUE :: regex where
  "SENSITIVE_METADATA_VALUE = alts
     [seqs [Alt Bol not_alnum_i,
        alts [lit_i ''sk'', lit_i ''pk'', lit_i ''rk'', lit_i ''ghp'', lit_i ''glpat'',
              Seq (lit_i ''xox'') (cls_i (\<lambda>c. c \<in> set ''baprs''))],
        one_of ''_'',
        star_r (cls_i (\<lambda>c. lower_c c \<or> digit_c c \<or> c \<in> set ''_-'')),
        Alt Eol not_alnum_i],
      seqs [alts [lit_i ''bearer'', lit_i ''basic''], plus_r (Cls isspace_c),
        Rep (cls_i (\<lambda>c. lower_c c \<or> digit_c c \<or> c \<in> set ''._~+/=-'')) 8 None],
      seqs [alts [seqs [lit_i ''api'', opt_r (one_of ''_-''), lit_i ''key''],
              lit_i ''authorization'', lit_i ''password'', lit_i ''secret'', lit_i ''token'',
              seqs [lit_i ''private'', opt_r (one_of ''_ -''), lit_i ''key'']],
        star_r (Cls isspace_c), one_of '':=''],
      seqs [lit_i ''raw'', sep_opt, opt_r (seqs [lit_i ''document'', sep_opt]),
        alts [lit_i ''content'', lit_i ''body'', lit_i ''text'']],
      seqs [opt_r (seqs [lit_i ''full'', sep_opt]), lit_i ''document'', sep_opt,
        alts [lit_i ''content'', lit_i ''body'', lit_i ''text'']],
      seqs [lit_i ''provider'', sep_opt, alts [lit_i ''response'', lit_i ''result'']],
      seqs [lit_i ''-----begin'', star_r (one_of ''-_ ''),
        opt_r (alts [lit_i ''private'', lit_i ''secret'']), star_r (one_of ''-_ ''),
        lit_i ''key-----'']]"

definition SAFE_METADATA_KEYS :: "string list" where
  "SAFE_METADATA_KEYS =
     [''attempt_id'', ''byte_size'', ''bytes'', ''checksum'', ''chunk_id'', ''collection_id'',
      ''document_id'', ''etag'', ''filename'', ''hash'', ''index_version'', ''job_id'',
      ''lease_id'', ''mime_type'', ''model_id'', ''object_key'', ''operation'', ''page'',
      ''provider_id'', ''schema_version'', ''section'', ''size'', ''source_key'', ''stage'',
      ''state'', ''status'', ''tenant_id'', ''trace_id'', ''traceparent'', ''tracestate'',
      ''uri'', ''url'', ''version'', ''vector_id'', ''workspace_id'']"

definition FORBIDDEN_FIELD_PARTS :: "string list" where
  "FORBIDDEN_FIELD_PARTS =
     [''api_key'', ''apikey'', ''authorization'', ''bearer'', ''credential'', ''content'',
      ''document_text'', ''password'', ''pem'', ''prompt'', ''private'', ''provider_response'',
      ''provider_result'', ''raw_content'', ''response'', ''result'', ''secret'', ''token'',
      ''text'']"

definition TRACE_PAYLOAD_FIELDS :: "string list" where
  "TRACE_PAYLOAD_FIELDS = [''traceparent'', ''tracestate'']"

definition METADATA_KEY_SUFFIXES :: "string list" where
  "METADATA_KEY_SUFFIXES =
     [''_id'', ''_key'', ''_ref'', ''_version'', ''_hash'', ''_checksum'', ''_uri'', ''_url'']"

abbreviation (input) "MAX_IDENTIFIER_LENGTH \<equiv> (128::nat)"
abbreviation (input) "MAX_OPERATION_LENGTH \<equiv> (64::nat)"
abbreviation (input) "MAX_ERROR_CODE_LENGTH \<equiv> (64::nat)"
abbreviation (input) "MAX_MESSAGE_LENGTH \<equiv> (256::nat)"
abbreviation (input) "MAX_PAYLOAD_FIELDS \<equiv> (32::nat)"
abbreviation (input) "MAX_PAYLOAD_KEY_LENGTH \<equiv> (64::nat)"
abbreviation (input) "MAX_PAYLOAD_VALUE_LENGTH \<equiv> (512::nat)"
abbreviation (input) "MAX_METADATA_FIELDS \<equiv> (32::nat)"
abbreviation (input) "MAX_ATTEMPTS \<equiv> (64::int)"

section \<open>Scalar validators\<close>

fun job_text :: "string \<Rightarrow> nat \<Rightarrow> pyval \<Rightarrow> string job_res" where
  "job_text field_name maximum (PStr value) =
     (let result = strip value in
      if result = [] \<or> length result > maximum \<or> CHR 0x00 \<in> set result
      then Inl (JobValidationError (field_name @ '' is invalid''))
      else if list_ex (\<lambda>c. ord_c c < 32 \<and> c \<noteq> CHR 0x09) result
      then Inl (JobValidationError (field_name @ '' contains a control character''))
      else Inr result)"
| "job_text field_name maximum v = Inl (JobValidationError (field_name @ '' must be text''))"

definition job_identifier :: "string \<Rightarrow> pyval \<Rightarrow> string job_res" where
  "job_identifier field_name v =
     rbind (job_text field_name MAX_IDENTIFIER_LENGTH v) (\<lambda>result.
       if re_fullmatch IDENTIFIER result then Inr result
       else Inl (JobValidationError (field_name @ '' is not a valid identifier'')))"

definition job_operation :: "pyval \<Rightarrow> string job_res" where
  "job_operation v =
     rbind (job_text ''operation'' MAX_OPERATION_LENGTH v) (\<lambda>result.
       if re_fullmatch OPERATION result then Inr result
       else Inl (JobValidationError ''operation is not a valid identifier''))"

definition has_forbidden_part :: "string \<Rightarrow> bool" where
  "has_forbidden_part s =
     list_ex (\<lambda>part. list_ex (\<lambda>forbidden. contains_s forbidden part) FORBIDDEN_FIELD_PARTS)
       (split_on (CHR ''.'') s)"

definition job_field_name :: "string \<Rightarrow> pyval \<Rightarrow> string job_res" where
  "job_field_name field_name v =
     rbind (job_text field_name MAX_PAYLOAD_KEY_LENGTH v) (\<lambda>t.
       let result = lower_s t in
       if \<not> re_fullmatch FIELD result
       then Inl (JobValidationError (field_name @ '' is not a valid field name''))
       else if has_forbidden_part result
       then Inl (JobValidationError (field_name @ '' is sensitive or untrusted''))
       else Inr result)"

definition metadata_key :: "string \<Rightarrow> pyval \<Rightarrow> string job_res" where
  "metadata_key field_name v =
     rbind (job_field_name field_name v) (\<lambda>key.
       if key \<notin> set SAFE_METADATA_KEYS \<and> \<not> list_ex (endswith key) METADATA_KEY_SUFFIXES
       then Inl (JobValidationError (field_name @ '' is not an approved metadata field''))
       else Inr key)"

text \<open>
  One iteration of the loop of \<open>_bounded_map\<close>: the validated key and value of an item.
\<close>

definition bounded_item :: "string \<Rightarrow> nat \<Rightarrow> pyval \<times> pyval \<Rightarrow> (string \<times> string) job_res" where
  "bounded_item field_name value_limit item =
     rbind (metadata_key (field_name @ ''.key'') (fst item)) (\<lambda>key.
     rbind (job_text (field_name @ ''.'' @ key) value_limit (snd item)) (\<lambda>clean_value.
       if \<not> re_fullmatch METADATA_VALUE clean_value
       then Inl (JobValidationError (field_name @ ''.'' @ key @ '' must be a compact metadata reference''))
       else if re_search SENSITIVE_METADATA_VALUE clean_value
       then Inl (JobValidationError (field_name @ ''.'' @ key @ '' looks like secret or raw content''))
       else Inr (key, clean_value)))"

fun bounded_loop :: "string \<Rightarrow> nat \<Rightarrow> (pyval \<times> pyval) list \<Rightarrow> dict \<Rightarrow> dict job_res" where
  "bounded_loop field_name value_limit [] clean = Inr clean"
| "bounded_loop field_name value_limit (item # items) clean =
     rbind (bounded_item field_name value_limit item) (\<lambda>(key, clean_value).
       bounded_loop field_name value_limit items (AList.update key clean_value clean))"

definition bounded_map :: "string \<Rightarrow> nat \<Rightarrow> nat \<Rightarrow> (pyval \<times> pyval) list \<Rightarrow> dict job_res" where
  "bounded_map field_name maximum_fields value_limit value =
     (if length value > maximum_fields
      then Inl (JobValidationError (field_name @ '' has too many fields''))
      else rbind (bounded_loop field_name value_limit value []) (\<lambda>clean. Inr (dict_sorted clean)))"

definition as_values :: "dict \<Rightarrow> (pyval \<times> pyval) list" where
  "as_values d = map (\<lambda>(k, v). (PStr k, PStr v)) d"

definition idempotency_payload :: "dict \<Rightarrow> dict" where
  "idempotency_payload payload = filter (\<lambda>(key, value). key \<notin> set TRACE_PAYLOAD_FIELDS) payload"

definition job_timestamp :: "string \<Rightarrow> pyval \<Rightarrow> real job_res" where
  "job_timestamp field_name v =
     (case finite_number v of
        None \<Rightarrow> Inl (JobValidationError (field_name @ '' must be a finite timestamp''))
      | Some result \<Rightarrow>
          if result < 0 then Inl (JobValidationError (field_name @ '' must be a finite timestamp''))
          else Inr result)"

fun attempt_number :: "string \<Rightarrow> pyval \<Rightarrow> int job_res" where
  "attempt_number field_name (PInt value) =
     (if 1 \<le> value \<and> value \<le> MAX_ATTEMPTS then Inr value
      else Inl (JobValidationError (field_name @ '' is out of range'')))"
| "attempt_number field_name v = Inl (JobValidationError (field_name @ '' is out of range''))"

abbreviation real_val :: "real \<Rightarrow> pyval" where
  "real_val x \<equiv> PFloat (Fin x)"

section \<open>Scope, failure, result and lease objects\<close>

record job_scope =
  s_tenant_id :: string
  s_workspace_id :: string
  s_collection_id :: string

definition make_scope :: "pyval \<Rightarrow> pyval \<Rightarrow> pyval \<Rightarrow> job_scope job_res" where
  "make_scope tenant workspace collection =
     rbind (job_identifier ''tenant_id'' tenant) (\<lambda>t.
     rbind (job_identifier ''workspace_id'' workspace) (\<lambda>w.
     rbind (job_identifier ''collection_id'' collection) (\<lambda>c.
       Inr \<lparr>s_tenant_id = t, s_workspace_id = w, s_collection_id = c\<rparr>)))"

record job_failure =
  f_code :: string
  f_message :: string
  f_retryable :: bool
  f_attempt :: int
  f_occurred_at :: real

definition make_failure :: "pyval \<Rightarrow> pyval \<Rightarrow> pyval \<Rightarrow> pyval \<Rightarrow> pyval \<Rightarrow> job_failure job_res" where
  "make_failure code message retryable attempt occurred_at =
     rbind (job_text ''failure.code'' MAX_ERROR_CODE_LENGTH code) (\<lambda>t.
     let c = lower_s t in
     if \<not> re_fullmatch SAFE_ERROR c \<or> has_forbidden_part c
     then Inl (JobValidationError ''failure.code is invalid'')
     else rbind (job_text ''failure.message'' MAX_MESSAGE_LENGTH message) (\<lambda>m.
     case retryable of
       PBool r \<Rightarrow>
         rbind (attempt_number ''failure.attempt'' attempt) (\<lambda>a.
         rbind (job_timestamp ''failure.occurred_at'' occurred_at) (\<lambda>tm.
           Inr \<lparr>f_code = c, f_message = m, f_retryable = r, f_attempt = a, f_occurred_at = tm\<rparr>))
     | _ \<Rightarrow> Inl (JobValidationError ''failure.retryable must be boolean'')))"

record job_result =
  r_output_refs :: dict
  r_document_id :: "string option"
  r_completed_at :: real

definition make_result ::
  "(pyval \<times> pyval) list \<Rightarrow> pyval option \<Rightarrow> pyval \<Rightarrow> job_result job_res" where
  "make_result output_refs document_id completed_at =
     rbind (bounded_map ''result.output_refs'' MAX_METADATA_FIELDS MAX_PAYLOAD_VALUE_LENGTH output_refs) (\<lambda>refs.
     rbind (case document_id of
              None \<Rightarrow> Inr None
            | Some d \<Rightarrow> rbind (job_identifier ''result.document_id'' d) (\<lambda>x. Inr (Some x))) (\<lambda>doc.
     rbind (job_timestamp ''result.completed_at'' completed_at) (\<lambda>tm.
       Inr \<lparr>r_output_refs = refs, r_document_id = doc, r_completed_at = tm\<rparr>)))"

text \<open>
  \<open>JobContinuation\<close> and \<open>JobPublicationFacts\<close> hold the same fields and the latter is
  validated by constructing the former. The attempt identity is checked but not normalised.
\<close>

record job_facts =
  c_job_id :: string
  c_scope :: job_scope
  c_attempt :: int
  c_created_at :: real
  c_started_at :: real
  c_attempt_id :: string

definition make_continuation ::
  "pyval \<Rightarrow> job_scope \<Rightarrow> pyval \<Rightarrow> pyval \<Rightarrow> pyval \<Rightarrow> string \<Rightarrow> job_facts job_res" where
  "make_continuation job_id scope attempt created_at started_at attempt_id =
     rbind (job_text ''job_id'' MAX_IDENTIFIER_LENGTH job_id) (\<lambda>j.
     rbind (attempt_number ''attempt'' attempt) (\<lambda>a.
     rbind (job_timestamp ''created_at'' created_at) (\<lambda>c.
     rbind (job_timestamp ''started_at'' started_at) (\<lambda>s.
     if s < c then Inl (JobValidationError ''continuation time is out of order'')
     else rbind (job_text ''attempt_id'' MAX_IDENTIFIER_LENGTH (PStr attempt_id)) (\<lambda>_.
       Inr \<lparr>c_job_id = j, c_scope = scope, c_attempt = a, c_created_at = c, c_started_at = s,
            c_attempt_id = attempt_id\<rparr>)))))"

definition make_publication_facts ::
  "pyval \<Rightarrow> job_scope \<Rightarrow> pyval \<Rightarrow> pyval \<Rightarrow> pyval \<Rightarrow> string \<Rightarrow> job_facts job_res" where
  "make_publication_facts = make_continuation"

definition make_publication_result ::
  "(pyval \<times> pyval) list \<Rightarrow> pyval option \<Rightarrow> pyval \<Rightarrow> job_facts \<Rightarrow> (job_result \<times> job_facts) job_res" where
  "make_publication_result output_refs document_id completed_at facts =
     rbind (make_result output_refs document_id completed_at) (\<lambda>r.
       if r_completed_at r < c_started_at facts
       then Inl (JobValidationError ''publication finish precedes its start'')
       else Inr (r, facts))"

definition make_publication_cancellation ::
  "job_facts \<Rightarrow> pyval option \<Rightarrow> (job_facts \<times> real option) job_res" where
  "make_publication_cancellation facts completed_at =
     (case completed_at of
        None \<Rightarrow> Inr (facts, None)
      | Some v \<Rightarrow> rbind (job_timestamp ''completed_at'' v) (\<lambda>finished.
          if finished < c_started_at facts
          then Inl (JobValidationError ''publication finish precedes its start'')
          else Inr (facts, Some finished)))"

record job_lease =
  l_job_id :: string
  l_scope :: job_scope
  l_worker_id :: string
  l_token :: string
  l_acquired_at :: real
  l_expires_at :: real
  l_heartbeat_at :: real

definition make_lease ::
  "pyval \<Rightarrow> job_scope \<Rightarrow> pyval \<Rightarrow> pyval \<Rightarrow> pyval \<Rightarrow> pyval \<Rightarrow> pyval \<Rightarrow> job_lease job_res" where
  "make_lease job_id scope worker_id token acquired_at expires_at heartbeat_at =
     rbind (job_identifier ''lease.job_id'' job_id) (\<lambda>j.
     rbind (job_identifier ''lease.worker_id'' worker_id) (\<lambda>w.
     rbind (job_identifier ''lease.token'' token) (\<lambda>t.
     rbind (job_timestamp ''lease.acquired_at'' acquired_at) (\<lambda>acquired.
     rbind (job_timestamp ''lease.expires_at'' expires_at) (\<lambda>expires.
     rbind (job_timestamp ''lease.heartbeat_at'' heartbeat_at) (\<lambda>heartbeat.
     if expires \<le> acquired
     then Inl (JobValidationError ''lease.expires_at must be after lease.acquired_at'')
     else if \<not> (acquired \<le> heartbeat \<and> heartbeat \<le> expires)
     then Inl (JobValidationError ''lease.heartbeat_at must be within the lease window'')
     else Inr \<lparr>l_job_id = j, l_scope = scope, l_worker_id = w, l_token = t,
               l_acquired_at = acquired, l_expires_at = expires, l_heartbeat_at = heartbeat\<rparr>))))))"

definition lease_active_at :: "job_lease \<Rightarrow> pyval \<Rightarrow> bool job_res" where
  "lease_active_at lease now =
     rbind (job_timestamp ''now'' now) (\<lambda>timestamp.
       Inr (l_acquired_at lease \<le> timestamp \<and> timestamp < l_expires_at lease))"


section \<open>Validated text\<close>

definition text_ok :: "nat \<Rightarrow> string \<Rightarrow> bool" where
  "text_ok maximum t = (t \<noteq> [] \<and> stripped t \<and> length t \<le> maximum \<and>
     list_all (\<lambda>c. 32 \<le> ord_c c \<or> c = CHR 0x09) t)"

lemma nul_control: "list_all (\<lambda>c. 32 \<le> ord_c c \<or> c = CHR 0x09) t \<Longrightarrow> CHR 0x00 \<notin> set t"
  by (auto simp: list_all_iff)

lemma control_chars:
  "list_ex (\<lambda>c. ord_c c < 32 \<and> c \<noteq> CHR 0x09) t \<longleftrightarrow>
     \<not> list_all (\<lambda>c. 32 \<le> ord_c c \<or> c = CHR 0x09) t"
  by (induction t) auto

lemma job_text_PStr:
  "job_text f m (PStr s) = Inr t \<longleftrightarrow> t = strip s \<and> text_ok m (strip s)"
  unfolding job_text.simps Let_def control_chars text_ok_def
  using nul_control [of "strip s"] strip_stripped [of s] by (auto simp: not_less)

lemma job_text_Inr: "job_text f m v = Inr t \<longleftrightarrow> (\<exists>s. v = PStr s \<and> t = strip s \<and> text_ok m t)"
  by (cases v) (auto simp: job_text_PStr simp del: job_text.simps(1))

declare job_text.simps [simp del]

lemma job_text_ok: "job_text f m v = Inr t \<Longrightarrow> text_ok m t"
  by (auto simp: job_text_Inr)

lemma job_text_id: "text_ok m t \<Longrightarrow> job_text f m (PStr t) = Inr t"
  using strip_id [of t] by (auto simp: job_text_Inr text_ok_def)

lemma text_ok_lower [simp]: "text_ok m (lower_s t) = text_ok m t"
proof -
  have "(32 \<le> ord_c (tolower_c c) \<or> tolower_c c = CHR 0x09) = (32 \<le> ord_c c \<or> c = CHR 0x09)" for c
    by (auto simp: tolower_c_def Let_def)
  then have "list_all (\<lambda>c. 32 \<le> ord_c c \<or> c = CHR 0x09) (lower_s t) =
      list_all (\<lambda>c. 32 \<le> ord_c c \<or> c = CHR 0x09) t"
    by (simp add: list_all_iff lower_s_def)
  then show ?thesis by (simp add: text_ok_def)
qed

section \<open>Validated identifiers, field names and maps\<close>

definition identifier_ok :: "string \<Rightarrow> bool" where
  "identifier_ok t = (text_ok 128 t \<and> re_fullmatch IDENTIFIER t)"

definition operation_ok :: "string \<Rightarrow> bool" where
  "operation_ok t = (text_ok 64 t \<and> re_fullmatch OPERATION t)"

lemma job_identifier_Inr:
  "job_identifier f v = Inr t \<longleftrightarrow> (\<exists>s. v = PStr s \<and> t = strip s \<and> identifier_ok t)"
  by (auto simp: job_identifier_def rbind_Inr job_text_Inr identifier_ok_def split: if_splits)

lemma job_identifier_ok: "job_identifier f v = Inr t \<Longrightarrow> identifier_ok t"
  by (auto simp: job_identifier_Inr)

lemma job_identifier_id: "identifier_ok t \<Longrightarrow> job_identifier f (PStr t) = Inr t"
  by (auto simp: job_identifier_def identifier_ok_def job_text_id)

lemma job_operation_Inr:
  "job_operation v = Inr t \<longleftrightarrow> (\<exists>s. v = PStr s \<and> t = strip s \<and> operation_ok t)"
  by (auto simp: job_operation_def rbind_Inr job_text_Inr operation_ok_def split: if_splits)

lemma job_operation_id: "operation_ok t \<Longrightarrow> job_operation (PStr t) = Inr t"
  by (auto simp: job_operation_def operation_ok_def job_text_id)

definition field_ok :: "string \<Rightarrow> bool" where
  "field_ok k = (text_ok 64 k \<and> lower_s k = k \<and> re_fullmatch FIELD k \<and> \<not> has_forbidden_part k)"

definition key_ok :: "string \<Rightarrow> bool" where
  "key_ok k = (field_ok k \<and> (k \<in> set SAFE_METADATA_KEYS \<or> list_ex (endswith k) METADATA_KEY_SUFFIXES))"

definition value_ok :: "nat \<Rightarrow> string \<Rightarrow> bool" where
  "value_ok limit v = (text_ok limit v \<and> re_fullmatch METADATA_VALUE v \<and>
     \<not> re_search SENSITIVE_METADATA_VALUE v)"

lemma job_field_name_ok: "job_field_name f v = Inr k \<Longrightarrow> field_ok k"
  by (auto simp: job_field_name_def rbind_Inr Let_def field_ok_def dest!: job_text_ok split: if_splits)

lemma job_field_name_id: "field_ok k \<Longrightarrow> job_field_name f (PStr k) = Inr k"
  by (auto simp: job_field_name_def field_ok_def job_text_id Let_def)

lemma metadata_key_ok: "metadata_key f v = Inr k \<Longrightarrow> key_ok k"
  by (auto simp: metadata_key_def rbind_Inr key_ok_def dest!: job_field_name_ok split: if_splits)

lemma metadata_key_id: "key_ok k \<Longrightarrow> metadata_key f (PStr k) = Inr k"
  by (auto simp: metadata_key_def key_ok_def job_field_name_id)

lemma bounded_item_ok:
  "bounded_item f m item = Inr (k, v) \<Longrightarrow> key_ok k \<and> value_ok m v"
  by (auto simp: bounded_item_def rbind_Inr value_ok_def
      dest!: metadata_key_ok job_text_ok split: if_splits)

lemma bounded_item_id:
  "key_ok k \<Longrightarrow> value_ok m v \<Longrightarrow> bounded_item f m (PStr k, PStr v) = Inr (k, v)"
  by (auto simp: bounded_item_def value_ok_def metadata_key_id job_text_id)

definition entries_ok :: "nat \<Rightarrow> dict \<Rightarrow> bool" where
  "entries_ok m d = (distinct (map fst d) \<and> list_all (\<lambda>(k, v). key_ok k \<and> value_ok m v) d)"

lemma update_entries_ok:
  "entries_ok m d \<Longrightarrow> key_ok k \<Longrightarrow> value_ok m v \<Longrightarrow> entries_ok m (AList.update k v d)"
  unfolding entries_ok_def
  by (induction d) (auto simp: list_all_iff distinct_update AList.update_keys split: if_splits
      dest: in_set_takeD)

lemma length_update_le: "length (AList.update k v d) \<le> Suc (length d)"
  by (induction d) auto

lemma bounded_loop_ok:
  "bounded_loop f m items clean = Inr d \<Longrightarrow> entries_ok m clean \<Longrightarrow>
     entries_ok m d \<and> length d \<le> length clean + length items"
proof (induction items arbitrary: clean)
  case (Cons item items)
  from Cons.prems(1) obtain k v where kv: "bounded_item f m item = Inr (k, v)"
    and rest: "bounded_loop f m items (AList.update k v clean) = Inr d"
    by (auto simp: rbind_Inr)
  from Cons.IH [OF rest] update_entries_ok [OF Cons.prems(2)] bounded_item_ok [OF kv]
  show ?case using length_update_le [of k v clean] by fastforce
qed simp

lemma update_new: "k \<notin> set (map fst d) \<Longrightarrow> AList.update k v d = d @ [(k, v)]"
  by (induction d) auto

lemma bounded_loop_id:
  "entries_ok m (clean @ d) \<Longrightarrow> bounded_loop f m (as_values d) clean = Inr (clean @ d)"
proof (induction d arbitrary: clean)
  case (Cons kv d)
  obtain k v where kv: "kv = (k, v)" by (cases kv)
  have "AList.update k v clean = clean @ [kv]"
    using Cons.prems kv by (auto simp: entries_ok_def intro: update_new)
  moreover have "bounded_item f m (PStr k, PStr v) = Inr (k, v)"
    using Cons.prems kv by (intro bounded_item_id) (auto simp: entries_ok_def)
  ultimately show ?case
    using Cons.IH [of "clean @ [kv]"] Cons.prems kv by (simp add: as_values_def)
qed (simp add: as_values_def)

lemma dict_sorted_props:
  "set (dict_sorted d) = set d" "length (dict_sorted d) = length d"
  "sorted (map fst (dict_sorted d))" "distinct (map fst (dict_sorted d)) = distinct (map fst d)"
  by (simp_all add: dict_sorted_def distinct_map)

lemma entries_ok_sorted [simp]: "entries_ok m (dict_sorted d) = entries_ok m d"
  by (simp add: entries_ok_def list_all_iff dict_sorted_props)

lemma dict_sorted_idem: "sorted (map fst d) \<Longrightarrow> dict_sorted d = d"
  unfolding dict_sorted_def by (metis sort_key_id_if_sorted)

definition map_ok :: "nat \<Rightarrow> nat \<Rightarrow> dict \<Rightarrow> bool" where
  "map_ok maximum_fields value_limit d =
     (length d \<le> maximum_fields \<and> entries_ok value_limit d \<and> sorted (map fst d))"

lemma bounded_map_ok: "bounded_map f n m raw = Inr d \<Longrightarrow> map_ok n m d"
  using bounded_loop_ok [of f m raw "[]"]
  by (auto simp: bounded_map_def rbind_Inr map_ok_def dict_sorted_props entries_ok_def [of m "[]"]
      split: if_splits)

lemma bounded_map_id: "map_ok n m d \<Longrightarrow> bounded_map f n m (as_values d) = Inr d"
  using bounded_loop_id [of m "[]" d f]
  by (simp add: bounded_map_def map_ok_def dict_sorted_idem) (simp add: as_values_def)

end
