(* ===== verification/Jobs.thy ===== *)
theory Jobs
  imports JobValues
begin

text \<open>
  The durable job itself (\<open>packages/jobs/src/rick_jobs/contracts.py\<close>): its states and
  transition table, \<open>JobAttempt\<close>, \<open>Job\<close> with the validation of its
  \<open>__post_init__\<close>, the operations \<open>create\<close>, \<open>start_attempt\<close>,
  \<open>finish_attempt\<close> and \<open>transition\<close>, and the idempotency check. Jobs are immutable:
  every operation returns a new validated job or raises.
\<close>

section \<open>States\<close>

datatype job_state =
  PENDING | QUEUED | RUNNING | SUCCEEDED | FAILED | CANCELLED | RETRYING | DEAD_LETTER

fun state_name :: "job_state \<Rightarrow> string" where
  "state_name PENDING = ''PENDING''"
| "state_name QUEUED = ''QUEUED''"
| "state_name RUNNING = ''RUNNING''"
| "state_name SUCCEEDED = ''SUCCEEDED''"
| "state_name FAILED = ''FAILED''"
| "state_name CANCELLED = ''CANCELLED''"
| "state_name RETRYING = ''RETRYING''"
| "state_name DEAD_LETTER = ''DEAD_LETTER''"

text \<open>\<open>JobState(value)\<close>: the members are strings, so a member and its name are the same.\<close>

fun parse_state :: "pyval \<Rightarrow> job_state option" where
  "parse_state (PStr s) =
     List.find (\<lambda>st. state_name st = s)
       [PENDING, QUEUED, RUNNING, SUCCEEDED, FAILED, CANCELLED, RETRYING, DEAD_LETTER]"
| "parse_state v = None"

definition state_terminal :: "job_state \<Rightarrow> bool" where
  "state_terminal st = (st \<in> {SUCCEEDED, CANCELLED, DEAD_LETTER})"

fun allowed_transitions :: "job_state \<Rightarrow> job_state list" where
  "allowed_transitions PENDING = [QUEUED, CANCELLED]"
| "allowed_transitions QUEUED = [RUNNING, CANCELLED]"
| "allowed_transitions RUNNING = [SUCCEEDED, FAILED, CANCELLED]"
| "allowed_transitions FAILED = [RETRYING, DEAD_LETTER]"
| "allowed_transitions RETRYING = [QUEUED, DEAD_LETTER, CANCELLED]"
| "allowed_transitions SUCCEEDED = []"
| "allowed_transitions CANCELLED = []"
| "allowed_transitions DEAD_LETTER = []"

definition can_transition :: "job_state \<Rightarrow> job_state \<Rightarrow> bool" where
  "can_transition from_state to_state = (to_state \<in> set (allowed_transitions from_state))"

section \<open>Attempts\<close>

record job_attempt =
  a_number :: int
  a_worker_id :: string
  a_state :: job_state
  a_started_at :: real
  a_finished_at :: "real option"
  a_failure :: "job_failure option"

definition attempt_checks ::
  "int \<Rightarrow> job_state \<Rightarrow> real \<Rightarrow> real option \<Rightarrow> job_failure option \<Rightarrow> (bool \<times> job_error) list" where
  "attempt_checks number state started finished_at failure =
     (if state = RUNNING then
        [(finished_at \<noteq> None \<or> failure \<noteq> None,
          JobValidationError ''running attempts cannot be finished or failed'')]
      else case finished_at of
        None \<Rightarrow> [(True, JobValidationError ''finished attempts require finished_at'')]
      | Some finished \<Rightarrow>
          if state = FAILED then
            (case failure of
               None \<Rightarrow> [(True, JobValidationError ''failed attempts require their matching failure'')]
             | Some f \<Rightarrow>
                 [(f_attempt f \<noteq> number,
                   JobValidationError ''failed attempts require their matching failure''),
                  (f_occurred_at f < started,
                   JobValidationError ''attempt.failure.occurred_at precedes attempt.started_at''),
                  (f_occurred_at f > finished,
                   JobValidationError ''attempt.failure.occurred_at is after attempt.finished_at'')])
          else
            [(failure \<noteq> None, JobValidationError ''only failed attempts may contain a failure'')])"

definition attempt_finish :: "real \<Rightarrow> pyval option \<Rightarrow> real option job_res" where
  "attempt_finish started finished_at =
     (case finished_at of
        None \<Rightarrow> Inr None
      | Some v \<Rightarrow> rbind (job_timestamp ''attempt.finished_at'' v) (\<lambda>finished.
          if finished < started
          then Inl (JobValidationError ''attempt.finished_at precedes attempt.started_at'')
          else Inr (Some finished)))"

definition make_attempt ::
  "pyval \<Rightarrow> pyval \<Rightarrow> job_state \<Rightarrow> pyval \<Rightarrow> pyval option \<Rightarrow> job_failure option \<Rightarrow> job_attempt job_res" where
  "make_attempt number worker_id state started_at finished_at failure =
     rbind (attempt_number ''attempt.number'' number) (\<lambda>n.
     if worker_id = PNone then Inl (JobValidationError ''attempt.worker_id is required'')
     else rbind (job_identifier ''attempt.worker_id'' worker_id) (\<lambda>w.
     if state \<notin> {RUNNING, SUCCEEDED, FAILED, CANCELLED}
     then Inl (JobValidationError ''attempt.state is not an attempt lifecycle state'')
     else rbind (job_timestamp ''attempt.started_at'' started_at) (\<lambda>started.
     rbind (attempt_finish started finished_at) (\<lambda>finished.
       checked (attempt_checks n state started finished failure)
         \<lparr>a_number = n, a_worker_id = w, a_state = state, a_started_at = started,
          a_finished_at = finished, a_failure = failure\<rparr>))))"

section \<open>Jobs\<close>

record job =
  j_job_id :: string
  j_tenant_id :: string
  j_workspace_id :: string
  j_collection_id :: string
  j_operation :: string
  j_idempotency_key :: string
  j_payload :: dict
  j_state :: job_state
  j_max_attempts :: int
  j_attempts :: "job_attempt list"
  j_result :: "job_result option"
  j_failure :: "job_failure option"
  j_available_at :: real
  j_created_at :: real
  j_updated_at :: real
  j_version :: int

abbreviation attempt_count :: "job \<Rightarrow> int" where
  "attempt_count j \<equiv> int (length (j_attempts j))"

definition retry_eligible :: "job \<Rightarrow> bool" where
  "retry_eligible j = (attempt_count j < j_max_attempts j \<and> j_state j \<in> {FAILED, RETRYING} \<and>
     (case j_failure j of None \<Rightarrow> False | Some f \<Rightarrow> f_retryable f))"

definition scope_of :: "job \<Rightarrow> job_scope" where
  "scope_of j = \<lparr>s_tenant_id = j_tenant_id j, s_workspace_id = j_workspace_id j,
     s_collection_id = j_collection_id j\<rparr>"

definition lease_matches :: "job_lease \<Rightarrow> job \<Rightarrow> string \<Rightarrow> string \<Rightarrow> bool" where
  "lease_matches lease j worker_id token =
     (l_job_id lease = j_job_id j \<and> l_scope lease = scope_of j \<and>
      l_worker_id lease = worker_id \<and> l_token lease = token)"

text \<open>The loop over \<open>zip(attempts, attempts[1:])\<close>.\<close>

fun chronological :: "job_attempt list \<Rightarrow> bool" where
  "chronological (p # c # as) =
     ((case a_finished_at p of None \<Rightarrow> False | Some f \<Rightarrow> f \<le> a_started_at c) \<and> chronological (c # as))"
| "chronological as = True"

definition last_attempt :: "job \<Rightarrow> job_attempt option" where
  "last_attempt j = (if j_attempts j = [] then None else Some (last (j_attempts j)))"

definition lifetime_checks :: "real \<Rightarrow> real \<Rightarrow> job_attempt \<Rightarrow> (bool \<times> job_error) list" where
  "lifetime_checks created updated a =
     [(a_started_at a < created \<or> a_started_at a > updated,
       JobValidationError ''attempt.started_at is outside the job lifetime''),
      (case a_finished_at a of None \<Rightarrow> False | Some f \<Rightarrow> f > updated,
       JobValidationError ''attempt.finished_at is after job.updated_at''),
      (case a_failure a of None \<Rightarrow> False
         | Some f \<Rightarrow> \<not> (created \<le> f_occurred_at f \<and> f_occurred_at f \<le> updated),
       JobValidationError ''attempt.failure.occurred_at is outside the job lifetime'')]"

definition history_checks :: "job \<Rightarrow> (bool \<times> job_error) list" where
  "history_checks j =
     [(\<not> (0 < j_max_attempts j \<and> j_max_attempts j \<le> MAX_ATTEMPTS),
       JobValidationError ''max_attempts is out of range''),
      (attempt_count j > MAX_ATTEMPTS, JobValidationError ''attempts is invalid''),
      (map a_number (j_attempts j) \<noteq> map int [1..<Suc (length (j_attempts j))],
       JobValidationError ''attempt numbers must be contiguous''),
      (attempt_count j > j_max_attempts j,
       JobValidationError ''attempt count exceeds max_attempts''),
      (\<not> chronological (j_attempts j),
       JobValidationError ''attempt history is not chronological'')]"

definition time_checks :: "job \<Rightarrow> (bool \<times> job_error) list" where
  "time_checks j =
     [(j_available_at j < 0, JobValidationError ''available_at must be a finite timestamp''),
      (j_created_at j < 0, JobValidationError ''created_at must be a finite timestamp''),
      (j_updated_at j < 0, JobValidationError ''updated_at must be a finite timestamp''),
      (j_available_at j < j_created_at j, JobValidationError ''available_at precedes created_at''),
      (j_updated_at j < j_created_at j, JobValidationError ''updated_at precedes created_at''),
      (j_version j < 1, JobValidationError ''version is invalid'')]
     @ concat (map (lifetime_checks (j_created_at j) (j_updated_at j)) (j_attempts j))
     @ [(case j_result j of None \<Rightarrow> False
           | Some r \<Rightarrow> \<not> (j_created_at j \<le> r_completed_at r \<and> r_completed_at r \<le> j_updated_at j),
         JobValidationError ''result.completed_at is outside the job lifetime''),
        (case j_failure j of None \<Rightarrow> False
           | Some f \<Rightarrow> \<not> (j_created_at j \<le> f_occurred_at f \<and> f_occurred_at f \<le> j_updated_at j),
         JobValidationError ''failure.occurred_at is outside the job lifetime'')]"

text \<open>The branches of \<open>FAILED\<close>, \<open>RETRYING\<close> and \<open>DEAD_LETTER\<close>.\<close>

definition failed_checks :: "job \<Rightarrow> (bool \<times> job_error) list" where
  "failed_checks j =
     (let name = lower_s (state_name (j_state j)) in
      case last_attempt j of
        None \<Rightarrow> [(True, JobValidationError (name @ '' jobs require a failed attempt''))]
      | Some a \<Rightarrow>
        (a_state a \<noteq> FAILED, JobValidationError (name @ '' jobs require a failed attempt'')) #
        (case j_failure j of
           None \<Rightarrow> [(True, JobValidationError (name @ '' jobs require their latest failure''))]
         | Some f \<Rightarrow>
           (let latest = (case a_finished_at a of None \<Rightarrow> j_updated_at j | Some t \<Rightarrow> t) in
           [(f_attempt f \<noteq> a_number a,
             JobValidationError (name @ '' jobs require their latest failure'')),
            (a_failure a \<noteq> Some f,
             JobValidationError (name @ '' job failure differs from latest attempt'')),
            (f_occurred_at f < a_started_at a,
             JobValidationError ''failure.occurred_at is before the latest attempt''),
            (f_occurred_at f > latest,
             JobValidationError ''failure.occurred_at is after the latest attempt''),
            (j_result j \<noteq> None, JobValidationError (name @ '' jobs cannot contain a result'')),
            (j_state j = RETRYING \<and> \<not> f_retryable f,
             JobValidationError ''retrying jobs require a retryable failure''),
            (j_state j = RETRYING \<and> attempt_count j \<ge> j_max_attempts j,
             JobValidationError ''retrying jobs cannot exceed max_attempts'')])))"

definition succeeded_checks :: "job \<Rightarrow> (bool \<times> job_error) list" where
  "succeeded_checks j =
     (case last_attempt j of
        None \<Rightarrow> [(True, JobValidationError ''succeeded jobs require a succeeded attempt'')]
      | Some a \<Rightarrow>
        [(a_state a \<noteq> SUCCEEDED, JobValidationError ''succeeded jobs require a succeeded attempt''),
         (j_result j = None \<or> j_failure j \<noteq> None,
          JobValidationError ''succeeded jobs require only a result'')]
        @ (case j_result j of None \<Rightarrow> []
           | Some r \<Rightarrow>
             (let latest = (case a_finished_at a of None \<Rightarrow> j_updated_at j | Some t \<Rightarrow> t) in
              [(r_completed_at r < a_started_at a,
                JobValidationError ''result.completed_at is before the succeeded attempt''),
               (r_completed_at r > latest,
                JobValidationError ''result.completed_at is after the succeeded attempt'')])))"

definition queued_checks :: "job \<Rightarrow> (bool \<times> job_error) list" where
  "queued_checks j =
     (j_result j \<noteq> None \<or> j_failure j \<noteq> None,
      JobValidationError ''queued jobs cannot contain a result or active failure'') #
     (case last_attempt j of None \<Rightarrow> []
      | Some a \<Rightarrow>
        [(a_state a \<noteq> FAILED,
          JobValidationError ''queued jobs may only resume after a failed attempt''),
         ((case a_failure a of None \<Rightarrow> True | Some f \<Rightarrow> \<not> f_retryable f) \<or>
            attempt_count j \<ge> j_max_attempts j,
          JobValidationError ''queued jobs may only resume when retry remains eligible'')])"

definition running_checks :: "job \<Rightarrow> (bool \<times> job_error) list" where
  "running_checks j =
     [(case last_attempt j of None \<Rightarrow> True | Some a \<Rightarrow> a_state a \<noteq> RUNNING,
       JobValidationError ''running jobs require an active attempt''),
      (j_result j \<noteq> None \<or> j_failure j \<noteq> None,
       JobValidationError ''running jobs cannot contain a result or failure'')]"

definition cancelled_checks :: "job \<Rightarrow> (bool \<times> job_error) list" where
  "cancelled_checks j =
     (j_result j \<noteq> None \<or> j_failure j \<noteq> None,
      JobValidationError ''cancelled jobs cannot contain a result or active failure'') #
     (case last_attempt j of None \<Rightarrow> []
      | Some a \<Rightarrow>
        [(a_state a = RUNNING,
          JobValidationError ''cancelled jobs cannot contain an active attempt''),
         (a_state a \<notin> {FAILED, CANCELLED},
          JobValidationError ''cancelled jobs require no attempt or a cancelled/failed latest attempt'')])"

fun state_checks :: "job_state \<Rightarrow> job \<Rightarrow> (bool \<times> job_error) list" where
  "state_checks PENDING j =
     [(j_attempts j \<noteq> [] \<or> j_result j \<noteq> None \<or> j_failure j \<noteq> None,
       JobValidationError ''pending jobs cannot contain execution history'')]"
| "state_checks QUEUED j = queued_checks j"
| "state_checks RUNNING j = running_checks j"
| "state_checks SUCCEEDED j = succeeded_checks j"
| "state_checks FAILED j = failed_checks j"
| "state_checks RETRYING j = failed_checks j"
| "state_checks DEAD_LETTER j = failed_checks j"
| "state_checks CANCELLED j = cancelled_checks j"

definition job_checks :: "job \<Rightarrow> (bool \<times> job_error) list" where
  "job_checks j = history_checks j @ time_checks j @ state_checks (j_state j) j"

definition make_job :: "job \<Rightarrow> job job_res" where
  "make_job j =
     rbind (job_identifier ''job_id'' (PStr (j_job_id j))) (\<lambda>jid.
     rbind (job_identifier ''tenant_id'' (PStr (j_tenant_id j))) (\<lambda>tid.
     rbind (job_identifier ''workspace_id'' (PStr (j_workspace_id j))) (\<lambda>wid.
     rbind (job_identifier ''collection_id'' (PStr (j_collection_id j))) (\<lambda>cid.
     rbind (job_operation (PStr (j_operation j))) (\<lambda>op.
     rbind (job_identifier ''idempotency_key'' (PStr (j_idempotency_key j))) (\<lambda>key.
     rbind (bounded_map ''payload'' MAX_PAYLOAD_FIELDS MAX_PAYLOAD_VALUE_LENGTH
              (as_values (j_payload j))) (\<lambda>pl.
     let j' = j\<lparr>j_job_id := jid, j_tenant_id := tid, j_workspace_id := wid,
                j_collection_id := cid, j_operation := op, j_idempotency_key := key,
                j_payload := pl\<rparr>
     in checked (job_checks j') j')))))))"

definition create_job ::
  "string \<Rightarrow> string \<Rightarrow> string \<Rightarrow> string \<Rightarrow> string \<Rightarrow> string \<Rightarrow> dict \<Rightarrow> pyval \<Rightarrow> int \<Rightarrow> job job_res" where
  "create_job job_id tenant_id workspace_id collection_id operation idempotency_key payload now max_attempts =
     rbind (job_timestamp ''now'' now) (\<lambda>timestamp.
       make_job \<lparr>j_job_id = job_id, j_tenant_id = tenant_id, j_workspace_id = workspace_id,
         j_collection_id = collection_id, j_operation = operation,
         j_idempotency_key = idempotency_key, j_payload = payload, j_state = PENDING,
         j_max_attempts = max_attempts, j_attempts = [], j_result = None, j_failure = None,
         j_available_at = timestamp, j_created_at = timestamp, j_updated_at = timestamp,
         j_version = 1\<rparr>)"

section \<open>Operations\<close>

definition start_attempt :: "job \<Rightarrow> pyval \<Rightarrow> pyval \<Rightarrow> job job_res" where
  "start_attempt j worker_id now =
     (if j_state j \<noteq> QUEUED
      then Inl (InvalidTransitionError ''only queued jobs can start an attempt'')
      else if attempt_count j \<ge> j_max_attempts j
      then Inl (InvalidTransitionError ''attempt limit is exhausted'')
      else rbind (job_timestamp ''now'' now) (\<lambda>timestamp.
        if timestamp < j_updated_at j
        then Inl (InvalidTransitionError ''job time cannot move backwards'')
        else rbind (make_attempt (PInt (attempt_count j + 1)) worker_id RUNNING
                      (real_val timestamp) None None) (\<lambda>attempt.
          make_job (j\<lparr>j_state := RUNNING, j_attempts := j_attempts j @ [attempt],
            j_result := None, j_failure := None, j_updated_at := timestamp,
            j_version := j_version j + 1\<rparr>))))"

text \<open>
  The part of \<open>finish_attempt\<close> that depends on the target: the checks on the result and
  the failure, which leave the failure to record.
\<close>

definition finish_outcome ::
  "job_state \<Rightarrow> job_attempt \<Rightarrow> real \<Rightarrow> job_result option \<Rightarrow> job_failure option \<Rightarrow> job_failure option job_res" where
  "finish_outcome target current timestamp result failure =
     (if target = SUCCEEDED then
        (case result of
           None \<Rightarrow> Inl (InvalidTransitionError ''SUCCEEDED requires only a result'')
         | Some r \<Rightarrow>
             if failure \<noteq> None
             then Inl (InvalidTransitionError ''SUCCEEDED requires only a result'')
             else if r_completed_at r > timestamp
             then Inl (InvalidTransitionError ''result.completed_at is after the transition'')
             else Inr None)
      else if target = CANCELLED then
        (if result \<noteq> None \<or> failure \<noteq> None
         then Inl (InvalidTransitionError ''CANCELLED cannot contain a result or failure'')
         else Inr None)
      else
        (case failure of
           None \<Rightarrow> Inl (InvalidTransitionError (state_name target @ '' requires a failure''))
         | Some f \<Rightarrow>
             if f_attempt f \<noteq> a_number current
             then Inl (InvalidTransitionError ''failure.attempt must match the active attempt'')
             else if f_occurred_at f > timestamp
             then Inl (InvalidTransitionError ''failure.occurred_at is after the transition'')
             else if result \<noteq> None
             then Inl (InvalidTransitionError (state_name target @ '' cannot contain a result''))
             else Inr (Some f)))"

definition optional_timestamp :: "string \<Rightarrow> real \<Rightarrow> pyval option \<Rightarrow> real job_res" where
  "optional_timestamp field_name otherwise v =
     (case v of None \<Rightarrow> Inr otherwise | Some x \<Rightarrow> job_timestamp field_name x)"

definition finish_attempt ::
  "job \<Rightarrow> pyval \<Rightarrow> pyval \<Rightarrow> job_result option \<Rightarrow> job_failure option \<Rightarrow> pyval option \<Rightarrow> pyval option \<Rightarrow> job job_res" where
  "finish_attempt j to_state now result failure available_at finished_at =
     (case parse_state to_state of
        None \<Rightarrow> Inl (InvalidTransitionError ''target state is invalid'')
      | Some target \<Rightarrow>
      if j_state j \<noteq> RUNNING \<or> j_attempts j = []
      then Inl (InvalidTransitionError ''only running jobs can finish an attempt'')
      else let current = last (j_attempts j) in
      if a_state current \<noteq> RUNNING
      then Inl (InvalidTransitionError ''job has no active attempt'')
      else if target \<notin> {SUCCEEDED, FAILED, CANCELLED}
      then Inl (InvalidTransitionError (''RUNNING -> '' @ state_name target @ '' cannot finish an attempt''))
      else rbind (job_timestamp ''now'' now) (\<lambda>timestamp.
      if timestamp < j_updated_at j
      then Inl (InvalidTransitionError ''job time cannot move backwards'')
      else rbind (finish_outcome target current timestamp result failure) (\<lambda>observed_failure.
      rbind (optional_timestamp ''finished_at'' timestamp finished_at) (\<lambda>completion.
      if \<not> (a_started_at current \<le> completion \<and> completion \<le> timestamp)
      then Inl (InvalidTransitionError ''attempt completion is outside its lifetime'')
      else if target = SUCCEEDED \<and> finished_at \<noteq> None \<and>
           (case result of None \<Rightarrow> True | Some r \<Rightarrow> completion \<noteq> r_completed_at r)
      then Inl (InvalidTransitionError ''attempt completion differs from its result'')
      else rbind (make_attempt (PInt (a_number current)) (PStr (a_worker_id current)) target
                    (real_val (a_started_at current)) (Some (real_val completion)) observed_failure) (\<lambda>finished_attempt.
      rbind (optional_timestamp ''available_at'' (j_available_at j) available_at) (\<lambda>next_available.
        make_job (j\<lparr>j_state := target, j_attempts := butlast (j_attempts j) @ [finished_attempt],
          j_result := result, j_failure := observed_failure, j_available_at := next_available,
          j_updated_at := timestamp, j_version := j_version j + 1\<rparr>)))))))"

text \<open>The failure that \<open>transition\<close> observes, with the checks on it.\<close>

definition transition_failure_checks ::
  "job \<Rightarrow> job_state \<Rightarrow> job_failure option \<Rightarrow> job_failure option \<Rightarrow> (bool \<times> job_error) list" where
  "transition_failure_checks j target failure observed =
     (if target \<in> {FAILED, RETRYING, DEAD_LETTER} then
        (case observed of
           None \<Rightarrow> [(True, InvalidTransitionError (state_name target @ '' requires a failure''))]
         | Some f \<Rightarrow>
             [(f_attempt f \<noteq> attempt_count j,
               InvalidTransitionError ''failure.attempt must match the latest attempt''),
              (target = RETRYING \<and> \<not> f_retryable f,
               InvalidTransitionError ''RETRYING requires a retryable failure''),
              (target = RETRYING \<and> attempt_count j \<ge> j_max_attempts j,
               InvalidTransitionError ''retry limit is exhausted'')])
      else [(failure \<noteq> None,
             InvalidTransitionError (state_name target @ '' cannot contain a failure''))])"

definition transition ::
  "job \<Rightarrow> pyval \<Rightarrow> pyval \<Rightarrow> job_result option \<Rightarrow> job_failure option \<Rightarrow> pyval option \<Rightarrow> job job_res" where
  "transition j to_state now result failure available_at =
     (case parse_state to_state of
        None \<Rightarrow> Inl (InvalidTransitionError ''target state is invalid'')
      | Some target \<Rightarrow>
      if \<not> can_transition (j_state j) target
      then Inl (InvalidTransitionError
             (state_name (j_state j) @ '' -> '' @ state_name target @ '' is not allowed''))
      else if target = RUNNING
      then Inl (InvalidTransitionError ''use start_attempt to enter RUNNING'')
      else if j_state j = RUNNING
      then finish_attempt j (PStr (state_name target)) now result failure available_at None
      else if target = SUCCEEDED
      then Inl (InvalidTransitionError ''only an active attempt can succeed'')
      else if result \<noteq> None
      then Inl (InvalidTransitionError (state_name target @ '' cannot contain a result''))
      else let observed = (case failure of None \<Rightarrow> j_failure j | Some f \<Rightarrow> Some f) in
      rbind (checked (transition_failure_checks j target failure observed) ()) (\<lambda>_.
      rbind (job_timestamp ''now'' now) (\<lambda>timestamp.
      if timestamp < j_updated_at j
      then Inl (InvalidTransitionError ''job time cannot move backwards'')
      else if (case observed of None \<Rightarrow> False | Some f \<Rightarrow> f_occurred_at f > timestamp)
      then Inl (InvalidTransitionError ''failure.occurred_at is after the transition'')
      else rbind (optional_timestamp ''available_at'' (j_available_at j) available_at) (\<lambda>next_available.
        make_job (j\<lparr>j_state := target, j_result := result,
          j_failure := (if target \<in> {FAILED, RETRYING, DEAD_LETTER} then observed else None),
          j_available_at := next_available, j_updated_at := timestamp,
          j_version := j_version j + 1\<rparr>)))))"

section \<open>Idempotency\<close>

definition idempotency_identity :: "job \<Rightarrow> string \<times> string \<times> string \<times> string" where
  "idempotency_identity j =
     (j_tenant_id j, j_workspace_id j, j_collection_id j, j_idempotency_key j)"

definition request_envelope :: "job \<Rightarrow> string \<times> dict \<times> int" where
  "request_envelope j = (j_operation j, idempotency_payload (j_payload j), j_max_attempts j)"

definition ensure_idempotent :: "job option \<Rightarrow> job \<Rightarrow> job job_res" where
  "ensure_idempotent existing candidate =
     (case existing of
        None \<Rightarrow> Inr candidate
      | Some e \<Rightarrow>
          if idempotency_identity e \<noteq> idempotency_identity candidate
          then Inl (JobIdempotencyConflictError ''idempotency key is outside the existing job scope'')
          else if request_envelope e \<noteq> request_envelope candidate
          then Inl (JobIdempotencyConflictError ''idempotency key was reused for a different request'')
          else Inr e)"

end
