(* ===== verification/JobRuns.thy ===== *)
theory JobRuns
  imports Jobs
begin

text \<open>
  Properties of the durable job contract: validation is a projection, every operation on a
  valid job either raises or returns the valid job it describes, and the runs of a job (the
  sequences of operations that succeed, as a step relation) keep its history, follow the
  transition table, are bounded by its attempt limit and can always end in a terminal state.
\<close>

section \<open>Valid objects\<close>

text \<open>
  An object exists only if its constructor accepted it, so a valid object is one that its
  constructor returns unchanged.
\<close>

definition failure_ok :: "job_failure \<Rightarrow> bool" where
  "failure_ok f = (make_failure (PStr (f_code f)) (PStr (f_message f)) (PBool (f_retryable f))
     (PInt (f_attempt f)) (real_val (f_occurred_at f)) = Inr f)"

definition result_ok :: "job_result \<Rightarrow> bool" where
  "result_ok r = (make_result (as_values (r_output_refs r)) (map_option PStr (r_document_id r))
     (real_val (r_completed_at r)) = Inr r)"

definition attempt_ok :: "job_attempt \<Rightarrow> bool" where
  "attempt_ok a = (make_attempt (PInt (a_number a)) (PStr (a_worker_id a)) (a_state a)
     (real_val (a_started_at a)) (map_option real_val (a_finished_at a)) (a_failure a) = Inr a \<and>
     pred_option failure_ok (a_failure a))"

definition job_ok :: "job \<Rightarrow> bool" where
  "job_ok j = (make_job j = Inr j \<and> list_all attempt_ok (j_attempts j) \<and>
     pred_option result_ok (j_result j) \<and> pred_option failure_ok (j_failure j))"

subsection \<open>Timestamps and numbers\<close>

lemma job_timestamp_Inr: "job_timestamp f v = Inr x \<longleftrightarrow> finite_number v = Some x \<and> 0 \<le> x"
  by (auto simp: job_timestamp_def split: option.splits)

lemma job_timestamp_real [simp]: "job_timestamp f (real_val x) = Inr y \<longleftrightarrow> y = x \<and> 0 \<le> x"
  by (auto simp: job_timestamp_Inr)

lemma attempt_number_Inr: "attempt_number f v = Inr n \<longleftrightarrow> v = PInt n \<and> 1 \<le> n \<and> n \<le> 64"
  by (cases v) auto

subsection \<open>Failures and results\<close>

lemma failure_ok_iff:
  "failure_ok f \<longleftrightarrow> text_ok 64 (f_code f) \<and> lower_s (f_code f) = f_code f \<and>
     re_fullmatch SAFE_ERROR (f_code f) \<and> \<not> has_forbidden_part (f_code f) \<and>
     text_ok 256 (f_message f) \<and> 1 \<le> f_attempt f \<and> f_attempt f \<le> 64 \<and> 0 \<le> f_occurred_at f"
  (is "_ \<longleftrightarrow> ?ok")
proof
  assume "failure_ok f"
  then show ?ok
    unfolding failure_ok_def make_failure_def
    by (cases f) (auto simp: rbind_Inr Let_def dest!: job_text_ok split: if_splits)
next
  assume ?ok
  then show "failure_ok f"
    unfolding failure_ok_def make_failure_def
    by (cases f) (simp add: job_text_id Let_def job_timestamp_def)
qed

lemma make_failure_Inr: "make_failure c m r a t = Inr f \<Longrightarrow> failure_ok f"
  by (cases r) (auto simp: make_failure_def failure_ok_iff rbind_Inr Let_def job_timestamp_Inr
      attempt_number_Inr dest!: job_text_ok split: if_splits)

lemma make_result_Inr: "make_result refs d t = Inr r \<Longrightarrow> result_ok r"
  by (auto simp: make_result_def result_ok_def rbind_Inr job_timestamp_Inr bounded_map_id
      job_identifier_id dest!: bounded_map_ok job_identifier_ok split: option.splits)

subsection \<open>Attempts\<close>

definition finish_ok :: "real \<Rightarrow> real option \<Rightarrow> bool" where
  "finish_ok s fin = pred_option (\<lambda>x. 0 \<le> x \<and> s \<le> x) fin"

lemma attempt_finish_real [simp]:
  "attempt_finish s (map_option real_val fin) = Inr fin' \<longleftrightarrow>
     fin' = fin \<and> finish_ok s fin"
  by (auto simp: attempt_finish_def finish_ok_def rbind_Inr split: option.splits if_splits)

lemma make_attempt_Inr:
  "make_attempt n w st s fin fl = Inr a \<longleftrightarrow>
     (\<exists>n' w' s' fin'. n = PInt n' \<and> 1 \<le> n' \<and> n' \<le> 64 \<and> job_identifier ''attempt.worker_id'' w = Inr w' \<and>
        st \<in> {RUNNING, SUCCEEDED, FAILED, CANCELLED} \<and> job_timestamp ''attempt.started_at'' s = Inr s' \<and>
        attempt_finish s' fin = Inr fin' \<and> first_error (attempt_checks n' st s' fin' fl) = None \<and>
        a = \<lparr>a_number = n', a_worker_id = w', a_state = st, a_started_at = s', a_finished_at = fin',
             a_failure = fl\<rparr>)"
  by (auto simp: make_attempt_def rbind_Inr attempt_number_Inr checked_Inr job_identifier_Inr
      split: if_splits)

lemma attempt_ok_iff:
  "attempt_ok a \<longleftrightarrow> 1 \<le> a_number a \<and> a_number a \<le> 64 \<and> identifier_ok (a_worker_id a) \<and>
     a_state a \<in> {RUNNING, SUCCEEDED, FAILED, CANCELLED} \<and> 0 \<le> a_started_at a \<and>
     finish_ok (a_started_at a) (a_finished_at a) \<and>
     first_error (attempt_checks (a_number a) (a_state a) (a_started_at a) (a_finished_at a) (a_failure a)) = None \<and>
     pred_option failure_ok (a_failure a)"
proof -
  have "job_identifier f (PStr w) = Inr w \<longleftrightarrow> identifier_ok w" for f w
    using job_identifier_id job_identifier_ok by blast
  moreover have "job_identifier f (PStr w) = Inr w' \<Longrightarrow> w' = w \<or> \<not> identifier_ok w" for f w w'
    using job_identifier_id by fastforce
  ultimately show ?thesis
    unfolding attempt_ok_def make_attempt_Inr by (cases a) auto
qed

lemma make_attempt_ok:
  assumes "make_attempt n w st s fin fl = Inr a" and "pred_option failure_ok fl"
  shows "attempt_ok a"
proof -
  have "attempt_finish s' fin = Inr fin' \<Longrightarrow>
      finish_ok s' fin'" for s' fin'
    by (auto simp: attempt_finish_def finish_ok_def rbind_Inr job_timestamp_Inr split: option.splits if_splits)
  then show ?thesis
    using assms by (auto simp: make_attempt_Inr attempt_ok_iff job_timestamp_Inr dest: job_identifier_ok)
qed

subsection \<open>Jobs\<close>

definition ids_ok :: "job \<Rightarrow> bool" where
  "ids_ok j = (identifier_ok (j_job_id j) \<and> identifier_ok (j_tenant_id j) \<and>
     identifier_ok (j_workspace_id j) \<and> identifier_ok (j_collection_id j) \<and>
     operation_ok (j_operation j) \<and> identifier_ok (j_idempotency_key j) \<and>
     map_ok 32 512 (j_payload j))"

definition job_valid :: "job \<Rightarrow> bool" where
  "job_valid j = (first_error (job_checks j) = None)"

lemma make_job_id: "ids_ok j \<Longrightarrow> make_job j = checked (job_checks j) j"
  by (simp add: make_job_def ids_ok_def job_identifier_id job_operation_id bounded_map_id)

lemma make_job_valid: "make_job j = Inr j' \<Longrightarrow> ids_ok j' \<and> job_valid j'"
  by (auto simp: make_job_def rbind_Inr Let_def checked_Inr ids_ok_def job_valid_def
      job_operation_Inr dest!: bounded_map_ok job_identifier_ok)

lemma make_job_rest:
  "make_job j = Inr j' \<Longrightarrow>
   j_state j' = j_state j \<and> j_max_attempts j' = j_max_attempts j \<and> j_attempts j' = j_attempts j \<and>
   j_result j' = j_result j \<and> j_failure j' = j_failure j \<and> j_version j' = j_version j \<and>
   j_available_at j' = j_available_at j \<and> j_created_at j' = j_created_at j \<and>
   j_updated_at j' = j_updated_at j"
  by (auto simp: make_job_def rbind_Inr Let_def checked_Inr)

lemma make_job_Inr_id: "ids_ok j \<Longrightarrow> make_job j = Inr j' \<longleftrightarrow> j' = j \<and> job_valid j"
  by (auto simp: make_job_id checked_Inr job_valid_def)

lemma job_ok_iff:
  "job_ok j \<longleftrightarrow> ids_ok j \<and> job_valid j \<and> list_all attempt_ok (j_attempts j) \<and>
     pred_option result_ok (j_result j) \<and> pred_option failure_ok (j_failure j)"
  using make_job_Inr_id make_job_valid by (auto simp: job_ok_def)

lemma make_job_projection: "make_job j = Inr j' \<Longrightarrow> make_job j' = Inr j'"
  using make_job_valid [of j j'] by (simp add: make_job_Inr_id)

section \<open>What validation guarantees\<close>

definition alive_within :: "real \<Rightarrow> real \<Rightarrow> job_attempt \<Rightarrow> bool" where
  "alive_within created updated a =
     (created \<le> a_started_at a \<and> a_started_at a \<le> updated \<and>
      pred_option (\<lambda>x. x \<le> updated) (a_finished_at a) \<and>
      pred_option (\<lambda>f. created \<le> f_occurred_at f \<and> f_occurred_at f \<le> updated) (a_failure a))"

lemma lifetime_iff: "first_error (lifetime_checks c u a) = None \<longleftrightarrow> alive_within c u a"
  by (cases "a_finished_at a"; cases "a_failure a") (auto simp: lifetime_checks_def alive_within_def)

lemma history_iff:
  "first_error (history_checks j) = None \<longleftrightarrow>
     0 < j_max_attempts j \<and> j_max_attempts j \<le> 64 \<and> attempt_count j \<le> j_max_attempts j \<and>
     map a_number (j_attempts j) = map int [1..<Suc (length (j_attempts j))] \<and>
     chronological (j_attempts j)"
  by (auto simp: history_checks_def)

lemma time_iff:
  "first_error (time_checks j) = None \<longleftrightarrow>
     0 \<le> j_created_at j \<and> j_created_at j \<le> j_available_at j \<and> j_created_at j \<le> j_updated_at j \<and>
     1 \<le> j_version j \<and> list_all (alive_within (j_created_at j) (j_updated_at j)) (j_attempts j) \<and>
     pred_option (\<lambda>r. j_created_at j \<le> r_completed_at r \<and> r_completed_at r \<le> j_updated_at j) (j_result j) \<and>
     pred_option (\<lambda>f. j_created_at j \<le> f_occurred_at f \<and> f_occurred_at f \<le> j_updated_at j) (j_failure j)"
  by (cases "j_result j"; cases "j_failure j")
     (auto simp: time_checks_def lifetime_iff list_all_iff not_less)

lemma job_valid_iff:
  "job_valid j \<longleftrightarrow> first_error (history_checks j) = None \<and> first_error (time_checks j) = None \<and>
     first_error (state_checks (j_state j) j) = None"
  by (simp add: job_valid_def job_checks_def)

lemma chronological_snoc:
  "chronological (as @ [a]) \<longleftrightarrow> chronological as \<and>
     (as = [] \<or> (\<exists>f. a_finished_at (last as) = Some f \<and> f \<le> a_started_at a))"
  by (induction as rule: chronological.induct) (auto split: option.splits)

lemma upt_snoc_int: "map int [1..<Suc (Suc n)] = map int [1..<Suc n] @ [int n + 1]"
  by simp

lemma last_attempt_snoc [simp]: "j_attempts j = as @ [a] \<Longrightarrow> last_attempt j = Some a"
  by (simp add: last_attempt_def)

lemma last_attempt_Nil [simp]: "j_attempts j = [] \<Longrightarrow> last_attempt j = None"
  by (simp add: last_attempt_def)

lemma queued_cases:
  assumes "job_ok j" and "j_state j = QUEUED"
  obtains (fresh) "j_attempts j = []" "0 < j_max_attempts j"
  | (retry) as a f t where "j_attempts j = as @ [a]" "a_state a = FAILED" "a_finished_at a = Some t"
      "a_failure a = Some f" "f_retryable f" "attempt_count j < j_max_attempts j"
proof (cases "j_attempts j" rule: rev_cases)
  case Nil
  with assms fresh show ?thesis by (auto simp: job_ok_iff job_valid_iff history_iff)
next
  case (snoc as a)
  with assms have "first_error (queued_checks j) = None" by (simp add: job_ok_iff job_valid_iff)
  with snoc obtain f where f: "a_state a = FAILED" "a_failure a = Some f" "f_retryable f"
      "attempt_count j < j_max_attempts j"
    by (auto simp: queued_checks_def split: option.splits)
  moreover from assms snoc have "attempt_ok a" by (simp add: job_ok_iff)
  then obtain t where "a_finished_at a = Some t"
    using f by (auto simp: attempt_ok_iff attempt_checks_def split: option.splits)
  ultimately show ?thesis using snoc retry by blast
qed

lemma running_cases:
  assumes "job_ok j" and "j_state j = RUNNING"
  obtains as a where "j_attempts j = as @ [a]" "a_state a = RUNNING" "a_finished_at a = None"
    "a_failure a = None" "a_number a = attempt_count j" "attempt_ok a"
proof (cases "j_attempts j" rule: rev_cases)
  case Nil
  with assms show ?thesis by (auto simp: job_ok_iff job_valid_iff running_checks_def)
next
  case (snoc as a)
  with assms have "first_error (running_checks j) = None" by (simp add: job_ok_iff job_valid_iff)
  with snoc have r: "a_state a = RUNNING" by (auto simp: running_checks_def)
  from assms snoc have ok: "attempt_ok a" by (simp add: job_ok_iff)
  with r have "a_finished_at a = None \<and> a_failure a = None"
    by (auto simp: attempt_ok_iff attempt_checks_def)
  moreover from assms snoc have "a_number a = attempt_count j"
    by (auto simp: job_ok_iff job_valid_iff history_iff)
  ultimately show ?thesis using snoc r ok that by blast
qed

lemma failed_cases:
  assumes "job_ok j" and "j_state j \<in> {FAILED, RETRYING, DEAD_LETTER}"
  obtains as a f t where "j_attempts j = as @ [a]" "a_state a = FAILED" "a_finished_at a = Some t"
    "a_failure a = Some f" "j_failure j = Some f" "j_result j = None"
    "f_attempt f = a_number a" "a_number a = attempt_count j"
    "a_started_at a \<le> f_occurred_at f" "f_occurred_at f \<le> t" "t \<le> j_updated_at j"
    "j_state j = RETRYING \<Longrightarrow> f_retryable f \<and> attempt_count j < j_max_attempts j"
proof (cases "j_attempts j" rule: rev_cases)
  case Nil
  with assms show ?thesis by (auto simp: job_ok_iff job_valid_iff failed_checks_def Let_def)
next
  case (snoc as a)
  have chk: "first_error (failed_checks j) = None"
    using assms by (auto simp: job_ok_iff job_valid_iff)
  from assms snoc have ok: "attempt_ok a" by (simp add: job_ok_iff)
  from chk snoc obtain f where f: "a_state a = FAILED" "a_failure a = Some f" "j_failure j = Some f"
      "j_result j = None" "f_attempt f = a_number a" "a_started_at a \<le> f_occurred_at f"
      "j_state j = RETRYING \<longrightarrow> f_retryable f \<and> attempt_count j < j_max_attempts j"
    by (auto simp: failed_checks_def Let_def not_less not_le split: option.splits)
  from ok f obtain t where t: "a_finished_at a = Some t" "f_occurred_at f \<le> t"
    by (auto simp: attempt_ok_iff attempt_checks_def split: option.splits)
  from assms snoc have "a_number a = attempt_count j"
    by (auto simp: job_ok_iff job_valid_iff history_iff)
  moreover from assms snoc t have "t \<le> j_updated_at j"
    by (auto simp: job_ok_iff job_valid_iff time_iff alive_within_def)
  ultimately show ?thesis using snoc f t that by blast
qed

section \<open>What the operations return\<close>

definition started :: "job \<Rightarrow> string \<Rightarrow> real \<Rightarrow> job" where
  "started j w t = j\<lparr>j_state := RUNNING,
     j_attempts := j_attempts j @
       [\<lparr>a_number = attempt_count j + 1, a_worker_id = w, a_state = RUNNING, a_started_at = t,
         a_finished_at = None, a_failure = None\<rparr>],
     j_result := None, j_failure := None, j_updated_at := t, j_version := j_version j + 1\<rparr>"

definition ended :: "job \<Rightarrow> job_state \<Rightarrow> real \<Rightarrow> job_result option \<Rightarrow> job_failure option \<Rightarrow> real \<Rightarrow> real \<Rightarrow> job" where
  "ended j target t result failure completion available = j\<lparr>j_state := target,
     j_attempts := butlast (j_attempts j) @
       [(last (j_attempts j))\<lparr>a_state := target, a_finished_at := Some completion, a_failure := failure\<rparr>],
     j_result := result, j_failure := failure, j_available_at := available, j_updated_at := t,
     j_version := j_version j + 1\<rparr>"

definition moved :: "job \<Rightarrow> job_state \<Rightarrow> real \<Rightarrow> job_failure option \<Rightarrow> real \<Rightarrow> job" where
  "moved j target t failure available = j\<lparr>j_state := target, j_result := None,
     j_failure := failure, j_available_at := available, j_updated_at := t,
     j_version := j_version j + 1\<rparr>"

lemmas outcome_defs = started_def ended_def moved_def

lemma ids_ok_outcome [simp]:
  "ids_ok (started j w t) = ids_ok j" "ids_ok (ended j g t r f c av) = ids_ok j"
  "ids_ok (moved j g t f av) = ids_ok j"
  by (simp_all add: ids_ok_def outcome_defs)

lemma first_attempt:
  "make_attempt (PInt n) v RUNNING (real_val t) None None = Inr a \<longleftrightarrow>
     (\<exists>w. 1 \<le> n \<and> n \<le> 64 \<and> job_identifier ''attempt.worker_id'' v = Inr w \<and> 0 \<le> t \<and>
        a = \<lparr>a_number = n, a_worker_id = w, a_state = RUNNING, a_started_at = t,
             a_finished_at = None, a_failure = None\<rparr>)"
  by (auto simp: make_attempt_Inr attempt_checks_def attempt_finish_def)

lemma start_attempt_eq:
  assumes "ids_ok j" and "j_state j = QUEUED" and "attempt_count j < j_max_attempts j"
    and "attempt_count j < 64" and "job_identifier ''attempt.worker_id'' v = Inr w"
    and "job_timestamp ''now'' now = Inr t" and "j_updated_at j \<le> t"
  shows "start_attempt j v now = make_job (started j w t)"
proof -
  have "0 \<le> t" using assms(6) by (auto simp: job_timestamp_Inr)
  with assms have "make_attempt (PInt (attempt_count j + 1)) v RUNNING (real_val t) None None =
      Inr \<lparr>a_number = attempt_count j + 1, a_worker_id = w, a_state = RUNNING, a_started_at = t,
             a_finished_at = None, a_failure = None\<rparr>"
    unfolding first_attempt by auto
  with assms show ?thesis by (simp add: start_attempt_def started_def)
qed

lemma start_attempt_Inr:
  assumes "ids_ok j" and "start_attempt j v now = Inr j'"
  obtains w t where "j_state j = QUEUED" "attempt_count j < j_max_attempts j" "attempt_count j < 64"
    "job_identifier ''attempt.worker_id'' v = Inr w" "job_timestamp ''now'' now = Inr t"
    "j_updated_at j \<le> t" "j' = started j w t" "job_valid j'"
proof -
  from assms(2) obtain t a where
    r: "j_state j = QUEUED" "attempt_count j < j_max_attempts j" "job_timestamp ''now'' now = Inr t"
      "j_updated_at j \<le> t"
      "make_attempt (PInt (attempt_count j + 1)) v RUNNING (real_val t) None None = Inr a"
    unfolding start_attempt_def by (simp only: returns not_le not_less not_not) blast
  from r(5) obtain w where w: "job_identifier ''attempt.worker_id'' v = Inr w" "attempt_count j < 64"
    unfolding first_attempt by auto
  with r assms have "make_job (started j w t) = Inr j'" by (simp add: start_attempt_eq)
  then show ?thesis using that r w assms(1) by (simp add: make_job_Inr_id)
qed

lemma parse_state_name [simp]: "parse_state (PStr (state_name st)) = Some st"
  by (cases st) simp_all

declare parse_state.simps(1) [simp del]

lemma finish_outcome_Inr:
  "finish_outcome g a t r f = Inr x \<longleftrightarrow> g \<in> {SUCCEEDED, CANCELLED} \<and> f = None \<and> x = None \<and>
       (if g = SUCCEEDED then \<exists>r'. r = Some r' \<and> r_completed_at r' \<le> t else r = None) \<or>
     g \<notin> {SUCCEEDED, CANCELLED} \<and> r = None \<and> x = f \<and>
       (\<exists>f'. f = Some f' \<and> f_attempt f' = a_number a \<and> f_occurred_at f' \<le> t)"
  by (auto simp: finish_outcome_def not_less split: option.splits if_splits)

lemma optional_timestamp_Inr:
  "optional_timestamp f d v = Inr x \<longleftrightarrow>
     (v = None \<and> x = d) \<or> (\<exists>u. v = Some u \<and> job_timestamp f u = Inr x)"
  by (auto simp: optional_timestamp_def split: option.splits)

lemma finish_attempt_Inr:
  assumes "ids_ok j" and "finish_attempt j ts now r f av fin = Inr j'"
    and "list_all attempt_ok (j_attempts j)"
  obtains g t completion available where "parse_state ts = Some g" "g \<in> {SUCCEEDED, FAILED, CANCELLED}"
    "j_state j = RUNNING" "j_attempts j \<noteq> []" "a_state (last (j_attempts j)) = RUNNING"
    "job_timestamp ''now'' now = Inr t" "j_updated_at j \<le> t"
    "finish_outcome g (last (j_attempts j)) t r f = Inr f"
    "optional_timestamp ''finished_at'' t fin = Inr completion"
    "a_started_at (last (j_attempts j)) \<le> completion" "completion \<le> t"
    "optional_timestamp ''available_at'' (j_available_at j) av = Inr available"
    "j' = ended j g t r f completion available" "job_valid j'"
    "pred_option failure_ok f \<Longrightarrow> attempt_ok (last (j_attempts j'))"
proof -
  let ?a = "last (j_attempts j)"
  from assms(2) obtain g t x completion b available where
    r: "parse_state ts = Some g" "j_state j = RUNNING" "j_attempts j \<noteq> []" "a_state ?a = RUNNING"
      "g \<in> {SUCCEEDED, FAILED, CANCELLED}" "job_timestamp ''now'' now = Inr t" "j_updated_at j \<le> t"
      "finish_outcome g ?a t r f = Inr x" "optional_timestamp ''finished_at'' t fin = Inr completion"
      "a_started_at ?a \<le> completion" "completion \<le> t"
    and att: "make_attempt (PInt (a_number ?a)) (PStr (a_worker_id ?a)) g (real_val (a_started_at ?a))
                (Some (real_val completion)) x = Inr b"
    and av: "optional_timestamp ''available_at'' (j_available_at j) av = Inr available"
    and mk: "make_job (j\<lparr>j_state := g, j_attempts := butlast (j_attempts j) @ [b],
          j_result := r, j_failure := x, j_available_at := available,
          j_updated_at := t, j_version := j_version j + 1\<rparr>) = Inr j'"
    unfolding finish_attempt_def Let_def
    by (simp only: returns not_le not_less not_not de_Morgan_disj) blast
  from r(8) have x: "x = f" by (auto simp: finish_outcome_Inr)
  have "attempt_ok ?a" using assms(3) r(3) by (simp add: list_all_iff)
  then have "identifier_ok (a_worker_id ?a)" by (simp add: attempt_ok_iff)
  then have "strip (a_worker_id ?a) = a_worker_id ?a"
    by (simp add: identifier_ok_def text_ok_def strip_id)
  with att x have b: "b = ?a\<lparr>a_state := g, a_finished_at := Some completion, a_failure := f\<rparr>"
    using attempt_finish_real [of _ "Some completion"]
    by (simp add: make_attempt_Inr job_identifier_Inr)
  have "make_job (ended j g t r f completion available) = Inr j'"
    using mk by (simp add: x b ended_def)
  with assms(1) have j': "j' = ended j g t r f completion available" "job_valid j'"
    by (simp_all add: make_job_Inr_id)
  have "pred_option failure_ok f \<Longrightarrow> attempt_ok (last (j_attempts j'))"
    using make_attempt_ok [OF att] by (simp add: j'(1) x b ended_def)
  then show ?thesis using that r av j' x by simp
qed

lemma transition_finish:
  assumes "j_state j = RUNNING" and "transition j ts now r f av = Inr j'"
  shows "finish_attempt j ts now r f av None = Inr j'"
proof -
  from assms obtain g where g: "parse_state ts = Some g"
    and fin: "finish_attempt j (PStr (state_name g)) now r f av None = Inr j'"
    unfolding transition_def by (simp only: returns assms(1) simp_thms if_True) blast
  have "finish_attempt j ts now r f av None = finish_attempt j (PStr (state_name g)) now r f av None"
    using g parse_state_name [of g] unfolding finish_attempt_def by (simp only:)
  with fin show ?thesis by simp
qed

lemma transition_Inr:
  assumes "ids_ok j" and "transition j ts now r f av = Inr j'" and "j_state j \<noteq> RUNNING"
  obtains g t x available where "parse_state ts = Some g" "can_transition (j_state j) g"
    "g \<notin> {RUNNING, SUCCEEDED}" "job_timestamp ''now'' now = Inr t" "j_updated_at j \<le> t"
    "optional_timestamp ''available_at'' (j_available_at j) av = Inr available"
    "if g \<in> {FAILED, RETRYING, DEAD_LETTER} then x = (case f of None \<Rightarrow> j_failure j | Some f \<Rightarrow> Some f)
     else x = None \<and> f = None"
    "j' = moved j g t x available" "job_valid j'"
proof -
  define y where "y = (case f of None \<Rightarrow> j_failure j | Some f \<Rightarrow> Some f)"
  from assms(2,3) obtain g t available where
    r: "parse_state ts = Some g" "can_transition (j_state j) g" "g \<noteq> RUNNING" "g \<noteq> SUCCEEDED"
      "r = None" "first_error (transition_failure_checks j g f y) = None"
      "job_timestamp ''now'' now = Inr t" "j_updated_at j \<le> t"
      "optional_timestamp ''available_at'' (j_available_at j) av = Inr available"
    and mk: "make_job (j\<lparr>j_state := g, j_result := r,
          j_failure := (if g \<in> {FAILED, RETRYING, DEAD_LETTER} then y else None),
          j_available_at := available, j_updated_at := t,
          j_version := j_version j + 1\<rparr>) = Inr j'"
    unfolding transition_def Let_def y_def
    by (simp only: returns not_le not_less not_not if_False) blast
  let ?x = "if g \<in> {FAILED, RETRYING, DEAD_LETTER} then y else None"
  from mk r have "make_job (moved j g t ?x available) = Inr j'" by (simp add: moved_def)
  with assms(1) have j': "j' = moved j g t ?x available" "job_valid j'"
    by (simp_all only: make_job_Inr_id ids_ok_outcome)
  have "if g \<in> {FAILED, RETRYING, DEAD_LETTER} then ?x = y else ?x = None \<and> f = None"
    using r(6) by (auto simp: transition_failure_checks_def)
  then show ?thesis using that r j' unfolding y_def by blast
qed

section \<open>Runs of a job\<close>

inductive job_step :: "job \<Rightarrow> job \<Rightarrow> bool" where
  start: "start_attempt j w now = Inr j' \<Longrightarrow> job_step j j'"
| finish: "finish_attempt j ts now r f av fin = Inr j' \<Longrightarrow>
    pred_option result_ok r \<Longrightarrow> pred_option failure_ok f \<Longrightarrow> job_step j j'"
| move: "transition j ts now r f av = Inr j' \<Longrightarrow>
    pred_option result_ok r \<Longrightarrow> pred_option failure_ok f \<Longrightarrow> job_step j j'"

text \<open>The three shapes of a step, with what each of them changed.\<close>

lemma job_step_cases:
  assumes "job_step j j'" and "job_ok j"
  obtains (started) w t where "j_state j = QUEUED" "attempt_count j < j_max_attempts j"
      "identifier_ok w" "0 \<le> t" "j_updated_at j \<le> t" "j' = started j w t" "job_valid j'"
  | (ended) g t r f c av where "j_state j = RUNNING" "j_attempts j \<noteq> []"
      "g \<in> {SUCCEEDED, FAILED, CANCELLED}"
      "j_updated_at j \<le> t" "j' = ended j g t r f c av" "job_valid j'"
      "pred_option result_ok r" "pred_option failure_ok f" "attempt_ok (last (j_attempts j'))"
  | (moved) g t f av where "j_state j \<noteq> RUNNING" "can_transition (j_state j) g"
      "g \<notin> {RUNNING, SUCCEEDED}" "j_updated_at j \<le> t" "j' = moved j g t f av" "job_valid j'"
      "pred_option failure_ok f"
proof -
  have ids: "ids_ok j" and ats: "list_all attempt_ok (j_attempts j)"
    and jf: "pred_option failure_ok (j_failure j)"
    using assms(2) by (simp_all add: job_ok_iff)
  have fin: thesis if "finish_attempt j ts now r f av fin = Inr j'" "pred_option result_ok r"
      "pred_option failure_ok f" for ts now r f av fin
    by (rule finish_attempt_Inr [OF ids that(1) ats]) (use that(2,3) ended in blast)
  from assms(1) show ?thesis
  proof cases
    case (start w now)
    show ?thesis
      by (rule start_attempt_Inr [OF ids start])
         (use started in \<open>auto simp: job_timestamp_Inr dest: job_identifier_ok\<close>)
  next
    case (finish ts now r f av fin)
    then show ?thesis by (rule fin)
  next
    case (move ts now r f av)
    show ?thesis
    proof (cases "j_state j = RUNNING")
      case True
      show ?thesis using fin [OF transition_finish [OF True move(1)] move(2,3)] .
    next
      case False
      show ?thesis
      proof (rule transition_Inr [OF ids move(1) False])
        fix g t x available
        assume r: "can_transition (j_state j) g" "g \<notin> {RUNNING, SUCCEEDED}" "j_updated_at j \<le> t"
          "j' = moved j g t x available" "job_valid j'"
        assume "if g \<in> {FAILED, RETRYING, DEAD_LETTER}
           then x = (case f of None \<Rightarrow> j_failure j | Some f \<Rightarrow> Some f) else x = None \<and> f = None"
        then have "pred_option failure_ok x"
          using jf move(3) by (cases f) (auto split: if_splits)
        then show thesis using moved False r by blast
      qed
    qed
  qed
qed

lemma job_step_ok: "job_step j j' \<Longrightarrow> job_ok j \<Longrightarrow> job_ok j'"
proof (erule job_step_cases, assumption)
  fix w t assume "job_ok j" "identifier_ok w" "0 \<le> t" "attempt_count j < j_max_attempts j"
    and s: "j' = started j w t" "job_valid j'"
  moreover from this have "attempt_count j < 64" by (auto simp: job_ok_iff job_valid_iff history_iff)
  ultimately show "job_ok j'"
    by (auto simp: job_ok_iff s(1) started_def attempt_ok_iff finish_ok_def attempt_checks_def ids_ok_def)
next
  fix g t r f c av
  assume j: "job_ok j" "j_attempts j \<noteq> []" and s: "j' = ended j g t r f c av" "job_valid j'"
    "pred_option result_ok r" "pred_option failure_ok f" "attempt_ok (last (j_attempts j'))"
  have "list_all attempt_ok (butlast (j_attempts j))"
    using j by (auto simp: job_ok_iff list_all_iff dest: in_set_butlastD)
  then show "job_ok j'" using j s by (simp add: job_ok_iff ended_def ids_ok_def)
next
  fix g t f av
  assume "job_ok j" "j' = moved j g t f av" "job_valid j'" "pred_option failure_ok f"
  then show "job_ok j'" by (simp add: job_ok_iff moved_def ids_ok_def)
qed

lemma job_step_transition: "job_step j j' \<Longrightarrow> job_ok j \<Longrightarrow> can_transition (j_state j) (j_state j')"
  by (erule job_step_cases, assumption) (auto simp: outcome_defs can_transition_def)

lemma job_step_counters:
  "job_step j j' \<Longrightarrow> job_ok j \<Longrightarrow>
     j_version j' = j_version j + 1 \<and> j_updated_at j \<le> j_updated_at j' \<and>
     j_max_attempts j' = j_max_attempts j \<and> j_created_at j' = j_created_at j \<and>
     idempotency_identity j' = idempotency_identity j \<and> request_envelope j' = request_envelope j \<and>
     j_job_id j' = j_job_id j"
  by (erule job_step_cases, assumption)
     (auto simp: outcome_defs idempotency_identity_def request_envelope_def)

text \<open>Finished attempts are never rewritten: only a running attempt, the last one, may change.\<close>

definition finished_history :: "job \<Rightarrow> job_attempt list" where
  "finished_history j = filter (\<lambda>a. a_state a \<noteq> RUNNING) (j_attempts j)"

lemma job_step_history:
  assumes "job_step j j'" and "job_ok j"
  shows "\<exists>as. finished_history j' = finished_history j @ as \<and> length as \<le> 1"
  using assms(1,2)
proof (cases rule: job_step_cases)
  case (ended g t r f c av)
  obtain as a where a: "j_attempts j = as @ [a]" "a_state a = RUNNING"
    using running_cases [OF assms(2) ended(1)] by metis
  then have "finished_history j' = finished_history j @ [a\<lparr>a_state := g, a_finished_at := Some c, a_failure := f\<rparr>]"
    using ended by (auto simp: finished_history_def ended_def)
  then show ?thesis by simp
qed (auto simp: finished_history_def started_def moved_def)

subsection \<open>Runs from creation\<close>

inductive reachable_job :: "job \<Rightarrow> bool" where
  created: "create_job jid tid wid cid op key pl now m = Inr j \<Longrightarrow> reachable_job j"
| stepped: "reachable_job j \<Longrightarrow> job_step j j' \<Longrightarrow> reachable_job j'"

lemma create_job_Inr:
  "create_job jid tid wid cid op key pl now m = Inr j \<Longrightarrow>
     job_ok j \<and> j_state j = PENDING \<and> j_attempts j = [] \<and> j_version j = 1"
  by (auto simp: create_job_def rbind_Inr job_ok_iff dest: make_job_valid make_job_rest)

lemma reachable_job_ok: "reachable_job j \<Longrightarrow> job_ok j"
  by (induction rule: reachable_job.induct) (auto dest: create_job_Inr job_step_ok)

text \<open>
  The version of a job is determined by its state and the number of its attempts, up to the
  moment of a cancellation: every attempt costs four transitions.
\<close>

fun version_law :: "job_state \<Rightarrow> int \<Rightarrow> int \<Rightarrow> bool" where
  "version_law PENDING k v = (k = 0 \<and> v = 1)"
| "version_law QUEUED k v = (v = 4 * k + 2)"
| "version_law RUNNING k v = (v = 4 * k - 1)"
| "version_law SUCCEEDED k v = (v = 4 * k)"
| "version_law FAILED k v = (v = 4 * k)"
| "version_law RETRYING k v = (v = 4 * k + 1)"
| "version_law DEAD_LETTER k v = (v = 4 * k + 1 \<or> v = 4 * k + 2)"
| "version_law CANCELLED k v = (v = 4 * k \<or> v = 4 * k + 2 \<or> v = 4 * k + 3)"

lemma job_step_version_law:
  assumes "job_step j j'" and "job_ok j" and "version_law (j_state j) (attempt_count j) (j_version j)"
  shows "version_law (j_state j') (attempt_count j') (j_version j')"
  using assms(1,2)
proof (cases rule: job_step_cases)
  case (ended g t r f c av)
  then show ?thesis using assms(3) by (cases "j_attempts j" rule: rev_cases) (auto simp: ended_def)
next
  case (moved g t f av)
  then show ?thesis
    using assms(3) by (cases "j_state j") (auto simp: moved_def can_transition_def)
qed (use assms(3) in \<open>auto simp: started_def\<close>)

lemma reachable_version_law:
  "reachable_job j \<Longrightarrow> version_law (j_state j) (attempt_count j) (j_version j)"
  by (induction rule: reachable_job.induct)
     (auto dest: create_job_Inr job_step_version_law reachable_job_ok)

lemma attempts_le_max: "job_ok j \<Longrightarrow> attempt_count j \<le> j_max_attempts j \<and> 0 < j_max_attempts j"
  by (simp add: job_ok_iff job_valid_iff history_iff)

lemma resumable_below_max:
  "job_ok j \<Longrightarrow> j_state j \<in> {QUEUED, RETRYING} \<Longrightarrow> attempt_count j < j_max_attempts j"
  by (cases "j_state j") (auto elim: queued_cases failed_cases)

text \<open>A version bound that needs the step before a cancellation or a dead letter.\<close>

lemma reachable_version_bound:
  "reachable_job j \<Longrightarrow> j_version j \<le> 4 * j_max_attempts j + 1"
proof (cases rule: reachable_job.cases)
  fix i assume i: "reachable_job i" "job_step i j"
  note ok = reachable_job_ok [OF i(1)]
  note law = reachable_version_law [OF i(1)]
  have v: "j_version j = j_version i + 1" "j_max_attempts j = j_max_attempts i"
    and tr: "allowed_transitions (j_state i) \<noteq> []"
    using job_step_counters [OF i(2) ok] job_step_transition [OF i(2) ok]
    by (auto simp: can_transition_def)
  show "j_version j \<le> 4 * j_max_attempts j + 1"
    using law tr v attempts_le_max [OF ok] resumable_below_max [OF ok]
    by (cases "j_state i") auto
qed (auto dest!: create_job_Inr attempts_le_max)

lemma run_version:
  assumes "(job_step ^^ n) j0 j" and "reachable_job j0"
  shows "reachable_job j \<and> j_version j = j_version j0 + int n \<and> j_max_attempts j = j_max_attempts j0"
  using assms(1)
proof (induction n arbitrary: j)
  case (Suc n)
  then obtain i where i: "(job_step ^^ n) j0 i" "job_step i j" by auto
  from Suc.IH [OF i(1)] job_step_counters [OF i(2)] reachable_job_ok stepped [OF _ i(2)]
  show ?case by simp
qed (use assms(2) in simp)

section \<open>Operations that must succeed\<close>

lemma alive_within_mono: "alive_within c u a \<Longrightarrow> u \<le> u' \<Longrightarrow> alive_within c u' a"
  by (auto simp: alive_within_def pred_option_def)

lemma list_alive_mono:
  "list_all (alive_within c u) as \<Longrightarrow> u \<le> u' \<Longrightarrow> list_all (alive_within c u') as"
  by (auto simp: list_all_iff intro: alive_within_mono)

lemma started_valid:
  assumes ok: "job_ok j" and q: "j_state j = QUEUED" and t: "j_updated_at j \<le> t"
  shows "job_valid (started j w t)"
proof -
  have hist: "first_error (history_checks j) = None" and time: "first_error (time_checks j) = None"
    using ok by (simp_all add: job_ok_iff job_valid_iff)
  have lim: "attempt_count j < j_max_attempts j" using resumable_below_max [OF ok] q by simp
  have chron: "chronological (j_attempts j @ [a])" if "a_started_at a = t" for a
    using ok q
  proof (cases rule: queued_cases)
    case (retry as b f s)
    then have "s \<le> j_updated_at j"
      using time by (auto simp: time_iff alive_within_def)
    moreover have "chronological (j_attempts j)" using hist by (simp add: history_iff)
    ultimately show ?thesis
      using retry(1,3) t that unfolding chronological_snoc [of "j_attempts j"] by simp
  qed simp
  have "first_error (history_checks (started j w t)) = None"
    using hist lim chron by (auto simp: history_iff started_def)
  moreover have "first_error (time_checks (started j w t)) = None"
    using time t list_alive_mono [of "j_created_at j" "j_updated_at j" "j_attempts j" t]
    by (auto simp: time_iff started_def) (simp add: alive_within_def)
  moreover have "first_error (state_checks (j_state (started j w t)) (started j w t)) = None"
    by (simp add: started_def running_checks_def last_attempt_def)
  ultimately show ?thesis by (simp add: job_valid_iff)
qed

lemma chronological_replace:
  "chronological (as @ [a]) \<Longrightarrow> a_started_at b = a_started_at a \<Longrightarrow> chronological (as @ [b])"
  by (auto simp: chronological_snoc)

lemma ended_valid:
  assumes ok: "job_ok j" and run: "j_state j = RUNNING" and t: "j_updated_at j \<le> t"
    and c: "a_started_at (last (j_attempts j)) \<le> c" "c \<le> t" and av: "j_created_at j \<le> av"
    and st: "first_error (state_checks g (ended j g t r f c av)) = None"
    and r: "pred_option (\<lambda>r. a_started_at (last (j_attempts j)) \<le> r_completed_at r \<and> r_completed_at r \<le> t) r"
    and f: "pred_option (\<lambda>f. a_started_at (last (j_attempts j)) \<le> f_occurred_at f \<and> f_occurred_at f \<le> t) f"
  shows "job_valid (ended j g t r f c av)"
proof -
  have hist: "first_error (history_checks j) = None" and time: "first_error (time_checks j) = None"
    using ok by (simp_all add: job_ok_iff job_valid_iff)
  obtain as a where a: "j_attempts j = as @ [a]" using running_cases [OF ok run] by metis
  let ?b = "a\<lparr>a_state := g, a_finished_at := Some c, a_failure := f\<rparr>"
  have "chronological (as @ [?b])"
    using hist a by (auto simp: history_iff intro: chronological_replace)
  then have "first_error (history_checks (ended j g t r f c av)) = None"
    using hist a by (auto simp: history_iff ended_def)
  moreover have "j_created_at j \<le> a_started_at a" "a_started_at a \<le> j_updated_at j"
      "list_all (alive_within (j_created_at j) t) as"
    using time a t list_alive_mono [of "j_created_at j" "j_updated_at j" as t]
    by (auto simp: time_iff alive_within_def)
  then have "first_error (time_checks (ended j g t r f c av)) = None"
    using time a t c av r f
    by (cases r; cases f) (auto simp: time_iff ended_def alive_within_def)
  ultimately show ?thesis using st by (simp add: job_valid_iff ended_def)
qed

lemma moved_valid:
  assumes ok: "job_ok j" and t: "j_updated_at j \<le> t" and av: "j_created_at j \<le> av"
    and f: "f = None \<or> f = j_failure j"
    and st: "first_error (state_checks g (moved j g t f av)) = None"
  shows "job_valid (moved j g t f av)"
proof -
  have hist: "first_error (history_checks j) = None" and time: "first_error (time_checks j) = None"
    using ok by (simp_all add: job_ok_iff job_valid_iff)
  have "first_error (history_checks (moved j g t f av)) = None"
    using hist by (simp add: history_iff moved_def)
  moreover have "first_error (time_checks (moved j g t f av)) = None"
    using time t av f list_alive_mono [of "j_created_at j" "j_updated_at j" "j_attempts j" t]
    by (cases "j_failure j") (auto simp: time_iff moved_def)
  ultimately show ?thesis using st by (simp add: job_valid_iff moved_def)
qed

lemma job_times: "job_ok j \<Longrightarrow> 0 \<le> j_updated_at j \<and> j_created_at j \<le> j_available_at j"
  by (auto simp: job_ok_iff job_valid_iff time_iff)

lemma start_attempt_returns:
  assumes "job_ok j" "j_state j = QUEUED" "identifier_ok w" "j_updated_at j \<le> t"
  shows "start_attempt j (PStr w) (real_val t) = Inr (started j w t)"
proof -
  have "attempt_count j < j_max_attempts j" using resumable_below_max assms by simp
  moreover have "j_max_attempts j \<le> 64" using assms by (simp add: job_ok_iff job_valid_iff history_iff)
  ultimately have "start_attempt j (PStr w) (real_val t) = make_job (started j w t)"
    using assms job_times [of j] by (intro start_attempt_eq) (auto simp: job_ok_iff job_identifier_id)
  then show ?thesis
    using started_valid [OF assms(1,2,4)] assms(1) by (simp add: make_job_id job_ok_iff job_valid_def checked_def)
qed

text \<open>\<open>finish_attempt\<close> without the optional timestamps, on a job whose outcome is acceptable.\<close>

lemma finish_attempt_returns:
  assumes ok: "job_ok j" and run: "j_state j = RUNNING" and t: "j_updated_at j \<le> t"
    and g: "g \<in> {SUCCEEDED, FAILED, CANCELLED}"
    and out: "finish_outcome g (last (j_attempts j)) t r f = Inr f"
    and r: "pred_option (\<lambda>r. a_started_at (last (j_attempts j)) \<le> r_completed_at r) r"
    and f: "pred_option (\<lambda>f. a_started_at (last (j_attempts j)) \<le> f_occurred_at f) f"
  shows "finish_attempt j (PStr (state_name g)) (real_val t) r f None None =
     Inr (ended j g t r f t (j_available_at j))"
proof -
  obtain as a where a: "j_attempts j = as @ [a]" "a_state a = RUNNING" "a_number a = attempt_count j"
    "attempt_ok a" using running_cases [OF ok run] by metis
  let ?b = "a\<lparr>a_state := g, a_finished_at := Some t, a_failure := f\<rparr>"
  have le: "a_started_at a \<le> t" "0 \<le> t" "identifier_ok (a_worker_id a)"
    using ok a t by (auto simp: job_ok_iff job_valid_iff time_iff alive_within_def attempt_ok_iff)
  have mk: "make_attempt (PInt (a_number a)) (PStr (a_worker_id a)) g (real_val (a_started_at a))
      (Some (real_val t)) f = Inr ?b"
    using a le g out f attempt_finish_real [of "a_started_at a" "Some t" "Some t"]
    by (auto simp: make_attempt_Inr attempt_ok_iff job_identifier_id finish_outcome_Inr attempt_checks_def
        finish_ok_def)
  have st: "first_error (state_checks g (ended j g t r f t (j_available_at j))) = None"
    using g out a r f le
    by (auto simp: finish_outcome_Inr ended_def succeeded_checks_def failed_checks_def
        cancelled_checks_def last_attempt_def Let_def)
  have "job_valid (ended j g t r f t (j_available_at j))"
    using ended_valid [OF ok run t _ _ _ st] le a job_times [OF ok] out r f
    by (auto simp: finish_outcome_Inr pred_option_def)
  then have "make_job (ended j g t r f t (j_available_at j)) = Inr (ended j g t r f t (j_available_at j))"
    using ok by (simp add: make_job_Inr_id job_ok_iff)
  then show ?thesis
    using a run t g le out mk
    by (simp add: finish_attempt_def optional_timestamp_def job_timestamp_def ended_def not_less)
qed

definition kept_failure :: "job \<Rightarrow> job_state \<Rightarrow> job_failure option" where
  "kept_failure j g = (if g \<in> {FAILED, RETRYING, DEAD_LETTER} then j_failure j else None)"

text \<open>Every edge of the table that does not involve an attempt can be taken.\<close>

lemma transition_state_checks:
  assumes ok: "job_ok j" and g: "can_transition (j_state j) g" "j_state j \<noteq> RUNNING" "g \<noteq> RUNNING"
    and retry: "g = RETRYING \<longrightarrow> retry_eligible j"
  shows "first_error (state_checks g (moved j g t (kept_failure j g) av)) = None \<and>
     first_error (transition_failure_checks j g None (j_failure j)) = None"
proof -
  have st: "first_error (state_checks (j_state j) j) = None"
    using ok by (simp add: job_ok_iff job_valid_iff)
  consider "j_state j = PENDING" | "j_state j = QUEUED" | "j_state j \<in> {FAILED, RETRYING, DEAD_LETTER}"
    using g by (cases "j_state j") (auto simp: can_transition_def)
  then show ?thesis
  proof cases
    case 1
    with st g show ?thesis
      by (auto simp: can_transition_def moved_def queued_checks_def cancelled_checks_def
          transition_failure_checks_def kept_failure_def)
  next
    case 2
    with g have c: "g = CANCELLED" by (auto simp: can_transition_def)
    from ok 2 show ?thesis
      by (cases rule: queued_cases)
         (auto simp: c moved_def cancelled_checks_def last_attempt_def transition_failure_checks_def
            kept_failure_def)
  next
    case 3
    show ?thesis
    proof (rule failed_cases [OF ok 3])
      fix as a f s
      assume j: "j_attempts j = as @ [a]" "a_state a = FAILED" "a_finished_at a = Some s"
        "a_failure a = Some f" "j_failure j = Some f" "j_result j = None"
        "f_attempt f = a_number a" "a_number a = attempt_count j"
        "a_started_at a \<le> f_occurred_at f" "f_occurred_at f \<le> s"
        "j_state j = RETRYING \<Longrightarrow> f_retryable f \<and> attempt_count j < j_max_attempts j"
      have "g \<in> {QUEUED, CANCELLED, RETRYING, DEAD_LETTER}" "g = QUEUED \<longrightarrow> j_state j = RETRYING"
        using g 3 by (auto simp: can_transition_def)
      then show ?thesis
        using j retry
        by (auto simp: moved_def queued_checks_def cancelled_checks_def failed_checks_def Let_def
            last_attempt_def transition_failure_checks_def retry_eligible_def kept_failure_def)
    qed
  qed
qed

lemma transition_returns:
  assumes ok: "job_ok j" and g: "can_transition (j_state j) g" "j_state j \<noteq> RUNNING" "g \<noteq> RUNNING"
    and retry: "g = RETRYING \<longrightarrow> retry_eligible j" and t: "j_updated_at j \<le> t"
  shows "transition j (PStr (state_name g)) (real_val t) None None None =
     Inr (moved j g t (kept_failure j g) (j_available_at j))"
proof -
  note chk = transition_state_checks [OF ok g retry]
  have "job_valid (moved j g t (kept_failure j g) (j_available_at j))"
    using ok t job_times [OF ok] chk by (intro moved_valid) (auto simp: kept_failure_def)
  then have mk: "make_job (moved j g t (kept_failure j g) (j_available_at j)) =
      Inr (moved j g t (kept_failure j g) (j_available_at j))"
    using ok by (simp add: make_job_Inr_id job_ok_iff)
  have "g \<noteq> SUCCEEDED" using g by (cases "j_state j") (auto simp: can_transition_def)
  moreover have "(case j_failure j of None \<Rightarrow> False | Some f \<Rightarrow> f_occurred_at f > t) = False"
    using ok t by (auto simp: job_ok_iff job_valid_iff time_iff split: option.splits)
  moreover have "checked (transition_failure_checks j g None (j_failure j)) () = Inr ()"
    using chk [of t "j_available_at j"] by (simp add: checked_def)
  ultimately show ?thesis
    using g t mk job_times [OF ok]
    by (simp add: transition_def optional_timestamp_def job_timestamp_def moved_def kept_failure_def)
qed

section \<open>Properties\<close>

text \<open>A queued job and the operations on it, for the examples.\<close>

definition sample_job :: job where
  "sample_job = \<lparr>j_job_id = ''j'', j_tenant_id = ''t'', j_workspace_id = ''w'', j_collection_id = ''c'',
     j_operation = ''o'', j_idempotency_key = ''k'', j_payload = [], j_state = QUEUED,
     j_max_attempts = 1, j_attempts = [], j_result = None, j_failure = None, j_available_at = 0,
     j_created_at = 0, j_updated_at = 0, j_version = 2\<rparr>"

lemma sample_ids:
  "c \<in> {CHR ''j'', CHR ''t'', CHR ''w'', CHR ''c'', CHR ''k'', CHR ''o''} \<Longrightarrow>
     identifier_ok [c] \<and> operation_ok [c]"
  by (auto simp: identifier_ok_def operation_ok_def text_ok_def stripped_def IDENTIFIER_def OPERATION_def
      char_defs ident_tail_def)

lemma sample_ok: "job_ok sample_job"
  using sample_ids
  by (simp add: job_ok_iff sample_job_def ids_ok_def map_ok_def entries_ok_def job_valid_iff
      history_iff time_iff queued_checks_def)

text \<open>C9. Every successful operation on a valid job returns a valid job, follows an edge of the
  transition table, increments the version by one, never moves the clock back, changes neither the
  scope, the idempotency identity, the request envelope nor the attempt limit, and extends the
  list of finished attempts by at most one without rewriting it.\<close>

theorem job_step_contract:
  assumes "job_ok j" and "job_step j j'"
  shows "job_ok j' \<and> can_transition (j_state j) (j_state j') \<and> j_version j' = j_version j + 1 \<and>
     j_updated_at j \<le> j_updated_at j' \<and> j_max_attempts j' = j_max_attempts j \<and>
     idempotency_identity j' = idempotency_identity j \<and> request_envelope j' = request_envelope j \<and>
     (\<exists>as. finished_history j' = finished_history j @ as \<and> length as \<le> 1)"
  using job_step_ok [OF assms(2,1)] job_step_transition [OF assms(2,1)]
    job_step_counters [OF assms(2,1)] job_step_history [OF assms(2,1)] by simp

theorem job_step_contract_witness:
  "job_step sample_job (started sample_job ''w'' 5) \<and> job_ok (started sample_job ''w'' 5)"
proof -
  have "start_attempt sample_job (PStr ''w'') (real_val 5) = Inr (started sample_job ''w'' 5)"
    by (rule start_attempt_returns [OF sample_ok]) (use sample_ids in \<open>auto simp: sample_job_def\<close>)
  then have s: "job_step sample_job (started sample_job ''w'' 5)" by (rule job_step.start)
  show ?thesis using s job_step_contract [OF sample_ok s] by blast
qed

text \<open>A valid queued job can always be started: for every valid worker identifier and every time
  that is not before its last update, \<open>start_attempt\<close> returns the running job with one more
  attempt, numbered after the previous ones and running since that time.\<close>

theorem start_attempt_total:
  assumes "job_ok j" "j_state j = QUEUED" "identifier_ok w" "j_updated_at j \<le> t"
  shows "start_attempt j (PStr w) (real_val t) = Inr (j\<lparr>j_state := RUNNING,
     j_attempts := j_attempts j @
       [\<lparr>a_number = attempt_count j + 1, a_worker_id = w, a_state = RUNNING, a_started_at = t,
         a_finished_at = None, a_failure = None\<rparr>],
     j_result := None, j_failure := None, j_updated_at := t, j_version := j_version j + 1\<rparr>)"
  using start_attempt_returns [OF assms] by (simp add: started_def)

theorem start_attempt_total_witness:
  "map_sum id j_version (start_attempt sample_job (PStr ''w'') (real_val 7)) = Inr 3"
  using start_attempt_total [OF sample_ok, of "''w''" 7] sample_ids by (simp add: sample_job_def)

text \<open>A valid running job can always be finished: with a result completed during the attempt it
  succeeds, with a failure of the active attempt it fails, and without either it is cancelled. In
  each case the active attempt, and no other, is closed at the time of the call.\<close>

theorem finish_attempt_total:
  assumes "job_ok j" "j_state j = RUNNING" "j_updated_at j \<le> t"
    and "a_started_at (last (j_attempts j)) \<le> r_completed_at r" "r_completed_at r \<le> t"
    and "a_started_at (last (j_attempts j)) \<le> f_occurred_at f" "f_occurred_at f \<le> t"
    and "f_attempt f = attempt_count j"
  shows "finish_attempt j (PStr ''SUCCEEDED'') (real_val t) (Some r) None None None =
           Inr (ended j SUCCEEDED t (Some r) None t (j_available_at j)) \<and>
         finish_attempt j (PStr ''FAILED'') (real_val t) None (Some f) None None =
           Inr (ended j FAILED t None (Some f) t (j_available_at j)) \<and>
         finish_attempt j (PStr ''CANCELLED'') (real_val t) None None None None =
           Inr (ended j CANCELLED t None None t (j_available_at j))"
proof -
  have n: "a_number (last (j_attempts j)) = attempt_count j"
    using running_cases [OF assms(1,2)] by (metis last_snoc)
  show ?thesis
    using finish_attempt_returns [OF assms(1-3), of SUCCEEDED "Some r" None]
      finish_attempt_returns [OF assms(1-3), of FAILED None "Some f"]
      finish_attempt_returns [OF assms(1-3), of CANCELLED None None] assms(4-) n
    by (simp add: finish_outcome_Inr)
qed

definition sample_running :: job where
  "sample_running = started sample_job ''w'' 5"

lemma sample_running_ok: "job_ok sample_running"
proof -
  have "start_attempt sample_job (PStr ''w'') (real_val 5) = Inr sample_running"
    unfolding sample_running_def
    by (rule start_attempt_returns [OF sample_ok]) (use sample_ids in \<open>auto simp: sample_job_def\<close>)
  then show ?thesis using job_step_ok [OF job_step.start] sample_ok by blast
qed

theorem finish_attempt_total_witness:
  "map_sum id j_state (finish_attempt sample_running (PStr ''CANCELLED'') (real_val 9) None None None None) =
     Inr CANCELLED"
  using finish_attempt_total [OF sample_running_ok, of 9
      "\<lparr>r_output_refs = [], r_document_id = None, r_completed_at = 6\<rparr>"
      "\<lparr>f_code = ''e'', f_message = ''m'', f_retryable = True, f_attempt = 1, f_occurred_at = 6\<rparr>"]
  by (simp add: sample_running_def started_def sample_job_def ended_def)

text \<open>C32. A job has no endless life: every run of a created job takes at most four successful
  operations per allowed attempt, whatever the callers do.\<close>

theorem job_runs_bounded:
  assumes "create_job jid tid wid cid op key pl now m = Inr j0" and "(job_step ^^ n) j0 j"
  shows "n \<le> nat (4 * m)"
proof -
  have "j_max_attempts j0 = m"
    using assms(1) by (auto simp: create_job_def rbind_Inr dest: make_job_rest)
  moreover have "reachable_job j0" "j_version j0 = 1"
    using assms(1) reachable_job.created create_job_Inr by blast+
  ultimately have "reachable_job j" "j_version j = 1 + int n" "j_max_attempts j = m"
    using run_version [OF assms(2)] by simp_all
  then show ?thesis using reachable_version_bound [of j] by simp
qed

lemma sample_created:
  "create_job ''j'' ''t'' ''w'' ''c'' ''o'' ''k'' [] (PInt 0) 1 =
     Inr (sample_job\<lparr>j_state := PENDING, j_version := 1\<rparr>)"
  using sample_ids
  by (simp add: create_job_def job_timestamp_def sample_job_def make_job_id ids_ok_def map_ok_def
      entries_ok_def checked_Inr job_valid_iff [unfolded job_valid_def] history_iff time_iff)

lemma sample_queued_step: "job_step (sample_job\<lparr>j_state := PENDING, j_version := 1\<rparr>) sample_job"
proof -
  have ok: "job_ok (sample_job\<lparr>j_state := PENDING, j_version := 1\<rparr>)"
    using create_job_Inr [OF sample_created] by blast
  have "transition (sample_job\<lparr>j_state := PENDING, j_version := 1\<rparr>) (PStr (state_name QUEUED)) (real_val 0)
      None None None = Inr sample_job"
    using transition_returns [OF ok, of QUEUED 0]
    by (simp add: can_transition_def moved_def sample_job_def kept_failure_def)
  then show ?thesis by (rule job_step.move) simp_all
qed

lemma sample_start_step: "job_step sample_job sample_running"
  unfolding sample_running_def
  by (rule job_step.start, rule start_attempt_returns [OF sample_ok])
     (use sample_ids in \<open>auto simp: sample_job_def\<close>)

theorem job_runs_bounded_witness:
  "(job_step ^^ 2) (sample_job\<lparr>j_state := PENDING, j_version := 1\<rparr>) sample_running \<and> 2 \<le> nat (4 * 1)"
proof -
  have run: "(job_step ^^ 2) (sample_job\<lparr>j_state := PENDING, j_version := 1\<rparr>) sample_running"
    using sample_queued_step sample_start_step by (auto simp: numeral_2_eq_2)
  show ?thesis using run job_runs_bounded [OF sample_created run] by blast
qed

text \<open>A job is stuck exactly in its terminal states, and it can always be ended: a valid job
  outside \<open>SUCCEEDED\<close>, \<open>CANCELLED\<close> and \<open>DEAD_LETTER\<close> can be moved into one of
  them by a single operation, and a job in one of them rejects every operation.\<close>

theorem job_can_end:
  assumes "job_ok j"
  shows "(if state_terminal (j_state j) then \<not> (\<exists>j'. job_step j j')
          else \<exists>j'. job_step j j' \<and> state_terminal (j_state j'))"
proof (cases "state_terminal (j_state j)")
  case True
  then show ?thesis
    using job_step_transition [OF _ assms] by (auto simp: state_terminal_def can_transition_def)
next
  case False
  let ?t = "j_updated_at j"
  have "\<exists>j'. job_step j j' \<and> state_terminal (j_state j')"
  proof (cases "j_state j = RUNNING")
    case True
    have "finish_attempt j (PStr (state_name CANCELLED)) (real_val ?t) None None None None =
        Inr (ended j CANCELLED ?t None None ?t (j_available_at j))"
      using finish_attempt_returns [OF assms True, of ?t CANCELLED None None]
      by (simp add: finish_outcome_Inr)
    then show ?thesis
      by (intro exI conjI job_step.finish) (auto simp: ended_def state_terminal_def)
  next
    case nr: False
    define g where "g = (if j_state j = FAILED then DEAD_LETTER else CANCELLED)"
    have "can_transition (j_state j) g" "g \<noteq> RUNNING" "g \<noteq> RETRYING"
      using False nr by (cases "j_state j"; simp add: g_def can_transition_def state_terminal_def)+
    then have "transition j (PStr (state_name g)) (real_val ?t) None None None =
        Inr (moved j g ?t (kept_failure j g) (j_available_at j))"
      using transition_returns [OF assms _ nr] by simp
    then show ?thesis
      by (intro exI conjI job_step.move) (auto simp: moved_def state_terminal_def g_def)
  qed
  with False show ?thesis by simp
qed

theorem job_can_end_witness: "\<exists>j'. job_step sample_running j' \<and> state_terminal (j_state j')"
  using job_can_end [OF sample_running_ok]
  by (simp add: state_terminal_def sample_running_def started_def)

text \<open>The attempt limit holds: a failed job whose attempts are used up, or whose failure is not
  retryable, can still be moved, but only to the dead letter state, with its attempts and its
  failure kept.\<close>

theorem exhausted_job_is_dead:
  assumes "job_ok j" "j_state j = FAILED" "\<not> retry_eligible j"
  shows "(\<exists>j'. job_step j j') \<and>
    (\<forall>j'. job_step j j' \<longrightarrow> j_state j' = DEAD_LETTER \<and> j_attempts j' = j_attempts j \<and> j_failure j' = j_failure j)"
proof -
  have "j_state j' = DEAD_LETTER \<and> j_attempts j' = j_attempts j \<and> j_failure j' = j_failure j"
    if s: "job_step j j'" for j'
  proof -
    from s assms(1) have same: "j_attempts j' = j_attempts j" "j_max_attempts j' = j_max_attempts j"
      using assms(2) by (cases rule: job_step_cases; auto simp: moved_def)+
    have st: "j_state j' \<in> {FAILED, RETRYING, DEAD_LETTER}" "j_state j' \<noteq> FAILED"
      using job_step_transition [OF s assms(1)] assms(2) by (auto simp: can_transition_def)
    obtain as a f where f: "j_attempts j = as @ [a]" "a_failure a = Some f" "j_failure j = Some f"
      by (rule failed_cases [OF assms(1)]) (use assms(2) in auto)
    obtain as' a' f' where f': "j_attempts j = as' @ [a']" "a_failure a' = Some f'" "j_failure j' = Some f'"
      "j_state j' = RETRYING \<longrightarrow> f_retryable f' \<and> attempt_count j < j_max_attempts j"
      by (rule failed_cases [OF job_step_ok [OF s assms(1)] st(1)]) (use same in auto)
    with f have "f' = f" by simp
    with f f' assms(2,3) have "j_state j' \<noteq> RETRYING" by (auto simp: retry_eligible_def)
    with st same f f' show ?thesis by auto
  qed
  moreover have "\<exists>j'. job_step j j'"
    by (rule exI, rule job_step.move,
        rule transition_returns [OF assms(1), of DEAD_LETTER "j_updated_at j"])
       (use assms(2) in \<open>auto simp: can_transition_def\<close>)
  ultimately show ?thesis by blast
qed

definition sample_failure :: job_failure where
  "sample_failure = \<lparr>f_code = ''e'', f_message = ''m'', f_retryable = True, f_attempt = 1, f_occurred_at = 6\<rparr>"

lemma sample_failure_ok: "failure_ok sample_failure"
  by (simp add: failure_ok_iff sample_failure_def text_ok_def stripped_def char_defs lower_s_def
      SAFE_ERROR_def has_forbidden_part_def FORBIDDEN_FIELD_PARTS_def)

definition sample_failed :: job where
  "sample_failed = ended sample_running FAILED 9 None (Some sample_failure) 9 0"

lemma sample_failed_ok: "job_ok sample_failed"
proof -
  have "finish_attempt sample_running (PStr (state_name FAILED)) (real_val 9) None (Some sample_failure) None None
      = Inr sample_failed"
    using finish_attempt_returns [OF sample_running_ok, of 9 FAILED None "Some sample_failure"]
    by (simp add: finish_outcome_Inr sample_failed_def sample_running_def started_def sample_job_def
        sample_failure_def)
  then show ?thesis
    using job_step_ok [OF job_step.finish sample_running_ok] sample_failure_ok by simp
qed

theorem exhausted_job_is_dead_witness:
  "\<not> retry_eligible sample_failed \<and> (\<exists>j'. job_step sample_failed j' \<and> j_state j' = DEAD_LETTER)"
proof -
  have d: "\<not> retry_eligible sample_failed" "j_state sample_failed = FAILED"
    by (simp_all add: retry_eligible_def sample_failed_def ended_def sample_running_def started_def sample_job_def)
  show ?thesis using exhausted_job_is_dead [OF sample_failed_ok d(2,1)] d by blast
qed

text \<open>What a job stores is safe: a payload or a result map that validation accepts has bounded
  size, sorted distinct keys, every key in the allow-list (or with an allowed suffix) and without
  a forbidden part, every value bounded, of the metadata form and without a sensitive marker; and
  validating it again returns it unchanged.\<close>

theorem bounded_map_safe:
  assumes "bounded_map f n m raw = Inr d"
  shows "length d \<le> n \<and> distinct (map fst d) \<and> sorted (map fst d) \<and>
    (\<forall>(k, v) \<in> set d.
       (k \<in> set SAFE_METADATA_KEYS \<or> list_ex (endswith k) METADATA_KEY_SUFFIXES) \<and>
       \<not> has_forbidden_part k \<and> v \<noteq> [] \<and> length v \<le> m \<and> re_fullmatch METADATA_VALUE v \<and>
       \<not> re_search SENSITIVE_METADATA_VALUE v) \<and>
    bounded_map f' n m (as_values d) = Inr d"
proof -
  have "map_ok n m d" using assms by (rule bounded_map_ok)
  then show ?thesis
    by (auto simp: bounded_map_id map_ok_def entries_ok_def list_all_iff key_ok_def field_ok_def
        value_ok_def text_ok_def)
qed

lemma sample_entry: "map_ok 32 512 [(''page'', ''7'')]"
proof -
  have "\<not> re_search SENSITIVE_METADATA_VALUE ''7''"
    by (simp add: SENSITIVE_METADATA_VALUE_def pattern_defs re_search_def char_defs sep_opt_def
        not_alnum_i_def)
  moreover have "key_ok ''page''"
    by (simp add: key_ok_def field_ok_def text_ok_def stripped_def char_defs lower_s_def FIELD_def
        field_tail_def has_forbidden_part_def FORBIDDEN_FIELD_PARTS_def SAFE_METADATA_KEYS_def)
  ultimately show ?thesis
    by (simp add: map_ok_def entries_ok_def value_ok_def text_ok_def stripped_def char_defs
        METADATA_VALUE_def)
qed

theorem bounded_map_safe_witness:
  "bounded_map ''payload'' 32 512 [(PStr ''page'', PStr ''7'')] = Inr [(''page'', ''7'')] \<and>
   bounded_map ''output'' 32 512 (as_values [(''page'', ''7'')]) = Inr [(''page'', ''7'')]"
proof -
  have r: "bounded_map ''payload'' 32 512 [(PStr ''page'', PStr ''7'')] = Inr [(''page'', ''7'')]"
    using bounded_map_id [OF sample_entry] by (simp add: as_values_def)
  then show ?thesis using bounded_map_safe [OF r, of "''output''"] by blast
qed

text \<open>Submitting a request twice is idempotent: a candidate with the scope, key and request of the
  stored job gets the stored job back, whatever its state has become since, and a candidate that
  differs in the scope, the key or the request is refused.\<close>

theorem ensure_idempotent_run:
  assumes "job_ok j0" and "job_step\<^sup>*\<^sup>* j0 j" and "idempotency_identity c = idempotency_identity j0"
  shows "ensure_idempotent (Some j) c =
    (if request_envelope c = request_envelope j0 then Inr j
     else Inl (JobIdempotencyConflictError ''idempotency key was reused for a different request''))"
proof -
  from assms(2,1) have "job_ok j \<and> idempotency_identity j = idempotency_identity j0 \<and>
      request_envelope j = request_envelope j0"
  proof (induction rule: rtranclp_induct)
    case (step i k)
    then show ?case using job_step_ok [of i k] job_step_counters [of i k] by simp
  qed simp
  then show ?thesis using assms(3) by (auto simp: ensure_idempotent_def)
qed

theorem ensure_idempotent_run_witness:
  "ensure_idempotent (Some sample_running) sample_job = Inr sample_running"
  using ensure_idempotent_run [OF sample_ok, of sample_running sample_job] sample_start_step by auto

end
