(* ===== verification/DurableQueue.thy ===== *)
theory DurableQueue
  imports Regex Json
begin

text \<open>
  The durable queue of the worker (\<open>apps/worker/durable_queue.py\<close>): validation of its
  arguments, the table \<open>durable_jobs\<close> as a list of rows, and every operation of
  \<open>SQLiteDurableQueue\<close> as one transaction on it. An operation that raises rolls its
  transaction back, so a result \<open>Inl\<close> leaves the table as it was. The SQL statements are
  list functions: \<open>UPDATE\<close> maps, \<open>DELETE\<close> filters, \<open>ORDER BY ... LIMIT\<close> sorts
  and takes. Lease tokens, drawn by \<open>secrets.token_urlsafe\<close>, and the readings of the
  clock are arguments. The emitted lifecycle events are not modelled: they carry no state back.
\<close>

datatype queue_error =
    QueueCapacityError string
  | QueueConfigurationError string
  | QueueNotFoundError string
  | QueueLeaseError string
  | QueueIdempotencyError string

section \<open>Validation\<close>

definition QUEUE_KEY :: regex where
  "QUEUE_KEY = anchored (name_pattern alnum_ascii (\<lambda>c. alnum_ascii c \<or> c \<in> set ''_.:-'') 127)"

definition QUEUE_SAFE_ERROR :: regex where
  "QUEUE_SAFE_ERROR = anchored (name_pattern lower_c (\<lambda>c. lower_c c \<or> digit_c c \<or> c \<in> set ''_.:-'') 63)"

definition ALLOWED_PAYLOAD :: "string list" where
  "ALLOWED_PAYLOAD =
     [''operation'', ''document_id'', ''source_key'', ''filename'', ''request_id'',
      ''correlation_id'', ''collection_id'', ''workspace_id'', ''tenant_id'']"

abbreviation (input) "MAX_JSON_BYTES \<equiv> (32768::nat)"

fun queue_text :: "string \<Rightarrow> nat \<Rightarrow> pyval \<Rightarrow> queue_error + string" where
  "queue_text label limit (PStr value) =
     (let candidate = strip value in
      if candidate = [] \<or> length candidate > limit \<or> CHR 0x00 \<in> set candidate \<or>
         list_ex (\<lambda>ch. ord_c ch < 32) candidate
      then Inl (QueueConfigurationError (label @ '' is invalid''))
      else Inr candidate)"
| "queue_text label limit v = Inl (QueueConfigurationError (label @ '' must be text''))"

definition queue_key :: "string \<Rightarrow> pyval \<Rightarrow> queue_error + string" where
  "queue_key label v =
     rbind (queue_text label 128 v) (\<lambda>candidate.
       if \<not> re_fullmatch QUEUE_KEY candidate
       then Inl (QueueConfigurationError (label @ '' is invalid''))
       else Inr candidate)"

definition queue_payload_item :: "pyval \<times> pyval \<Rightarrow> queue_error + string \<times> string" where
  "queue_payload_item item =
     (case fst item of
        PStr key \<Rightarrow>
          if key \<notin> set ALLOWED_PAYLOAD
          then Inl (QueueConfigurationError ''payload contains an unsupported field'')
          else if \<not> is_str (snd item)
          then Inl (QueueConfigurationError ''payload values must be bounded text'')
          else rbind (queue_text (''payload.'' @ key) 256 (snd item)) (\<lambda>text. Inr (key, text))
      | _ \<Rightarrow> Inl (QueueConfigurationError ''payload contains an unsupported field''))"

fun queue_payload_loop :: "(pyval \<times> pyval) list \<Rightarrow> dict \<Rightarrow> queue_error + dict" where
  "queue_payload_loop [] clean = Inr clean"
| "queue_payload_loop (item # items) clean =
     rbind (queue_payload_item item) (\<lambda>(key, text).
       queue_payload_loop items (AList.update key text clean))"

definition queue_payload :: "(pyval \<times> pyval) list \<Rightarrow> queue_error + string \<times> dict" where
  "queue_payload value =
     (if value = [] then Inl (QueueConfigurationError ''payload must be a non-empty mapping'')
      else rbind (queue_payload_loop value []) (\<lambda>clean.
        let encoded = json_dumps clean in
        if utf8_length encoded > MAX_JSON_BYTES
        then Inl (QueueConfigurationError ''payload is too large'')
        else Inr (encoded, clean)))"

definition payload_values :: "dict \<Rightarrow> (pyval \<times> pyval) list" where
  "payload_values d = map (\<lambda>(k, v). (PStr k, PStr v)) d"

definition decode_payload :: "string \<Rightarrow> dict" where
  "decode_payload value =
     (if utf8_length value > MAX_JSON_BYTES then []
      else case json_loads value of
        None \<Rightarrow> []
      | Some pairs \<Rightarrow>
          if \<not> distinct (map fst pairs) then []
          else case queue_payload (payload_values pairs) of
            Inl _ \<Rightarrow> []
          | Inr (encoded, clean) \<Rightarrow> clean)"

definition queue_safe_error :: "pyval \<Rightarrow> queue_error + string" where
  "queue_safe_error v =
     rbind (queue_text ''error'' 64 v) (\<lambda>t.
       let candidate = lower_s t in
       if \<not> re_fullmatch QUEUE_SAFE_ERROR candidate \<or>
          list_ex (\<lambda>token. contains_s token candidate) [''token'', ''secret'', ''password'', ''bearer'']
       then Inl (QueueConfigurationError ''error is invalid'')
       else Inr candidate)"

fun finite_now :: "pyfloat \<Rightarrow> queue_error + real" where
  "finite_now (Fin x) = Inr x"
| "finite_now v = Inl (QueueConfigurationError ''clock returned a non-finite value'')"

text \<open>\<open>self._now() if now is None else _finite_now(now)\<close>\<close>

definition queue_now :: "pyfloat \<Rightarrow> pyfloat option \<Rightarrow> queue_error + real" where
  "queue_now clock now = (case now of None \<Rightarrow> finite_now clock | Some t \<Rightarrow> finite_now t)"

section \<open>Configuration\<close>

record queue_cfg =
  qc_max_pending :: int
  qc_max_terminal_rows :: int
  qc_max_attempts :: int
  qc_lease_seconds :: real
  qc_backoff_seconds :: real

fun int_between :: "int \<Rightarrow> int \<Rightarrow> pyval \<Rightarrow> int option" where
  "int_between lo hi (PInt n) = (if lo \<le> n \<and> n \<le> hi then Some n else None)"
| "int_between lo hi v = None"

fun float_between :: "real \<Rightarrow> real \<Rightarrow> pyval \<Rightarrow> real option" where
  "float_between lo hi (PInt n) = (if lo \<le> of_int n \<and> of_int n \<le> hi then Some (of_int n) else None)"
| "float_between lo hi (PBool b) = (if lo \<le> of_bool b \<and> of_bool b \<le> hi then Some (of_bool b) else None)"
| "float_between lo hi (PFloat (Fin x)) = (if lo \<le> x \<and> x \<le> hi then Some x else None)"
| "float_between lo hi v = None"

definition make_queue_cfg ::
  "string \<Rightarrow> bool \<Rightarrow> pyval \<Rightarrow> pyval option \<Rightarrow> pyval \<Rightarrow> pyval \<Rightarrow> pyval \<Rightarrow> queue_error + queue_cfg" where
  "make_queue_cfg mode production max_pending max_terminal_rows max_attempts lease_seconds backoff_seconds =
     (if mode \<notin> {''local'', ''test''} \<or> production
      then Inl (QueueConfigurationError ''local durable queue cannot run in production mode'')
      else case int_between 1 100000 max_pending of
        None \<Rightarrow> Inl (QueueConfigurationError ''max_pending is out of range'')
      | Some pending \<Rightarrow>
      rbind (case max_terminal_rows of
               None \<Rightarrow> Inr (min 100000 (max 64 (pending * 4)))
             | Some v \<Rightarrow> (case int_between 1 100000 v of
                 None \<Rightarrow> Inl (QueueConfigurationError ''max_terminal_rows is out of range'')
               | Some n \<Rightarrow> Inr n)) (\<lambda>terminal.
      case int_between 1 64 max_attempts of
        None \<Rightarrow> Inl (QueueConfigurationError ''max_attempts is out of range'')
      | Some attempts \<Rightarrow>
      (case float_between (1 / 10) 86400 lease_seconds of
         None \<Rightarrow> Inl (QueueConfigurationError ''lease_seconds is out of range'')
       | Some lease \<Rightarrow>
      (case float_between 0 86400 backoff_seconds of
         None \<Rightarrow> Inl (QueueConfigurationError ''backoff_seconds is out of range'')
       | Some backoff \<Rightarrow>
           Inr \<lparr>qc_max_pending = pending, qc_max_terminal_rows = terminal,
                qc_max_attempts = attempts, qc_lease_seconds = lease, qc_backoff_seconds = backoff\<rparr>))))"

section \<open>The table\<close>

datatype row_status = Queued | Leased | Acked | Dead | Cancelled

fun status_name :: "row_status \<Rightarrow> string" where
  "status_name Queued = ''queued''"
| "status_name Leased = ''leased''"
| "status_name Acked = ''acked''"
| "status_name Dead = ''dead''"
| "status_name Cancelled = ''cancelled''"

definition active_status :: "row_status \<Rightarrow> bool" where
  "active_status s = (s \<in> {Queued, Leased})"

definition terminal_status :: "row_status \<Rightarrow> bool" where
  "terminal_status s = (s \<in> {Acked, Dead, Cancelled})"

record queue_row =
  q_job_id :: string
  q_key :: string
  q_status :: row_status
  q_payload_json :: string
  q_tenant_id :: string
  q_workspace_id :: string
  q_collection_id :: string
  q_attempts :: int
  q_available_at :: real
  q_lease_until :: "real option"
  q_lease_owner :: "string option"
  q_created_at :: real
  q_updated_at :: real
  q_last_error :: "string option"

record queue_record =
  qr_job_id :: string
  qr_idempotency_key :: string
  qr_status :: row_status
  qr_payload :: dict
  qr_scope :: "string \<times> string \<times> string"
  qr_attempts :: int
  qr_available_at :: real
  qr_lease_until :: "real option"
  qr_lease_token :: "string option"
  qr_created_at :: real
  qr_updated_at :: real
  qr_last_error :: "string option"

definition decode_row :: "queue_row \<Rightarrow> queue_record" where
  "decode_row r =
     \<lparr>qr_job_id = q_job_id r, qr_idempotency_key = q_key r, qr_status = q_status r,
      qr_payload = decode_payload (q_payload_json r),
      qr_scope = (q_tenant_id r, q_workspace_id r, q_collection_id r),
      qr_attempts = q_attempts r, qr_available_at = q_available_at r,
      qr_lease_until = q_lease_until r, qr_lease_token = q_lease_owner r,
      qr_created_at = q_created_at r, qr_updated_at = q_updated_at r,
      qr_last_error = q_last_error r\<rparr>"

record queue_db =
  qd_rows :: "queue_row list"
  qd_closed :: bool

type_synonym 'a queue_res = "queue_error + 'a \<times> queue_row list"

definition transaction :: "queue_db \<Rightarrow> (queue_row list \<Rightarrow> 'a queue_res) \<Rightarrow> queue_error + 'a \<times> queue_db" where
  "transaction db body =
     (if qd_closed db then Inl (QueueConfigurationError ''queue is closed'')
      else rbind (body (qd_rows db)) (\<lambda>(x, rows). Inr (x, db\<lparr>qd_rows := rows\<rparr>)))"

definition find_row :: "string \<Rightarrow> queue_row list \<Rightarrow> queue_row option" where
  "find_row job_id rows = List.find (\<lambda>r. q_job_id r = job_id) rows"

definition update_row :: "string \<Rightarrow> (queue_row \<Rightarrow> queue_row) \<Rightarrow> queue_row list \<Rightarrow> queue_row list" where
  "update_row job_id f rows = map (\<lambda>r. if q_job_id r = job_id then f r else r) rows"

definition terminal_count :: "queue_row list \<Rightarrow> nat" where
  "terminal_count rows = length (filter (\<lambda>r. terminal_status (q_status r)) rows)"

definition active_count :: "queue_row list \<Rightarrow> nat" where
  "active_count rows = length (filter (\<lambda>r. active_status (q_status r)) rows)"

definition prune_victims :: "queue_cfg \<Rightarrow> string option \<Rightarrow> queue_row list \<Rightarrow> queue_row list" where
  "prune_victims cfg preserve rows =
     (let excess = int (terminal_count rows) - qc_max_terminal_rows cfg in
      if excess \<le> 0 then []
      else take (nat excess)
        (sort_key (\<lambda>r. (q_updated_at r, q_created_at r, q_job_id r))
          (filter (\<lambda>r. terminal_status (q_status r) \<and> preserve \<noteq> Some (q_job_id r)) rows)))"

definition prune_terminal_rows :: "queue_cfg \<Rightarrow> string option \<Rightarrow> queue_row list \<Rightarrow> queue_row list" where
  "prune_terminal_rows cfg preserve rows =
     (let victims = map q_job_id (prune_victims cfg preserve rows) in
      filter (\<lambda>r. q_job_id r \<notin> set victims) rows)"

definition retry_delay :: "queue_cfg \<Rightarrow> int \<Rightarrow> real" where
  "retry_delay cfg attempts = min (qc_backoff_seconds cfg * 2 ^ nat (max 0 (attempts - 1))) 86400"

definition lease_expired :: "real \<Rightarrow> queue_row \<Rightarrow> bool" where
  "lease_expired now r =
     (q_status r = Leased \<and> (case q_lease_until r of None \<Rightarrow> False | Some u \<Rightarrow> u \<le> now))"

definition recover_row :: "queue_cfg \<Rightarrow> real \<Rightarrow> queue_row \<Rightarrow> queue_row" where
  "recover_row cfg now r =
     (if lease_expired now r then
        (if q_attempts r \<ge> qc_max_attempts cfg
         then r\<lparr>q_status := Dead, q_lease_until := None, q_lease_owner := None,
                q_last_error := Some ''lease_expired'', q_updated_at := now\<rparr>
         else r\<lparr>q_status := Queued, q_available_at := now + retry_delay cfg (q_attempts r),
                q_lease_until := None, q_lease_owner := None,
                q_last_error := Some ''lease_expired'', q_updated_at := now\<rparr>)
      else r)"

definition recover_expired :: "queue_cfg \<Rightarrow> real \<Rightarrow> queue_row list \<Rightarrow> nat \<times> queue_row list" where
  "recover_expired cfg now rows =
     (length (filter (lease_expired now) rows), map (recover_row cfg now) rows)"

definition owned_row :: "string \<Rightarrow> string \<Rightarrow> real \<Rightarrow> queue_row list \<Rightarrow> queue_row option" where
  "owned_row job_id lease_token now rows =
     List.find (\<lambda>r. q_job_id r = job_id \<and> q_status r = Leased \<and> q_lease_owner r = Some lease_token \<and>
       (case q_lease_until r of None \<Rightarrow> False | Some u \<Rightarrow> u > now)) rows"

section \<open>Operations\<close>

definition initialize :: "queue_cfg \<Rightarrow> queue_row list \<Rightarrow> queue_db" where
  "initialize cfg rows = \<lparr>qd_rows = prune_terminal_rows cfg None rows, qd_closed = False\<rparr>"

definition new_row ::
  "string \<Rightarrow> string \<Rightarrow> string \<Rightarrow> string \<times> string \<times> string \<Rightarrow> real \<Rightarrow> queue_row" where
  "new_row job_id key payload_json scope timestamp =
     \<lparr>q_job_id = job_id, q_key = key, q_status = Queued, q_payload_json = payload_json,
      q_tenant_id = fst scope, q_workspace_id = fst (snd scope), q_collection_id = snd (snd scope),
      q_attempts = 0, q_available_at = timestamp, q_lease_until = None, q_lease_owner = None,
      q_created_at = timestamp, q_updated_at = timestamp, q_last_error = None\<rparr>"

text \<open>The transaction of \<open>enqueue\<close>.\<close>

definition enqueue_body ::
  "queue_cfg \<Rightarrow> string \<Rightarrow> string \<Rightarrow> string \<times> dict \<Rightarrow> string \<times> string \<times> string \<Rightarrow> real \<Rightarrow>
   queue_row list \<Rightarrow> queue_record queue_res" where
  "enqueue_body cfg job_id key payload scope timestamp rows =
     (let rows1 = snd (recover_expired cfg timestamp rows) in
      case List.find (\<lambda>r. q_key r = key) rows1 of
        Some existing \<Rightarrow>
          (let record = decode_row existing in
           if dict_sorted (qr_payload record) \<noteq> dict_sorted (snd payload) \<or> qr_job_id record \<noteq> job_id
           then Inl (QueueIdempotencyError ''idempotency key conflicts with an existing job'')
           else Inr (record, prune_terminal_rows cfg (Some (qr_job_id record)) rows1))
      | None \<Rightarrow>
          if int (active_count rows1) \<ge> qc_max_pending cfg
          then Inl (QueueCapacityError ''durable queue is full'')
          else if find_row job_id rows1 \<noteq> None
          then Inl (QueueIdempotencyError ''job identity already exists'')
          else (let row = new_row job_id key (fst payload) scope timestamp in
                Inr (decode_row row, prune_terminal_rows cfg (Some job_id) (rows1 @ [row]))))"

definition enqueue ::
  "queue_cfg \<Rightarrow> pyfloat \<Rightarrow> queue_db \<Rightarrow> pyval \<Rightarrow> pyval \<Rightarrow> (pyval \<times> pyval) list \<Rightarrow> pyval \<Rightarrow> pyval \<Rightarrow> pyval \<Rightarrow>
   pyfloat option \<Rightarrow> queue_error + queue_record \<times> queue_db" where
  "enqueue cfg clock db job_id idempotency_key payload tenant_id workspace_id collection_id now =
     rbind (queue_key ''job_id'' job_id) (\<lambda>jid.
     rbind (queue_key ''idempotency_key'' idempotency_key) (\<lambda>key.
     rbind (queue_key ''tenant_id'' tenant_id) (\<lambda>tid.
     rbind (queue_key ''workspace_id'' workspace_id) (\<lambda>wid.
     rbind (queue_key ''collection_id'' collection_id) (\<lambda>cid.
     rbind (queue_payload payload) (\<lambda>clean.
     rbind (queue_now clock now) (\<lambda>timestamp.
       transaction db (enqueue_body cfg jid key clean (tid, wid, cid) timestamp))))))))"

text \<open>The loop of \<open>claim\<close>: one token is drawn for every selected row.\<close>

definition lease_row :: "queue_cfg \<Rightarrow> string \<Rightarrow> real \<Rightarrow> string \<Rightarrow> queue_row \<Rightarrow> queue_row" where
  "lease_row cfg worker_id timestamp token r =
     (if q_status r = Queued
      then r\<lparr>q_status := Leased, q_attempts := q_attempts r + 1,
             q_lease_until := Some (timestamp + qc_lease_seconds cfg),
             q_lease_owner := Some (worker_id @ '':'' @ token), q_updated_at := timestamp\<rparr>
      else r)"

fun claim_loop ::
  "queue_cfg \<Rightarrow> string \<Rightarrow> real \<Rightarrow> (nat \<Rightarrow> string) \<Rightarrow> nat \<Rightarrow> string list \<Rightarrow> queue_row list \<Rightarrow>
   queue_record list \<times> queue_row list" where
  "claim_loop cfg worker_id timestamp tokens i [] rows = ([], rows)"
| "claim_loop cfg worker_id timestamp tokens i (jid # jids) rows =
     (let rows1 = update_row jid (lease_row cfg worker_id timestamp (tokens i)) rows;
          (claimed, rows2) = claim_loop cfg worker_id timestamp tokens (Suc i) jids rows1
      in (case find_row jid rows of
            Some r \<Rightarrow> if q_status r = Queued
              then (case find_row jid rows1 of None \<Rightarrow> claimed | Some r' \<Rightarrow> decode_row r' # claimed)
              else claimed
          | None \<Rightarrow> claimed, rows2))"

definition claimable :: "real \<Rightarrow> nat \<Rightarrow> queue_row list \<Rightarrow> string list" where
  "claimable timestamp limit rows =
     map q_job_id (take limit (sort_key (\<lambda>r. (q_created_at r, q_job_id r))
       (filter (\<lambda>r. q_status r = Queued \<and> q_available_at r \<le> timestamp) rows)))"

definition claim_body ::
  "queue_cfg \<Rightarrow> (nat \<Rightarrow> string) \<Rightarrow> string \<Rightarrow> int \<Rightarrow> real \<Rightarrow> queue_row list \<Rightarrow> queue_record list queue_res" where
  "claim_body cfg tokens worker_id limit timestamp rows =
     (let rows1 = prune_terminal_rows cfg None (snd (recover_expired cfg timestamp rows))
      in Inr (claim_loop cfg worker_id timestamp tokens 0 (claimable timestamp (nat limit) rows1) rows1))"

definition claim ::
  "queue_cfg \<Rightarrow> pyfloat \<Rightarrow> (nat \<Rightarrow> string) \<Rightarrow> queue_db \<Rightarrow> pyval \<Rightarrow> pyval \<Rightarrow> pyfloat option \<Rightarrow>
   queue_error + queue_record list \<times> queue_db" where
  "claim cfg clock tokens db worker_id limit now =
     rbind (queue_key ''worker_id'' worker_id) (\<lambda>w.
     case int_between 1 100 limit of
       None \<Rightarrow> Inl (QueueConfigurationError ''claim limit is out of range'')
     | Some n \<Rightarrow>
         rbind (queue_now clock now) (\<lambda>timestamp.
           transaction db (claim_body cfg tokens w n timestamp)))"

definition heartbeat_body ::
  "queue_cfg \<Rightarrow> string \<Rightarrow> string \<Rightarrow> real \<Rightarrow> queue_row list \<Rightarrow> queue_record queue_res" where
  "heartbeat_body cfg job_id lease_token timestamp rows =
     (case owned_row job_id lease_token timestamp rows of
        None \<Rightarrow>
          if find_row job_id rows = None
          then Inl (QueueNotFoundError ''job does not exist'')
          else Inl (QueueLeaseError ''lease is not owned by this worker'')
      | Some row \<Rightarrow>
          (let extend = (\<lambda>r. if q_status r = Leased
                 then r\<lparr>q_lease_until := Some (timestamp + qc_lease_seconds cfg), q_updated_at := timestamp\<rparr>
                 else r)
           in Inr (decode_row (extend row), update_row job_id extend rows)))"

definition heartbeat ::
  "queue_cfg \<Rightarrow> pyfloat \<Rightarrow> queue_db \<Rightarrow> pyval \<Rightarrow> pyval \<Rightarrow> pyfloat option \<Rightarrow> queue_error + queue_record \<times> queue_db" where
  "heartbeat cfg clock db job_id lease_token now =
     rbind (queue_key ''job_id'' job_id) (\<lambda>jid.
     rbind (queue_text ''lease_token'' 256 lease_token) (\<lambda>token.
     rbind (queue_now clock now) (\<lambda>timestamp.
       transaction db (heartbeat_body cfg jid token timestamp))))"

definition finish_row :: "row_status \<Rightarrow> real \<Rightarrow> queue_row \<Rightarrow> queue_row" where
  "finish_row status timestamp r =
     r\<lparr>q_status := status, q_lease_until := None, q_lease_owner := None, q_updated_at := timestamp\<rparr>"

definition finish_body ::
  "queue_cfg \<Rightarrow> row_status \<Rightarrow> string \<Rightarrow> string \<Rightarrow> real \<Rightarrow> queue_row list \<Rightarrow> queue_record queue_res" where
  "finish_body cfg status job_id lease_token timestamp rows =
     (case owned_row job_id lease_token timestamp rows of
        None \<Rightarrow> Inl (QueueLeaseError ''lease is not owned by this worker'')
      | Some row \<Rightarrow>
          Inr (decode_row (finish_row status timestamp row),
               prune_terminal_rows cfg (Some job_id) (update_row job_id (finish_row status timestamp) rows)))"

definition ack ::
  "queue_cfg \<Rightarrow> pyfloat \<Rightarrow> queue_db \<Rightarrow> pyval \<Rightarrow> pyval \<Rightarrow> pyfloat option \<Rightarrow> queue_error + queue_record \<times> queue_db" where
  "ack cfg clock db job_id lease_token now =
     rbind (queue_key ''job_id'' job_id) (\<lambda>jid.
     rbind (queue_text ''lease_token'' 256 lease_token) (\<lambda>token.
     rbind (queue_now clock now) (\<lambda>timestamp.
       transaction db (finish_body cfg Acked jid token timestamp))))"

definition fail_row :: "queue_cfg \<Rightarrow> string \<Rightarrow> real \<Rightarrow> queue_row \<Rightarrow> queue_row" where
  "fail_row cfg error timestamp r =
     (if q_attempts r \<ge> qc_max_attempts cfg
      then r\<lparr>q_status := Dead, q_available_at := timestamp, q_lease_until := None,
             q_lease_owner := None, q_last_error := Some error, q_updated_at := timestamp\<rparr>
      else r\<lparr>q_status := Queued, q_available_at := timestamp + retry_delay cfg (q_attempts r),
             q_lease_until := None, q_lease_owner := None, q_last_error := Some error,
             q_updated_at := timestamp\<rparr>)"

definition fail_body ::
  "queue_cfg \<Rightarrow> string \<Rightarrow> string \<Rightarrow> string \<Rightarrow> real \<Rightarrow> queue_row list \<Rightarrow> queue_record queue_res" where
  "fail_body cfg job_id lease_token error timestamp rows =
     (case owned_row job_id lease_token timestamp rows of
        None \<Rightarrow> Inl (QueueLeaseError ''lease is not owned by this worker'')
      | Some row \<Rightarrow>
          (let row' = fail_row cfg error timestamp row in
           Inr (decode_row row',
                prune_terminal_rows cfg (if q_status row' = Dead then Some job_id else None)
                  (update_row job_id (fail_row cfg error timestamp) rows))))"

definition fail ::
  "queue_cfg \<Rightarrow> pyfloat \<Rightarrow> queue_db \<Rightarrow> pyval \<Rightarrow> pyval \<Rightarrow> pyval \<Rightarrow> pyfloat option \<Rightarrow> queue_error + queue_record \<times> queue_db" where
  "fail cfg clock db job_id lease_token error now =
     rbind (queue_key ''job_id'' job_id) (\<lambda>jid.
     rbind (queue_text ''lease_token'' 256 lease_token) (\<lambda>token.
     rbind (queue_safe_error error) (\<lambda>safe_error.
     rbind (queue_now clock now) (\<lambda>timestamp.
       transaction db (fail_body cfg jid token safe_error timestamp)))))"

definition cancel_body ::
  "queue_cfg \<Rightarrow> string \<Rightarrow> string option \<Rightarrow> real \<Rightarrow> queue_row list \<Rightarrow> queue_record queue_res" where
  "cancel_body cfg job_id lease_token timestamp rows =
     (case find_row job_id rows of
        None \<Rightarrow> Inl (QueueNotFoundError ''job does not exist'')
      | Some row \<Rightarrow>
          if q_status row = Leased \<and> (lease_token = None \<or> q_lease_owner row \<noteq> lease_token)
          then Inl (QueueLeaseError ''leased job requires its owner to cancel'')
          else if terminal_status (q_status row)
          then Inr (decode_row row, prune_terminal_rows cfg (Some job_id) rows)
          else Inr (decode_row (finish_row Cancelled timestamp row),
                    prune_terminal_rows cfg (Some job_id)
                      (update_row job_id (finish_row Cancelled timestamp) rows)))"

definition cancel ::
  "queue_cfg \<Rightarrow> pyfloat \<Rightarrow> queue_db \<Rightarrow> pyval \<Rightarrow> pyval option \<Rightarrow> pyfloat option \<Rightarrow> queue_error + queue_record \<times> queue_db" where
  "cancel cfg clock db job_id lease_token now =
     rbind (queue_key ''job_id'' job_id) (\<lambda>jid.
     rbind (case lease_token of
              None \<Rightarrow> Inr None
            | Some v \<Rightarrow> rbind (queue_text ''lease_token'' 256 v) (\<lambda>t. Inr (Some t))) (\<lambda>token.
     rbind (queue_now clock now) (\<lambda>timestamp.
       transaction db (cancel_body cfg jid token timestamp))))"

definition recover :: "queue_cfg \<Rightarrow> pyfloat \<Rightarrow> queue_db \<Rightarrow> pyfloat option \<Rightarrow> queue_error + nat \<times> queue_db" where
  "recover cfg clock db now =
     rbind (queue_now clock now) (\<lambda>timestamp.
       transaction db (\<lambda>rows.
         let (recovered, rows1) = recover_expired cfg timestamp rows
         in Inr (recovered, prune_terminal_rows cfg None rows1)))"

definition queue_get :: "queue_db \<Rightarrow> pyval \<Rightarrow> queue_error + queue_record option" where
  "queue_get db job_id =
     rbind (queue_key ''job_id'' job_id) (\<lambda>jid.
       if qd_closed db then Inl (QueueConfigurationError ''queue is closed'')
       else Inr (map_option decode_row (find_row jid (qd_rows db))))"

definition queue_list :: "queue_db \<Rightarrow> pyval \<Rightarrow> string list option \<Rightarrow> queue_error + queue_record list" where
  "queue_list db limit statuses =
     (case int_between 1 1000 limit of
        None \<Rightarrow> Inl (QueueConfigurationError ''list limit is out of range'')
      | Some n \<Rightarrow>
          if (case statuses of None \<Rightarrow> False
              | Some ss \<Rightarrow> \<not> set ss \<subseteq> set (map status_name [Queued, Leased, Acked, Dead, Cancelled]))
          then Inl (QueueConfigurationError ''invalid queue status filter'')
          else if qd_closed db then Inl (QueueConfigurationError ''queue is closed'')
          else
            (let wanted = (\<lambda>r. case statuses of None \<Rightarrow> True
                             | Some ss \<Rightarrow> ss = [] \<or> status_name (q_status r) \<in> set ss)
             in Inr (map decode_row (take (nat n)
                  (sort_key (\<lambda>r. (q_created_at r, q_job_id r)) (filter wanted (qd_rows db)))))))"

definition queue_close :: "queue_db \<Rightarrow> queue_db" where
  "queue_close db = db\<lparr>qd_closed := True\<rparr>"

end
