(* ===== verification/QueueRuns.thy ===== *)
theory QueueRuns
  imports DurableQueue
begin

text \<open>
  Properties of the durable queue: the table invariant and that every operation keeps it, the
  round trip of stored payloads, what \<open>claim\<close> hands out, who may finish a leased job, and
  the idempotent replay of \<open>enqueue\<close>.
\<close>

section \<open>Payloads\<close>

definition queue_text_ok :: "nat \<Rightarrow> string \<Rightarrow> bool" where
  "queue_text_ok limit t = (t \<noteq> [] \<and> stripped t \<and> length t \<le> limit \<and> list_all (\<lambda>c. 32 \<le> ord_c c) t)"

lemma queue_text_Inr:
  "queue_text l n v = Inr t \<longleftrightarrow> (\<exists>s. v = PStr s \<and> t = strip s \<and> queue_text_ok n t)"
proof (cases v)
  case (PStr s)
  have "list_ex (\<lambda>ch. ord_c ch < 32) u \<longleftrightarrow> \<not> list_all (\<lambda>c. 32 \<le> ord_c c) u" for u
    by (induction u) auto
  moreover have "list_all (\<lambda>c. 32 \<le> ord_c c) u \<Longrightarrow> CHR 0x00 \<notin> set u" for u
    by (auto simp: list_all_iff)
  ultimately show ?thesis
    using PStr strip_stripped [of s] by (auto simp: Let_def queue_text_ok_def)
qed auto

declare queue_text.simps [simp del]

lemma queue_text_id: "queue_text_ok n t \<Longrightarrow> queue_text l n (PStr t) = Inr t"
  unfolding queue_text_Inr using strip_id [of t] by (auto simp: queue_text_ok_def)

definition payload_ok :: "dict \<Rightarrow> bool" where
  "payload_ok d = (distinct (map fst d) \<and>
     list_all (\<lambda>(k, v). k \<in> set ALLOWED_PAYLOAD \<and> queue_text_ok 256 v) d)"

lemma queue_payload_item_Inr:
  "queue_payload_item it = Inr (k, v) \<Longrightarrow> k \<in> set ALLOWED_PAYLOAD \<and> queue_text_ok 256 v"
  by (auto simp: queue_payload_item_def rbind_Inr queue_text_Inr split: pyval.splits if_splits)

lemma queue_payload_item_id:
  "k \<in> set ALLOWED_PAYLOAD \<Longrightarrow> queue_text_ok 256 v \<Longrightarrow> queue_payload_item (PStr k, PStr v) = Inr (k, v)"
  by (simp add: queue_payload_item_def queue_text_id)

lemma payload_ok_update:
  "payload_ok d \<Longrightarrow> k \<in> set ALLOWED_PAYLOAD \<Longrightarrow> queue_text_ok 256 v \<Longrightarrow> payload_ok (AList.update k v d)"
  unfolding payload_ok_def
  by (induction d) (auto simp: list_all_iff AList.update_keys)

lemma queue_payload_loop_ok:
  "queue_payload_loop items clean = Inr d \<Longrightarrow> payload_ok clean \<Longrightarrow> payload_ok d"
  by (induction items arbitrary: clean)
     (auto simp: rbind_Inr dest!: queue_payload_item_Inr intro: payload_ok_update)

lemma update_append_new: "k \<notin> set (map fst d) \<Longrightarrow> AList.update k v d = d @ [(k, v)]"
  by (induction d) auto

lemma queue_payload_loop_id:
  "payload_ok (clean @ d) \<Longrightarrow> queue_payload_loop (payload_values d) clean = Inr (clean @ d)"
proof (induction d arbitrary: clean)
  case (Cons kv d)
  obtain k v where kv: "kv = (k, v)" by (cases kv)
  have "AList.update k v clean = clean @ [kv]"
    using Cons.prems kv by (auto simp: payload_ok_def intro: update_append_new)
  moreover have "queue_payload_item (PStr k, PStr v) = Inr (k, v)"
    using Cons.prems kv by (intro queue_payload_item_id) (auto simp: payload_ok_def)
  ultimately show ?case
    using Cons.IH [of "clean @ [kv]"] Cons.prems kv by (simp add: payload_values_def)
qed (simp add: payload_values_def)

lemma payload_ok_length: "payload_ok d \<Longrightarrow> length d \<le> 9"
proof -
  assume "payload_ok d"
  then have "distinct (map fst d)" "set (map fst d) \<subseteq> set ALLOWED_PAYLOAD"
    by (auto simp: payload_ok_def list_all_iff)
  then have "length d \<le> card (set ALLOWED_PAYLOAD)"
    by (metis List.finite_set card_mono distinct_card length_map)
  also have "\<dots> \<le> length ALLOWED_PAYLOAD" by (rule card_length)
  finally show ?thesis by (simp add: ALLOWED_PAYLOAD_def)
qed

lemma allowed_key_short: "k \<in> set ALLOWED_PAYLOAD \<Longrightarrow> length k \<le> 14 \<and> list_all (\<lambda>c. 32 \<le> ord_c c) k"
  by (auto simp: ALLOWED_PAYLOAD_def)

lemma utf8_pair:
  "k \<in> set ALLOWED_PAYLOAD \<Longrightarrow> queue_text_ok 256 v \<Longrightarrow> utf8_length (json_pair (k, v)) \<le> 545"
  using utf8_quote [of k] utf8_quote [of v] allowed_key_short [of k]
  by (auto simp: json_pair_def queue_text_ok_def)

lemma sorted_pairs:
  "set (dict_sorted d) = set d" "length (dict_sorted d) = length d"
  "distinct (map fst (dict_sorted d)) = distinct (map fst d)" "dict_sorted (dict_sorted d) = dict_sorted d"
proof -
  show "dict_sorted (dict_sorted d) = dict_sorted d"
    unfolding dict_sorted_def by (metis sort_key_id_if_sorted sorted_sort_key)
qed (simp_all add: dict_sorted_def distinct_map)

lemma payload_ok_sorted [simp]: "payload_ok (dict_sorted d) = payload_ok d"
  by (simp add: payload_ok_def list_all_iff sorted_pairs)

lemma payload_size: "payload_ok d \<Longrightarrow> utf8_length (json_dumps d) \<le> 32768"
proof -
  assume ok: "payload_ok d"
  let ?ss = "map json_pair (dict_sorted d)"
  have "utf8_length s \<le> 545" if "s \<in> set ?ss" for s
    using that ok utf8_pair by (auto simp: payload_ok_def list_all_iff sorted_pairs)
  then have "utf8_length (json_join ?ss) \<le> length ?ss * 546"
    using utf8_join [of ?ss 545] by simp
  moreover have "length ?ss \<le> 9" using payload_ok_length [OF ok] by (simp add: sorted_pairs)
  ultimately have "utf8_length (json_join ?ss) \<le> 4914" by simp
  then show ?thesis by (simp add: json_dumps_def)
qed

lemma queue_payload_Inr:
  "queue_payload raw = Inr p \<longleftrightarrow> raw \<noteq> [] \<and>
     (\<exists>d. queue_payload_loop raw [] = Inr d \<and> p = (json_dumps d, d) \<and> payload_ok d)"
proof -
  have "queue_payload_loop raw [] = Inr d \<Longrightarrow> payload_ok d" for d
    by (rule queue_payload_loop_ok [of raw "[]"]) (simp_all add: payload_ok_def)
  then show ?thesis
    using payload_size by (auto simp: queue_payload_def returns Let_def not_less)
qed

lemma queue_payload_loop_length:
  "queue_payload_loop items clean = Inr d \<Longrightarrow> items \<noteq> [] \<or> clean \<noteq> [] \<Longrightarrow> d \<noteq> []"
proof (induction items arbitrary: clean)
  case (Cons item items)
  then obtain k v where "queue_payload_loop items (AList.update k v clean) = Inr d"
    by (auto simp: rbind_Inr)
  moreover have "AList.update k v clean \<noteq> []" by (cases clean) auto
  ultimately show ?case using Cons.IH by blast
qed auto

lemma decode_dumps: "payload_ok d \<Longrightarrow> d \<noteq> [] \<Longrightarrow> decode_payload (json_dumps d) = dict_sorted d"
proof -
  assume ok: "payload_ok d" and ne: "d \<noteq> []"
  have ne': "dict_sorted d \<noteq> []" using ne sorted_pairs(2) [of d] by auto
  have "queue_payload_loop (payload_values (dict_sorted d)) [] = Inr (dict_sorted d)"
    using queue_payload_loop_id [of "[]" "dict_sorted d"] ok by simp
  then have "queue_payload (payload_values (dict_sorted d)) =
      Inr (json_dumps (dict_sorted d), dict_sorted d)"
    using ok ne' by (simp add: queue_payload_Inr) (simp add: payload_values_def)
  then show ?thesis
    using ok payload_size [OF ok]
    by (simp add: decode_payload_def json_roundtrip payload_ok_def sorted_pairs)
qed

section \<open>The table invariant\<close>

definition cfg_ok :: "queue_cfg \<Rightarrow> bool" where
  "cfg_ok cfg = (1 \<le> qc_max_pending cfg \<and> 1 \<le> qc_max_terminal_rows cfg \<and> 1 \<le> qc_max_attempts cfg \<and>
     0 < qc_lease_seconds cfg \<and> 0 \<le> qc_backoff_seconds cfg)"

definition row_ok :: "queue_cfg \<Rightarrow> queue_row \<Rightarrow> bool" where
  "row_ok cfg r = ((q_status r = Leased \<longleftrightarrow> q_lease_until r \<noteq> None) \<and>
     (q_status r = Leased \<longleftrightarrow> q_lease_owner r \<noteq> None) \<and>
     0 \<le> q_attempts r \<and> q_attempts r \<le> qc_max_attempts cfg \<and>
     (q_status r = Queued \<longrightarrow> q_attempts r < qc_max_attempts cfg) \<and>
     (q_status r = Leased \<longrightarrow> 1 \<le> q_attempts r) \<and>
     decode_payload (q_payload_json r) \<noteq> [])"

definition table_ok :: "queue_cfg \<Rightarrow> queue_row list \<Rightarrow> bool" where
  "table_ok cfg rows = (distinct (map q_job_id rows) \<and> distinct (map q_key rows) \<and>
     list_all (row_ok cfg) rows \<and> int (active_count rows) \<le> qc_max_pending cfg)"

definition queue_ok :: "queue_cfg \<Rightarrow> queue_row list \<Rightarrow> bool" where
  "queue_ok cfg rows = (table_ok cfg rows \<and> int (terminal_count rows) \<le> qc_max_terminal_rows cfg)"

lemma make_queue_cfg_ok: "make_queue_cfg mode p mp mt ma ls bs = Inr cfg \<Longrightarrow> cfg_ok cfg"
proof -
  have i: "int_between lo hi v = Some n \<Longrightarrow> lo \<le> n \<and> n \<le> hi" for lo hi v n
    by (cases "(lo, hi, v)" rule: int_between.cases) (auto split: if_splits)
  have f: "float_between lo hi v = Some x \<Longrightarrow> lo \<le> x \<and> x \<le> hi" for lo hi v x
    by (cases "(lo, hi, v)" rule: float_between.cases) (auto split: if_splits)
  show "make_queue_cfg mode p mp mt ma ls bs = Inr cfg \<Longrightarrow> cfg_ok cfg"
    by (auto simp: make_queue_cfg_def cfg_ok_def rbind_Inr dest!: i f split: if_splits option.splits)
qed

subsection \<open>Updates\<close>

text \<open>What every \<open>UPDATE\<close> of the sources respects on the rows it meets.\<close>

definition sound_update :: "queue_cfg \<Rightarrow> (queue_row \<Rightarrow> queue_row) \<Rightarrow> queue_row \<Rightarrow> bool" where
  "sound_update cfg g r = (q_job_id (g r) = q_job_id r \<and> q_key (g r) = q_key r \<and> row_ok cfg (g r) \<and>
     (active_status (q_status (g r)) \<longrightarrow> active_status (q_status r)))"

lemma filter_map_length:
  "(\<And>r. r \<in> set rows \<Longrightarrow> P (g r) \<Longrightarrow> P r) \<Longrightarrow> length (filter P (map g rows)) \<le> length (filter P rows)"
  by (induction rows) (auto simp: le_SucI)

lemma map_table_ok:
  assumes "table_ok cfg rows" and "\<And>r. r \<in> set rows \<Longrightarrow> sound_update cfg g r"
  shows "table_ok cfg (map g rows)"
proof -
  have "map q_job_id (map g rows) = map q_job_id rows" "map q_key (map g rows) = map q_key rows"
    using assms(2) by (simp_all add: sound_update_def)
  moreover have "active_count (map g rows) \<le> active_count rows"
    unfolding active_count_def by (rule filter_map_length) (use assms(2) in \<open>auto simp: sound_update_def\<close>)
  moreover have "list_all (row_ok cfg) (map g rows)"
    using assms(2) by (simp add: list_all_iff sound_update_def)
  ultimately show ?thesis
    using assms(1) unfolding table_ok_def by (simp del: map_map)
qed

lemma find_row_Some: "find_row jid rows = Some r \<Longrightarrow> r \<in> set rows \<and> q_job_id r = jid"
  by (auto simp: find_row_def find_Some_iff)

lemma find_row_unique:
  "distinct (map q_job_id rows) \<Longrightarrow> r \<in> set rows \<Longrightarrow> find_row (q_job_id r) rows = Some r"
  unfolding find_row_def
  by (induction rows) (auto simp: rev_image_eqI)

lemma find_row_None: "find_row jid rows = None \<longleftrightarrow> jid \<notin> q_job_id ` set rows"
  by (auto simp: find_row_def find_None_iff)

lemma update_row_table_ok:
  assumes t: "table_ok cfg rows" and r: "r \<in> set rows" "q_job_id r = jid" and s: "sound_update cfg g r"
  shows "table_ok cfg (update_row jid g rows)"
  unfolding update_row_def
proof (rule map_table_ok [OF t])
  fix x assume x: "x \<in> set rows"
  have "x = r" if "q_job_id x = jid"
    using that x r t by (metis distinct_map inj_onD table_ok_def)
  moreover have "sound_update cfg (\<lambda>r. r) x"
    using x t by (auto simp: sound_update_def table_ok_def list_all_iff)
  ultimately show "sound_update cfg (\<lambda>r. if q_job_id r = jid then g r else r) x"
    using s by (auto simp: sound_update_def)
qed

lemma owned_row_Some:
  "owned_row jid tok t rows = Some r \<Longrightarrow> r \<in> set rows \<and> q_job_id r = jid \<and> q_status r = Leased \<and>
     q_lease_owner r = Some tok \<and> (\<exists>u. q_lease_until r = Some u \<and> t < u)"
  by (auto simp: owned_row_def find_Some_iff split: option.splits)

lemma recover_sound: "row_ok cfg r \<Longrightarrow> sound_update cfg (recover_row cfg t) r"
  by (auto simp: sound_update_def recover_row_def row_ok_def lease_expired_def active_status_def)

lemma lease_sound: "row_ok cfg r \<Longrightarrow> sound_update cfg (lease_row cfg w t tok) r"
  by (auto simp: sound_update_def lease_row_def row_ok_def active_status_def)

lemma finish_sound:
  "row_ok cfg r \<Longrightarrow> active_status (q_status r) \<Longrightarrow> st \<in> {Acked, Cancelled} \<Longrightarrow>
     sound_update cfg (finish_row st t) r"
  by (auto simp: sound_update_def finish_row_def row_ok_def active_status_def)

lemma fail_sound: "row_ok cfg r \<Longrightarrow> q_status r = Leased \<Longrightarrow> sound_update cfg (fail_row cfg e t) r"
  by (auto simp: sound_update_def fail_row_def row_ok_def active_status_def)

lemma table_ok_row: "table_ok cfg rows \<Longrightarrow> r \<in> set rows \<Longrightarrow> row_ok cfg r"
  by (auto simp: table_ok_def list_all_iff)

lemma recover_table_ok: "table_ok cfg rows \<Longrightarrow> table_ok cfg (snd (recover_expired cfg t rows))"
  unfolding recover_expired_def snd_conv
  by (rule map_table_ok) (auto intro: recover_sound dest: table_ok_row)

subsection \<open>Pruning\<close>

lemma prune_victims_terminal:
  "r \<in> set (prune_victims cfg p rows) \<Longrightarrow>
     r \<in> set rows \<and> terminal_status (q_status r) \<and> p \<noteq> Some (q_job_id r)"
  by (auto simp: prune_victims_def Let_def dest!: in_set_takeD split: if_splits)

lemma length_filter_split: "length (filter P xs) = length (filter (\<lambda>x. P x \<and> Q x) xs) + length (filter (\<lambda>x. P x \<and> \<not> Q x) xs)"
  by (induction xs) auto

lemma one_row_per_id:
  "distinct (map q_job_id rows) \<Longrightarrow> length (filter (\<lambda>r. P r \<and> q_job_id r = j) rows) \<le> 1"
proof (induction rows)
  case (Cons r rows)
  show ?case
  proof (cases "q_job_id r = j")
    case True
    then have "filter (\<lambda>r. P r \<and> q_job_id r = j) rows = []"
      using Cons.prems by (auto simp: filter_empty_conv) (metis imageI)
    then show ?thesis by simp
  qed (use Cons in simp)
qed simp

lemma prune_victims_length:
  assumes "distinct (map q_job_id rows)" and "1 \<le> qc_max_terminal_rows cfg"
  shows "int (terminal_count rows) - int (length (prune_victims cfg p rows)) \<le> qc_max_terminal_rows cfg"
proof -
  let ?P = "\<lambda>r. terminal_status (q_status r)"
  let ?kept = "filter (\<lambda>r. ?P r \<and> \<not> p \<noteq> Some (q_job_id r)) rows"
  have "length ?kept \<le> 1"
  proof (cases p)
    case (Some j)
    then show ?thesis using one_row_per_id [OF assms(1), of ?P j] by (simp add: eq_commute)
  qed simp
  then have "terminal_count rows \<le> length (filter (\<lambda>r. ?P r \<and> p \<noteq> Some (q_job_id r)) rows) + 1"
    unfolding terminal_count_def length_filter_split [of ?P rows "\<lambda>r. p \<noteq> Some (q_job_id r)"] by simp
  then show ?thesis using assms(2) by (auto simp: prune_victims_def Let_def)
qed

lemma filter_remove_length:
  assumes "distinct (map f xs)" and "distinct vs" and "set vs \<subseteq> {x \<in> set xs. P x}"
  shows "length (filter P (filter (\<lambda>x. f x \<notin> f ` set vs) xs)) + length vs = length (filter P xs)"
proof -
  have d: "distinct xs" and inj: "inj_on f (set xs)" using assms(1) by (simp_all add: distinct_map)
  have iff: "f x \<in> f ` set vs \<longleftrightarrow> x \<in> set vs" if "x \<in> set xs" for x
    using that inj assms(3) by (auto dest: inj_onD)
  have "length (filter P (filter (\<lambda>x. f x \<notin> f ` set vs) xs)) = card ({x \<in> set xs. P x} - set vs)"
    using d iff by (subst distinct_card [symmetric]) (auto intro!: arg_cong [where f = card])
  also have "\<dots> = card {x \<in> set xs. P x} - card (set vs)"
    using assms(3) by (simp add: card_Diff_subset)
  also have "card {x \<in> set xs. P x} = length (filter P xs)"
    using d by (metis distinct_card distinct_filter set_filter)
  finally show ?thesis
    using assms(2,3) distinct_card [OF assms(2)] card_mono [OF _ assms(3)]
      \<open>card {x \<in> set xs. P x} = length (filter P xs)\<close> by simp
qed

lemma prune_subset: "set (prune_terminal_rows cfg p rows) \<subseteq> set rows"
  by (auto simp: prune_terminal_rows_def Let_def)

lemma prune_keeps:
  "distinct (map q_job_id rows) \<Longrightarrow> r \<in> set rows \<Longrightarrow>
     \<not> terminal_status (q_status r) \<or> p = Some (q_job_id r) \<Longrightarrow> r \<in> set (prune_terminal_rows cfg p rows)"
  by (auto simp: prune_terminal_rows_def Let_def distinct_map dest!: prune_victims_terminal dest: inj_onD)

lemma prune_queue_ok:
  assumes t: "table_ok cfg rows" and m: "1 \<le> qc_max_terminal_rows cfg"
  shows "queue_ok cfg (prune_terminal_rows cfg p rows)"
proof -
  let ?V = "prune_victims cfg p rows"
  have d: "distinct (map q_job_id rows)" using t by (simp add: table_ok_def)
  have "distinct ?V" using d by (simp add: prune_victims_def Let_def distinct_map distinct_take)
  moreover have "set ?V \<subseteq> {r \<in> set rows. terminal_status (q_status r)}"
    using prune_victims_terminal by blast
  ultimately have "terminal_count (prune_terminal_rows cfg p rows) + length ?V = terminal_count rows"
    using filter_remove_length [OF d, of ?V "\<lambda>r. terminal_status (q_status r)"]
    by (simp add: terminal_count_def prune_terminal_rows_def Let_def)
  then have "int (terminal_count (prune_terminal_rows cfg p rows)) \<le> qc_max_terminal_rows cfg"
    using prune_victims_length [OF d m, of p] by linarith
  moreover have "active_count (prune_terminal_rows cfg p rows) \<le> active_count rows"
    using length_filter_split [of "\<lambda>r. active_status (q_status r)" rows "\<lambda>r. q_job_id r \<notin> q_job_id ` set ?V"]
    by (simp add: active_count_def prune_terminal_rows_def Let_def conj_commute)
  ultimately show ?thesis
    using t by (auto simp: queue_ok_def table_ok_def prune_terminal_rows_def Let_def list_all_iff
        distinct_map_filter)
qed

section \<open>Operations keep the invariant\<close>

lemma transaction_Inr [returns]:
  "transaction db body = Inr y \<longleftrightarrow> \<not> qd_closed db \<and>
     (\<exists>x rows. body (qd_rows db) = Inr (x, rows) \<and> y = (x, db\<lparr>qd_rows := rows\<rparr>))"
  by (auto simp: transaction_def rbind_Inr)

lemma terminal_not_active: "terminal_status s \<longleftrightarrow> \<not> active_status s"
  by (cases s) (simp_all add: terminal_status_def active_status_def)

lemma queue_ok_table: "queue_ok cfg rows \<Longrightarrow> table_ok cfg rows"
  by (simp add: queue_ok_def)

lemma new_row_table_ok:
  assumes "table_ok cfg rows" and "cfg_ok cfg" and "int (active_count rows) < qc_max_pending cfg"
    and "jid \<notin> q_job_id ` set rows" and "key \<notin> q_key ` set rows" and "decode_payload pl \<noteq> []"
  shows "table_ok cfg (rows @ [new_row jid key pl scope t])"
  using assms by (auto simp: table_ok_def new_row_def row_ok_def cfg_ok_def active_count_def active_status_def)

lemma enqueue_body_ok:
  assumes "queue_ok cfg rows" and cfg: "cfg_ok cfg" and "queue_payload raw = Inr payload"
    and e: "enqueue_body cfg jid key payload scope t rows = Inr (rec, rows')"
  shows "queue_ok cfg rows'"
proof -
  define rows1 where "rows1 = snd (recover_expired cfg t rows)"
  have t1: "table_ok cfg rows1"
    unfolding rows1_def using assms(1) by (intro recover_table_ok queue_ok_table)
  have m: "1 \<le> qc_max_terminal_rows cfg" using cfg by (simp add: cfg_ok_def)
  show ?thesis
  proof (cases "List.find (\<lambda>r. q_key r = key) rows1")
    case None
    then have "key \<notin> q_key ` set rows1" by (auto simp: find_None_iff)
    moreover from None e have c: "int (active_count rows1) < qc_max_pending cfg"
      "find_row jid rows1 = None"
      "rows' = prune_terminal_rows cfg (Some jid) (rows1 @ [new_row jid key (fst payload) scope t])"
      by (auto simp: enqueue_body_def rows1_def [symmetric] Let_def split: if_splits)
    moreover have "decode_payload (fst payload) \<noteq> []"
      using assms(3) sorted_pairs(2) by (auto simp: queue_payload_Inr decode_dumps dest!: queue_payload_loop_length)
        (metis length_0_conv)
    ultimately have "table_ok cfg (rows1 @ [new_row jid key (fst payload) scope t])"
      using t1 cfg by (intro new_row_table_ok) (auto simp: find_row_None)
    then show ?thesis using c(3) prune_queue_ok [OF _ m] by simp
  next
    case (Some r)
    with e have "rows' = prune_terminal_rows cfg (Some (q_job_id r)) rows1"
      by (auto simp: enqueue_body_def rows1_def [symmetric] Let_def decode_row_def split: if_splits)
    then show ?thesis using prune_queue_ok [OF t1 m] by simp
  qed
qed

lemma update_lease_ok:
  assumes "queue_ok cfg rows"
  shows "queue_ok cfg (update_row jid (lease_row cfg w t tok) rows)"
proof -
  have "table_ok cfg (update_row jid (lease_row cfg w t tok) rows)"
    unfolding update_row_def
    by (rule map_table_ok [OF queue_ok_table [OF assms]])
       (use assms lease_sound in \<open>auto simp: sound_update_def queue_ok_def table_ok_def list_all_iff\<close>)
  moreover have "terminal_count (update_row jid (lease_row cfg w t tok) rows) \<le> terminal_count rows"
    unfolding terminal_count_def update_row_def
    by (rule filter_map_length) (auto simp: lease_row_def terminal_status_def split: if_splits)
  ultimately show ?thesis using assms by (simp add: queue_ok_def)
qed

lemma snd_claim_loop:
  "snd (claim_loop cfg w t toks i (jid # jids) rows) =
     snd (claim_loop cfg w t toks (Suc i) jids (update_row jid (lease_row cfg w t (toks i)) rows))"
  by (simp add: Let_def split: prod.splits)

lemma claim_loop_ok: "queue_ok cfg rows \<Longrightarrow> queue_ok cfg (snd (claim_loop cfg w t toks i jids rows))"
  by (induction jids arbitrary: i rows)
     (simp_all add: snd_claim_loop update_lease_ok del: claim_loop.simps(2))

lemma claim_body_ok:
  "queue_ok cfg rows \<Longrightarrow> cfg_ok cfg \<Longrightarrow> claim_body cfg toks w n t rows = Inr (recs, rows') \<Longrightarrow> queue_ok cfg rows'"
  using claim_loop_ok [OF prune_queue_ok [OF recover_table_ok [OF queue_ok_table]]]
  by (auto simp: claim_body_def Let_def cfg_ok_def) (metis snd_conv)

lemma heartbeat_body_ok:
  assumes "queue_ok cfg rows" and h: "heartbeat_body cfg jid tok t rows = Inr (rec, rows')"
  shows "queue_ok cfg rows'"
proof -
  let ?g = "\<lambda>r. if q_status r = Leased
     then r\<lparr>q_lease_until := Some (t + qc_lease_seconds cfg), q_updated_at := t\<rparr> else r"
  have r: "rows' = update_row jid ?g rows"
    using h by (auto simp: heartbeat_body_def Let_def split: option.splits if_splits)
  have "table_ok cfg (update_row jid ?g rows)"
    unfolding update_row_def
    by (rule map_table_ok [OF queue_ok_table [OF assms(1)]])
       (use assms(1) in \<open>auto simp: sound_update_def queue_ok_def table_ok_def list_all_iff row_ok_def\<close>)
  moreover have "terminal_count (update_row jid ?g rows) \<le> terminal_count rows"
    unfolding terminal_count_def update_row_def
    by (rule filter_map_length) (auto simp: terminal_status_def split: if_splits)
  ultimately show ?thesis using assms(1) r by (simp add: queue_ok_def)
qed

lemma finish_body_ok:
  assumes "queue_ok cfg rows" "cfg_ok cfg" "st \<in> {Acked, Cancelled}"
    and f: "finish_body cfg st jid tok t rows = Inr (rec, rows')"
  shows "queue_ok cfg rows'"
proof -
  from f obtain r where r: "owned_row jid tok t rows = Some r"
    and rows': "rows' = prune_terminal_rows cfg (Some jid) (update_row jid (finish_row st t) rows)"
    by (auto simp: finish_body_def split: option.splits)
  note o = owned_row_Some [OF r]
  have "table_ok cfg (update_row jid (finish_row st t) rows)"
    using o assms by (intro update_row_table_ok [of cfg rows r]) (auto simp: queue_ok_table active_status_def
        intro!: finish_sound table_ok_row)
  then show ?thesis using rows' assms(2) by (simp add: prune_queue_ok cfg_ok_def)
qed

lemma fail_body_ok:
  assumes "queue_ok cfg rows" "cfg_ok cfg" and f: "fail_body cfg jid tok e t rows = Inr (rec, rows')"
  shows "queue_ok cfg rows'"
proof -
  from f obtain r p where r: "owned_row jid tok t rows = Some r"
    and rows': "rows' = prune_terminal_rows cfg p (update_row jid (fail_row cfg e t) rows)"
    by (auto simp: fail_body_def Let_def split: option.splits)
  note o = owned_row_Some [OF r]
  have "table_ok cfg (update_row jid (fail_row cfg e t) rows)"
    using o assms by (intro update_row_table_ok [of cfg rows r])
      (auto simp: queue_ok_table intro!: fail_sound table_ok_row)
  then show ?thesis using rows' assms(2) by (simp add: prune_queue_ok cfg_ok_def)
qed

lemma cancel_body_ok:
  assumes "queue_ok cfg rows" "cfg_ok cfg" and c: "cancel_body cfg jid tok t rows = Inr (rec, rows')"
  shows "queue_ok cfg rows'"
proof -
  from c obtain r where r: "find_row jid rows = Some r"
    and rows': "terminal_status (q_status r) \<and> rows' = prune_terminal_rows cfg (Some jid) rows \<or>
      \<not> terminal_status (q_status r) \<and>
      rows' = prune_terminal_rows cfg (Some jid) (update_row jid (finish_row Cancelled t) rows)"
    by (auto simp: cancel_body_def split: option.splits if_splits)
  have "table_ok cfg (update_row jid (finish_row Cancelled t) rows)" if "\<not> terminal_status (q_status r)"
    using that assms find_row_Some [OF r]
    by (intro update_row_table_ok [of cfg rows r])
       (auto simp: queue_ok_table terminal_not_active intro!: finish_sound table_ok_row)
  then show ?thesis
    using rows' assms queue_ok_table [OF assms(1)] by (auto simp: prune_queue_ok cfg_ok_def)
qed

section \<open>Runs of the queue\<close>

inductive queue_step :: "queue_cfg \<Rightarrow> queue_db \<Rightarrow> queue_db \<Rightarrow> bool" for cfg where
  enqueued: "enqueue cfg clk db j k pl ti wi ci now = Inr (x, db') \<Longrightarrow> queue_step cfg db db'"
| claimed: "claim cfg clk toks db w n now = Inr (xs, db') \<Longrightarrow> queue_step cfg db db'"
| beaten: "heartbeat cfg clk db j tok now = Inr (x, db') \<Longrightarrow> queue_step cfg db db'"
| acked: "ack cfg clk db j tok now = Inr (x, db') \<Longrightarrow> queue_step cfg db db'"
| failed: "fail cfg clk db j tok e now = Inr (x, db') \<Longrightarrow> queue_step cfg db db'"
| cancelled: "cancel cfg clk db j tok' now = Inr (x, db') \<Longrightarrow> queue_step cfg db db'"
| recovered: "recover cfg clk db now = Inr (m, db') \<Longrightarrow> queue_step cfg db db'"
| reopened: "queue_step cfg db (initialize cfg (qd_rows db))"
| closed: "queue_step cfg db (queue_close db)"

lemma queue_step_ok:
  assumes "queue_step cfg db db'" and "cfg_ok cfg" and "queue_ok cfg (qd_rows db)"
  shows "queue_ok cfg (qd_rows db')"
  using assms(1)
proof cases
  case (enqueued clk j k pl ti wi ci now x)
  then show ?thesis
    by (auto simp: enqueue_def returns dest: enqueue_body_ok [OF assms(3,2)])
next
  case (claimed clk toks w n now xs)
  then show ?thesis
    by (auto simp: claim_def returns dest!: claim_body_ok [OF assms(3,2)])
next
  case (beaten clk j tok now x)
  then show ?thesis by (auto simp: heartbeat_def returns dest!: heartbeat_body_ok [OF assms(3)])
next
  case (acked clk j tok now x)
  then show ?thesis by (auto simp: ack_def returns dest!: finish_body_ok [OF assms(3,2), rotated])
next
  case (failed clk j tok e now x)
  then show ?thesis by (auto simp: fail_def returns dest!: fail_body_ok [OF assms(3,2)])
next
  case (cancelled clk j tok' now x)
  then show ?thesis by (auto simp: cancel_def returns dest!: cancel_body_ok [OF assms(3,2)])
next
  case (recovered clk now m)
  then show ?thesis
    using assms(2) prune_queue_ok [OF recover_table_ok [OF queue_ok_table [OF assms(3)]]]
    by (auto simp: recover_def returns Let_def cfg_ok_def case_prod_unfold)
next
  case reopened
  then show ?thesis
    using assms(2) prune_queue_ok [OF queue_ok_table [OF assms(3)]] by (simp add: initialize_def cfg_ok_def)
next
  case closed
  then show ?thesis using assms(3) by (simp add: queue_close_def)
qed

section \<open>What claim hands out\<close>

lemma find_update_row:
  assumes "\<And>r. q_job_id (g r) = q_job_id r"
  shows "find_row j (update_row jid g rows) = (if j = jid then map_option g (find_row j rows) else find_row j rows)"
  using assms by (induction rows) (auto simp: find_row_def update_row_def)

lemma lease_row_id [simp]: "q_job_id (lease_row cfg w t tok r) = q_job_id r"
  by (simp add: lease_row_def)

lemma fst_claim_loop:
  "find_row jid rows = Some r \<Longrightarrow> q_status r = Queued \<Longrightarrow>
   fst (claim_loop cfg w t toks i (jid # jids) rows) =
     decode_row (lease_row cfg w t (toks i) r) #
     fst (claim_loop cfg w t toks (Suc i) jids (update_row jid (lease_row cfg w t (toks i)) rows))"
  by (simp add: Let_def find_update_row split: prod.splits)

lemma find_row_claim_loop_other:
  "j \<notin> set jids \<Longrightarrow> find_row j (snd (claim_loop cfg w t toks i jids rows)) = find_row j rows"
  by (induction jids arbitrary: i rows)
     (simp_all add: snd_claim_loop find_update_row del: claim_loop.simps(2))

lemma claim_loop_spec:
  assumes "distinct jids" and "\<And>jid. jid \<in> set jids \<Longrightarrow> \<exists>r. find_row jid rows = Some r \<and> q_status r = Queued"
  shows "fst (claim_loop cfg w t toks i jids rows) =
      map (\<lambda>k. decode_row (lease_row cfg w t (toks (i + k)) (the (find_row (jids ! k) rows)))) [0..<length jids] \<and>
    (\<forall>k < length jids. find_row (jids ! k) (snd (claim_loop cfg w t toks i jids rows)) =
      Some (lease_row cfg w t (toks (i + k)) (the (find_row (jids ! k) rows))))"
  using assms
proof (induction jids arbitrary: i rows)
  case (Cons jid jids)
  let ?rows1 = "update_row jid (lease_row cfg w t (toks i)) rows"
  from Cons.prems(2) obtain r where r: "find_row jid rows = Some r" "q_status r = Queued" by auto
  have other: "find_row x ?rows1 = find_row x rows" if "x \<in> set jids" for x
    using that Cons.prems(1) by (auto simp: find_update_row)
  have nth: "find_row (jids ! k) ?rows1 = find_row (jids ! k) rows" if "k < length jids" for k
    using that by (intro other) simp
  have IH1: "fst (claim_loop cfg w t toks (Suc i) jids ?rows1) =
      map (\<lambda>k. decode_row (lease_row cfg w t (toks (Suc i + k)) (the (find_row (jids ! k) ?rows1)))) [0..<length jids]"
    and IH2: "\<forall>k < length jids. find_row (jids ! k) (snd (claim_loop cfg w t toks (Suc i) jids ?rows1)) =
      Some (lease_row cfg w t (toks (Suc i + k)) (the (find_row (jids ! k) ?rows1)))"
    using Cons.IH [of ?rows1 "Suc i"] Cons.prems other by auto
  have here: "find_row jid (snd (claim_loop cfg w t toks (Suc i) jids ?rows1)) =
      Some (lease_row cfg w t (toks i) r)"
    using Cons.prems(1) r by (simp add: find_row_claim_loop_other find_update_row)
  have "[0..<length (jid # jids)] = 0 # map Suc [0..<length jids]"
    by (metis length_Cons map_Suc_upt upt_conv_Cons zero_less_Suc)
  then have "fst (claim_loop cfg w t toks i (jid # jids) rows) =
      map (\<lambda>k. decode_row (lease_row cfg w t (toks (i + k)) (the (find_row ((jid # jids) ! k) rows)))) [0..<length (jid # jids)]"
    unfolding fst_claim_loop [OF r] using IH1 nth r by simp
  moreover have "find_row ((jid # jids) ! k) (snd (claim_loop cfg w t toks i (jid # jids) rows)) =
      Some (lease_row cfg w t (toks (i + k)) (the (find_row ((jid # jids) ! k) rows)))"
    if "k < length (jid # jids)" for k
    unfolding snd_claim_loop using that IH2 nth here r by (cases k) auto
  ultimately show ?case by blast
qed simp

lemma claimable_rows:
  assumes "distinct (map q_job_id rows)"
  shows "distinct (claimable t n rows)"
    and "jid \<in> set (claimable t n rows) \<Longrightarrow>
      \<exists>r. find_row jid rows = Some r \<and> q_status r = Queued \<and> q_available_at r \<le> t"
proof -
  have "distinct (map q_job_id (sort_key (\<lambda>r. (q_created_at r, q_job_id r))
      (filter (\<lambda>r. q_status r = Queued \<and> q_available_at r \<le> t) rows)))"
    using assms by (simp add: distinct_map inj_on_def)
  then show "distinct (claimable t n rows)"
    unfolding claimable_def take_map [symmetric] by (rule distinct_take)
  assume "jid \<in> set (claimable t n rows)"
  then obtain r where "r \<in> set rows" "q_job_id r = jid" "q_status r = Queued" "q_available_at r \<le> t"
    by (auto simp: claimable_def dest!: in_set_takeD)
  then show "\<exists>r. find_row jid rows = Some r \<and> q_status r = Queued \<and> q_available_at r \<le> t"
    using find_row_unique [OF assms] by metis
qed

definition queue_key_ok :: "string \<Rightarrow> bool" where
  "queue_key_ok k = (queue_text_ok 128 k \<and> re_fullmatch QUEUE_KEY k)"

lemma queue_key_id: "queue_key_ok k \<Longrightarrow> queue_key l (PStr k) = Inr k"
  by (simp add: queue_key_def queue_key_ok_def queue_text_id)

lemma queue_now_given [simp]: "queue_now clk (Some (Fin t)) = Inr t"
  by (simp add: queue_now_def)

text \<open>The rows that a claim at time \<open>t\<close> looks at.\<close>

definition fresh_rows :: "queue_cfg \<Rightarrow> real \<Rightarrow> queue_row list \<Rightarrow> queue_row list" where
  "fresh_rows cfg t rows = prune_terminal_rows cfg None (snd (recover_expired cfg t rows))"

lemma fresh_rows_origin:
  "r' \<in> set (fresh_rows cfg t rows) \<Longrightarrow> \<exists>r \<in> set rows. r' = recover_row cfg t r"
  using prune_subset [of cfg None] by (fastforce simp: fresh_rows_def recover_expired_def)

lemma fresh_rows_ok: "queue_ok cfg rows \<Longrightarrow> cfg_ok cfg \<Longrightarrow> queue_ok cfg (fresh_rows cfg t rows)"
  unfolding fresh_rows_def by (intro prune_queue_ok recover_table_ok queue_ok_table) (simp_all add: cfg_ok_def)

lemma claim_Inr:
  assumes "queue_key_ok w" and "1 \<le> n" "n \<le> 100" and "\<not> qd_closed db"
  shows "claim cfg clk toks db (PStr w) (PInt n) (Some (Fin t)) =
    (let rows1 = fresh_rows cfg t (qd_rows db);
         (recs, rows2) = claim_loop cfg w t toks 0 (claimable t (nat n) rows1) rows1
     in Inr (recs, db\<lparr>qd_rows := rows2\<rparr>))"
  using assms
  by (simp add: claim_def queue_key_id transaction_def claim_body_def fresh_rows_def Let_def split: prod.splits)

lemma claim_result:
  assumes ok: "queue_ok cfg (qd_rows db)" "cfg_ok cfg" and w: "queue_key_ok w" "1 \<le> n" "n \<le> 100" "\<not> qd_closed db"
  obtains recs rows2 where
    "claim cfg clk toks db (PStr w) (PInt n) (Some (Fin t)) = Inr (recs, db\<lparr>qd_rows := rows2\<rparr>)"
    "map qr_job_id recs = claimable t (nat n) (fresh_rows cfg t (qd_rows db))"
    "queue_ok cfg rows2"
    "\<And>k. k < length recs \<Longrightarrow> \<exists>r \<in> set (qd_rows db).
       (q_status r = Queued \<and> q_available_at r \<le> t \<or> lease_expired t r) \<and>
       recs ! k = decode_row (lease_row cfg w t (toks k) (recover_row cfg t r)) \<and>
       q_status (recover_row cfg t r) = Queued \<and>
       find_row (qr_job_id (recs ! k)) rows2 = Some (lease_row cfg w t (toks k) (recover_row cfg t r))"
proof -
  let ?rows1 = "fresh_rows cfg t (qd_rows db)"
  let ?jids = "claimable t (nat n) ?rows1"
  let ?L = "claim_loop cfg w t toks 0 ?jids ?rows1"
  have ok1: "queue_ok cfg ?rows1" using fresh_rows_ok [OF ok] .
  then have dist: "distinct (map q_job_id ?rows1)" by (simp add: queue_ok_def table_ok_def)
  note c = claimable_rows [OF dist, where t = t and n = "nat n"]
  have spec: "fst ?L = map (\<lambda>k. decode_row (lease_row cfg w t (toks k) (the (find_row (?jids ! k) ?rows1)))) [0..<length ?jids]"
    "\<And>k. k < length ?jids \<Longrightarrow> find_row (?jids ! k) (snd ?L) =
       Some (lease_row cfg w t (toks k) (the (find_row (?jids ! k) ?rows1)))"
    using claim_loop_spec [OF c(1), of ?rows1 cfg w t toks 0] c(2) by force+
  have row: "\<exists>r \<in> set (qd_rows db). find_row (?jids ! k) ?rows1 = Some (recover_row cfg t r) \<and>
      (q_status r = Queued \<and> q_available_at r \<le> t \<or> lease_expired t r) \<and>
      q_status (recover_row cfg t r) = Queued" if k: "k < length ?jids" for k
  proof -
    obtain r' where r': "find_row (?jids ! k) ?rows1 = Some r'" "q_status r' = Queued" "q_available_at r' \<le> t"
      using c(2) [OF nth_mem [OF k]] by blast
    then obtain r where "r \<in> set (qd_rows db)" "r' = recover_row cfg t r"
      using fresh_rows_origin find_row_Some by blast
    then show ?thesis using r' by (auto simp: recover_row_def split: if_splits)
  qed
  have ids: "map qr_job_id (fst ?L) = ?jids"
  proof (rule nth_equalityI)
    fix k assume "k < length (map qr_job_id (fst ?L))"
    then have k: "k < length ?jids" by (simp add: spec(1))
    from row [OF k] find_row_Some have "q_job_id (the (find_row (?jids ! k) ?rows1)) = ?jids ! k"
      by fastforce
    then show "map qr_job_id (fst ?L) ! k = ?jids ! k"
      using k by (simp add: spec(1) decode_row_def)
  qed (simp add: spec(1))
  show ?thesis
  proof (rule that [of "fst ?L" "snd ?L"])
    show "claim cfg clk toks db (PStr w) (PInt n) (Some (Fin t)) = Inr (fst ?L, db\<lparr>qd_rows := snd ?L\<rparr>)"
      using w by (simp add: claim_Inr Let_def case_prod_unfold)
    fix k assume "k < length (fst ?L)"
    then have k: "k < length ?jids" by (simp add: spec(1))
    have "qr_job_id (fst ?L ! k) = ?jids ! k" using ids k by (metis length_map nth_map)
    with row [OF k] k show "\<exists>r \<in> set (qd_rows db).
       (q_status r = Queued \<and> q_available_at r \<le> t \<or> lease_expired t r) \<and>
       fst ?L ! k = decode_row (lease_row cfg w t (toks k) (recover_row cfg t r)) \<and>
       q_status (recover_row cfg t r) = Queued \<and>
       find_row (qr_job_id (fst ?L ! k)) (snd ?L) = Some (lease_row cfg w t (toks k) (recover_row cfg t r))"
      using spec(2) [OF k] by (auto simp: spec(1))
  qed (use ids claim_loop_ok [OF ok1] in simp_all)
qed

section \<open>Who may finish a leased job\<close>

lemma owned_row_iff:
  assumes "distinct (map q_job_id rows)"
  shows "owned_row jid tok t rows = (case find_row jid rows of None \<Rightarrow> None
    | Some r \<Rightarrow> if q_status r = Leased \<and> q_lease_owner r = Some tok \<and> (\<exists>u. q_lease_until r = Some u \<and> t < u)
                then Some r else None)"
proof (cases "owned_row jid tok t rows")
  case None
  have "\<not> (q_status r = Leased \<and> q_lease_owner r = Some tok \<and> (\<exists>u. q_lease_until r = Some u \<and> t < u))"
    if "find_row jid rows = Some r" for r
    using None find_row_Some [OF that] by (auto simp: owned_row_def find_None_iff split: option.splits)
  then show ?thesis using None by (auto split: option.splits)
next
  case (Some r)
  note o = owned_row_Some [OF this]
  then have "find_row jid rows = Some r" using find_row_unique [OF assms, of r] by auto
  then show ?thesis using Some o by auto
qed

text \<open>A caller holds the lease of a job when the table has its token and the lease has not expired.\<close>

definition holds_lease :: "queue_row list \<Rightarrow> string \<Rightarrow> string \<Rightarrow> real \<Rightarrow> bool" where
  "holds_lease rows jid tok t = (owned_row jid tok t rows \<noteq> None)"

lemma ack_given:
  "queue_key_ok jid \<Longrightarrow> queue_text_ok 256 tok \<Longrightarrow> \<not> qd_closed db \<Longrightarrow>
   ack cfg clk db (PStr jid) (PStr tok) (Some (Fin t)) =
     rbind (finish_body cfg Acked jid tok t (qd_rows db)) (\<lambda>(x, rows). Inr (x, db\<lparr>qd_rows := rows\<rparr>))"
  by (simp add: ack_def queue_key_id queue_text_id transaction_def)

lemma heartbeat_given:
  "queue_key_ok jid \<Longrightarrow> queue_text_ok 256 tok \<Longrightarrow> \<not> qd_closed db \<Longrightarrow>
   heartbeat cfg clk db (PStr jid) (PStr tok) (Some (Fin t)) =
     rbind (heartbeat_body cfg jid tok t (qd_rows db)) (\<lambda>(x, rows). Inr (x, db\<lparr>qd_rows := rows\<rparr>))"
  by (simp add: heartbeat_def queue_key_id queue_text_id transaction_def)

definition queue_error_ok :: "string \<Rightarrow> bool" where
  "queue_error_ok e = (queue_safe_error (PStr e) = Inr e)"

lemma fail_given:
  "queue_key_ok jid \<Longrightarrow> queue_text_ok 256 tok \<Longrightarrow> queue_error_ok e \<Longrightarrow> \<not> qd_closed db \<Longrightarrow>
   fail cfg clk db (PStr jid) (PStr tok) (PStr e) (Some (Fin t)) =
     rbind (fail_body cfg jid tok e t (qd_rows db)) (\<lambda>(x, rows). Inr (x, db\<lparr>qd_rows := rows\<rparr>))"
  by (simp add: fail_def queue_key_id queue_text_id transaction_def queue_error_ok_def)

lemmas given = ack_given heartbeat_given fail_given

text \<open>Without the lease every one of the three calls raises, with the same exception where the job exists.\<close>

lemma rejected_without_lease:
  assumes "queue_key_ok jid" "queue_text_ok 256 tok" "queue_error_ok e" "\<not> qd_closed db"
    and "\<not> holds_lease (qd_rows db) jid tok t" and "find_row jid (qd_rows db) \<noteq> None"
  shows "ack cfg clk db (PStr jid) (PStr tok) (Some (Fin t)) = Inl (QueueLeaseError ''lease is not owned by this worker'')"
    "heartbeat cfg clk db (PStr jid) (PStr tok) (Some (Fin t)) = Inl (QueueLeaseError ''lease is not owned by this worker'')"
    "fail cfg clk db (PStr jid) (PStr tok) (PStr e) (Some (Fin t)) = Inl (QueueLeaseError ''lease is not owned by this worker'')"
  using assms by (simp_all add: given finish_body_def heartbeat_body_def fail_body_def holds_lease_def)

lemma find_prune:
  assumes "distinct (map q_job_id rows)" "find_row j rows = Some r"
    and "\<not> terminal_status (q_status r) \<or> p = Some j"
  shows "find_row j (prune_terminal_rows cfg p rows) = Some r"
proof -
  note f = find_row_Some [OF assms(2)]
  have "r \<in> set (prune_terminal_rows cfg p rows)" using f assms(1,3) by (intro prune_keeps) auto
  moreover have "distinct (map q_job_id (prune_terminal_rows cfg p rows))"
    using assms(1) by (simp add: prune_terminal_rows_def Let_def distinct_map_filter)
  ultimately show ?thesis using find_row_unique [of "prune_terminal_rows cfg p rows" r] f by auto
qed

section \<open>Replaying enqueue\<close>

lemma recover_row_settled: "\<not> lease_expired t (recover_row cfg t r)"
  by (auto simp: recover_row_def lease_expired_def)

lemma recover_settled: "list_all (\<lambda>r. \<not> lease_expired t r) rows \<Longrightarrow> snd (recover_expired cfg t rows) = rows"
  unfolding recover_expired_def snd_conv
  by (rule map_idI) (auto simp: recover_row_def list_all_iff)

lemma prune_small: "int (terminal_count rows) \<le> qc_max_terminal_rows cfg \<Longrightarrow> prune_terminal_rows cfg p rows = rows"
  by (simp add: prune_terminal_rows_def prune_victims_def)

lemma find_key_unique:
  "distinct (map q_key rows) \<Longrightarrow> r \<in> set rows \<Longrightarrow> List.find (\<lambda>x. q_key x = q_key r) rows = Some r"
  by (induction rows) (auto simp: rev_image_eqI)

text \<open>A stored row that carries the request is found again, and nothing changes.\<close>

lemma replay_body:
  assumes "queue_ok cfg rows" and "list_all (\<lambda>r. \<not> lease_expired t r) rows"
    and "r \<in> set rows" "q_key r = key" "q_job_id r = jid"
    and "dict_sorted (decode_payload (q_payload_json r)) = dict_sorted (snd payload)"
  shows "enqueue_body cfg jid key payload scope t rows = Inr (decode_row r, rows)"
proof -
  have "List.find (\<lambda>x. q_key x = key) rows = Some r"
    using assms(1,3,4) find_key_unique [of rows r] by (auto simp: queue_ok_def table_ok_def)
  then show ?thesis
    using assms by (simp add: enqueue_body_def recover_settled prune_small queue_ok_def decode_row_def)
qed

lemma enqueue_body_stored:
  assumes "queue_ok cfg rows" "cfg_ok cfg" and pl: "queue_payload raw = Inr payload"
    and e: "enqueue_body cfg jid key payload scope t rows = Inr (rec, rows')"
  shows "\<exists>r \<in> set rows'. rec = decode_row r \<and> q_key r = key \<and> q_job_id r = jid \<and>
      dict_sorted (decode_payload (q_payload_json r)) = dict_sorted (snd payload)"
    and "list_all (\<lambda>r. \<not> lease_expired t r) rows'"
proof -
  define rows1 where "rows1 = snd (recover_expired cfg t rows)"
  have dist: "distinct (map q_job_id rows1)"
    using recover_table_ok [OF queue_ok_table [OF assms(1)]] by (simp add: rows1_def table_ok_def)
  have settled: "list_all (\<lambda>r. \<not> lease_expired t r) rows1"
    by (auto simp: rows1_def recover_expired_def list_all_iff recover_row_settled)
  have "(\<exists>r \<in> set rows'. rec = decode_row r \<and> q_key r = key \<and> q_job_id r = jid \<and>
      dict_sorted (decode_payload (q_payload_json r)) = dict_sorted (snd payload)) \<and>
      list_all (\<lambda>r. \<not> lease_expired t r) rows'"
  proof (cases "List.find (\<lambda>r. q_key r = key) rows1")
    case None
    let ?row = "new_row jid key (fst payload) scope t"
    from None e have n: "find_row jid rows1 = None" "rec = decode_row ?row"
      "rows' = prune_terminal_rows cfg (Some jid) (rows1 @ [?row])"
      by (auto simp: enqueue_body_def rows1_def [symmetric] Let_def split: if_splits)
    have "distinct (map q_job_id (rows1 @ [?row]))"
      using dist n(1) by (simp add: find_row_None new_row_def)
    then have "?row \<in> set rows'" unfolding n(3) by (rule prune_keeps) (simp_all add: new_row_def)
    moreover obtain d where d: "payload = (json_dumps d, d)" "payload_ok d" "d \<noteq> []"
      using pl queue_payload_loop_length by (auto simp: queue_payload_Inr)
    moreover have "\<not> lease_expired t ?row" by (simp add: new_row_def lease_expired_def)
    ultimately show ?thesis
      using n(2,3) settled prune_subset [of cfg "Some jid" "rows1 @ [?row]"]
      by (auto simp: list_all_iff new_row_def decode_dumps sorted_pairs(4))
  next
    case (Some r)
    with e have r: "rec = decode_row r" "q_job_id r = jid" "rows' = prune_terminal_rows cfg (Some jid) rows1"
      "dict_sorted (decode_payload (q_payload_json r)) = dict_sorted (snd payload)"
      by (auto simp: enqueue_body_def rows1_def [symmetric] Let_def decode_row_def split: if_splits)
    have "r \<in> set rows1" "q_key r = key" using Some by (auto simp: find_Some_iff)
    then have "r \<in> set rows'" using r dist by (auto intro: prune_keeps)
    then show ?thesis
      using r \<open>q_key r = key\<close> settled prune_subset [of cfg "Some jid" rows1] by (auto simp: list_all_iff)
  qed
  then show "\<exists>r \<in> set rows'. rec = decode_row r \<and> q_key r = key \<and> q_job_id r = jid \<and>
      dict_sorted (decode_payload (q_payload_json r)) = dict_sorted (snd payload)"
    "list_all (\<lambda>r. \<not> lease_expired t r) rows'" by blast+
qed

section \<open>Properties\<close>

text \<open>C6. The table stays within its contract: in every state that a queue with an accepted
  configuration reaches from an empty file, whatever operations succeed and however often it is
  closed and reopened, job ids and idempotency keys are unique, a lease and its owner are present
  exactly on leased rows, attempts never exceed the limit, at most \<open>max_pending\<close> jobs are active
  and at most \<open>max_terminal_rows\<close> finished ones are retained.\<close>

theorem queue_invariant:
  assumes "make_queue_cfg mode production mp mt ma ls bs = Inr cfg"
    and "(queue_step cfg)\<^sup>*\<^sup>* (initialize cfg []) db"
  shows "distinct (map q_job_id (qd_rows db)) \<and> distinct (map q_key (qd_rows db)) \<and>
    (\<forall>r \<in> set (qd_rows db). (q_status r = Leased \<longleftrightarrow> q_lease_until r \<noteq> None) \<and>
       (q_status r = Leased \<longleftrightarrow> q_lease_owner r \<noteq> None) \<and> q_attempts r \<le> qc_max_attempts cfg) \<and>
    int (active_count (qd_rows db)) \<le> qc_max_pending cfg \<and>
    int (terminal_count (qd_rows db)) \<le> qc_max_terminal_rows cfg"
proof -
  have cfg: "cfg_ok cfg" using assms(1) by (rule make_queue_cfg_ok)
  have init: "queue_ok cfg (qd_rows (initialize cfg []))"
    using cfg by (simp add: initialize_def prune_terminal_rows_def prune_victims_def terminal_count_def
        queue_ok_def table_ok_def active_count_def cfg_ok_def)
  from assms(2) have "queue_ok cfg (qd_rows db)"
    by (induction rule: rtranclp_induct) (use init cfg queue_step_ok in auto)
  then show ?thesis by (auto simp: queue_ok_def table_ok_def list_all_iff row_ok_def)
qed

definition sample_cfg :: queue_cfg where
  "sample_cfg = \<lparr>qc_max_pending = 1, qc_max_terminal_rows = 64, qc_max_attempts = 2,
     qc_lease_seconds = 30, qc_backoff_seconds = 0\<rparr>"

lemma sample_cfg_made:
  "make_queue_cfg ''test'' False (PInt 1) None (PInt 2) (PInt 30) (PInt 0) = Inr sample_cfg"
  by (simp add: make_queue_cfg_def sample_cfg_def)

definition sample_row :: queue_row where
  "sample_row = new_row ''j'' ''k'' (json_dumps [(''filename'', ''f'')]) (''t'', ''w'', ''c'') 0"

abbreviation sample_db :: queue_db where
  "sample_db \<equiv> \<lparr>qd_rows = [sample_row], qd_closed = False\<rparr>"

lemma sample_keys: "c \<in> {CHR ''j'', CHR ''k'', CHR ''t'', CHR ''w'', CHR ''c''} \<Longrightarrow> queue_key_ok [c]"
  by (auto simp: queue_key_ok_def queue_text_ok_def stripped_def QUEUE_KEY_def char_defs)

lemma sample_payload: "payload_ok [(''filename'', ''f'')]"
  by (simp add: payload_ok_def ALLOWED_PAYLOAD_def queue_text_ok_def stripped_def char_defs)

lemma sample_db_ok: "queue_ok sample_cfg [sample_row]" "cfg_ok sample_cfg"
  using decode_dumps [OF sample_payload]
  by (simp_all add: queue_ok_def table_ok_def row_ok_def sample_row_def new_row_def sample_cfg_def cfg_ok_def
      active_count_def active_status_def terminal_count_def terminal_status_def dict_sorted_def)

lemma sample_enqueue:
  "enqueue sample_cfg clk (initialize sample_cfg []) (PStr ''j'') (PStr ''k'') [(PStr ''filename'', PStr ''f'')]
     (PStr ''t'') (PStr ''w'') (PStr ''c'') (Some (Fin 0)) = Inr (decode_row sample_row, sample_db)"
proof -
  have "queue_payload [(PStr ''filename'', PStr ''f'')] =
      Inr (json_dumps [(''filename'', ''f'')], [(''filename'', ''f'')])"
    using sample_payload queue_payload_loop_id [of "[]" "[(''filename'', ''f'')]"]
    by (simp add: queue_payload_Inr payload_values_def)
  then show ?thesis
    using sample_keys
    by (simp add: enqueue_def queue_key_id transaction_def enqueue_body_def initialize_def recover_expired_def
        active_count_def find_row_def sample_cfg_def Let_def prune_terminal_rows_def prune_victims_def
        terminal_count_def sample_row_def new_row_def terminal_status_def)
qed

theorem queue_invariant_witness:
  "(queue_step sample_cfg)\<^sup>*\<^sup>* (initialize sample_cfg []) sample_db \<and>
   int (active_count [sample_row]) \<le> qc_max_pending sample_cfg"
proof -
  have s: "(queue_step sample_cfg)\<^sup>*\<^sup>* (initialize sample_cfg []) sample_db"
    using queue_step.enqueued [OF sample_enqueue] by blast
  show ?thesis using s queue_invariant [OF sample_cfg_made s] by simp
qed

text \<open>C36. Payloads survive storage: the JSON text that \<open>enqueue\<close> stores decodes to the validated
  payload (in key order), and the size check can never fire, so a payload is refused only because
  it is empty or because one of its fields is refused.\<close>

theorem payload_roundtrip:
  "(case queue_payload raw of
      Inr (encoded, clean) \<Rightarrow> decode_payload encoded = dict_sorted clean \<and> clean \<noteq> []
    | Inl e \<Rightarrow> raw = [] \<or> queue_payload_loop raw [] = Inl e)"
proof (cases "queue_payload raw")
  case (Inr p)
  then obtain d where "p = (json_dumps d, d)" "payload_ok d" "d \<noteq> []"
    using queue_payload_loop_length by (auto simp: queue_payload_Inr)
  then show ?thesis by (simp add: Inr decode_dumps)
next
  case (Inl e)
  have "payload_ok d" if "queue_payload_loop raw [] = Inr d" for d
    using queue_payload_loop_ok [OF that] by (simp add: payload_ok_def)
  then show ?thesis
    using Inl payload_size
    by (auto simp: queue_payload_def Let_def rbind_Inl not_less split: if_splits dest: leD)
qed

text \<open>A claim succeeds on every open queue and hands out the oldest eligible jobs, each with the
  lease of its own token: every job it returns was queued and due, or its lease had expired, so
  a job with a live lease is never handed out a second time; its attempt counter grew by one
  within the limit and its row is leased until the end of the lease time.\<close>

theorem claim_hands_out:
  assumes "queue_ok cfg (qd_rows db)" "cfg_ok cfg" "queue_key_ok w" "1 \<le> n" "n \<le> 100" "\<not> qd_closed db"
  shows "\<exists>recs db'. claim cfg clk toks db (PStr w) (PInt n) (Some (Fin t)) = Inr (recs, db') \<and>
    map qr_job_id recs = claimable t (nat n) (fresh_rows cfg t (qd_rows db)) \<and>
    (\<forall>k < length recs. \<exists>r \<in> set (qd_rows db). q_job_id r = qr_job_id (recs ! k) \<and>
       (q_status r = Queued \<and> q_available_at r \<le> t \<or> lease_expired t r) \<and>
       qr_attempts (recs ! k) = q_attempts r + 1 \<and> qr_attempts (recs ! k) \<le> qc_max_attempts cfg \<and>
       qr_lease_token (recs ! k) = Some (w @ '':'' @ toks k) \<and>
       qr_lease_until (recs ! k) = Some (t + qc_lease_seconds cfg) \<and>
       map_option decode_row (find_row (q_job_id r) (qd_rows db')) = Some (recs ! k))"
proof (rule claim_result [OF assms])
  fix recs rows2
  assume c: "claim cfg clk toks db (PStr w) (PInt n) (Some (Fin t)) = Inr (recs, db\<lparr>qd_rows := rows2\<rparr>)"
    "map qr_job_id recs = claimable t (nat n) (fresh_rows cfg t (qd_rows db))"
  assume each: "\<And>k. k < length recs \<Longrightarrow> \<exists>r \<in> set (qd_rows db).
       (q_status r = Queued \<and> q_available_at r \<le> t \<or> lease_expired t r) \<and>
       recs ! k = decode_row (lease_row cfg w t (toks k) (recover_row cfg t r)) \<and>
       q_status (recover_row cfg t r) = Queued \<and>
       find_row (qr_job_id (recs ! k)) rows2 = Some (lease_row cfg w t (toks k) (recover_row cfg t r))"
  have "\<exists>r \<in> set (qd_rows db). q_job_id r = qr_job_id (recs ! k) \<and>
       (q_status r = Queued \<and> q_available_at r \<le> t \<or> lease_expired t r) \<and>
       qr_attempts (recs ! k) = q_attempts r + 1 \<and> qr_attempts (recs ! k) \<le> qc_max_attempts cfg \<and>
       qr_lease_token (recs ! k) = Some (w @ '':'' @ toks k) \<and>
       qr_lease_until (recs ! k) = Some (t + qc_lease_seconds cfg) \<and>
       map_option decode_row (find_row (q_job_id r) rows2) = Some (recs ! k)" if "k < length recs" for k
  proof -
    from each [OF that] obtain r where r: "r \<in> set (qd_rows db)"
      "q_status r = Queued \<and> q_available_at r \<le> t \<or> lease_expired t r"
      "recs ! k = decode_row (lease_row cfg w t (toks k) (recover_row cfg t r))"
      "q_status (recover_row cfg t r) = Queued"
      "find_row (qr_job_id (recs ! k)) rows2 = Some (lease_row cfg w t (toks k) (recover_row cfg t r))"
      by blast
    have "row_ok cfg r" using r(1) assms(1) by (intro table_ok_row) (auto intro: queue_ok_table)
    then have "row_ok cfg (recover_row cfg t r)" using recover_sound by (simp add: sound_update_def)
    moreover have "q_job_id (recover_row cfg t r) = q_job_id r" "q_attempts (recover_row cfg t r) = q_attempts r"
      by (auto simp: recover_row_def)
    ultimately show ?thesis
      using r by (intro bexI [of _ r]) (auto simp: decode_row_def lease_row_def row_ok_def)
  qed
  with c show ?thesis by (intro exI [of _ recs] exI [of _ "db\<lparr>qd_rows := rows2\<rparr>"]) simp
qed

theorem claim_hands_out_witness:
  "\<exists>rec db'. claim sample_cfg (Fin 0) (\<lambda>_. ''x'') sample_db (PStr ''w'') (PInt 5) (Some (Fin 1)) = Inr ([rec], db') \<and>
     qr_attempts rec = 1 \<and> qr_lease_until rec = Some 31"
proof -
  have jids: "claimable 1 5 (fresh_rows sample_cfg 1 [sample_row]) = [''j'']"
    by (simp add: fresh_rows_def recover_expired_def recover_row_def lease_expired_def sample_row_def new_row_def
        prune_small terminal_count_def terminal_status_def sample_cfg_def claimable_def)
  obtain recs db' where c: "claim sample_cfg (Fin 0) (\<lambda>_. ''x'') sample_db (PStr ''w'') (PInt 5) (Some (Fin 1)) = Inr (recs, db')"
    "map qr_job_id recs = [''j'']"
    "\<forall>k < length recs. \<exists>r \<in> {sample_row}. qr_attempts (recs ! k) = q_attempts r + 1 \<and>
       qr_lease_until (recs ! k) = Some (1 + qc_lease_seconds sample_cfg)"
    using claim_hands_out [of sample_cfg sample_db "''w''" 5 "Fin 0" "\<lambda>_. ''x''" 1] sample_db_ok sample_keys jids
    by fastforce
  then obtain rec where "recs = [rec]" by (cases recs) auto
  with c show ?thesis by (auto simp: sample_row_def new_row_def sample_cfg_def)
qed

text \<open>C12. Only the holder of a live lease can finish or extend a job: in a table that satisfies its
  invariant, \<open>ack\<close>, \<open>heartbeat\<close> and \<open>fail\<close> succeed exactly when the job's row is
  leased, carries the caller's token and its lease ends after the time of the call.\<close>

theorem lease_ownership:
  assumes "queue_ok cfg (qd_rows db)" "\<not> qd_closed db"
    and "queue_key_ok jid" "queue_text_ok 256 tok" "queue_error_ok e"
  shows "(\<exists>y. ack cfg clk db (PStr jid) (PStr tok) (Some (Fin t)) = Inr y) =
      (\<exists>r u. find_row jid (qd_rows db) = Some r \<and> q_status r = Leased \<and> q_lease_owner r = Some tok \<and>
         q_lease_until r = Some u \<and> t < u) \<and>
    (\<exists>y. heartbeat cfg clk db (PStr jid) (PStr tok) (Some (Fin t)) = Inr y) =
      (\<exists>y. ack cfg clk db (PStr jid) (PStr tok) (Some (Fin t)) = Inr y) \<and>
    (\<exists>y. fail cfg clk db (PStr jid) (PStr tok) (PStr e) (Some (Fin t)) = Inr y) =
      (\<exists>y. ack cfg clk db (PStr jid) (PStr tok) (Some (Fin t)) = Inr y)"
proof -
  have "distinct (map q_job_id (qd_rows db))" using assms(1) by (simp add: queue_ok_def table_ok_def)
  then have "owned_row jid tok t (qd_rows db) \<noteq> None \<longleftrightarrow>
      (\<exists>r u. find_row jid (qd_rows db) = Some r \<and> q_status r = Leased \<and> q_lease_owner r = Some tok \<and>
         q_lease_until r = Some u \<and> t < u)"
    by (auto simp: owned_row_iff split: option.splits if_splits)
  then show ?thesis
    using assms(2-) by (cases "owned_row jid tok t (qd_rows db)")
      (auto simp: given finish_body_def heartbeat_body_def fail_body_def Let_def)
qed

lemma sample_error: "queue_error_ok ''e''"
  by (simp add: queue_error_ok_def queue_safe_error_def queue_text_id queue_text_ok_def stripped_def char_defs
      QUEUE_SAFE_ERROR_def lower_s_def)

theorem lease_ownership_witness:
  "\<not> (\<exists>y. ack sample_cfg (Fin 0) sample_db (PStr ''j'') (PStr ''x'') (Some (Fin 1)) = Inr y)"
proof -
  have "queue_text_ok 256 ''x''" by (simp add: queue_text_ok_def stripped_def char_defs)
  then show ?thesis
    using lease_ownership [of sample_cfg sample_db "''j''" "''x''" "''e''" "Fin 0" 1] sample_db_ok sample_keys sample_error
    by (simp add: find_row_def sample_row_def new_row_def)
qed

text \<open>A job is completed once: after a successful \<open>ack\<close> the row is acknowledged, without a
  lease, and every further \<open>ack\<close>, \<open>heartbeat\<close> or \<open>fail\<close> on it is refused, whatever
  token and time the caller presents, the accepted token included.\<close>

theorem ack_once:
  assumes "queue_ok cfg (qd_rows db)" "queue_key_ok jid" "queue_text_ok 256 tok"
    and a: "ack cfg clk db (PStr jid) (PStr tok) (Some (Fin t)) = Inr (rec, db')"
    and "queue_text_ok 256 tok'" "queue_error_ok e"
  shows "qr_status rec = Acked \<and> map_option decode_row (find_row jid (qd_rows db')) = Some rec \<and>
    ack cfg clk db' (PStr jid) (PStr tok') (Some (Fin t')) = Inl (QueueLeaseError ''lease is not owned by this worker'') \<and>
    heartbeat cfg clk db' (PStr jid) (PStr tok') (Some (Fin t')) = Inl (QueueLeaseError ''lease is not owned by this worker'') \<and>
    fail cfg clk db' (PStr jid) (PStr tok') (PStr e) (Some (Fin t')) = Inl (QueueLeaseError ''lease is not owned by this worker'')"
proof -
  have open_db: "\<not> qd_closed db" using a by (auto simp: ack_def returns)
  obtain r where r: "owned_row jid tok t (qd_rows db) = Some r" "rec = decode_row (finish_row Acked t r)"
    "db' = db\<lparr>qd_rows := prune_terminal_rows cfg (Some jid) (update_row jid (finish_row Acked t) (qd_rows db))\<rparr>"
    using a assms(2,3) open_db by (auto simp: ack_given finish_body_def split: option.splits)
  let ?rows = "update_row jid (finish_row Acked t) (qd_rows db)"
  have dist: "distinct (map q_job_id (qd_rows db))" using assms(1) by (simp add: queue_ok_def table_ok_def)
  have fid: "q_job_id (finish_row Acked t x) = q_job_id x" for x by (simp add: finish_row_def)
  have "map q_job_id ?rows = map q_job_id (qd_rows db)" by (simp add: update_row_def fid)
  moreover have "find_row jid (qd_rows db) = Some r"
    using owned_row_Some [OF r(1)] find_row_unique [OF dist] by blast
  then have "find_row jid ?rows = Some (finish_row Acked t r)"
    by (simp add: find_update_row [OF fid])
  ultimately have f: "find_row jid (qd_rows db') = Some (finish_row Acked t r)"
    using dist r(3) find_prune [of ?rows jid "finish_row Acked t r" "Some jid" cfg] by simp
  have "distinct (map q_job_id (qd_rows db'))"
    using dist \<open>map q_job_id ?rows = map q_job_id (qd_rows db)\<close> r(3)
    by (simp add: prune_terminal_rows_def Let_def distinct_map_filter)
  then have "\<not> holds_lease (qd_rows db') jid tok' t'"
    using f by (simp add: holds_lease_def owned_row_iff finish_row_def)
  then show ?thesis
    using rejected_without_lease [of jid tok' e db' t' cfg clk] assms(2,5,6) open_db f r
    by (simp add: decode_row_def finish_row_def)
qed

definition leased_db :: queue_db where
  "leased_db = \<lparr>qd_rows = [lease_row sample_cfg ''w'' 1 ''x'' sample_row], qd_closed = False\<rparr>"

lemma leased_db_ok: "queue_ok sample_cfg (qd_rows leased_db)"
  using update_lease_ok [OF sample_db_ok(1), of "''j''" "''w''" 1 "''x''"]
  by (simp add: leased_db_def update_row_def sample_row_def new_row_def)

theorem ack_once_witness:
  "\<exists>rec db'. ack sample_cfg (Fin 0) leased_db (PStr ''j'') (PStr ''w:x'') (Some (Fin 2)) = Inr (rec, db') \<and>
     ack sample_cfg (Fin 0) db' (PStr ''j'') (PStr ''w:x'') (Some (Fin 3)) =
       Inl (QueueLeaseError ''lease is not owned by this worker'')"
proof -
  have k: "queue_key_ok ''j''" using sample_keys by simp
  have tok: "queue_text_ok 256 ''w:x''" by (simp add: queue_text_ok_def stripped_def char_defs)
  have "ack sample_cfg (Fin 0) leased_db (PStr ''j'') (PStr ''w:x'') (Some (Fin 2)) \<noteq> Inl e" for e
    using k tok by (simp add: ack_given leased_db_def finish_body_def owned_row_def lease_row_def sample_row_def
        new_row_def sample_cfg_def)
  then obtain rec db' where a: "ack sample_cfg (Fin 0) leased_db (PStr ''j'') (PStr ''w:x'') (Some (Fin 2)) = Inr (rec, db')"
    by (metis old.prod.exhaust sumE)
  show ?thesis
    using a ack_once [OF leased_db_ok k tok a tok sample_error, of 3] by blast
qed

text \<open>C31. Fencing: when a job is claimed again after its lease expired, the worker that held the
  old lease can no longer acknowledge, extend, fail or cancel it. With any token other than the
  one the claim returned, every one of these calls is refused in the state the claim leaves.\<close>

theorem claim_fences:
  assumes "queue_ok cfg (qd_rows db)" "cfg_ok cfg" "queue_key_ok w" "1 \<le> n" "n \<le> 100" "\<not> qd_closed db"
    and c: "claim cfg clk toks db (PStr w) (PInt n) (Some (Fin t)) = Inr (recs, db')"
    and "rec \<in> set recs" "queue_key_ok (qr_job_id rec)" "qr_lease_token rec \<noteq> Some tok"
    and "queue_text_ok 256 tok" "queue_error_ok e"
  shows "ack cfg clk db' (PStr (qr_job_id rec)) (PStr tok) (Some (Fin t')) = Inl (QueueLeaseError ''lease is not owned by this worker'') \<and>
    heartbeat cfg clk db' (PStr (qr_job_id rec)) (PStr tok) (Some (Fin t')) = Inl (QueueLeaseError ''lease is not owned by this worker'') \<and>
    fail cfg clk db' (PStr (qr_job_id rec)) (PStr tok) (PStr e) (Some (Fin t')) = Inl (QueueLeaseError ''lease is not owned by this worker'') \<and>
    cancel cfg clk db' (PStr (qr_job_id rec)) (Some (PStr tok)) (Some (Fin t')) = Inl (QueueLeaseError ''leased job requires its owner to cancel'')"
proof (rule claim_result [OF assms(1-6), of clk toks t])
  fix recs2 rows2
  assume r: "claim cfg clk toks db (PStr w) (PInt n) (Some (Fin t)) = Inr (recs2, db\<lparr>qd_rows := rows2\<rparr>)"
    "queue_ok cfg rows2"
  assume each: "\<And>k. k < length recs2 \<Longrightarrow> \<exists>r \<in> set (qd_rows db).
       (q_status r = Queued \<and> q_available_at r \<le> t \<or> lease_expired t r) \<and>
       recs2 ! k = decode_row (lease_row cfg w t (toks k) (recover_row cfg t r)) \<and>
       q_status (recover_row cfg t r) = Queued \<and>
       find_row (qr_job_id (recs2 ! k)) rows2 = Some (lease_row cfg w t (toks k) (recover_row cfg t r))"
  have eq: "recs2 = recs" "db' = db\<lparr>qd_rows := rows2\<rparr>" using r(1) c by simp_all
  from assms(8) obtain k where "k < length recs" "rec = recs ! k" by (auto simp: in_set_conv_nth)
  with each [of k] obtain row where row: "find_row (qr_job_id rec) rows2 = Some row"
    "rec = decode_row row" "q_status row = Leased"
    by (auto simp: eq lease_row_def)
  have own: "q_lease_owner row \<noteq> Some tok" using assms(10) row(2) by (simp add: decode_row_def)
  have "distinct (map q_job_id rows2)" using r(2) by (simp add: queue_ok_def table_ok_def)
  then have "\<not> holds_lease (qd_rows db') (qr_job_id rec) tok t'"
    using row(1) own by (simp add: holds_lease_def owned_row_iff eq)
  moreover have "cancel cfg clk db' (PStr (qr_job_id rec)) (Some (PStr tok)) (Some (Fin t')) =
      Inl (QueueLeaseError ''leased job requires its owner to cancel'')"
    using assms(6,9,11) row(1,3) own
    by (simp add: cancel_def queue_key_id queue_text_id transaction_def cancel_body_def eq)
  ultimately show ?thesis
    using rejected_without_lease [of "qr_job_id rec" tok e db' t' cfg clk] assms(6,9,11,12) row(1)
    by (simp add: eq)
qed

lemma leased_claim:
  "\<exists>rec db'. claim sample_cfg (Fin 0) (\<lambda>_. ''y'') leased_db (PStr ''w'') (PInt 1) (Some (Fin 40)) = Inr ([rec], db') \<and>
     qr_job_id rec = ''j'' \<and> qr_lease_token rec = Some ''w:y''"
  using sample_keys
  by (simp add: claim_Inr fresh_rows_def recover_expired_def recover_row_def lease_expired_def retry_delay_def
      prune_small terminal_count_def terminal_status_def claimable_def find_row_def update_row_def
      decode_row_def lease_row_def leased_db_def sample_row_def new_row_def sample_cfg_def)

theorem claim_fences_witness:
  "\<exists>rec db'. claim sample_cfg (Fin 0) (\<lambda>_. ''y'') leased_db (PStr ''w'') (PInt 1) (Some (Fin 40)) = Inr ([rec], db') \<and>
     ack sample_cfg (Fin 0) db' (PStr ''j'') (PStr ''w:x'') (Some (Fin 41)) =
       Inl (QueueLeaseError ''lease is not owned by this worker'')"
proof -
  obtain rec db' where c: "claim sample_cfg (Fin 0) (\<lambda>_. ''y'') leased_db (PStr ''w'') (PInt 1) (Some (Fin 40)) = Inr ([rec], db')"
    "qr_job_id rec = ''j''" "qr_lease_token rec = Some ''w:y''"
    using leased_claim by blast
  have "queue_text_ok 256 ''w:x''" by (simp add: queue_text_ok_def stripped_def char_defs)
  then show ?thesis
    using claim_fences [OF leased_db_ok sample_db_ok(2) _ _ _ _ c(1), of rec "''w:x''" "''e''" 41]
      c sample_keys sample_error by (auto simp: leased_db_def)
qed

text \<open>Enqueueing is idempotent: repeating an accepted \<open>enqueue\<close> with the same key, job and
  payload returns the same record and leaves the queue exactly as the first call left it, also
  when the queue is full by then.\<close>

theorem enqueue_replay:
  assumes "queue_ok cfg (qd_rows db)" "cfg_ok cfg"
    and e: "enqueue cfg clk db j k pl ti wi ci (Some (Fin t)) = Inr (rec, db')"
  shows "enqueue cfg clk db' j k pl ti wi ci (Some (Fin t)) = Inr (rec, db')"
proof -
  from e obtain jid key tid wid cid payload rows' where
    v: "queue_key ''job_id'' j = Inr jid" "queue_key ''idempotency_key'' k = Inr key"
      "queue_key ''tenant_id'' ti = Inr tid" "queue_key ''workspace_id'' wi = Inr wid"
      "queue_key ''collection_id'' ci = Inr cid" "queue_payload pl = Inr payload" "\<not> qd_closed db"
    and b: "enqueue_body cfg jid key payload (tid, wid, cid) t (qd_rows db) = Inr (rec, rows')"
    and db': "db' = db\<lparr>qd_rows := rows'\<rparr>"
    by (auto simp: enqueue_def returns)
  note st = enqueue_body_stored [OF assms(1,2) v(6) b]
  have ok: "queue_ok cfg rows'" by (rule enqueue_body_ok [OF assms(1,2) v(6) b])
  from st(1) obtain r where "r \<in> set rows'" "rec = decode_row r" "q_key r = key" "q_job_id r = jid"
      "dict_sorted (decode_payload (q_payload_json r)) = dict_sorted (snd payload)" by blast
  then have "enqueue_body cfg jid key payload (tid, wid, cid) t rows' = Inr (rec, rows')"
    using replay_body [OF ok st(2)] by metis
  then show ?thesis using v by (simp add: enqueue_def transaction_def db')
qed

theorem enqueue_replay_witness:
  "enqueue sample_cfg (Fin 0) sample_db (PStr ''j'') (PStr ''k'') [(PStr ''filename'', PStr ''f'')]
     (PStr ''t'') (PStr ''w'') (PStr ''c'') (Some (Fin 0)) = Inr (decode_row sample_row, sample_db)"
proof (rule enqueue_replay [OF _ sample_db_ok(2) sample_enqueue])
  show "queue_ok sample_cfg (qd_rows (initialize sample_cfg []))"
    by (simp add: initialize_def prune_small terminal_count_def queue_ok_def table_ok_def active_count_def
        sample_cfg_def)
qed

end
