(* ===== verification/Leases.thy ===== *)
theory Leases
  imports Prelude
begin

text \<open>
  The lease boundary (\<open>packages/locking/src/rick_locking\<close>): \<open>errors.py\<close>,
  \<open>validation.py\<close> and the in-memory lease store of \<open>memory.py\<close>. The store's
  dictionary is an association list, its lock makes every method one step, and the reading
  of its clock is an argument (\<open>None\<close> when the clock raises). Correlation ids made by
  \<open>uuid4\<close> are arguments too. The locale \<open>lease_service\<close> states what a lease backend
  promises (the protocol \<open>LeaseBackend\<close>): who holds a key as time passes and how the
  three operations change that. The store is shown to keep the promise.
\<close>

section \<open>Errors\<close>

datatype lease_code =
  UNAVAILABLE | TIMEOUT | NOT_OWNER | INVALID_REQUEST | OP_CANCELLED | INTERNAL_ERROR

fun code_value :: "lease_code \<Rightarrow> string" where
  "code_value UNAVAILABLE = ''unavailable''"
| "code_value TIMEOUT = ''timeout''"
| "code_value NOT_OWNER = ''not_owner''"
| "code_value INVALID_REQUEST = ''invalid_request''"
| "code_value OP_CANCELLED = ''cancelled''"
| "code_value INTERNAL_ERROR = ''internal_error''"

definition parse_code :: "string \<Rightarrow> lease_code option" where
  "parse_code s = List.find (\<lambda>c. code_value c = s)
     [UNAVAILABLE, TIMEOUT, NOT_OWNER, INVALID_REQUEST, OP_CANCELLED, INTERNAL_ERROR]"

lemma parse_code_value [simp]: "parse_code (code_value c) = Some c"
  by (cases c) (simp_all add: parse_code_def)

declare code_value.simps [simp del]

fun SAFE_MESSAGES :: "lease_code \<Rightarrow> string" where
  "SAFE_MESSAGES UNAVAILABLE = ''Lease service unavailable''"
| "SAFE_MESSAGES TIMEOUT = ''Lease operation timed out''"
| "SAFE_MESSAGES NOT_OWNER = ''Lease owner mismatch''"
| "SAFE_MESSAGES INVALID_REQUEST = ''Invalid lease request''"
| "SAFE_MESSAGES OP_CANCELLED = ''Lease operation cancelled''"
| "SAFE_MESSAGES INTERNAL_ERROR = ''Lease operation failed''"

definition lease_retryable :: "lease_code \<Rightarrow> bool" where
  "lease_retryable c = (c \<in> {UNAVAILABLE, TIMEOUT})"

definition OPERATIONS :: "string list" where
  "OPERATIONS = [''acquire'', ''renew'', ''release'']"

fun safe_operation :: "pyval \<Rightarrow> string" where
  "safe_operation (PStr op) = (if op \<in> set OPERATIONS then op else ''acquire'')"
| "safe_operation v = ''acquire''"

definition correlation_chars :: "string \<Rightarrow> bool" where
  "correlation_chars s = (1 \<le> length s \<and> length s \<le> 128 \<and>
     list_all (\<lambda>c. isalnum_c c \<or> c \<in> set ''._:-'') s)"

fun safe_correlation_id :: "pyval \<Rightarrow> string" where
  "safe_correlation_id (PStr s) = (if correlation_chars s then s else ''invalid-correlation'')"
| "safe_correlation_id v = ''invalid-correlation''"

record lease_error =
  le_code :: lease_code
  le_operation :: string
  le_correlation_id :: string
  le_retryable :: bool
  le_message :: string

definition make_lease_error :: "pyval \<Rightarrow> pyval \<Rightarrow> pyval \<Rightarrow> lease_error" where
  "make_lease_error code operation correlation_id =
     (let safe_code = (case code of
                         PStr s \<Rightarrow> (case parse_code s of None \<Rightarrow> INTERNAL_ERROR | Some c \<Rightarrow> c)
                       | _ \<Rightarrow> INTERNAL_ERROR)
      in \<lparr>le_code = safe_code, le_operation = safe_operation operation,
          le_correlation_id = safe_correlation_id correlation_id,
          le_retryable = lease_retryable safe_code, le_message = SAFE_MESSAGES safe_code\<rparr>)"

text \<open>The constructor on a known code, as the sources call it.\<close>

abbreviation raise_lease :: "lease_code \<Rightarrow> string \<Rightarrow> string \<Rightarrow> lease_error" where
  "raise_lease code operation corr \<equiv>
     make_lease_error (PStr (code_value code)) (PStr operation) (PStr corr)"

text \<open>What a call may raise, as far as the boundary tells exceptions apart.\<close>

datatype raised = RaisedLease lease_error | RaisedTimeout | RaisedCancelled | RaisedOther

fun classify_exception :: "raised \<Rightarrow> lease_code" where
  "classify_exception (RaisedLease e) = le_code e"
| "classify_exception RaisedTimeout = TIMEOUT"
| "classify_exception RaisedCancelled = OP_CANCELLED"
| "classify_exception RaisedOther = INTERNAL_ERROR"

section \<open>Validation\<close>

type_synonym 'a lease_res = "lease_error + 'a"

definition correlation_id_for :: "string \<Rightarrow> string \<Rightarrow> pyval option \<Rightarrow> string lease_res" where
  "correlation_id_for generated operation correlation_id =
     (case correlation_id of
        None \<Rightarrow> Inr generated
      | Some (PStr s) \<Rightarrow>
          if correlation_chars s then Inr s
          else Inl (raise_lease INVALID_REQUEST operation generated)
      | Some _ \<Rightarrow> Inl (raise_lease INVALID_REQUEST operation generated))"

fun valid_scalar_text :: "nat \<Rightarrow> pyval \<Rightarrow> bool" where
  "valid_scalar_text maximum (PStr s) =
     (1 \<le> length s \<and> length s \<le> maximum \<and> list_all (\<lambda>c. 32 \<le> ord_c c \<and> c \<noteq> CHR 0x7F) s)"
| "valid_scalar_text maximum v = False"

definition checked_text :: "nat \<Rightarrow> pyval \<Rightarrow> string \<Rightarrow> string \<Rightarrow> string lease_res" where
  "checked_text maximum v operation corr =
     (case v of
        PStr s \<Rightarrow> if valid_scalar_text maximum v then Inr s
                  else Inl (raise_lease INVALID_REQUEST operation corr)
      | _ \<Rightarrow> Inl (raise_lease INVALID_REQUEST operation corr))"

definition validate_key :: "pyval \<Rightarrow> string \<Rightarrow> string \<Rightarrow> string lease_res" where
  "validate_key key operation corr = checked_text 512 key operation corr"

definition validate_owner :: "pyval \<Rightarrow> string \<Rightarrow> string \<Rightarrow> string lease_res" where
  "validate_owner owner operation corr = checked_text 256 owner operation corr"

fun validate_ttl :: "pyval \<Rightarrow> string \<Rightarrow> string \<Rightarrow> int lease_res" where
  "validate_ttl (PInt n) operation corr =
     (if 0 < n \<and> n \<le> 3600000 then Inr n else Inl (raise_lease INVALID_REQUEST operation corr))"
| "validate_ttl v operation corr = Inl (raise_lease INVALID_REQUEST operation corr)"

definition validate_timeout :: "pyval \<Rightarrow> string \<Rightarrow> string \<Rightarrow> real lease_res" where
  "validate_timeout v operation corr =
     (case finite_number v of
        None \<Rightarrow> Inl (raise_lease INVALID_REQUEST operation corr)
      | Some x \<Rightarrow> if 0 < x \<and> x \<le> 30 then Inr x
                  else Inl (raise_lease INVALID_REQUEST operation corr))"

text \<open>The cleanup bound raises \<open>ValueError\<close>.\<close>

definition validate_cleanup_timeout :: "pyval \<Rightarrow> string + real" where
  "validate_cleanup_timeout v =
     (case finite_number v of
        None \<Rightarrow> Inl ''invalid cleanup timeout''
      | Some x \<Rightarrow> if 0 < x \<and> x \<le> 30 then Inr x else Inl ''invalid cleanup timeout'')"

fun validate_response_limit :: "pyval \<Rightarrow> string \<Rightarrow> string \<Rightarrow> int lease_res" where
  "validate_response_limit (PInt n) operation corr =
     (if 1 \<le> n \<and> n \<le> 4 * 1024 * 1024 then Inr n
      else Inl (raise_lease INVALID_REQUEST operation corr))"
| "validate_response_limit v operation corr = Inl (raise_lease INVALID_REQUEST operation corr)"

section \<open>The in-memory store\<close>

record lease_entry =
  en_owner :: string
  en_expires_at :: real

type_synonym lease_entries = "(string \<times> lease_entry) list"

definition lease_now :: "pyfloat option \<Rightarrow> string \<Rightarrow> string \<Rightarrow> real lease_res" where
  "lease_now clock operation corr =
     (case clock of Some (Fin x) \<Rightarrow> Inr x | _ \<Rightarrow> Inl (raise_lease INTERNAL_ERROR operation corr))"

definition entry_expired :: "lease_entry \<Rightarrow> real \<Rightarrow> bool" where
  "entry_expired e now = (en_expires_at e \<le> now)"

definition expiry :: "real \<Rightarrow> int \<Rightarrow> real" where
  "expiry now ttl_ms = now + real_of_int ttl_ms / 1000"

text \<open>The critical sections, which start once the arguments are valid and the clock was read.\<close>

definition mem_acquire :: "lease_entries \<Rightarrow> real \<Rightarrow> string \<Rightarrow> string \<Rightarrow> int \<Rightarrow> bool \<times> lease_entries" where
  "mem_acquire entries now key owner ttl_ms =
     (case map_of entries key of
        Some current \<Rightarrow>
          if \<not> entry_expired current now then (False, entries)
          else (True, AList.update key \<lparr>en_owner = owner, en_expires_at = expiry now ttl_ms\<rparr>
                        (AList.delete key entries))
      | None \<Rightarrow> (True, AList.update key \<lparr>en_owner = owner, en_expires_at = expiry now ttl_ms\<rparr> entries))"

definition mem_renew :: "lease_entries \<Rightarrow> real \<Rightarrow> string \<Rightarrow> string \<Rightarrow> int \<Rightarrow> bool \<times> lease_entries" where
  "mem_renew entries now key owner ttl_ms =
     (case map_of entries key of
        None \<Rightarrow> (False, entries)
      | Some current \<Rightarrow>
          if entry_expired current now then (False, AList.delete key entries)
          else if en_owner current \<noteq> owner then (False, entries)
          else (True, AList.update key (current\<lparr>en_expires_at := expiry now ttl_ms\<rparr>) entries))"

definition mem_release :: "lease_entries \<Rightarrow> real \<Rightarrow> string \<Rightarrow> string \<Rightarrow> bool \<times> lease_entries" where
  "mem_release entries now key owner =
     (case map_of entries key of
        None \<Rightarrow> (False, entries)
      | Some current \<Rightarrow>
          if entry_expired current now then (False, AList.delete key entries)
          else if en_owner current \<noteq> owner then (False, entries)
          else (True, AList.delete key entries))"

definition store_acquire ::
  "string \<Rightarrow> pyfloat option \<Rightarrow> lease_entries \<Rightarrow> pyval \<Rightarrow> pyval \<Rightarrow> pyval \<Rightarrow> pyval option \<Rightarrow>
   (bool \<times> lease_entries) lease_res" where
  "store_acquire generated clock entries key owner ttl_ms correlation_id =
     rbind (correlation_id_for generated ''acquire'' correlation_id) (\<lambda>corr.
     rbind (validate_key key ''acquire'' corr) (\<lambda>checked_key.
     rbind (validate_owner owner ''acquire'' corr) (\<lambda>checked_owner.
     rbind (validate_ttl ttl_ms ''acquire'' corr) (\<lambda>checked_ttl.
     rbind (lease_now clock ''acquire'' corr) (\<lambda>now.
       Inr (mem_acquire entries now checked_key checked_owner checked_ttl))))))"

definition store_renew ::
  "string \<Rightarrow> pyfloat option \<Rightarrow> lease_entries \<Rightarrow> pyval \<Rightarrow> pyval \<Rightarrow> pyval \<Rightarrow> pyval option \<Rightarrow>
   (bool \<times> lease_entries) lease_res" where
  "store_renew generated clock entries key owner ttl_ms correlation_id =
     rbind (correlation_id_for generated ''renew'' correlation_id) (\<lambda>corr.
     rbind (validate_key key ''renew'' corr) (\<lambda>checked_key.
     rbind (validate_owner owner ''renew'' corr) (\<lambda>checked_owner.
     rbind (validate_ttl ttl_ms ''renew'' corr) (\<lambda>checked_ttl.
     rbind (lease_now clock ''renew'' corr) (\<lambda>now.
       Inr (mem_renew entries now checked_key checked_owner checked_ttl))))))"

definition store_release ::
  "string \<Rightarrow> pyfloat option \<Rightarrow> lease_entries \<Rightarrow> pyval \<Rightarrow> pyval \<Rightarrow> pyval option \<Rightarrow>
   (bool \<times> lease_entries) lease_res" where
  "store_release generated clock entries key owner correlation_id =
     rbind (correlation_id_for generated ''release'' correlation_id) (\<lambda>corr.
     rbind (validate_key key ''release'' corr) (\<lambda>checked_key.
     rbind (validate_owner owner ''release'' corr) (\<lambda>checked_owner.
     rbind (lease_now clock ''release'' corr) (\<lambda>now.
       Inr (mem_release entries now checked_key checked_owner)))))"

definition is_active ::
  "string \<Rightarrow> pyfloat option \<Rightarrow> lease_entries \<Rightarrow> pyval \<Rightarrow> (bool \<times> lease_entries) lease_res" where
  "is_active generated clock entries key =
     rbind (validate_key key ''acquire'' generated) (\<lambda>checked_key.
     rbind (lease_now clock ''acquire'' generated) (\<lambda>now.
       case map_of entries checked_key of
         None \<Rightarrow> Inr (False, entries)
       | Some current \<Rightarrow>
           if entry_expired current now then Inr (False, AList.delete checked_key entries)
           else Inr (True, entries)))"

definition remaining_ttl_ms ::
  "string \<Rightarrow> pyfloat option \<Rightarrow> lease_entries \<Rightarrow> pyval \<Rightarrow> (int option \<times> lease_entries) lease_res" where
  "remaining_ttl_ms generated clock entries key =
     rbind (validate_key key ''acquire'' generated) (\<lambda>checked_key.
     rbind (lease_now clock ''acquire'' generated) (\<lambda>now.
       case map_of entries checked_key of
         None \<Rightarrow> Inr (None, entries)
       | Some current \<Rightarrow>
           if entry_expired current now then Inr (None, AList.delete checked_key entries)
           else Inr (Some (max 0 \<lfloor>(en_expires_at current - now) * 1000\<rfloor>), entries)))"

definition store_len :: "string \<Rightarrow> pyfloat option \<Rightarrow> lease_entries \<Rightarrow> (nat \<times> lease_entries) lease_res" where
  "store_len generated clock entries =
     rbind (lease_now clock ''acquire'' generated) (\<lambda>now.
       let kept = filter (\<lambda>(k, e). \<not> entry_expired e now) entries in Inr (length kept, kept))"

section \<open>What a lease backend promises\<close>

text \<open>
  \<open>live s t k\<close> is the holder of key \<open>k\<close> at time \<open>t\<close> and the end of its lease. The laws
  say what each operation answers and how it changes the future: only the key it names, and
  only in the way its answer says.
\<close>

locale lease_service =
  fixes acquire renew :: "'s \<Rightarrow> real \<Rightarrow> string \<Rightarrow> string \<Rightarrow> int \<Rightarrow> bool \<times> 's"
    and release :: "'s \<Rightarrow> real \<Rightarrow> string \<Rightarrow> string \<Rightarrow> bool \<times> 's"
    and live :: "'s \<Rightarrow> real \<Rightarrow> string \<Rightarrow> (string \<times> real) option"
  assumes live_until: "live s t k = Some (o1, e) \<Longrightarrow> t < e"
    and live_stays: "live s t k = Some (o1, e) \<Longrightarrow> t \<le> t' \<Longrightarrow> t' < e \<Longrightarrow> live s t' k = Some (o1, e)"
    and live_ends: "live s t k = Some (o1, e) \<Longrightarrow> e \<le> t' \<Longrightarrow> live s t' k = None"
    and free_stays: "live s t k = None \<Longrightarrow> t \<le> t' \<Longrightarrow> live s t' k = None"
    and acquire_answer: "fst (acquire s t k o1 ttl) = (live s t k = None)"
    and acquire_effect: "t \<le> t' \<Longrightarrow> live (snd (acquire s t k o1 ttl)) t' k' =
      (if k' = k \<and> live s t k = None then (if t' < expiry t ttl then Some (o1, expiry t ttl) else None)
       else live s t' k')"
    and renew_answer: "fst (renew s t k o1 ttl) = (\<exists>e. live s t k = Some (o1, e))"
    and renew_effect: "t \<le> t' \<Longrightarrow> live (snd (renew s t k o1 ttl)) t' k' =
      (if k' = k \<and> (\<exists>e. live s t k = Some (o1, e))
       then (if t' < expiry t ttl then Some (o1, expiry t ttl) else None) else live s t' k')"
    and release_answer: "fst (release s t k o1) = (\<exists>e. live s t k = Some (o1, e))"
    and release_effect: "t \<le> t' \<Longrightarrow> live (snd (release s t k o1)) t' k' =
      (if k' = k \<and> (\<exists>e. live s t k = Some (o1, e)) then None else live s t' k')"

text \<open>Requests of any callers, one after the other, with the time of each.\<close>

datatype lease_request =
    Acquire string string int
  | Renew string string int
  | Release string string

fun request_owner :: "lease_request \<Rightarrow> string" where
  "request_owner (Acquire k o1 ttl) = o1"
| "request_owner (Renew k o1 ttl) = o1"
| "request_owner (Release k o1) = o1"

fun serve ::
  "('s \<Rightarrow> real \<Rightarrow> string \<Rightarrow> string \<Rightarrow> int \<Rightarrow> bool \<times> 's) \<Rightarrow> ('s \<Rightarrow> real \<Rightarrow> string \<Rightarrow> string \<Rightarrow> int \<Rightarrow> bool \<times> 's) \<Rightarrow>
   ('s \<Rightarrow> real \<Rightarrow> string \<Rightarrow> string \<Rightarrow> bool \<times> 's) \<Rightarrow> 's \<Rightarrow> real \<times> lease_request \<Rightarrow> bool \<times> 's" where
  "serve acq ren rel s (t, Acquire k o1 ttl) = acq s t k o1 ttl"
| "serve acq ren rel s (t, Renew k o1 ttl) = ren s t k o1 ttl"
| "serve acq ren rel s (t, Release k o1) = rel s t k o1"

definition serve_all ::
  "('s \<Rightarrow> real \<Rightarrow> string \<Rightarrow> string \<Rightarrow> int \<Rightarrow> bool \<times> 's) \<Rightarrow> ('s \<Rightarrow> real \<Rightarrow> string \<Rightarrow> string \<Rightarrow> int \<Rightarrow> bool \<times> 's) \<Rightarrow>
   ('s \<Rightarrow> real \<Rightarrow> string \<Rightarrow> string \<Rightarrow> bool \<times> 's) \<Rightarrow> 's \<Rightarrow> (real \<times> lease_request) list \<Rightarrow> 's" where
  "serve_all acq ren rel s rs = fold (\<lambda>r s. snd (serve acq ren rel s r)) rs s"

context lease_service
begin

text \<open>A request of another owner cannot touch a live lease.\<close>

lemma other_request_keeps:
  assumes "live s t k = Some (o1, e)" and "request_owner r \<noteq> o1" and "t \<le> u" "u \<le> t'" "t' < e"
  shows "live (snd (serve acquire renew release s (u, r))) t' k = Some (o1, e)"
proof -
  have u: "live s u k = Some (o1, e)" and t': "live s t' k = Some (o1, e)"
    using assms live_stays [of s t k o1 e] by auto
  show ?thesis
    using assms(2) u t' by (cases r) (auto simp: acquire_effect [OF assms(4)] renew_effect [OF assms(4)]
        release_effect [OF assms(4)])
qed

lemma others_keep:
  assumes "live s t k = Some (o1, e)" and "\<forall>r \<in> set rs. request_owner (snd r) \<noteq> o1"
    and "sorted (t # map fst rs @ [t'])" and "t' < e"
  shows "live (serve_all acquire renew release s rs) t' k = Some (o1, e)"
  using assms
proof (induction rs arbitrary: s t)
  case Nil
  then show ?case using live_stays [of s t k o1 e t'] by (simp add: serve_all_def)
next
  case (Cons r rs)
  obtain u q where r: "r = (u, q)" by (cases r)
  have u: "t \<le> u" "u \<le> t'" "sorted (u # map fst rs @ [t'])" using Cons.prems(3) r by auto
  let ?s = "snd (serve acquire renew release s r)"
  have "live ?s u k = Some (o1, e)"
    using other_request_keeps [OF Cons.prems(1), of q u u] Cons.prems(2,4) r u by simp
  from Cons.IH [OF this] Cons.prems(2,4) u show ?case by (simp add: serve_all_def)
qed

lemma exclusive:
  assumes "fst (acquire s t k o1 ttl)" and "\<forall>r \<in> set rs. request_owner (snd r) \<noteq> o1"
    and "sorted (t # map fst rs @ [t'])" and "t' < expiry t ttl"
  defines "s' \<equiv> serve_all acquire renew release (snd (acquire s t k o1 ttl)) rs"
  shows "\<not> fst (acquire s' t' k o2 ttl')" and "fst (renew s' t' k o1 ttl')" and "fst (release s' t' k o1)"
    and "o2 \<noteq> o1 \<Longrightarrow> \<not> fst (renew s' t' k o2 ttl') \<and> \<not> fst (release s' t' k o2)"
proof -
  have "t \<le> t'" using assms(3) by simp
  then have "live (snd (acquire s t k o1 ttl)) t k = Some (o1, expiry t ttl)"
    using assms(1,4) by (simp add: acquire_effect acquire_answer)
  from others_keep [OF this assms(2-4)] have "live s' t' k = Some (o1, expiry t ttl)"
    by (simp add: s'_def)
  then show "\<not> fst (acquire s' t' k o2 ttl')" "fst (renew s' t' k o1 ttl')" "fst (release s' t' k o1)"
    "o2 \<noteq> o1 \<Longrightarrow> \<not> fst (renew s' t' k o2 ttl') \<and> \<not> fst (release s' t' k o2)"
    by (auto simp: acquire_answer renew_answer release_answer)
qed

lemma free_after_release:
  "fst (release s t k o1) \<Longrightarrow> t \<le> t' \<Longrightarrow> fst (acquire (snd (release s t k o1)) t' k o2 ttl)"
  by (simp add: acquire_answer release_effect release_answer)

lemma free_after_expiry: "live s t k = Some (o1, e) \<Longrightarrow> e \<le> t' \<Longrightarrow> fst (acquire s t' k o2 ttl)"
  by (simp add: acquire_answer live_ends)

end

section \<open>The store keeps the promise\<close>

definition mem_live :: "lease_entries \<Rightarrow> real \<Rightarrow> string \<Rightarrow> (string \<times> real) option" where
  "mem_live entries t k =
     (case map_of entries k of
        None \<Rightarrow> None
      | Some e \<Rightarrow> if entry_expired e t then None else Some (en_owner e, en_expires_at e))"

lemma mem_live_Some:
  "mem_live s t k = Some (o1, e) \<longleftrightarrow>
     (\<exists>x. map_of s k = Some x \<and> en_owner x = o1 \<and> en_expires_at x = e \<and> t < e)"
  by (cases "map_of s k") (auto simp: mem_live_def entry_expired_def not_le)

lemma mem_live_None: "mem_live s t k = None \<longleftrightarrow> (\<forall>x. map_of s k = Some x \<longrightarrow> en_expires_at x \<le> t)"
  by (auto simp: mem_live_def entry_expired_def split: option.splits)

lemma mem_live_update: "mem_live (AList.update k x s) t k' =
    (if k' = k then (if t < en_expires_at x then Some (en_owner x, en_expires_at x) else None) else mem_live s t k')"
  by (simp add: mem_live_def entry_expired_def update_conv')

lemma mem_live_delete: "mem_live (AList.delete k s) t k' = (if k' = k then None else mem_live s t k')"
  by (simp add: mem_live_def delete_conv')

lemma mem_acquire_cases:
  "mem_acquire s t k o1 ttl = (b, s') \<Longrightarrow>
     b = (mem_live s t k = None) \<and> (\<not> b \<longrightarrow> s' = s) \<and>
     (b \<longrightarrow> mem_live s' t' k' = (if k' = k then (if t' < expiry t ttl then Some (o1, expiry t ttl) else None)
        else mem_live s t' k'))"
  by (cases "map_of s k")
     (auto simp: mem_acquire_def mem_live_None update_conv' delete_conv' mem_live_update mem_live_delete entry_expired_def split: if_splits)

lemma mem_renew_cases:
  "mem_renew s t k o1 ttl = (b, s') \<Longrightarrow> t \<le> t' \<Longrightarrow>
     b = (\<exists>e. mem_live s t k = Some (o1, e)) \<and>
     mem_live s' t' k' = (if k' = k \<and> b then (if t' < expiry t ttl then Some (o1, expiry t ttl) else None)
       else mem_live s t' k')"
  by (cases "map_of s k")
     (auto simp: mem_renew_def mem_live_def update_conv' delete_conv' entry_expired_def not_le split: if_splits)

lemma mem_release_cases:
  "mem_release s t k o1 = (b, s') \<Longrightarrow> t \<le> t' \<Longrightarrow>
     b = (\<exists>e. mem_live s t k = Some (o1, e)) \<and>
     mem_live s' t' k' = (if k' = k \<and> b then None else mem_live s t' k')"
  by (cases "map_of s k")
     (auto simp: mem_release_def mem_live_def delete_conv' entry_expired_def not_le split: if_splits)

interpretation mem: lease_service mem_acquire mem_renew mem_release mem_live
proof unfold_locales
  fix s t t' k k' o1 ttl
  show "fst (mem_acquire s t k o1 ttl) = (mem_live s t k = None)"
    using mem_acquire_cases [of s t k o1 ttl] by (metis prod.collapse)
  show "mem_live (snd (mem_acquire s t k o1 ttl)) t' k' =
      (if k' = k \<and> mem_live s t k = None then (if t' < expiry t ttl then Some (o1, expiry t ttl) else None)
       else mem_live s t' k')"
    using mem_acquire_cases [of s t k o1 ttl "fst (mem_acquire s t k o1 ttl)" "snd (mem_acquire s t k o1 ttl)" t' k']
    by auto
  show "fst (mem_renew s t k o1 ttl) = (\<exists>e. mem_live s t k = Some (o1, e))"
    using mem_renew_cases [of s t k o1 ttl "fst (mem_renew s t k o1 ttl)" "snd (mem_renew s t k o1 ttl)" t] by simp
  show "fst (mem_release s t k o1) = (\<exists>e. mem_live s t k = Some (o1, e))"
    using mem_release_cases [of s t k o1 "fst (mem_release s t k o1)" "snd (mem_release s t k o1)" t] by simp
  assume "t \<le> t'"
  then show "mem_live (snd (mem_renew s t k o1 ttl)) t' k' =
      (if k' = k \<and> (\<exists>e. mem_live s t k = Some (o1, e))
       then (if t' < expiry t ttl then Some (o1, expiry t ttl) else None) else mem_live s t' k')"
    using mem_renew_cases [of s t k o1 ttl "fst (mem_renew s t k o1 ttl)" "snd (mem_renew s t k o1 ttl)" t' k'] by simp
  show "mem_live (snd (mem_release s t k o1)) t' k' =
      (if k' = k \<and> (\<exists>e. mem_live s t k = Some (o1, e)) then None else mem_live s t' k')"
    using mem_release_cases [of s t k o1 "fst (mem_release s t k o1)" "snd (mem_release s t k o1)" t' k'] \<open>t \<le> t'\<close> by simp
qed (auto simp: mem_live_Some mem_live_None)

end
