(* ===== verification/LeaseClient.thy ===== *)
theory LeaseClient
  imports Leases
begin

text \<open>
  The owner-generating lease client and its handles (\<open>client.py\<close> of
  \<open>packages/locking/src/rick_locking\<close>) over an arbitrary backend. A backend is a record of
  the three coroutines of the protocol \<open>LeaseBackend\<close>, each returning an object or raising,
  and changing the backend's state. The owner token and the generated correlation id are
  arguments. A handle is a record of its fields; a method that may change them returns the new
  handle. The asynchronous cleanup of the context manager and the heartbeat task are not
  modelled. The locale \<open>lease_backend_impl\<close> says when a backend implements a lease service;
  the memory backend does.
\<close>

section \<open>Backends and calls\<close>

record 's lease_backend =
  b_acquire :: "'s \<Rightarrow> string \<Rightarrow> string \<Rightarrow> int \<Rightarrow> string \<Rightarrow> (raised + pyval) \<times> 's"
  b_renew :: "'s \<Rightarrow> string \<Rightarrow> string \<Rightarrow> int \<Rightarrow> string \<Rightarrow> (raised + pyval) \<times> 's"
  b_release :: "'s \<Rightarrow> string \<Rightarrow> string \<Rightarrow> string \<Rightarrow> (raised + pyval) \<times> 's"

datatype client_exn = LeaseExc lease_error | CancelledExc

type_synonym ('a, 's) call = "(client_exn + 'a) \<times> 's"

definition sbind :: "('a, 's) call \<Rightarrow> ('a \<Rightarrow> 's \<Rightarrow> ('b, 's) call) \<Rightarrow> ('b, 's) call" where
  "sbind m f = (case m of (Inl e, s) \<Rightarrow> (Inl e, s) | (Inr x, s) \<Rightarrow> f x s)"

definition valid_or_raise :: "'a lease_res \<Rightarrow> 's \<Rightarrow> ('a \<Rightarrow> ('b, 's) call) \<Rightarrow> ('b, 's) call" where
  "valid_or_raise r s f = (case r of Inl e \<Rightarrow> (Inl (LeaseExc e), s) | Inr x \<Rightarrow> f x)"

lemma sbind_simps [simp]: "sbind (Inl e, s) f = (Inl e, s)" "sbind (Inr x, s) f = f x s"
  by (simp_all add: sbind_def)

lemma valid_or_raise_simps [simp]:
  "valid_or_raise (Inl e) s f = (Inl (LeaseExc e), s)" "valid_or_raise (Inr x) s f = f x"
  by (simp_all add: valid_or_raise_def)

definition call_backend :: "string \<Rightarrow> string \<Rightarrow> (raised + pyval) \<times> 's \<Rightarrow> (pyval, 's) call" where
  "call_backend operation corr r =
     (case fst r of
        Inr result \<Rightarrow> (Inr result, snd r)
      | Inl (RaisedLease e) \<Rightarrow> (Inl (LeaseExc (raise_lease (le_code e) operation corr)), snd r)
      | Inl RaisedCancelled \<Rightarrow> (Inl CancelledExc, snd r)
      | Inl _ \<Rightarrow> (Inl (LeaseExc (raise_lease INTERNAL_ERROR operation corr)), snd r))"

text \<open>\<open>if type(result) is not bool: raise ...\<close>\<close>

definition expect_bool :: "string \<Rightarrow> string \<Rightarrow> pyval \<Rightarrow> 's \<Rightarrow> (bool, 's) call" where
  "expect_bool operation corr result s =
     (case result of PBool b \<Rightarrow> (Inr b, s)
      | _ \<Rightarrow> (Inl (LeaseExc (raise_lease INTERNAL_ERROR operation corr)), s))"

section \<open>Handles\<close>

record lease_handle =
  h_client :: nat
  h_key :: string
  h_owner :: string
  h_ttl_ms :: int
  h_correlation_id :: string
  h_released :: bool
  h_lost :: bool

definition handle_active :: "lease_handle \<Rightarrow> bool" where
  "handle_active h = (\<not> h_released h \<and> \<not> h_lost h)"

record 's lease_client =
  cl_identity :: nat
  cl_backend :: "'s lease_backend"

definition client_acquire ::
  "'s lease_client \<Rightarrow> string \<Rightarrow> pyval option \<Rightarrow> 's \<Rightarrow> pyval \<Rightarrow> pyval \<Rightarrow> pyval option \<Rightarrow>
   (lease_handle option, 's) call" where
  "client_acquire client generated made_owner s key ttl_ms correlation_id =
     valid_or_raise (correlation_id_for generated ''acquire'' correlation_id) s (\<lambda>corr.
     valid_or_raise (validate_key key ''acquire'' corr) s (\<lambda>checked_key.
     valid_or_raise (validate_ttl ttl_ms ''acquire'' corr) s (\<lambda>checked_ttl.
     case made_owner of
       None \<Rightarrow> (Inl (LeaseExc (raise_lease INTERNAL_ERROR ''acquire'' corr)), s)
     | Some generated_owner \<Rightarrow>
     valid_or_raise (validate_owner generated_owner ''acquire'' corr) s (\<lambda>owner.
     sbind (call_backend ''acquire'' corr
              (b_acquire (cl_backend client) s checked_key owner checked_ttl corr)) (\<lambda>result s1.
     sbind (expect_bool ''acquire'' corr result s1) (\<lambda>ok s2.
       if \<not> ok then (Inr None, s2)
       else (Inr (Some \<lparr>h_client = cl_identity client, h_key = checked_key, h_owner = owner,
               h_ttl_ms = checked_ttl, h_correlation_id = corr, h_released = False, h_lost = False\<rparr>), s2)))))))"

definition assert_owned_handle ::
  "'s lease_client \<Rightarrow> lease_handle \<Rightarrow> string \<Rightarrow> string \<Rightarrow> unit lease_res" where
  "assert_owned_handle client h operation corr =
     (if h_client h \<noteq> cl_identity client then Inl (raise_lease INVALID_REQUEST operation corr)
      else Inr ())"

definition client_renew_handle ::
  "'s lease_client \<Rightarrow> string \<Rightarrow> 's \<Rightarrow> lease_handle \<Rightarrow> pyval \<Rightarrow> pyval option \<Rightarrow> (bool \<times> int, 's) call" where
  "client_renew_handle client generated s h ttl_ms correlation_id =
     valid_or_raise (correlation_id_for generated ''renew'' correlation_id) s (\<lambda>corr.
     valid_or_raise (assert_owned_handle client h ''renew'' corr) s (\<lambda>_.
     valid_or_raise (validate_ttl ttl_ms ''renew'' corr) s (\<lambda>checked_ttl.
     sbind (call_backend ''renew'' corr
              (b_renew (cl_backend client) s (h_key h) (h_owner h) checked_ttl corr)) (\<lambda>result s1.
     sbind (expect_bool ''renew'' corr result s1) (\<lambda>ok s2. (Inr (ok, checked_ttl), s2))))))"

definition client_release_handle ::
  "'s lease_client \<Rightarrow> string \<Rightarrow> 's \<Rightarrow> lease_handle \<Rightarrow> pyval option \<Rightarrow> (bool, 's) call" where
  "client_release_handle client generated s h correlation_id =
     valid_or_raise (correlation_id_for generated ''release'' correlation_id) s (\<lambda>corr.
     valid_or_raise (assert_owned_handle client h ''release'' corr) s (\<lambda>_.
     sbind (call_backend ''release'' corr
              (b_release (cl_backend client) s (h_key h) (h_owner h) corr)) (\<lambda>result s1.
       expect_bool ''release'' corr result s1)))"

text \<open>
  \<open>LeaseHandle.renew\<close> and \<open>LeaseHandle.release\<close>: the outcome, the handle after the call
  and the backend's state. A handle that raised is unchanged.
\<close>

definition handle_renew ::
  "'s lease_client \<Rightarrow> string \<Rightarrow> 's \<Rightarrow> lease_handle \<Rightarrow> pyval option \<Rightarrow> pyval option \<Rightarrow>
   (client_exn + bool) \<times> lease_handle \<times> 's" where
  "handle_renew client generated s h ttl_ms correlation_id =
     (if h_released h \<or> h_lost h then (Inr False, h, s)
      else
        let effective_ttl = (case ttl_ms of None \<Rightarrow> PInt (h_ttl_ms h) | Some v \<Rightarrow> v)
        in case client_renew_handle client generated s h effective_ttl correlation_id of
             (Inl e, s1) \<Rightarrow> (Inl e, h, s1)
           | (Inr (renewed, ttl), s1) \<Rightarrow>
               (Inr renewed, if renewed then h\<lparr>h_ttl_ms := ttl\<rparr> else h\<lparr>h_lost := True\<rparr>, s1))"

definition handle_release ::
  "'s lease_client \<Rightarrow> string \<Rightarrow> 's \<Rightarrow> lease_handle \<Rightarrow> pyval option \<Rightarrow>
   (client_exn + bool) \<times> lease_handle \<times> 's" where
  "handle_release client generated s h correlation_id =
     (if h_released h then (Inr False, h, s)
      else case client_release_handle client generated s h correlation_id of
             (Inl e, s1) \<Rightarrow> (Inl e, h, s1)
           | (Inr released, s1) \<Rightarrow>
               (Inr released, (if released then h else h\<lparr>h_lost := True\<rparr>)\<lparr>h_released := True\<rparr>, s1))"

text \<open>\<open>LeaseClient.renew\<close> and \<open>LeaseClient.release\<close> check the handle before they delegate.\<close>

definition client_renew ::
  "'s lease_client \<Rightarrow> string \<Rightarrow> 's \<Rightarrow> lease_handle \<Rightarrow> pyval option \<Rightarrow> pyval option \<Rightarrow>
   (client_exn + bool) \<times> lease_handle \<times> 's" where
  "client_renew client generated s h ttl_ms correlation_id =
     (case correlation_id_for generated ''renew'' correlation_id of
        Inl e \<Rightarrow> (Inl (LeaseExc e), h, s)
      | Inr corr \<Rightarrow>
          (case assert_owned_handle client h ''renew'' corr of
             Inl e \<Rightarrow> (Inl (LeaseExc e), h, s)
           | Inr _ \<Rightarrow> handle_renew client generated s h
               (Some (case ttl_ms of None \<Rightarrow> PInt (h_ttl_ms h) | Some v \<Rightarrow> v)) (Some (PStr corr))))"

definition client_release ::
  "'s lease_client \<Rightarrow> string \<Rightarrow> 's \<Rightarrow> lease_handle \<Rightarrow> pyval option \<Rightarrow>
   (client_exn + bool) \<times> lease_handle \<times> 's" where
  "client_release client generated s h correlation_id =
     (case correlation_id_for generated ''release'' correlation_id of
        Inl e \<Rightarrow> (Inl (LeaseExc e), h, s)
      | Inr corr \<Rightarrow>
          (case assert_owned_handle client h ''release'' corr of
             Inl e \<Rightarrow> (Inl (LeaseExc e), h, s)
           | Inr _ \<Rightarrow> handle_release client generated s h (Some (PStr corr))))"

section \<open>Calls with an owner token of the caller\<close>

definition acquire_owned ::
  "'s lease_client \<Rightarrow> string \<Rightarrow> 's \<Rightarrow> pyval \<Rightarrow> pyval \<Rightarrow> pyval \<Rightarrow> pyval option \<Rightarrow> (bool, 's) call" where
  "acquire_owned client generated s key owner ttl_ms correlation_id =
     valid_or_raise (correlation_id_for generated ''acquire'' correlation_id) s (\<lambda>corr.
     valid_or_raise (validate_key key ''acquire'' corr) s (\<lambda>checked_key.
     valid_or_raise (validate_owner owner ''acquire'' corr) s (\<lambda>checked_owner.
     valid_or_raise (validate_ttl ttl_ms ''acquire'' corr) s (\<lambda>checked_ttl.
     sbind (call_backend ''acquire'' corr
              (b_acquire (cl_backend client) s checked_key checked_owner checked_ttl corr)) (\<lambda>result s1.
       expect_bool ''acquire'' corr result s1)))))"

definition renew_owned ::
  "'s lease_client \<Rightarrow> string \<Rightarrow> 's \<Rightarrow> pyval \<Rightarrow> pyval \<Rightarrow> pyval \<Rightarrow> pyval option \<Rightarrow> (bool, 's) call" where
  "renew_owned client generated s key owner ttl_ms correlation_id =
     valid_or_raise (correlation_id_for generated ''renew'' correlation_id) s (\<lambda>corr.
     valid_or_raise (validate_key key ''renew'' corr) s (\<lambda>checked_key.
     valid_or_raise (validate_owner owner ''renew'' corr) s (\<lambda>checked_owner.
     valid_or_raise (validate_ttl ttl_ms ''renew'' corr) s (\<lambda>checked_ttl.
     sbind (call_backend ''renew'' corr
              (b_renew (cl_backend client) s checked_key checked_owner checked_ttl corr)) (\<lambda>result s1.
       expect_bool ''renew'' corr result s1)))))"

definition release_owned ::
  "'s lease_client \<Rightarrow> string \<Rightarrow> 's \<Rightarrow> pyval \<Rightarrow> pyval \<Rightarrow> pyval option \<Rightarrow> (bool, 's) call" where
  "release_owned client generated s key owner correlation_id =
     valid_or_raise (correlation_id_for generated ''release'' correlation_id) s (\<lambda>corr.
     valid_or_raise (validate_key key ''release'' corr) s (\<lambda>checked_key.
     valid_or_raise (validate_owner owner ''release'' corr) s (\<lambda>checked_owner.
     sbind (call_backend ''release'' corr
              (b_release (cl_backend client) s checked_key checked_owner corr)) (\<lambda>result s1.
       expect_bool ''release'' corr result s1))))"

section \<open>The memory backend\<close>

record mem_state =
  ms_clock :: "pyfloat option"
  ms_entries :: lease_entries

definition store_call :: "mem_state \<Rightarrow> (bool \<times> lease_entries) lease_res \<Rightarrow> (raised + pyval) \<times> mem_state" where
  "store_call s r =
     (case r of
        Inl e \<Rightarrow> (Inl (RaisedLease e), s)
      | Inr (b, entries) \<Rightarrow> (Inr (PBool b), s\<lparr>ms_entries := entries\<rparr>))"

definition mem_backend :: "string \<Rightarrow> mem_state lease_backend" where
  "mem_backend generated =
     \<lparr>b_acquire = (\<lambda>s k o1 ttl corr. store_call s
        (store_acquire generated (ms_clock s) (ms_entries s) (PStr k) (PStr o1) (PInt ttl) (Some (PStr corr)))),
      b_renew = (\<lambda>s k o1 ttl corr. store_call s
        (store_renew generated (ms_clock s) (ms_entries s) (PStr k) (PStr o1) (PInt ttl) (Some (PStr corr)))),
      b_release = (\<lambda>s k o1 corr. store_call s
        (store_release generated (ms_clock s) (ms_entries s) (PStr k) (PStr o1) (Some (PStr corr))))\<rparr>"

section \<open>A backend that implements a lease service\<close>

definition ttl_ok :: "int \<Rightarrow> bool" where
  "ttl_ok n = (0 < n \<and> n \<le> 3600000)"

definition key_text :: "string \<Rightarrow> bool" where
  "key_text k = valid_scalar_text 512 (PStr k)"

definition owner_text :: "string \<Rightarrow> bool" where
  "owner_text k = valid_scalar_text 256 (PStr k)"

lemma valid_args [simp]:
  "key_text k \<Longrightarrow> validate_key (PStr k) op corr = Inr k"
  "owner_text w \<Longrightarrow> validate_owner (PStr w) op corr = Inr w"
  "ttl_ok n \<Longrightarrow> validate_ttl (PInt n) op corr = Inr n"
  "correlation_chars c \<Longrightarrow> correlation_id_for g op (Some (PStr c)) = Inr c"
  by (simp_all add: key_text_def owner_text_def ttl_ok_def validate_key_def validate_owner_def checked_text_def
      correlation_id_for_def)

declare validate_ttl.simps(1) [simp del]

locale lease_backend_impl = lease_service acquire renew release live
  for acquire renew :: "'s \<Rightarrow> real \<Rightarrow> string \<Rightarrow> string \<Rightarrow> int \<Rightarrow> bool \<times> 's"
    and release :: "'s \<Rightarrow> real \<Rightarrow> string \<Rightarrow> string \<Rightarrow> bool \<times> 's"
    and live :: "'s \<Rightarrow> real \<Rightarrow> string \<Rightarrow> (string \<times> real) option" +
  fixes backend :: "'b lease_backend"
    and clock :: "'b \<Rightarrow> real option"
    and store :: "'b \<Rightarrow> 's"
    and put :: "'b \<Rightarrow> 's \<Rightarrow> 'b"
  assumes store_put: "store (put b s) = s"
    and backend_acquire: "clock b = Some t \<Longrightarrow> key_text k \<Longrightarrow> owner_text o1 \<Longrightarrow> ttl_ok n \<Longrightarrow> correlation_chars c \<Longrightarrow>
      b_acquire backend b k o1 n c =
        (Inr (PBool (fst (acquire (store b) t k o1 n))), put b (snd (acquire (store b) t k o1 n)))"
    and backend_renew: "clock b = Some t \<Longrightarrow> key_text k \<Longrightarrow> owner_text o1 \<Longrightarrow> ttl_ok n \<Longrightarrow> correlation_chars c \<Longrightarrow>
      b_renew backend b k o1 n c =
        (Inr (PBool (fst (renew (store b) t k o1 n))), put b (snd (renew (store b) t k o1 n)))"
    and backend_release: "clock b = Some t \<Longrightarrow> key_text k \<Longrightarrow> owner_text o1 \<Longrightarrow> correlation_chars c \<Longrightarrow>
      b_release backend b k o1 c =
        (Inr (PBool (fst (release (store b) t k o1))), put b (snd (release (store b) t k o1)))"
begin

lemma acquire_handle:
  assumes "clock b = Some t" "key_text k" "owner_text o1" "ttl_ok n" "correlation_chars c"
    and "cl_backend client = backend"
  shows "client_acquire client g (Some (PStr o1)) b (PStr k) (PInt n) (Some (PStr c)) =
    (Inr (if live (store b) t k = None
          then Some \<lparr>h_client = cl_identity client, h_key = k, h_owner = o1, h_ttl_ms = n,
                     h_correlation_id = c, h_released = False, h_lost = False\<rparr>
          else None), put b (snd (acquire (store b) t k o1 n)))"
  using assms
  by (simp add: client_acquire_def backend_acquire call_backend_def expect_bool_def acquire_answer)

lemma acquired_is_held:
  assumes "clock b = Some t" "key_text k" "owner_text o1" "ttl_ok n" "correlation_chars c"
    and "cl_backend client = backend"
    and a: "client_acquire client g (Some (PStr o1)) b (PStr k) (PInt n) (Some (PStr c)) = (Inr (Some h), b')"
  shows "handle_active h \<and> h_key h = k \<and> h_owner h = o1 \<and> live (store b) t k = None \<and>
    live (store b') t k = Some (o1, expiry t n)"
proof -
  have "t < expiry t n" using assms(4) by (simp add: expiry_def ttl_ok_def)
  moreover have "live (store b) t k = None" and b': "b' = put b (snd (acquire (store b) t k o1 n))"
    and "h_key h = k \<and> h_owner h = o1 \<and> handle_active h"
    using a unfolding acquire_handle [OF assms(1-6)] by (auto simp: handle_active_def split: if_splits)
  ultimately show ?thesis by (simp add: store_put acquire_effect)
qed

lemma release_of_handle:
  assumes "clock b = Some t" "key_text (h_key h)" "owner_text (h_owner h)" "correlation_chars c"
    and "cl_backend client = backend" "h_client h = cl_identity client" "\<not> h_released h"
  defines "held \<equiv> \<exists>e. live (store b) t (h_key h) = Some (h_owner h, e)"
  shows "\<exists>b'. handle_release client g b h (Some (PStr c)) =
      (Inr held, h\<lparr>h_released := True, h_lost := h_lost h \<or> \<not> held\<rparr>, b') \<and>
    (\<forall>t' \<ge> t. \<forall>k'. live (store b') t' k' = (if k' = h_key h \<and> held then None else live (store b) t' k'))"
  using assms
  by (auto simp: handle_release_def client_release_handle_def assert_owned_handle_def backend_release
      call_backend_def expect_bool_def release_answer store_put release_effect)

end

interpretation memb: lease_backend_impl mem_acquire mem_renew mem_release mem_live
  "mem_backend g" "\<lambda>s. case ms_clock s of Some (Fin t) \<Rightarrow> Some t | _ \<Rightarrow> None" ms_entries
  "\<lambda>s e. s\<lparr>ms_entries := e\<rparr>" for g
proof unfold_locales
  fix b :: mem_state and t
  assume "(case ms_clock b of Some (Fin t) \<Rightarrow> Some t | _ \<Rightarrow> None) = Some t"
  then have c: "ms_clock b = Some (Fin t)" by (auto split: option.splits pyfloat.splits)
  fix k o1 n corr
  assume "key_text k" "owner_text o1" "correlation_chars corr"
  with c show "b_release (mem_backend g) b k o1 corr =
      (Inr (PBool (fst (mem_release (ms_entries b) t k o1))), b\<lparr>ms_entries := snd (mem_release (ms_entries b) t k o1)\<rparr>)"
    by (simp add: mem_backend_def store_release_def store_call_def lease_now_def split: prod.splits)
  assume "ttl_ok n"
  with c \<open>key_text k\<close> \<open>owner_text o1\<close> \<open>correlation_chars corr\<close>
  show "b_acquire (mem_backend g) b k o1 n corr =
      (Inr (PBool (fst (mem_acquire (ms_entries b) t k o1 n))), b\<lparr>ms_entries := snd (mem_acquire (ms_entries b) t k o1 n)\<rparr>)"
    "b_renew (mem_backend g) b k o1 n corr =
      (Inr (PBool (fst (mem_renew (ms_entries b) t k o1 n))), b\<lparr>ms_entries := snd (mem_renew (ms_entries b) t k o1 n)\<rparr>)"
    by (simp_all add: mem_backend_def store_acquire_def store_renew_def store_call_def lease_now_def split: prod.splits)
qed simp

section \<open>Properties\<close>

text \<open>C10. Leases are exclusive: once the store has granted a key to an owner, then until the lease
  ends, whatever other owners request in the meantime and at whatever nondecreasing times, every
  acquisition of the key is refused, no other owner can renew or release it, and its owner can do both.\<close>

theorem lease_exclusive:
  assumes "fst (mem_acquire s t k owner ttl)" and "\<forall>r \<in> set rs. request_owner (snd r) \<noteq> owner"
    and "sorted (t # map fst rs @ [t'])" and "t' < expiry t ttl"
    and "s' = serve_all mem_acquire mem_renew mem_release (snd (mem_acquire s t k owner ttl)) rs"
  shows "(\<forall>other ttl'. \<not> fst (mem_acquire s' t' k other ttl')) \<and>
    (\<forall>other ttl'. other \<noteq> owner \<longrightarrow> \<not> fst (mem_renew s' t' k other ttl') \<and> \<not> fst (mem_release s' t' k other)) \<and>
    (\<forall>ttl'. fst (mem_renew s' t' k owner ttl')) \<and> fst (mem_release s' t' k owner)"
  using mem.exclusive [OF assms(1-4)] unfolding assms(5) by blast

theorem lease_exclusive_witness:
  "\<not> fst (mem_acquire (serve_all mem_acquire mem_renew mem_release (snd (mem_acquire [] 0 ''k'' ''a'' 5000))
     [(1, Release ''k'' ''b''), (2, Acquire ''k'' ''b'' 10)]) 4 ''k'' ''c'' 1000)"
  using lease_exclusive [of "[]" 0 "''k''" "''a''" 5000 "[(1, Release ''k'' ''b''), (2, Acquire ''k'' ''b'' 10)]" 4]
  by (simp add: mem_acquire_def expiry_def)

text \<open>Acquiring through the client is exact: with valid arguments and a working clock the client
  on the memory backend returns an active handle if and only if the key was free, and then its
  owner holds the key until the end of the requested time; no valid call raises.\<close>

theorem client_acquire_exact:
  assumes "ms_clock b = Some (Fin t)" "key_text k" "owner_text w" "ttl_ok n" "correlation_chars c"
    and "cl_backend client = mem_backend g"
  shows "\<exists>r b'. client_acquire client g (Some (PStr w)) b (PStr k) (PInt n) (Some (PStr c)) = (Inr r, b') \<and>
    (r \<noteq> None \<longleftrightarrow> mem_live (ms_entries b) t k = None) \<and>
    (\<forall>h. r = Some h \<longrightarrow> handle_active h \<and> h_key h = k \<and> h_owner h = w \<and>
       mem_live (ms_entries b') t k = Some (w, expiry t n))"
proof -
  have c: "(case ms_clock b of Some (Fin t) \<Rightarrow> Some t | _ \<Rightarrow> None) = Some t" using assms(1) by simp
  note a = memb.acquire_handle [OF c assms(2-6), of g]
  show ?thesis
  proof (cases "mem_live (ms_entries b) t k = None")
    case True
    then obtain h b' where h: "client_acquire client g (Some (PStr w)) b (PStr k) (PInt n) (Some (PStr c)) =
        (Inr (Some h), b')" using a by simp
    show ?thesis using h memb.acquired_is_held [OF c assms(2-6) h] True by simp
  qed (use a in auto)
qed

definition sample_client :: "mem_state lease_client" where
  "sample_client = \<lparr>cl_identity = 0, cl_backend = mem_backend ''g''\<rparr>"

definition sample_store :: mem_state where
  "sample_store = \<lparr>ms_clock = Some (Fin 0), ms_entries = []\<rparr>"

lemma sample_texts: "key_text ''k''" "owner_text ''w''" "correlation_chars ''c''" "ttl_ok 1000"
  by (simp_all add: key_text_def owner_text_def correlation_chars_def ttl_ok_def char_defs)

theorem client_acquire_exact_witness:
  "\<exists>h b'. client_acquire sample_client ''g'' (Some (PStr ''w'')) sample_store (PStr ''k'') (PInt 1000) (Some (PStr ''c'')) =
     (Inr (Some h), b') \<and> handle_active h"
proof -
  obtain r b' where r: "client_acquire sample_client ''g'' (Some (PStr ''w'')) sample_store (PStr ''k'') (PInt 1000) (Some (PStr ''c'')) = (Inr r, b')"
    "r \<noteq> None \<longleftrightarrow> mem_live (ms_entries sample_store) 0 ''k'' = None" "\<forall>h. r = Some h \<longrightarrow> handle_active h"
    using client_acquire_exact [of sample_store 0 "''k''" "''w''" 1000 "''c''" sample_client "''g''"] sample_texts
    by (auto simp: sample_client_def sample_store_def)
  then show ?thesis by (auto simp: sample_store_def mem_live_def)
qed

text \<open>A handle ends once, on every backend: when a release has answered, or a renewal has been
  refused, the handle is no longer active, and from then on renewing it answers false without
  calling the backend; after a release so does releasing it again. A call that raises leaves the
  handle as it was, so it can be tried again.\<close>

theorem handle_ends_once:
  "(case handle_release client g s h corr of
      (Inr r, h', s') \<Rightarrow> \<not> handle_active h' \<and>
        handle_release client g s' h' corr' = (Inr False, h', s') \<and>
        handle_renew client g s' h' ttl corr' = (Inr False, h', s')
    | (Inl e, h', s') \<Rightarrow> h' = h) \<and>
   (case handle_renew client g s h ttl corr of
      (Inr r, h', s') \<Rightarrow> (if r then handle_active h'
        else \<not> handle_active h' \<and> handle_renew client g s' h' ttl' corr' = (Inr False, h', s'))
    | (Inl e, h', s') \<Rightarrow> h' = h)"
  unfolding handle_release_def [of client g s h] handle_renew_def [of client g s h] Let_def
  by (auto simp: handle_active_def handle_release_def handle_renew_def split: sum.splits prod.splits)

text \<open>Releasing a handle frees exactly what it holds: it answers true exactly when the handle's
  owner still holds the key, then the key is free at once for the next caller; otherwise, in
  particular when the lease expired and another owner took the key, no lease of anyone changes.\<close>

theorem handle_release_safe:
  assumes "ms_clock b = Some (Fin t)" "key_text (h_key h)" "owner_text (h_owner h)" "correlation_chars c"
    and "cl_backend client = mem_backend g" "h_client h = cl_identity client" "\<not> h_released h"
  shows "\<exists>r h' b'. handle_release client g b h (Some (PStr c)) = (Inr r, h', b') \<and> h_released h' \<and>
    r = (\<exists>e. mem_live (ms_entries b) t (h_key h) = Some (h_owner h, e)) \<and>
    (\<forall>t' \<ge> t. \<forall>k'. mem_live (ms_entries b') t' k' =
       (if k' = h_key h \<and> r then None else mem_live (ms_entries b) t' k'))"
proof -
  have c: "(case ms_clock b of Some (Fin t) \<Rightarrow> Some t | _ \<Rightarrow> None) = Some t" using assms(1) by simp
  show ?thesis using memb.release_of_handle [OF c assms(2-7), of g] by fastforce
qed

definition sample_handle :: lease_handle where
  "sample_handle = \<lparr>h_client = 0, h_key = ''k'', h_owner = ''w'', h_ttl_ms = 1000, h_correlation_id = ''c'',
     h_released = False, h_lost = False\<rparr>"

theorem handle_release_safe_witness:
  "\<exists>h' b'. handle_release sample_client ''g''
     \<lparr>ms_clock = Some (Fin 2), ms_entries = [(''k'', \<lparr>en_owner = ''x'', en_expires_at = 9\<rparr>)]\<rparr> sample_handle (Some (PStr ''c'')) =
       (Inr False, h', b') \<and> mem_live (ms_entries b') 3 ''k'' = Some (''x'', 9)"
proof -
  let ?b = "\<lparr>ms_clock = Some (Fin 2), ms_entries = [(''k'', \<lparr>en_owner = ''x'', en_expires_at = 9\<rparr>)]\<rparr>"
  obtain r h' b' where r: "handle_release sample_client ''g'' ?b sample_handle (Some (PStr ''c'')) = (Inr r, h', b')"
    "r = (\<exists>e. mem_live (ms_entries ?b) 2 (h_key sample_handle) = Some (h_owner sample_handle, e))"
    "\<forall>t' \<ge> 2. \<forall>k'. mem_live (ms_entries b') t' k' =
       (if k' = h_key sample_handle \<and> r then None else mem_live (ms_entries ?b) t' k')"
    using handle_release_safe [of ?b 2 sample_handle "''c''" sample_client "''g''"] sample_texts
    by (auto simp: sample_client_def sample_handle_def)
  have "\<not> r" using r(2) by (simp add: mem_live_def sample_handle_def entry_expired_def)
  with r(1,3) show ?thesis by (auto simp: mem_live_def entry_expired_def)
qed

text \<open>Lease errors are redacted, whatever the backend raises: an error that leaves
  \<open>acquire\<close> names this operation, carries a bounded correlation id and one of the six fixed
  messages, which is determined by its code.\<close>

theorem acquire_errors_safe:
  assumes "correlation_chars g" and "client_acquire client g w s k ttl corr = (Inl (LeaseExc e), s')"
  shows "le_operation e = ''acquire'' \<and> correlation_chars (le_correlation_id e) \<and>
    le_message e = SAFE_MESSAGES (le_code e) \<and> le_retryable e = (le_code e \<in> {UNAVAILABLE, TIMEOUT})"
proof -
  have safe: "le_operation x = ''acquire'' \<and> correlation_chars (le_correlation_id x) \<and>
      le_message x = SAFE_MESSAGES (le_code x) \<and> le_retryable x = (le_code x \<in> {UNAVAILABLE, TIMEOUT})"
    if "x = raise_lease cd ''acquire'' cr" "correlation_chars cr" for x cd cr
    using that by (simp add: make_lease_error_def OPERATIONS_def lease_retryable_def Let_def)
  have corr: "correlation_id_for g ''acquire'' corr = Inr cr \<Longrightarrow> correlation_chars cr"
    "correlation_id_for g ''acquire'' corr = Inl x \<Longrightarrow> \<exists>cd. x = raise_lease cd ''acquire'' g" for cr x
    using assms(1) by (auto simp: correlation_id_for_def split: option.splits pyval.splits if_splits)
  have ttl: "validate_ttl v op cr = Inl x \<Longrightarrow> \<exists>cd. x = raise_lease cd op cr" for v op cr x
    by (cases "(v, op, cr)" rule: validate_ttl.cases) (auto simp: validate_ttl.simps split: if_splits)
  have tx: "validate_key v op cr = Inl x \<or> validate_owner v op cr = Inl x \<Longrightarrow> \<exists>cd. x = raise_lease cd op cr" for v op cr x
    by (auto simp: validate_key_def validate_owner_def checked_text_def split: pyval.splits if_splits)
  have be: "call_backend op cr r = (Inl (LeaseExc x), s1) \<Longrightarrow> \<exists>cd. x = raise_lease cd op cr" for op cr r x s1
    by (auto simp: call_backend_def split: sum.splits raised.splits)
  have eb: "expect_bool op cr v s1 = (Inl (LeaseExc x), s2) \<Longrightarrow> \<exists>cd. x = raise_lease cd op cr" for op cr v s1 x s2
    by (auto simp: expect_bool_def split: pyval.splits)
  have "\<exists>cd cr. e = raise_lease cd ''acquire'' cr \<and> correlation_chars cr"
    using assms(2) unfolding client_acquire_def valid_or_raise_def sbind_def
    by (auto split: sum.splits option.splits prod.splits if_splits dest!: corr ttl be eb tx [OF disjI1] tx [OF disjI2]
        intro: assms(1))
  then show ?thesis using safe by blast
qed

theorem acquire_errors_safe_witness:
  "\<exists>e. client_acquire sample_client ''g'' None sample_store (PStr ''k'') (PInt 1000) None = (Inl (LeaseExc e), sample_store) \<and>
     le_message e = SAFE_MESSAGES (le_code e)"
proof -
  have g: "correlation_chars ''g''" by (simp add: correlation_chars_def char_defs)
  have "client_acquire sample_client ''g'' None sample_store (PStr ''k'') (PInt 1000) None =
      (Inl (LeaseExc (raise_lease INTERNAL_ERROR ''acquire'' ''g'')), sample_store)"
    using sample_texts by (simp add: client_acquire_def correlation_id_for_def)
  then show ?thesis using acquire_errors_safe [OF g, of sample_client None sample_store] by (intro exI conjI) auto
qed

end
