(* ===== verification/RateLimit.thy ===== *)
theory RateLimit
  imports Regex Leases
begin

text \<open>
  Rate limiting: the bounded in-memory limiter of \<open>packages/locking/src/rick_locking/rate_limit.py\<close>,
  the sliding-window limiter and the distributed adapter of \<open>apps/api/src/core/rate_limit.py\<close>.
  The dictionaries of deques are association lists in the order of the \<open>OrderedDict\<close>. The
  clock readings and the answer of the shared counter are arguments. The locale
  \<open>window_limiter\<close> states the contract of a sliding-window limiter; a limiter that satisfies it
  accepts a request exactly when fewer than the limit were accepted in the window before it.
\<close>

section \<open>One deque\<close>

text \<open>\<open>while events and events[0] <= cutoff: events.popleft()\<close>, then the decision.\<close>

definition window_step :: "int \<Rightarrow> real \<Rightarrow> real list \<Rightarrow> bool \<times> real list" where
  "window_step limit cutoff events =
     (let kept = dropWhile (\<lambda>e. e \<le> cutoff) events
      in if int (length kept) \<ge> limit then (False, kept) else (True, kept))"

section \<open>The bounded limiter of the locking package\<close>

definition REQUEST_ID :: regex where
  "REQUEST_ID = anchored (name_pattern alnum_ascii (\<lambda>c. alnum_ascii c \<or> c \<in> set ''_.:-'') 127)"

fun validated_request_id :: "pyval \<Rightarrow> string option" where
  "validated_request_id (PStr s) = (if re_fullmatch REQUEST_ID s then Some s else None)"
| "validated_request_id v = None"

text \<open>\<open>int(round(float(value) * 1000.0))\<close> rounds halves to the even neighbour.\<close>

definition round_half_even :: "real \<Rightarrow> int" where
  "round_half_even x =
     (let n = \<lfloor>x\<rfloor>; d = x - of_int n
      in if d < 1 / 2 then n else if d > 1 / 2 then n + 1 else if even n then n else n + 1)"

definition validated_window :: "pyval \<Rightarrow> int option" where
  "validated_window v =
     (case finite_number v of
        None \<Rightarrow> None
      | Some x \<Rightarrow>
          if \<not> (1 / 1000 \<le> x \<and> x \<le> 86400) then None
          else let milliseconds = round_half_even (x * 1000)
               in if milliseconds \<ge> 1 then Some milliseconds else None)"

record rate_limiter =
  rl_window_seconds :: real
  rl_max_keys :: int
  rl_events :: "(string \<times> real list) list"

definition make_rate_limiter :: "bool \<Rightarrow> pyval \<Rightarrow> pyval \<Rightarrow> string + rate_limiter" where
  "make_rate_limiter local_mode window_seconds max_keys =
     (if \<not> local_mode then Inl ''in-memory rate limiter is local-only''
      else if validated_window window_seconds = None then Inl ''invalid rate-limit window''
      else case max_keys of
        PInt n \<Rightarrow>
          if 1 \<le> n \<and> n \<le> 100000
          then Inr \<lparr>rl_window_seconds = the (finite_number window_seconds), rl_max_keys = n, rl_events = []\<rparr>
          else Inl ''invalid rate-limit key bound''
      | _ \<Rightarrow> Inl ''invalid rate-limit key bound'')"

text \<open>The section under the lock.\<close>

definition allow_locked :: "rate_limiter \<Rightarrow> real \<Rightarrow> string \<Rightarrow> int \<Rightarrow> real \<Rightarrow> bool \<times> rate_limiter" where
  "allow_locked rl now key limit window =
     (let stored = (case map_of (rl_events rl) key of
             Some events \<Rightarrow> rl_events rl
           | None \<Rightarrow>
               (if int (length (rl_events rl)) \<ge> rl_max_keys rl then tl (rl_events rl) else rl_events rl)
               @ [(key, [])]);
          (ok, kept) = window_step limit (now - window) (the (map_of stored key));
          moved = AList.delete key stored @ [(key, if ok then kept @ [now] else kept)]
      in (ok, rl\<lparr>rl_events := moved\<rparr>))"

definition allow ::
  "string \<Rightarrow> pyfloat option \<Rightarrow> rate_limiter \<Rightarrow> pyval \<Rightarrow> pyval \<Rightarrow> pyval option \<Rightarrow> pyval option \<Rightarrow> bool \<times> rate_limiter" where
  "allow generated clock rl key limit window_seconds correlation_id =
     (case rbind (correlation_id_for generated ''acquire'' correlation_id)
             (\<lambda>correlation. validate_key key ''acquire'' correlation) of
        Inl e \<Rightarrow> (False, rl)
      | Inr checked_key \<Rightarrow>
          (case limit of
             PInt n \<Rightarrow>
               if \<not> (1 \<le> n \<and> n \<le> 1000000) then (False, rl)
               else
                 let effective = (case window_seconds of
                       None \<Rightarrow> PFloat (Fin (rl_window_seconds rl)) | Some v \<Rightarrow> v)
                 in if validated_window effective = None then (False, rl)
                    else (case clock of
                            Some (Fin now) \<Rightarrow>
                              allow_locked rl now checked_key n (the (finite_number effective))
                          | _ \<Rightarrow> (False, rl))
           | _ \<Rightarrow> (False, rl)))"

section \<open>The limiters of the API\<close>

definition api_check :: "real \<Rightarrow> (string \<times> real list) list \<Rightarrow> real \<Rightarrow> string \<Rightarrow> int \<Rightarrow> bool \<times> (string \<times> real list) list" where
  "api_check window events now key limit_per_min =
     (let stored = (case map_of events key of Some es \<Rightarrow> es | None \<Rightarrow> []);
          kept = dropWhile (\<lambda>e. now - e \<ge> window) stored
      in if int (length kept) \<ge> limit_per_min then (False, AList.update key kept events)
         else (True, AList.update key (kept @ [now]) events))"

text \<open>The shared counter answers with an object or raises (\<open>None\<close>).\<close>

definition distributed_check :: "(unit \<Rightarrow> pyval option) \<Rightarrow> pyval \<Rightarrow> bool" where
  "distributed_check increment limit_per_min =
     (case limit_per_min of
        PInt n \<Rightarrow>
          if n \<le> 0 then False
          else (case increment () of
                  Some (PInt count) \<Rightarrow> if count < 1 then False else count \<le> n
                | _ \<Rightarrow> False)
      | _ \<Rightarrow> False)"

section \<open>The contract of a sliding-window limiter\<close>

definition recent :: "real \<Rightarrow> real \<Rightarrow> real list \<Rightarrow> real list" where
  "recent window now es = filter (\<lambda>e. now - window < e) es"

text \<open>
  \<open>seen st k\<close> are the accepted times of a key that the limiter still remembers. It may forget
  those that left the window, and nothing else.
\<close>

locale window_limiter =
  fixes check :: "'st \<Rightarrow> real \<Rightarrow> string \<Rightarrow> int \<Rightarrow> bool \<times> 'st"
    and seen :: "'st \<Rightarrow> string \<Rightarrow> real list"
    and window :: real
  assumes check_answer: "sorted (seen st k) \<Longrightarrow> fst (check st now k limit) = (int (length (recent window now (seen st k))) < limit)"
    and check_same: "sorted (seen st k) \<Longrightarrow> seen (snd (check st now k limit)) k =
      recent window now (seen st k) @ (if fst (check st now k limit) then [now] else [])"
    and check_other: "k' \<noteq> k \<Longrightarrow> seen (snd (check st now k limit)) k' = seen st k'"

text \<open>A run of requests: the state, and the accepted requests in order.\<close>

fun limiter_run ::
  "('st \<Rightarrow> real \<Rightarrow> string \<Rightarrow> int \<Rightarrow> bool \<times> 'st) \<Rightarrow> (string \<Rightarrow> int) \<Rightarrow> 'st \<Rightarrow> (real \<times> string) list \<Rightarrow>
   bool list \<times> 'st" where
  "limiter_run check limit st [] = ([], st)"
| "limiter_run check limit st ((now, k) # rs) =
     (let (ok, st1) = check st now k (limit k); (oks, st2) = limiter_run check limit st1 rs
      in (ok # oks, st2))"

text \<open>The specification: the accepted times of one key, decided from the whole history.\<close>

fun ideal_run :: "real \<Rightarrow> (string \<Rightarrow> int) \<Rightarrow> (string \<Rightarrow> real list) \<Rightarrow> (real \<times> string) list \<Rightarrow> bool list" where
  "ideal_run window limit history [] = []"
| "ideal_run window limit history ((now, k) # rs) =
     (let ok = int (length (recent window now (history k))) < limit k
      in ok # ideal_run window limit (if ok then history(k := history k @ [now]) else history) rs)"

lemma recent_recent: "now \<le> now' \<Longrightarrow> recent w now' (recent w now es) = recent w now' es"
  by (auto simp: recent_def intro!: filter_cong)

lemma recent_Nil [simp]: "recent w now [] = []"
  by (simp add: recent_def)

lemma recent_append: "recent w now (es @ fs) = recent w now es @ recent w now fs"
  by (simp add: recent_def)

context window_limiter
begin

text \<open>The limiter and the history agree from time \<open>t\<close> on.\<close>

definition agrees :: "'st \<Rightarrow> (string \<Rightarrow> real list) \<Rightarrow> real \<Rightarrow> bool" where
  "agrees st h t = (\<forall>k. sorted (seen st k) \<and> (\<forall>e \<in> set (seen st k). e \<le> t) \<and>
     (\<forall>now \<ge> t. recent window now (seen st k) = recent window now (h k)))"

lemma agrees_check:
  assumes a: "agrees st h t" and t: "t \<le> now" and ok_def: "ok = fst (check st now k limit)"
  shows "ok = (int (length (recent window now (h k))) < limit)"
    and "agrees (snd (check st now k limit)) (if ok then h(k := h k @ [now]) else h) now"
proof -
  have srt: "sorted (seen st k)" and le: "\<forall>e \<in> set (seen st k). e \<le> now"
    using a t by (auto simp: agrees_def intro: order.trans)
  have eq: "recent window n (seen st k) = recent window n (h k)" if "now \<le> n" for n
    using a t that by (auto simp: agrees_def)
  show "ok = (int (length (recent window now (h k))) < limit)"
    unfolding ok_def check_answer [OF srt] eq [OF order.refl] ..
  note same = check_same [OF srt, of now limit]
  have k: "sorted (seen (snd (check st now k limit)) k) \<and> (\<forall>e \<in> set (seen (snd (check st now k limit)) k). e \<le> now) \<and>
      (\<forall>n \<ge> now. recent window n (seen (snd (check st now k limit)) k) =
         recent window n ((if ok then h(k := h k @ [now]) else h) k))"
  proof -
    have r: "sorted (recent window now (seen st k))" "\<forall>e \<in> set (recent window now (seen st k)). e \<le> now"
      using srt le by (auto simp: recent_def sorted_wrt_filter)
    have "recent window n (recent window now (seen st k)) = recent window n (h k)" if "now \<le> n" for n
      using that eq by (simp add: recent_recent)
    then show ?thesis
      unfolding same ok_def [symmetric] using r by (auto simp: recent_append sorted_append)
  qed
  have "sorted (seen (snd (check st now k limit)) k') \<and> (\<forall>e \<in> set (seen (snd (check st now k limit)) k'). e \<le> now) \<and>
      (\<forall>n \<ge> now. recent window n (seen (snd (check st now k limit)) k') =
         recent window n ((if ok then h(k := h k @ [now]) else h) k'))" if "k' \<noteq> k" for k'
    unfolding check_other [OF that] using that a t by (auto simp: agrees_def intro: order.trans)
  then show "agrees (snd (check st now k limit)) (if ok then h(k := h k @ [now]) else h) now"
    unfolding agrees_def using k by metis
qed

lemma run_ideal:
  assumes "agrees st h t" and "sorted (t # map fst rs)"
  shows "fst (limiter_run check limit st rs) = ideal_run window limit h rs"
  using assms
proof (induction rs arbitrary: st h t)
  case (Cons r rs)
  obtain now k where r: "r = (now, k)" by (cases r)
  have t: "t \<le> now" "sorted (now # map fst rs)" using Cons.prems(2) r by auto
  note step = agrees_check [OF Cons.prems(1) t(1) refl, where k = k and limit = "limit k"]
  have "fst (limiter_run check limit st (r # rs)) = fst (check st now k (limit k)) #
      fst (limiter_run check limit (snd (check st now k (limit k))) rs)"
    by (simp add: r split: prod.splits)
  then show ?case
    unfolding Cons.IH [OF step(2) t(2)] unfolding step(1) by (simp add: r Let_def)
qed simp

end

section \<open>The API limiter satisfies it\<close>

definition api_seen :: "(string \<times> real list) list \<Rightarrow> string \<Rightarrow> real list" where
  "api_seen events k = (case map_of events k of Some es \<Rightarrow> es | None \<Rightarrow> [])"

lemma dropWhile_recent: "sorted es \<Longrightarrow> dropWhile (\<lambda>e. w \<le> now - e) es = recent w now es"
proof (induction es)
  case (Cons e es)
  show ?case
  proof (cases "w \<le> now - e")
    case False
    then have "\<forall>x \<in> set (e # es). now - w < x" using Cons.prems by fastforce
    then have "recent w now (e # es) = e # es" unfolding recent_def by (simp only: filter_id_conv)
    with False show ?thesis by simp
  qed (use Cons in \<open>auto simp: recent_def\<close>)
qed (simp add: recent_def)

interpretation api: window_limiter "api_check w" api_seen w for w
  by unfold_locales
     (auto simp: api_check_def api_seen_def Let_def dropWhile_recent update_conv' not_less not_le split: option.splits)

section \<open>Properties\<close>

text \<open>C24. The API limiter is exact: for every sequence of requests at nondecreasing times, on any
  mixture of keys, each request is accepted if and only if fewer than its key's limit were
  accepted in the window before it; forgetting old events never changes a decision.\<close>

theorem api_limiter_exact:
  assumes "sorted (map fst rs)"
  shows "fst (limiter_run (api_check w) limit [] rs) = ideal_run w limit (\<lambda>_. []) rs"
proof (cases rs)
  case (Cons r rs')
  have "api.agrees w [] (\<lambda>_. []) (fst r)" by (simp add: api.agrees_def api_seen_def)
  then show ?thesis using api.run_ideal [of w "[]" "\<lambda>_. []" "fst r" rs limit] assms Cons by auto
qed simp

theorem api_limiter_exact_witness:
  "fst (limiter_run (api_check 60) (\<lambda>_. 2) [] [(0, ''a''), (1, ''a''), (2, ''a''), (2, ''b''), (61, ''a'')]) =
     [True, True, False, True, True]"
  using api_limiter_exact [of "[(0, ''a''), (1, ''a''), (2, ''a''), (2, ''b''), (61, ''a'')]" 60 "\<lambda>_. 2"]
  by (simp add: recent_def Let_def)

definition rl_ok :: "rate_limiter \<Rightarrow> bool" where
  "rl_ok rl = (distinct (map fst (rl_events rl)) \<and> int (length (rl_events rl)) \<le> rl_max_keys rl \<and>
     1 \<le> rl_max_keys rl)"

lemma length_delete: "distinct (map fst es) \<Longrightarrow> k \<in> fst ` set es \<Longrightarrow> length (AList.delete k es) + 1 = length es"
proof (induction es)
  case (Cons e es)
  then show ?case
    by (cases "fst e = k") auto
qed simp

text \<open>The dictionary once the key is present.\<close>

definition with_key :: "rate_limiter \<Rightarrow> string \<Rightarrow> (string \<times> real list) list" where
  "with_key rl key = (case map_of (rl_events rl) key of
      Some events \<Rightarrow> rl_events rl
    | None \<Rightarrow> (if int (length (rl_events rl)) \<ge> rl_max_keys rl then tl (rl_events rl) else rl_events rl) @ [(key, [])])"

lemma with_key_ok:
  assumes "rl_ok rl"
  shows "distinct (map fst (with_key rl key))" "int (length (with_key rl key)) \<le> rl_max_keys rl"
    "key \<in> fst ` set (with_key rl key)"
proof -
  have tl: "distinct (map fst (tl (rl_events rl)))" "set (tl (rl_events rl)) \<subseteq> set (rl_events rl)"
    using assms by (cases "rl_events rl"; auto simp: rl_ok_def)+
  have none: "key \<notin> fst ` set (rl_events rl)" if "map_of (rl_events rl) key = None"
    using that by (simp add: map_of_eq_None_iff)
  show "distinct (map fst (with_key rl key))" "key \<in> fst ` set (with_key rl key)"
    using assms tl none
    by (auto simp: with_key_def rl_ok_def split: option.splits dest: map_of_SomeD) (force dest: map_of_SomeD)+
  show "int (length (with_key rl key)) \<le> rl_max_keys rl"
    using assms by (cases "rl_events rl") (auto simp: with_key_def rl_ok_def split: option.splits)
qed

lemma map_of_with_key: "map_of (with_key rl key) key = Some (api_seen (rl_events rl) key)"
proof (cases "map_of (rl_events rl) key")
  case None
  then have "map_of (tl (rl_events rl)) key = None"
    by (cases "rl_events rl") (auto split: if_splits)
  then show ?thesis using None by (simp add: with_key_def api_seen_def map_add_def)
qed (simp add: with_key_def api_seen_def)

lemma allow_locked_eq:
  "allow_locked rl now key limit window =
     (let kept = dropWhile (\<lambda>e. e \<le> now - window) (api_seen (rl_events rl) key);
          ok = int (length kept) < limit
      in (ok, rl\<lparr>rl_events := AList.delete key (with_key rl key) @ [(key, if ok then kept @ [now] else kept)]\<rparr>))"
  using map_of_with_key [of rl key]
  by (auto simp: allow_locked_def with_key_def [symmetric] window_step_def Let_def not_le)

text \<open>The bounded limiter stays bounded and never lets a burst through: it keeps at most
  \<open>max_keys\<close> distinct keys, the key just used last; it accepts a request only if fewer than
  \<open>limit\<close> events of the key are remembered after the old ones were dropped, and then remembers
  it, so at most \<open>limit\<close> remembered events of a key lie in one window.\<close>

theorem bounded_limiter_step:
  assumes "rl_ok rl" and "allow_locked rl now key limit window = (ok, rl')" and "1 \<le> limit"
  shows "rl_ok rl' \<and> fst (last (rl_events rl')) = key \<and>
    (ok \<longleftrightarrow> int (length (dropWhile (\<lambda>e. e \<le> now - window) (api_seen (rl_events rl) key))) < limit) \<and>
    (ok \<longrightarrow> now \<in> set (api_seen (rl_events rl') key) \<and> int (length (api_seen (rl_events rl') key)) \<le> limit) \<and>
    (\<forall>k \<in> fst ` set (rl_events rl') - {key}. api_seen (rl_events rl') k = api_seen (rl_events rl) k)"
proof -
  note w = with_key_ok [OF assms(1), of key]
  define kept where "kept = dropWhile (\<lambda>e. e \<le> now - window) (api_seen (rl_events rl) key)"
  define es where "es = (if ok then kept @ [now] else kept)"
  have ok: "ok = (int (length kept) < limit)"
    and rl': "rl' = rl\<lparr>rl_events := AList.delete key (with_key rl key) @ [(key, es)]\<rparr>"
    using assms(2) by (auto simp: allow_locked_eq kept_def es_def Let_def)
  have "rl_ok rl'"
    using w assms(1) length_delete [OF w(1,3)] distinct_delete [OF w(1)]
      delete_notin_dom [of key "with_key rl key"]
    by (auto simp: rl_ok_def rl')
  moreover have "api_seen (rl_events rl') key = es"
    by (simp add: rl' api_seen_def map_add_def delete_conv')
  moreover have "api_seen (rl_events rl') k = api_seen (rl_events rl) k"
    if "k \<in> fst ` set (rl_events rl') - {key}" for k
  proof -
    have k: "k \<noteq> key" "k \<in> fst ` set (with_key rl key)"
      using that by (auto simp: rl' AList.delete_eq)
    then have "map_of (with_key rl key) k = map_of (rl_events rl) k"
      using assms(1) by (cases "rl_events rl")
        (auto simp: with_key_def map_add_def rl_ok_def image_iff map_of_eq_None_iff split: option.splits if_splits
          dest: map_of_SomeD)
    with k show ?thesis by (simp add: rl' api_seen_def map_add_def delete_conv' split: option.splits)
  qed
  ultimately show ?thesis
    using assms(3) ok by (auto simp: rl' kept_def [symmetric] es_def)
qed

theorem bounded_limiter_step_witness:
  "\<exists>ok rl'. allow_locked \<lparr>rl_window_seconds = 60, rl_max_keys = 1, rl_events = [(''a'', [5])]\<rparr> 7 ''b'' 1 60 = (ok, rl') \<and>
     ok \<and> rl_ok rl'"
proof -
  let ?rl = "\<lparr>rl_window_seconds = 60, rl_max_keys = 1, rl_events = [(''a'', [5])]\<rparr>"
  obtain ok rl' where a: "allow_locked ?rl 7 ''b'' 1 60 = (ok, rl')" by (metis old.prod.exhaust)
  have "rl_ok ?rl" by (simp add: rl_ok_def)
  from bounded_limiter_step [OF this a] show ?thesis
    using a by (auto simp: api_seen_def)
qed

end
