(* ===== verification/Ingestion.thy ===== *)
theory Ingestion
  imports Regex
begin

text \<open>
  The ingestion boundary: the job state machine of
  \<open>packages/ingestion/src/rick_ingestion/jobs.py\<close> and the upload admission envelope of
  \<open>admission.py\<close>. The readings of the wall clock are arguments. A mutating method returns the
  new job or raises.
\<close>

section \<open>The job state machine\<close>

datatype stage =
    Queued_st | Validating | Parsing | Chunking | Embedding | Indexing | Verifying | Published
  | Failed_st | Cancelled_st

fun stage_name :: "stage \<Rightarrow> string" where
  "stage_name Queued_st = ''queued''"
| "stage_name Validating = ''validating''"
| "stage_name Parsing = ''parsing''"
| "stage_name Chunking = ''chunking''"
| "stage_name Embedding = ''embedding''"
| "stage_name Indexing = ''indexing''"
| "stage_name Verifying = ''verifying''"
| "stage_name Published = ''published''"
| "stage_name Failed_st = ''failed''"
| "stage_name Cancelled_st = ''cancelled''"

definition TERMINAL_STATES :: "stage list" where
  "TERMINAL_STATES = [Published, Failed_st, Cancelled_st]"

fun ALLOWED_TRANSITIONS :: "stage \<Rightarrow> stage list" where
  "ALLOWED_TRANSITIONS Queued_st = [Validating, Cancelled_st, Failed_st]"
| "ALLOWED_TRANSITIONS Validating = [Parsing, Failed_st, Cancelled_st]"
| "ALLOWED_TRANSITIONS Parsing = [Chunking, Failed_st, Cancelled_st]"
| "ALLOWED_TRANSITIONS Chunking = [Embedding, Failed_st, Cancelled_st]"
| "ALLOWED_TRANSITIONS Embedding = [Indexing, Failed_st, Cancelled_st]"
| "ALLOWED_TRANSITIONS Indexing = [Verifying, Failed_st, Cancelled_st]"
| "ALLOWED_TRANSITIONS Verifying = [Published, Failed_st, Cancelled_st]"
| "ALLOWED_TRANSITIONS Published = []"
| "ALLOWED_TRANSITIONS Failed_st = [Queued_st]"
| "ALLOWED_TRANSITIONS Cancelled_st = [Queued_st]"

record heartbeat_entry =
  hb_at :: real
  hb_stage :: stage
  hb_pages_done :: "int option"
  hb_pages_total :: "int option"

record ingestion_job =
  ij_tenant_id :: string
  ij_workspace_id :: string
  ij_collection_id :: string
  ij_job_id :: string
  ij_document_id :: "string option"
  ij_cancel_requested :: bool
  ij_metadata :: dict
  ij_status :: stage
  ij_stage :: stage
  ij_progress :: real
  ij_attempt :: int
  ij_error_code :: "string option"
  ij_safe_error_message :: "string option"
  ij_created_at :: real
  ij_started_at :: "real option"
  ij_finished_at :: "real option"
  ij_heartbeats :: "heartbeat_entry list"

datatype ingestion_error = IngestionTransitionError string

text \<open>The defaults of the dataclass.\<close>

definition new_ingestion_job :: "string \<times> string \<times> string \<Rightarrow> string \<Rightarrow> real \<Rightarrow> ingestion_job" where
  "new_ingestion_job scope job_id now =
     \<lparr>ij_tenant_id = fst scope, ij_workspace_id = fst (snd scope), ij_collection_id = snd (snd scope),
      ij_job_id = job_id, ij_document_id = None, ij_cancel_requested = False, ij_metadata = [],
      ij_status = Queued_st, ij_stage = Queued_st, ij_progress = 0, ij_attempt = 1,
      ij_error_code = None, ij_safe_error_message = None, ij_created_at = now,
      ij_started_at = None, ij_finished_at = None, ij_heartbeats = []\<rparr>"

text \<open>\<open>min(1.0, max(0.0, progress))\<close>; comparing with NaN is false, so \<open>max\<close> keeps 0.\<close>

fun clamp_progress :: "pyfloat \<Rightarrow> real" where
  "clamp_progress (Fin x) = min 1 (max 0 x)"
| "clamp_progress PosInf = 1"
| "clamp_progress NegInf = 0"
| "clamp_progress NaN = 0"

definition ingestion_transition ::
  "ingestion_job \<Rightarrow> stage \<Rightarrow> real \<Rightarrow> string option \<Rightarrow> string option \<Rightarrow> pyfloat option \<Rightarrow>
   ingestion_error + ingestion_job" where
  "ingestion_transition job to_status now error_code message progress =
     (if to_status \<notin> set (ALLOWED_TRANSITIONS (ij_status job))
      then Inl (IngestionTransitionError
             (stage_name (ij_status job) @ '' -> '' @ stage_name to_status @ '' is not allowed''))
      else Inr (job
        \<lparr>ij_attempt := (if ij_status job \<in> {Failed_st, Cancelled_st} \<and> to_status = Queued_st
                         then ij_attempt job + 1 else ij_attempt job),
         ij_status := to_status,
         ij_stage := to_status,
         ij_progress := (case progress of None \<Rightarrow> ij_progress job | Some p \<Rightarrow> clamp_progress p),
         ij_finished_at := (if to_status \<in> set TERMINAL_STATES then Some now else ij_finished_at job),
         ij_started_at := (if ij_started_at job = None \<and> to_status \<noteq> Queued_st then Some now
                           else ij_started_at job),
         ij_error_code := error_code,
         ij_safe_error_message := message\<rparr>))"

definition compensate_published_failure ::
  "ingestion_job \<Rightarrow> real \<Rightarrow> string \<Rightarrow> string \<Rightarrow> ingestion_error + ingestion_job" where
  "compensate_published_failure job now error_code message =
     (if ij_status job \<noteq> Published
      then Inl (IngestionTransitionError (stage_name (ij_status job) @ '' cannot be compensated''))
      else Inr (job\<lparr>ij_status := Failed_st, ij_stage := Failed_st,
        ij_progress := min 1 (max 0 (ij_progress job)), ij_finished_at := Some now,
        ij_error_code := Some error_code, ij_safe_error_message := Some message\<rparr>))"

fun safe_counter :: "pyval \<Rightarrow> int option" where
  "safe_counter (PInt n) = (if 0 \<le> n \<and> n \<le> 10000000 then Some n else None)"
| "safe_counter v = None"

definition ingestion_heartbeat :: "ingestion_job \<Rightarrow> real \<Rightarrow> pyval \<Rightarrow> pyval \<Rightarrow> ingestion_job" where
  "ingestion_heartbeat job now pages_done pages_total =
     (let beats = ij_heartbeats job @
            [\<lparr>hb_at = now, hb_stage = ij_stage job, hb_pages_done = safe_counter pages_done,
              hb_pages_total = safe_counter pages_total\<rparr>]
      in job\<lparr>ij_heartbeats := (if length beats > 128 then drop (length beats - 128) beats else beats)\<rparr>)"

definition TRANSIENT_ERROR_CODES :: "string list" where
  "TRANSIENT_ERROR_CODES =
     [''provider_timeout'', ''provider_unavailable'', ''vector_store_unavailable'',
      ''lock_unavailable'', ''storage_unavailable'']"

definition is_retryable :: "string option \<Rightarrow> bool" where
  "is_retryable error_code = (case error_code of None \<Rightarrow> False | Some c \<Rightarrow> c \<in> set TRANSIENT_ERROR_CODES)"

section \<open>Upload admission\<close>

datatype upload_error =
    InvalidUploadFieldError string
  | InvalidChecksumError
  | InvalidUploadSizeError
  | UnsupportedSourceTypeError
  | UnsupportedOperationError

definition token_char :: "char \<Rightarrow> bool" where
  "token_char c = (alnum_ascii c \<or> c \<in> set ''._-'')"

definition TOKEN :: regex where
  "TOKEN = plus_r (Cls token_char)"

definition hex_lower :: "char \<Rightarrow> bool" where
  "hex_lower c = (digit_c c \<or> c \<in> set ''abcdef'')"

definition CHECKSUM :: regex where
  "CHECKSUM = Seq (lit ''sha256:'') (Rep (Cls hex_lower) 64 (Some 64))"

definition SECRET_MARKER :: regex where
  "SECRET_MARKER = seqs
     [Alt Bol (one_of ''-_.''),
      alts [lit_i ''secret'', lit_i ''token'', lit_i ''password'', lit_i ''passwd'', lit_i ''bearer'',
            lit_i ''basic'', seqs [lit_i ''api'', opt_r (one_of ''-_''), lit_i ''key''],
            seqs [lit_i ''access'', opt_r (one_of ''-_''), lit_i ''key''],
            seqs [lit_i ''private'', opt_r (one_of ''-_''), lit_i ''key'']],
      Alt Eol (one_of ''-_.'')]"

definition validate_token :: "string \<Rightarrow> pyval \<Rightarrow> upload_error + string" where
  "validate_token field_name v =
     (case v of
        PStr value \<Rightarrow>
          if value = [] then Inl (InvalidUploadFieldError field_name)
          else if length value > 128 \<or> \<not> re_fullmatch TOKEN value
          then Inl (InvalidUploadFieldError field_name)
          else if value \<in> {''.'', ''..''} \<or> endswith value ''.'' \<or> re_search SECRET_MARKER value
          then Inl (InvalidUploadFieldError field_name)
          else Inr value
      | _ \<Rightarrow> Inl (InvalidUploadFieldError field_name))"

record upload_envelope =
  ue_tenant_id :: pyval
  ue_workspace_id :: pyval
  ue_collection_id :: pyval
  ue_job_id :: pyval
  ue_idempotency_key :: pyval
  ue_source_key :: pyval
  ue_checksum :: pyval
  ue_size_bytes :: pyval
  ue_source_type :: pyval
  ue_request_id :: pyval
  ue_correlation_id :: pyval
  ue_operation :: pyval

definition envelope_tokens :: "upload_envelope \<Rightarrow> (string \<times> pyval) list" where
  "envelope_tokens e =
     [(''tenant_id'', ue_tenant_id e), (''workspace_id'', ue_workspace_id e),
      (''collection_id'', ue_collection_id e), (''job_id'', ue_job_id e),
      (''idempotency_key'', ue_idempotency_key e), (''source_key'', ue_source_key e),
      (''request_id'', ue_request_id e), (''correlation_id'', ue_correlation_id e)]"

definition checksum_ok :: "pyval \<Rightarrow> bool" where
  "checksum_ok v = (case v of PStr s \<Rightarrow> re_fullmatch CHECKSUM s | _ \<Rightarrow> False)"

definition size_ok :: "pyval \<Rightarrow> bool" where
  "size_ok v = (case v of PInt n \<Rightarrow> 0 \<le> n \<and> n \<le> 52428800 | _ \<Rightarrow> False)"

definition make_upload_envelope :: "upload_envelope \<Rightarrow> upload_error + upload_envelope" where
  "make_upload_envelope e =
     rbind (map_res (\<lambda>(f, v). validate_token f v) (envelope_tokens e)) (\<lambda>_.
       checked
         [(\<not> checksum_ok (ue_checksum e), InvalidChecksumError),
          (\<not> size_ok (ue_size_bytes e), InvalidUploadSizeError),
          (ue_source_type e \<notin> set (map PStr [''md'', ''txt'', ''pdf'', ''docx'']), UnsupportedSourceTypeError),
          (ue_operation e \<notin> set (map PStr [''ingest'', ''reindex'', ''delete'']), UnsupportedOperationError)] e)"

definition envelope_payload :: "upload_envelope \<Rightarrow> (pyval \<times> pyval) list" where
  "envelope_payload e =
     [(PStr ''operation'', ue_operation e), (PStr ''source_key'', ue_source_key e),
      (PStr ''request_id'', ue_request_id e), (PStr ''correlation_id'', ue_correlation_id e),
      (PStr ''collection_id'', ue_collection_id e), (PStr ''workspace_id'', ue_workspace_id e),
      (PStr ''tenant_id'', ue_tenant_id e)]"

section \<open>Runs of an ingestion job\<close>

text \<open>The three methods that change a job, in any order and with any arguments.\<close>

inductive ingestion_step :: "ingestion_job \<Rightarrow> ingestion_job \<Rightarrow> bool" where
  moved: "ingestion_transition job st now ec msg pr = Inr job' \<Longrightarrow> ingestion_step job job'"
| compensated: "compensate_published_failure job now ec msg = Inr job' \<Longrightarrow> ingestion_step job job'"
| beat: "ingestion_step job (ingestion_heartbeat job now a b)"

inductive_cases ingestion_stepE: "ingestion_step job job'"

definition beat_ok :: "heartbeat_entry \<Rightarrow> bool" where
  "beat_ok h = (pred_option (\<lambda>n. 0 \<le> n \<and> n \<le> 10000000) (hb_pages_done h) \<and>
     pred_option (\<lambda>n. 0 \<le> n \<and> n \<le> 10000000) (hb_pages_total h))"

definition ingestion_ok :: "ingestion_job \<Rightarrow> bool" where
  "ingestion_ok job = (ij_stage job = ij_status job \<and> 0 \<le> ij_progress job \<and> ij_progress job \<le> 1 \<and>
     1 \<le> ij_attempt job \<and> (ij_started_at job = None \<longrightarrow> ij_status job = Queued_st) \<and>
     (ij_status job \<in> set TERMINAL_STATES \<longrightarrow> ij_finished_at job \<noteq> None) \<and>
     length (ij_heartbeats job) \<le> 128 \<and> list_all beat_ok (ij_heartbeats job))"

lemma safe_counter_ok: "pred_option (\<lambda>n. 0 \<le> n \<and> n \<le> 10000000) (safe_counter v)"
  by (cases v rule: safe_counter.cases) auto

lemma clamp_ok: "0 \<le> clamp_progress p \<and> clamp_progress p \<le> 1"
  by (cases p) auto

lemma transition_fields:
  assumes "ingestion_transition job st now ec msg pr = Inr job'"
  shows "st \<in> set (ALLOWED_TRANSITIONS (ij_status job))" "ij_status job' = st" "ij_stage job' = st"
    "ij_progress job' = (case pr of None \<Rightarrow> ij_progress job | Some p \<Rightarrow> clamp_progress p)"
    "ij_attempt job \<le> ij_attempt job'" "ij_heartbeats job' = ij_heartbeats job"
    "st \<in> set TERMINAL_STATES \<Longrightarrow> ij_finished_at job' = Some now"
    "ij_started_at job' = None \<Longrightarrow> st = Queued_st"
proof -
  have a: "st \<in> set (ALLOWED_TRANSITIONS (ij_status job))"
    using assms unfolding ingestion_transition_def by (simp only: returns not_not)
  then show "st \<in> set (ALLOWED_TRANSITIONS (ij_status job))" .
  note eq = assms [unfolded ingestion_transition_def, simplified a not_True_eq_False if_False sum.inject]
  show "ij_status job' = st" "ij_stage job' = st"
    "ij_progress job' = (case pr of None \<Rightarrow> ij_progress job | Some p \<Rightarrow> clamp_progress p)"
    "ij_attempt job \<le> ij_attempt job'" "ij_heartbeats job' = ij_heartbeats job"
    "st \<in> set TERMINAL_STATES \<Longrightarrow> ij_finished_at job' = Some now"
    "ij_started_at job' = None \<Longrightarrow> st = Queued_st"
    unfolding eq [symmetric] by (simp_all split: if_splits)
qed

lemma transition_ok:
  assumes "ingestion_transition job st now ec msg pr = Inr job'" and "ingestion_ok job"
  shows "ingestion_ok job'"
  using transition_fields [OF assms(1)] assms(2)
  by (cases pr) (auto simp: ingestion_ok_def clamp_ok)

lemma compensate_ok:
  "compensate_published_failure job now ec msg = Inr job' \<Longrightarrow> ingestion_ok job \<Longrightarrow> ingestion_ok job'"
  by (auto simp: compensate_published_failure_def ingestion_ok_def split: if_splits)

lemma beat_step_ok: "ingestion_ok job \<Longrightarrow> ingestion_ok (ingestion_heartbeat job now a b)"
  by (auto simp: ingestion_heartbeat_def ingestion_ok_def Let_def list_all_iff beat_ok_def safe_counter_ok
      dest: in_set_dropD)

lemma step_ok: "ingestion_step job job' \<Longrightarrow> ingestion_ok job \<Longrightarrow> ingestion_ok job'"
  by (erule ingestion_stepE) (auto intro: transition_ok compensate_ok beat_step_ok)

subsection \<open>The order of the stages\<close>

definition PIPELINE :: "stage list" where
  "PIPELINE = [Validating, Parsing, Chunking, Embedding, Indexing, Verifying, Published]"

fun rank :: "stage \<Rightarrow> nat" where
  "rank Validating = 1"
| "rank Parsing = 2"
| "rank Chunking = 3"
| "rank Embedding = 4"
| "rank Indexing = 5"
| "rank Verifying = 6"
| "rank Published = 7"
| "rank st = 0"

text \<open>The successful transitions of a job, from the first on.\<close>

fun ingestion_run :: "ingestion_job \<Rightarrow> (stage \<times> real \<times> string option \<times> string option \<times> pyfloat option) list \<Rightarrow>
    ingestion_error + ingestion_job" where
  "ingestion_run job [] = Inr job"
| "ingestion_run job ((st, now, ec, msg, pr) # ts) =
     rbind (ingestion_transition job st now ec msg pr) (\<lambda>job'. ingestion_run job' ts)"

lemma ingestion_run_append:
  "ingestion_run job (ts @ us) = rbind (ingestion_run job ts) (\<lambda>job'. ingestion_run job' us)"
  by (induction job ts rule: ingestion_run.induct) (simp_all add: rbind_def split: sum.splits)

text \<open>A job at rank \<open>r\<close> has just been through the first \<open>r\<close> stages.\<close>

definition been_through :: "stage \<Rightarrow> stage list \<Rightarrow> bool" where
  "been_through st sts = (\<exists>pre. sts = pre @ take (rank st) PIPELINE)"

lemma been_through_step:
  assumes "been_through st sts" and "st' \<in> set (ALLOWED_TRANSITIONS st)"
  shows "been_through st' (sts @ [st'])"
  using assms by (cases st) (auto simp: been_through_def PIPELINE_def)

lemma run_been_through:
  assumes "ij_status job = Queued_st"
  shows "ingestion_run job ts = Inr job' \<Longrightarrow> been_through (ij_status job') (map fst ts)"
proof (induction ts arbitrary: job' rule: rev_induct)
  case Nil
  then show ?case using assms by (simp add: been_through_def)
next
  case (snoc t ts)
  obtain st now ec msg pr where t: "t = (st, now, ec, msg, pr)" by (metis prod_cases5)
  from snoc.prems obtain mid where mid: "ingestion_run job ts = Inr mid"
    "ingestion_transition mid st now ec msg pr = Inr job'"
    by (auto simp: ingestion_run_append rbind_Inr t)
  then have "st \<in> set (ALLOWED_TRANSITIONS (ij_status mid))" "ij_status job' = st"
    by (auto simp: ingestion_transition_def split: if_splits)
  then show ?case using been_through_step [OF snoc.IH [OF mid(1)]] by (simp add: t)
qed

section \<open>Properties\<close>

text \<open>C23. Every document goes through every stage: if a run of transitions takes a fresh job to
  \<open>published\<close>, its last seven transitions are validating, parsing, chunking, embedding,
  indexing, verifying and published, in this order; no stage can be skipped, whatever failures,
  cancellations and retries came before.\<close>

theorem published_went_through_all:
  assumes "ingestion_run (new_ingestion_job scope jid t0) ts = Inr job" and "ij_status job = Published"
  shows "\<exists>earlier. map fst ts = earlier @ [Validating, Parsing, Chunking, Embedding, Indexing, Verifying, Published]"
proof -
  have "ij_status (new_ingestion_job scope jid t0) = Queued_st" by (simp add: new_ingestion_job_def)
  from run_been_through [OF this assms(1)] assms(2) show ?thesis by (auto simp: been_through_def PIPELINE_def)
qed

theorem published_went_through_all_witness:
  "\<exists>job. ingestion_run (new_ingestion_job (''t'', ''w'', ''c'') ''j'' 0)
     (map (\<lambda>st. (st, 1, None, None, None))
        [Failed_st, Queued_st, Validating, Parsing, Chunking, Embedding, Indexing, Verifying, Published]) = Inr job \<and>
   (\<exists>earlier. [Failed_st, Queued_st, Validating, Parsing, Chunking, Embedding, Indexing, Verifying, Published] =
     earlier @ [Validating, Parsing, Chunking, Embedding, Indexing, Verifying, Published])"
proof -
  let ?ts = "map (\<lambda>st. (st, 1, None, None, None))
        [Failed_st, Queued_st, Validating, Parsing, Chunking, Embedding, Indexing, Verifying, Published]"
  have "map_sum id ij_status (ingestion_run (new_ingestion_job (''t'', ''w'', ''c'') ''j'' 0) ?ts) = Inr Published"
    by (simp add: ingestion_transition_def new_ingestion_job_def TERMINAL_STATES_def)
  then obtain job where j: "ingestion_run (new_ingestion_job (''t'', ''w'', ''c'') ''j'' 0) ?ts = Inr job" "ij_status job = Published"
    by (cases "ingestion_run (new_ingestion_job (''t'', ''w'', ''c'') ''j'' 0) ?ts") auto
  show ?thesis using j(1) published_went_through_all [OF j] by simp
qed

text \<open>Jobs stay well formed and bounded under any sequence of transitions, compensations and
  heartbeats: stage and status agree, progress lies in the unit interval, a job that left the
  queue has a start time and a finished one a finish time, and at most 128 heartbeats are kept,
  with page counters within their bound.\<close>

theorem ingestion_jobs_bounded:
  assumes "ingestion_step\<^sup>*\<^sup>* (new_ingestion_job scope jid t0) job"
  shows "ij_stage job = ij_status job \<and> 0 \<le> ij_progress job \<and> ij_progress job \<le> 1 \<and> 1 \<le> ij_attempt job \<and>
    (ij_started_at job = None \<longrightarrow> ij_status job = Queued_st) \<and>
    (ij_status job \<in> {Published, Failed_st, Cancelled_st} \<longrightarrow> ij_finished_at job \<noteq> None) \<and>
    length (ij_heartbeats job) \<le> 128 \<and>
    (\<forall>h \<in> set (ij_heartbeats job). pred_option (\<lambda>n. 0 \<le> n \<and> n \<le> 10000000) (hb_pages_done h) \<and>
       pred_option (\<lambda>n. 0 \<le> n \<and> n \<le> 10000000) (hb_pages_total h))"
proof -
  have "ingestion_ok (new_ingestion_job scope jid t0)"
    by (simp add: ingestion_ok_def new_ingestion_job_def TERMINAL_STATES_def)
  with assms have "ingestion_ok job" by (induction rule: rtranclp_induct) (auto intro: step_ok)
  then show ?thesis by (auto simp: ingestion_ok_def TERMINAL_STATES_def list_all_iff beat_ok_def)
qed

theorem ingestion_jobs_bounded_witness:
  "length (ij_heartbeats (ingestion_heartbeat (new_ingestion_job (''t'', ''w'', ''c'') ''j'' 0) 1 (PInt 5) (PStr ''x''))) \<le> 128"
  using ingestion_jobs_bounded [OF r_into_rtranclp [of ingestion_step, OF beat [of "new_ingestion_job (''t'', ''w'', ''c'') ''j'' 0" 1 "PInt 5" "PStr ''x''"]]]
  by blast

section \<open>What admission guarantees\<close>

lemma validate_token_Inr:
  "validate_token f v = Inr s \<Longrightarrow> v = PStr s \<and> s \<noteq> [] \<and> length s \<le> 128 \<and> list_all token_char s"
  by (auto simp: validate_token_def TOKEN_def fullmatch_plus_cls split: pyval.splits if_splits)

lemma envelope_token_texts:
  assumes "make_upload_envelope e = Inr e'" and "(f, v) \<in> set (envelope_tokens e)"
  shows "\<exists>s. v = PStr s \<and> s \<noteq> [] \<and> length s \<le> 128 \<and> list_all token_char s"
proof -
  from assms(1) obtain ss where "map_res (\<lambda>(f, v). validate_token f v) (envelope_tokens e) = Inr ss"
    by (auto simp: make_upload_envelope_def rbind_Inr)
  then have "list_all2 (\<lambda>(f, v) s. validate_token f v = Inr s) (envelope_tokens e) ss"
    by (simp add: map_res_Inr_list_all2 case_prod_unfold)
  then obtain s where "validate_token f v = Inr s"
    using assms(2) by (auto simp: list_all2_conv_all_nth in_set_conv_nth)
  then show ?thesis using validate_token_Inr by blast
qed

lemma make_upload_envelope_same: "make_upload_envelope e = Inr e' \<Longrightarrow> e' = e"
  by (auto simp: make_upload_envelope_def rbind_Inr checked_Inr)

lemma envelope_operation:
  "make_upload_envelope e = Inr e' \<Longrightarrow> ue_operation e \<in> {PStr ''ingest'', PStr ''reindex'', PStr ''delete''}"
  by (auto simp: make_upload_envelope_def rbind_Inr checked_Inr)

lemma checksum_accepts: "length h = 64 \<Longrightarrow> list_all hex_lower h \<Longrightarrow> re_fullmatch CHECKSUM (''sha256:'' @ h)"
  unfolding CHECKSUM_def by (rule fullmatch_prefixed) (auto simp: lit_def)

end
