(* ===== verification/Breaker.thy ===== *)
theory Breaker
  imports Prelude
begin

text \<open>
  The provider facade (\<open>packages/providers/src/rick_providers/resilience.py\<close>, with the error
  taxonomy of \<open>errors.py\<close>): budgets, the circuit breaker, completions, embeddings and
  streams. The wrapped provider is a parameter: what a call to it does is an \<open>outcome\<close>. The
  clock is a parameter too: every reading of it is an argument, in the order of the code. One
  call runs at a time, as the code's lock makes the reads and writes of the breaker's state atomic;
  calls that overlap are covered because a call's record of its outcome is a step of its own.
\<close>

section \<open>Errors\<close>

datatype provider_code =
    Timeout | Unavailable | Rate_limit | Server_error | Malformed_response | Missing_field | Invalid_json
  | Invalid_model | Embedding_dimension_mismatch | Model_not_found | Http_error | Invalid_configuration
  | Cancelled_code | Internal_error

datatype provider_operation = Chat_completion | Embeddings

definition RETRYABLE_ERROR_CODES :: "provider_code list" where
  "RETRYABLE_ERROR_CODES = [Timeout, Unavailable, Rate_limit, Server_error]"

record provider_error =
  pe_code :: provider_code
  pe_operation :: provider_operation
  pe_correlation_id :: string
  pe_attempts :: int
  pe_retryable :: bool
  pe_status :: "int option"

datatype call_error =
    ProviderError provider_error
  | ProviderBudgetError string
  | CancelledError
  | PydanticError \<comment> \<open>the DTO's own validation\<close>
  | OtherError \<comment> \<open>any other exception of the provider\<close>

text \<open>\<open>ProviderError.__init__\<close>: the taxonomy owns the retry flag, the DTO bounds the fields.\<close>

definition provider_error ::
  "provider_code \<Rightarrow> provider_operation \<Rightarrow> string \<Rightarrow> int \<Rightarrow> int option \<Rightarrow> call_error" where
  "provider_error code operation correlation_id attempts status =
     (if length correlation_id < 1 \<or> length correlation_id > 128 \<or> attempts < 0 \<or> attempts > 10 \<or>
         (case status of None \<Rightarrow> False | Some n \<Rightarrow> n < 100 \<or> n > 599)
      then PydanticError
      else ProviderError \<lparr>pe_code = code, pe_operation = operation, pe_correlation_id = correlation_id,
             pe_attempts = attempts, pe_retryable = List.member RETRYABLE_ERROR_CODES code, pe_status = status\<rparr>)"

definition with_attempts :: "provider_error \<Rightarrow> int \<Rightarrow> call_error" where
  "with_attempts e attempts =
     provider_error (pe_code e) (pe_operation e) (pe_correlation_id e) attempts (pe_status e)"

section \<open>Configuration and state\<close>

record breaker_cfg =
  bc_failure_threshold :: int
  bc_cooldown_seconds :: real
  bc_max_messages :: int
  bc_max_prompt_chars :: int
  bc_max_embedding_chars :: int
  bc_max_tool_calls :: int

record breaker =
  consecutive_failures :: int
  open_until :: real

definition new_breaker :: breaker where
  "new_breaker = \<lparr>consecutive_failures = 0, open_until = 0\<rparr>"

definition int_in :: "int \<Rightarrow> int \<Rightarrow> pyval \<Rightarrow> int option" where
  "int_in lo hi v = (case v of PInt n \<Rightarrow> if lo \<le> n \<and> n \<le> hi then Some n else None | _ \<Rightarrow> None)"

text \<open>
  The constructor; the provider and the clock are callable. (A cooldown that is an integer beyond
  the floats raises another exception than the one here.)
\<close>

definition make_breaker_cfg ::
  "pyval \<Rightarrow> pyval \<Rightarrow> pyval \<Rightarrow> pyval \<Rightarrow> pyval \<Rightarrow> pyval \<Rightarrow> string + breaker_cfg" where
  "make_breaker_cfg threshold cooldown messages prompt embedding tools =
     (case int_in 1 32 threshold of
        None \<Rightarrow> Inl ''failure_threshold is out of range''
      | Some t \<Rightarrow>
     (case finite_number cooldown of
        None \<Rightarrow> Inl ''cooldown_seconds is out of range''
      | Some c \<Rightarrow>
          if \<not> (1 / 10 \<le> c \<and> c \<le> 86400) then Inl ''cooldown_seconds is out of range'' else
     (case int_in 1 1024 messages of
        None \<Rightarrow> Inl ''max_messages is out of range''
      | Some m \<Rightarrow>
     (case int_in 1 1000000 prompt of
        None \<Rightarrow> Inl ''max_prompt_chars is out of range''
      | Some p \<Rightarrow>
     (case int_in 1 1000000 embedding of
        None \<Rightarrow> Inl ''max_embedding_chars is out of range''
      | Some e \<Rightarrow>
     (case int_in 0 32 tools of
        None \<Rightarrow> Inl ''max_tool_calls is out of range''
      | Some k \<Rightarrow>
          Inr \<lparr>bc_failure_threshold = t, bc_cooldown_seconds = c, bc_max_messages = m, bc_max_prompt_chars = p,
               bc_max_embedding_chars = e, bc_max_tool_calls = k\<rparr>))))))"

section \<open>The circuit\<close>

definition is_open_locked :: "real \<Rightarrow> breaker \<Rightarrow> bool \<times> breaker" where
  "is_open_locked now b =
     (if open_until b \<le> 0 then (False, b)
      else if now \<ge> open_until b then (False, b\<lparr>open_until := 0, consecutive_failures := 0\<rparr>)
      else (True, b))"

definition record_success :: "breaker \<Rightarrow> breaker" where
  "record_success b = b\<lparr>consecutive_failures := 0, open_until := 0\<rparr>"

definition record_failure :: "breaker_cfg \<Rightarrow> real \<Rightarrow> provider_error \<Rightarrow> breaker \<Rightarrow> breaker" where
  "record_failure cfg now e b =
     (if \<not> pe_retryable e then b
      else let n = consecutive_failures b + 1 in
        if n \<ge> bc_failure_threshold cfg
        then b\<lparr>consecutive_failures := n, open_until := now + bc_cooldown_seconds cfg\<rparr>
        else b\<lparr>consecutive_failures := n\<rparr>)"

definition printable :: "char \<Rightarrow> bool" where
  "printable c = (ord_c c \<ge> 32 \<and> ord_c c \<noteq> 127)"

text \<open>\<open>uuid\<close> is the fresh \<open>str(uuid.uuid4())\<close>.\<close>

definition correlation :: "string \<Rightarrow> pyval \<Rightarrow> string" where
  "correlation uuid requested =
     (case requested of
        PStr s \<Rightarrow> if s \<noteq> [] \<and> length s \<le> 128 \<and> list_all printable s then s else uuid
      | _ \<Rightarrow> uuid)"

definition guard :: "provider_operation \<Rightarrow> string \<Rightarrow> pyval \<Rightarrow> real \<Rightarrow> breaker \<Rightarrow> (call_error + string) \<times> breaker" where
  "guard operation uuid requested now b =
     (let c = correlation uuid requested; (opened, b') = is_open_locked now b in
      (if opened then Inl (provider_error Unavailable operation c 0 None) else Inr c, b'))"

section \<open>Budgets\<close>

text \<open>A prompt argument; a message is its content when this is a string.\<close>

datatype prompt_arg = NoPrompt | PromptText string | PromptBytes | PromptSeq "string option list" | PromptOther

fun prompt_total :: "int \<Rightarrow> int \<Rightarrow> string option list \<Rightarrow> bool" where
  "prompt_total maximum acc [] = True"
| "prompt_total maximum acc (None # items) = prompt_total maximum acc items"
| "prompt_total maximum acc (Some content # items) =
     (if acc + int (length content) > maximum then False
      else prompt_total maximum (acc + int (length content)) items)"

definition validate_prompt :: "breaker_cfg \<Rightarrow> prompt_arg \<Rightarrow> prompt_arg \<Rightarrow> call_error + unit" where
  "validate_prompt cfg model_or_messages messages =
     (let candidate = (if messages = NoPrompt \<and> (case model_or_messages of PromptText s \<Rightarrow> False | _ \<Rightarrow> True)
                       then model_or_messages else messages)
      in case candidate of
        PromptSeq items \<Rightarrow>
          if int (length items) > bc_max_messages cfg
          then Inl (ProviderBudgetError ''provider message budget exceeded'')
          else if \<not> prompt_total (bc_max_prompt_chars cfg) 0 items
          then Inl (ProviderBudgetError ''provider prompt budget exceeded'')
          else Inr ()
      | _ \<Rightarrow> Inl (ProviderBudgetError ''provider message budget exceeded''))"

datatype tools_arg = NoTools | ToolSeq nat | ToolOther

definition validate_tools :: "breaker_cfg \<Rightarrow> tools_arg \<Rightarrow> call_error + unit" where
  "validate_tools cfg tools =
     (case tools of
        NoTools \<Rightarrow> Inr ()
      | ToolSeq n \<Rightarrow> if int n > bc_max_tool_calls cfg then Inl (ProviderBudgetError ''provider tool budget exceeded'') else Inr ()
      | ToolOther \<Rightarrow> Inl (ProviderBudgetError ''provider tool budget exceeded''))"

section \<open>Calls\<close>

text \<open>
  What awaiting the provider does: it returns, raises a \<open>ProviderError\<close>, is cancelled (also
  when \<open>_raise_if_cancelling\<close> finds an outstanding cancellation), or raises anything else.
\<close>

datatype 'r outcome = Returned 'r | Raised provider_error | WasCancelled | RaisedOther

text \<open>A completion is its number of tool calls (\<open>None\<close> for no list) and the rest.\<close>

record 'r completion =
  co_tool_calls :: "nat option"
  co_body :: 'r

definition validate_result_tool_budget :: "breaker_cfg \<Rightarrow> 'r completion \<Rightarrow> call_error + 'r completion" where
  "validate_result_tool_budget cfg result =
     (if (case co_tool_calls result of None \<Rightarrow> False | Some n \<Rightarrow> int n > bc_max_tool_calls cfg)
      then Inl (ProviderBudgetError ''provider tool-call budget exceeded'') else Inr result)"

text \<open>The \<open>try ... except ProviderError ... else\<close> that every call shares.\<close>

definition record_outcome :: "breaker_cfg \<Rightarrow> real \<Rightarrow> 'r outcome \<Rightarrow> breaker \<Rightarrow> (call_error + 'r) \<times> breaker" where
  "record_outcome cfg now out b =
     (case out of
        Returned r \<Rightarrow> (Inr r, record_success b)
      | Raised e \<Rightarrow> (Inl (ProviderError e), record_failure cfg now e b)
      | WasCancelled \<Rightarrow> (Inl CancelledError, b)
      | RaisedOther \<Rightarrow> (Inl OtherError, b))"

text \<open>
  \<open>now\<close> is the clock at the guard, \<open>later\<close> at the record of the outcome; the provider sees
  the correlation id.
\<close>

definition chat_completion ::
  "breaker_cfg \<Rightarrow> (string \<Rightarrow> 'r completion outcome) \<Rightarrow> string \<Rightarrow> real \<Rightarrow> real \<Rightarrow> prompt_arg \<Rightarrow> prompt_arg \<Rightarrow> tools_arg \<Rightarrow>
     pyval \<Rightarrow> breaker \<Rightarrow> (call_error + 'r completion) \<times> breaker" where
  "chat_completion cfg provider uuid now later model_or_messages messages tools correlation_id b =
     (case rbind (validate_prompt cfg model_or_messages messages) (\<lambda>_. validate_tools cfg tools) of
        Inl e \<Rightarrow> (Inl e, b)
      | Inr _ \<Rightarrow>
          (case guard Chat_completion uuid correlation_id now b of
             (Inl e, b1) \<Rightarrow> (Inl e, b1)
           | (Inr c, b1) \<Rightarrow>
               (let (r, b2) = record_outcome cfg later (provider c) b1
                in (rbind r (validate_result_tool_budget cfg), b2))))"

definition get_embedding ::
  "breaker_cfg \<Rightarrow> (string \<Rightarrow> 'r outcome) \<Rightarrow> string \<Rightarrow> real \<Rightarrow> real \<Rightarrow> pyval \<Rightarrow> pyval \<Rightarrow> breaker \<Rightarrow>
     (call_error + 'r) \<times> breaker" where
  "get_embedding cfg provider uuid now later txt_arg correlation_id b =
     (if (case txt_arg of PStr s \<Rightarrow> strip s = [] \<or> int (length s) > bc_max_embedding_chars cfg | _ \<Rightarrow> True)
      then (Inl (ProviderBudgetError ''provider embedding budget exceeded''), b)
      else case guard Embeddings uuid correlation_id now b of
        (Inl e, b1) \<Rightarrow> (Inl e, b1)
      | (Inr c, b1) \<Rightarrow> record_outcome cfg later (provider c) b1)"

definition readiness_check :: "real \<Rightarrow> breaker \<Rightarrow> bool \<times> breaker" where
  "readiness_check now b = (let (opened, b') = is_open_locked now b in (\<not> opened, b'))"

text \<open>
  \<open>probe\<close>: \<open>None\<close> when the provider has no callable probe, otherwise what it does; the
  result counts only when it is \<open>True\<close> itself.
\<close>

definition health_check :: "bool outcome option \<Rightarrow> real \<Rightarrow> breaker \<Rightarrow> (call_error + bool) \<times> breaker" where
  "health_check probe now b =
     (let (opened, b') = is_open_locked now b in
      (if opened then Inr False
       else case probe of
         None \<Rightarrow> Inr False
       | Some (Returned r) \<Rightarrow> Inr r
       | Some WasCancelled \<Rightarrow> Inl CancelledError
       | Some _ \<Rightarrow> Inr False, b'))"

text \<open>\<open>_production_safe\<close>: the declared flag (\<open>None\<close> when it is neither \<open>True\<close> nor \<open>False\<close>).\<close>

definition production_safe :: "bool \<Rightarrow> bool option \<Rightarrow> bool \<Rightarrow> bool" where
  "production_safe is_test declared has_probe =
     (if is_test then False else case declared of Some d \<Rightarrow> d | None \<Rightarrow> has_probe)"

section \<open>Streams\<close>

text \<open>
  A chunk: the indices of its tool calls, whether it carries a finish reason, and the rest. An
  event of the delegated stream is a chunk or a failure; the end of the list is the end of the
  stream. The consumer reads to the end.
\<close>

record 'c stream_chunk =
  sc_indices :: "nat list"
  sc_finish :: bool
  sc_body :: 'c

datatype 'c stream_event = SChunk "'c stream_chunk" | SFails call_error

text \<open>The loop: the chunks it yields, and the terminal chunk or the failure it ends with.\<close>

fun stream_loop ::
  "breaker_cfg \<Rightarrow> string \<Rightarrow> 'c stream_chunk option \<Rightarrow> nat list \<Rightarrow> 'c stream_event list \<Rightarrow>
     'c stream_chunk list \<times> (call_error + 'c stream_chunk option)" where
  "stream_loop cfg c terminal seen [] = ([], Inr terminal)"
| "stream_loop cfg c terminal seen (SFails e # es) = ([], Inl e)"
| "stream_loop cfg c terminal seen (SChunk k # es) =
     (if terminal \<noteq> None then ([], Inl (provider_error Malformed_response Chat_completion c 0 None))
      else let seen' = remdups (sc_indices k @ seen) in
        if int (length seen') > bc_max_tool_calls cfg
        then ([], Inl (ProviderBudgetError ''provider tool-call budget exceeded''))
        else if sc_finish k then stream_loop cfg c (Some k) seen' es
        else let (ys, r) = stream_loop cfg c terminal seen' es in (k # ys, r))"

text \<open>
  The cleanup of the stream may fail: the failure of the cleanup then replaces the result, except
  a cancellation.
\<close>

definition stream_end ::
  "breaker_cfg \<Rightarrow> string \<Rightarrow> real \<Rightarrow> bool \<Rightarrow> (call_error + 'c stream_chunk option) \<Rightarrow> breaker \<Rightarrow>
     (call_error + 'c stream_chunk option) \<times> breaker" where
  "stream_end cfg c later cleanup_failed r b =
     (if cleanup_failed \<and> r \<noteq> Inl CancelledError
      then (Inl (provider_error Internal_error Chat_completion c 0 None), b)
      else case r of
        Inl (ProviderError e) \<Rightarrow> (Inl (ProviderError e), record_failure cfg later e b)
      | Inl e \<Rightarrow> (Inl e, b)
      | Inr terminal \<Rightarrow> (Inr terminal, record_success b))"

definition chat_completion_stream ::
  "breaker_cfg \<Rightarrow> (string \<Rightarrow> 'c stream_event list) \<Rightarrow> string \<Rightarrow> bool \<Rightarrow> real \<Rightarrow> real \<Rightarrow> prompt_arg \<Rightarrow> prompt_arg \<Rightarrow> tools_arg \<Rightarrow>
     pyval \<Rightarrow> breaker \<Rightarrow> 'c stream_chunk list \<times> (call_error + unit) \<times> breaker" where
  "chat_completion_stream cfg provider uuid cleanup_failed now later model_or_messages messages tools correlation_id b =
     (case rbind (validate_prompt cfg model_or_messages messages) (\<lambda>_. validate_tools cfg tools) of
        Inl e \<Rightarrow> ([], Inl e, b)
      | Inr _ \<Rightarrow>
          (case guard Chat_completion uuid correlation_id now b of
             (Inl e, b1) \<Rightarrow> ([], Inl e, b1)
           | (Inr c, b1) \<Rightarrow>
               (let (ys, r) = stream_loop cfg c None [] (provider c);
                    (r', b2) = stream_end cfg c later cleanup_failed r b1
                in case r' of
                  Inl e \<Rightarrow> (ys, Inl e, b2)
                | Inr None \<Rightarrow> (ys, Inr (), b2)
                | Inr (Some k) \<Rightarrow> (ys @ [k], Inr (), b2))))"

text \<open>
  A provider without a stream: the completion is awaited (with its own guard, at \<open>now'\<close>) and
  becomes the only chunk.
\<close>

definition stream_fallback ::
  "breaker_cfg \<Rightarrow> (string \<Rightarrow> 'r completion outcome) \<Rightarrow> string \<Rightarrow> real \<Rightarrow> real \<Rightarrow> real \<Rightarrow> prompt_arg \<Rightarrow> prompt_arg \<Rightarrow> tools_arg \<Rightarrow>
     pyval \<Rightarrow> breaker \<Rightarrow> (call_error + 'r completion) \<times> breaker" where
  "stream_fallback cfg provider uuid now now' later model_or_messages messages tools correlation_id b =
     (case rbind (validate_prompt cfg model_or_messages messages) (\<lambda>_. validate_tools cfg tools) of
        Inl e \<Rightarrow> (Inl e, b)
      | Inr _ \<Rightarrow>
          (case guard Chat_completion uuid correlation_id now b of
             (Inl e, b1) \<Rightarrow> (Inl e, b1)
           | (Inr c, b1) \<Rightarrow>
               (let (r, b2) = chat_completion cfg provider uuid now' later model_or_messages messages tools (PStr c) b1
                in (rbind r (validate_result_tool_budget cfg), b2))))"

section \<open>The contract of a circuit breaker\<close>

datatype circuit = Closed nat | Open real

fun circuit_check :: "real \<Rightarrow> circuit \<Rightarrow> bool \<times> circuit" where
  "circuit_check now (Closed n) = (False, Closed n)"
| "circuit_check now (Open u) = (if now \<ge> u then (False, Closed 0) else (True, Open u))"

fun circuit_failure :: "nat \<Rightarrow> real \<Rightarrow> real \<Rightarrow> circuit \<Rightarrow> circuit" where
  "circuit_failure threshold cooldown now (Closed n) =
     (if Suc n \<ge> threshold then Open (now + cooldown) else Closed (Suc n))"
| "circuit_failure threshold cooldown now (Open u) = Open (now + cooldown)"

text \<open>
  The steps of calls that run under the lock, in any order of overlapping calls: the guard of a call (or of a readiness
  or health check) at some time, the record of a success, and the record of a failure at some time.
\<close>

datatype 'e circuit_step = Checked real | Succeeded | Failed real 'e

fun step_time_ok :: "'e circuit_step \<Rightarrow> bool" where
  "step_time_ok (Checked t) = (0 \<le> t)"
| "step_time_ok Succeeded = True"
| "step_time_ok (Failed t e) = (0 \<le> t)"

text \<open>
  The reference: the times of the failures that count, since the last success and since the last guard that
  found an open circuit whose cooldown was over. The circuit is open when they reach the threshold, until the
  cooldown after the last of them.
\<close>

fun recent_step :: "nat \<Rightarrow> real \<Rightarrow> ('e \<Rightarrow> bool) \<Rightarrow> 'e circuit_step \<Rightarrow> real list \<Rightarrow> real list" where
  "recent_step threshold cooldown counts (Checked t) ts =
     (if length ts \<ge> threshold \<and> last ts + cooldown \<le> t then [] else ts)"
| "recent_step threshold cooldown counts Succeeded ts = []"
| "recent_step threshold cooldown counts (Failed t e) ts = (if counts e then ts @ [t] else ts)"

definition recent_failures :: "nat \<Rightarrow> real \<Rightarrow> ('e \<Rightarrow> bool) \<Rightarrow> 'e circuit_step list \<Rightarrow> real list" where
  "recent_failures threshold cooldown counts hs = fold (recent_step threshold cooldown counts) hs []"

definition circuit_after :: "nat \<Rightarrow> real \<Rightarrow> real list \<Rightarrow> circuit" where
  "circuit_after threshold cooldown ts =
     (if length ts \<ge> threshold then Open (last ts + cooldown) else Closed (length ts))"

fun failure_time :: "('e \<Rightarrow> bool) \<Rightarrow> 'e circuit_step \<Rightarrow> real option" where
  "failure_time counts (Failed t e) = (if counts e then Some t else None)"
| "failure_time counts h = None"

text \<open>
  The reference read declaratively: the recent failures are those of the end of the history that follows the
  last reset, and a reset is a success or a guard after the cooldown of an open circuit.
\<close>

lemma recent_failures_since:
  "\<exists>pre post. hs = pre @ post \<and> recent_failures n d counts hs = List.map_filter (failure_time counts) post \<and> Succeeded \<notin> set post \<and>
     (pre = [] \<or> last pre = Succeeded \<or>
      (\<exists>t. last pre = Checked t \<and> (let ts = recent_failures n d counts (butlast pre) in length ts \<ge> n \<and> last ts + d \<le> t)))"
proof (induction hs rule: rev_induct)
  case Nil
  then show ?case by (simp add: recent_failures_def map_filter_simps)
next
  case (snoc h hs)
  have step: "recent_failures n d counts (hs @ [h]) = recent_step n d counts h (recent_failures n d counts hs)"
    by (simp add: recent_failures_def)
  show ?case
  proof (cases "h = Succeeded \<or> (\<exists>t. h = Checked t \<and> length (recent_failures n d counts hs) \<ge> n \<and> last (recent_failures n d counts hs) + d \<le> t)")
    case True
    then show ?thesis
      by (intro exI [of _ "hs @ [h]"] exI [of _ "[]"]) (auto simp: step map_filter_simps Let_def)
  next
    case False
    obtain pre post where p: "hs = pre @ post" "recent_failures n d counts hs = List.map_filter (failure_time counts) post"
      "Succeeded \<notin> set post" "pre = [] \<or> last pre = Succeeded \<or>
        (\<exists>t. last pre = Checked t \<and> (let ts = recent_failures n d counts (butlast pre) in length ts \<ge> n \<and> last ts + d \<le> t))"
      using snoc.IH by blast
    have "recent_failures n d counts (hs @ [h]) = List.map_filter (failure_time counts) (post @ [h])"
      unfolding step using False p(2) by (cases h) (auto simp: map_filter_def)
    then show ?thesis using p False by (intro exI [of _ pre] exI [of _ "post @ [h]"]) auto
  qed
qed

text \<open>
  An implementation: states with an invariant and an abstraction, and operations that refine the
  three operations of the contract. A failure counts or does not count; clock readings are not
  negative.
\<close>

locale circuit_breaker =
  fixes check :: "real \<Rightarrow> 's \<Rightarrow> bool \<times> 's"
    and success :: "'s \<Rightarrow> 's"
    and failure :: "'c \<Rightarrow> real \<Rightarrow> 'e \<Rightarrow> 's \<Rightarrow> 's"
    and valid :: "'c \<Rightarrow> bool"
    and threshold :: "'c \<Rightarrow> nat"
    and cooldown :: "'c \<Rightarrow> real"
    and counts :: "'e \<Rightarrow> bool"
    and invariant :: "'c \<Rightarrow> 's \<Rightarrow> bool"
    and abstract :: "'s \<Rightarrow> circuit"
  assumes check_refines: "valid c \<Longrightarrow> invariant c s \<Longrightarrow> 0 \<le> now \<Longrightarrow>
      fst (check now s) = fst (circuit_check now (abstract s)) \<and>
      abstract (snd (check now s)) = snd (circuit_check now (abstract s)) \<and> invariant c (snd (check now s))"
    and success_refines: "valid c \<Longrightarrow> abstract (success s) = Closed 0 \<and> invariant c (success s)"
    and failure_refines: "valid c \<Longrightarrow> invariant c s \<Longrightarrow> 0 \<le> now \<Longrightarrow> counts e \<Longrightarrow>
      abstract (failure c now e s) = circuit_failure (threshold c) (cooldown c) now (abstract s) \<and>
      invariant c (failure c now e s)"
    and failure_skips: "\<not> counts e \<Longrightarrow> failure c now e s = s"
begin

definition step :: "'c \<Rightarrow> 'e circuit_step \<Rightarrow> 's \<Rightarrow> 's" where
  "step c h s = (case h of Checked t \<Rightarrow> snd (check t s) | Succeeded \<Rightarrow> success s | Failed t e \<Rightarrow> failure c t e s)"

lemma steps_abstract:
  assumes "valid c" "threshold c > 0" "list_all step_time_ok hs"
  shows "invariant c (fold (step c) hs (success s)) \<and>
    abstract (fold (step c) hs (success s)) = circuit_after (threshold c) (cooldown c) (recent_failures (threshold c) (cooldown c) counts hs)"
  using assms(3)
proof (induction hs rule: rev_induct)
  case Nil
  then show ?case using success_refines [OF assms(1)] assms(2) by (simp add: recent_failures_def circuit_after_def)
next
  case (snoc h hs)
  let ?s = "fold (step c) hs (success s)" and ?ts = "recent_failures (threshold c) (cooldown c) counts hs"
  have IH: "invariant c ?s" "abstract ?s = circuit_after (threshold c) (cooldown c) ?ts" and t: "step_time_ok h"
    using snoc by auto
  have "invariant c (step c h ?s) \<and>
      abstract (step c h ?s) = circuit_after (threshold c) (cooldown c) (recent_step (threshold c) (cooldown c) counts h ?ts)"
  proof (cases h)
    case (Checked u)
    then show ?thesis
      using check_refines [OF assms(1) IH(1), of u] t assms(2) by (auto simp: step_def IH(2) circuit_after_def)
  next
    case Succeeded
    then show ?thesis using success_refines [OF assms(1)] assms(2) by (simp add: step_def circuit_after_def)
  next
    case (Failed u e)
    show ?thesis
    proof (cases "counts e")
      case True
      then show ?thesis
        using failure_refines [OF assms(1) IH(1) _ True, of u] t Failed by (auto simp: step_def IH(2) circuit_after_def)
    qed (simp add: step_def Failed IH failure_skips)
  qed
  then show ?case by (simp add: recent_failures_def)
qed

lemma refused_iff:
  assumes "valid c" "threshold c > 0" "list_all step_time_ok hs" "0 \<le> now"
  shows "fst (check now (fold (step c) hs (success s))) \<longleftrightarrow>
    (let ts = recent_failures (threshold c) (cooldown c) counts hs in
     length ts \<ge> threshold c \<and> now < last ts + cooldown c)"
  using steps_abstract [OF assms(1-3), of s] check_refines [OF assms(1) _ assms(4)]
  by (auto simp: circuit_after_def Let_def)

end

text \<open>The breaker of the code implements the contract.\<close>

definition cfg_ok :: "breaker_cfg \<Rightarrow> bool" where
  "cfg_ok cfg = (1 \<le> bc_failure_threshold cfg \<and> 0 < bc_cooldown_seconds cfg)"

definition breaker_inv :: "breaker_cfg \<Rightarrow> breaker \<Rightarrow> bool" where
  "breaker_inv cfg b =
     (0 \<le> consecutive_failures b \<and> 0 \<le> open_until b \<and>
      (open_until b = 0 \<longleftrightarrow> consecutive_failures b < bc_failure_threshold cfg))"

definition circuit_of :: "breaker \<Rightarrow> circuit" where
  "circuit_of b = (if open_until b \<le> 0 then Closed (nat (consecutive_failures b)) else Open (open_until b))"

interpretation brk: circuit_breaker is_open_locked record_success record_failure cfg_ok
  "\<lambda>cfg. nat (bc_failure_threshold cfg)" bc_cooldown_seconds pe_retryable breaker_inv circuit_of
  by unfold_locales
    (auto simp: is_open_locked_def record_success_def record_failure_def cfg_ok_def breaker_inv_def circuit_of_def Let_def)

section \<open>When calls are refused\<close>

lemma make_breaker_cfg_ok:
  assumes "make_breaker_cfg t c m p e k = Inr cfg"
  shows "cfg_ok cfg" and "0 \<le> bc_max_tool_calls cfg"
  using assms
  by (auto simp: make_breaker_cfg_def int_in_def cfg_ok_def split: option.split_asm pyval.split_asm if_split_asm)

text \<open>The state of the breaker after a history of steps, and the steps that a call adds to the history.\<close>

definition breaker_step :: "breaker_cfg \<Rightarrow> provider_error circuit_step \<Rightarrow> breaker \<Rightarrow> breaker" where
  "breaker_step cfg h b =
     (case h of
        Checked t \<Rightarrow> snd (is_open_locked t b)
      | Succeeded \<Rightarrow> record_success b
      | Failed t e \<Rightarrow> record_failure cfg t e b)"

definition after_steps :: "breaker_cfg \<Rightarrow> provider_error circuit_step list \<Rightarrow> breaker" where
  "after_steps cfg hs = fold (breaker_step cfg) hs new_breaker"

definition outcome_steps :: "real \<Rightarrow> 'r outcome \<Rightarrow> provider_error circuit_step list" where
  "outcome_steps later out = (case out of Returned r \<Rightarrow> [Succeeded] | Raised e \<Rightarrow> [Failed later e] | _ \<Rightarrow> [])"

lemma new_breaker_success: "record_success b = new_breaker"
  by (simp add: record_success_def new_breaker_def)

lemma breaker_step_brk: "breaker_step cfg = brk.step cfg"
  by (simp add: fun_eq_iff breaker_step_def brk.step_def)

lemma after_steps_brk: "after_steps cfg hs = fold (brk.step cfg) hs (record_success new_breaker)"
  by (simp only: after_steps_def breaker_step_brk new_breaker_success [of new_breaker])

lemma after_steps_append: "after_steps cfg (hs @ hs') = fold (breaker_step cfg) hs' (after_steps cfg hs)"
  by (simp add: after_steps_def)

lemma record_outcome_steps: "snd (record_outcome cfg later out b) = fold (breaker_step cfg) (outcome_steps later out) b"
  by (simp add: record_outcome_def outcome_steps_def breaker_step_def split: outcome.split)

lemma guard_open:
  "fst (is_open_locked now b) \<Longrightarrow>
     guard op uuid cid now b = (Inl (provider_error Unavailable op (correlation uuid cid) 0 None), b)"
  by (auto simp: guard_def is_open_locked_def split: if_splits)

lemma guard_closed:
  "\<not> fst (is_open_locked now b) \<Longrightarrow>
     guard op uuid cid now b = (Inr (correlation uuid cid), snd (is_open_locked now b))"
  by (simp add: guard_def Let_def case_prod_beta)

text \<open>C25. The circuit opens and closes exactly. After any history of guards, successes and failures of calls at
  non-negative clock readings, in any order of overlapping calls, a completion within its budgets is refused, without a call of the provider and without a change of state, if and only
  if the retryable failures since the last reset reach the threshold and the cooldown since the last of them has not
  passed, where a reset is a success or a guard that comes after the cooldown of an open circuit; permanent
  errors never count. Otherwise the provider is called. In both cases the call extends the history by its own guard
  and the record of its outcome.\<close>

theorem circuit_opens_exactly:
  assumes cfg: "make_breaker_cfg t0 c0 m0 p0 e0 k0 = Inr cfg"
    and times: "list_all step_time_ok hs" "0 \<le> now"
    and budget: "validate_prompt cfg mm ms = Inr ()" "validate_tools cfg tools = Inr ()"
  shows "let ts = recent_failures (nat (bc_failure_threshold cfg)) (bc_cooldown_seconds cfg) pe_retryable hs;
      s = after_steps cfg hs; c = correlation uuid cid in
    if int (length ts) \<ge> bc_failure_threshold cfg \<and> now < last ts + bc_cooldown_seconds cfg
    then chat_completion cfg provider uuid now later mm ms tools cid s =
        (Inl (provider_error Unavailable Chat_completion c 0 None), s) \<and>
      after_steps cfg (hs @ [Checked now]) = s
    else chat_completion cfg provider uuid now later mm ms tools cid s =
      (rbind (fst (record_outcome cfg later (provider c) s)) (validate_result_tool_budget cfg),
       after_steps cfg (hs @ Checked now # outcome_steps later (provider c)))"
proof -
  have ok: "cfg_ok cfg" using make_breaker_cfg_ok(1) [OF cfg] .
  then have th: "nat (bc_failure_threshold cfg) > 0" by (simp add: cfg_ok_def)
  define ts where "ts = recent_failures (nat (bc_failure_threshold cfg)) (bc_cooldown_seconds cfg) pe_retryable hs"
  define s where "s = after_steps cfg hs"
  have iff: "fst (is_open_locked now s) \<longleftrightarrow>
      int (length ts) \<ge> bc_failure_threshold cfg \<and> now < last ts + bc_cooldown_seconds cfg"
    using brk.refused_iff [OF ok th times, of new_breaker] by (simp add: s_def ts_def after_steps_brk Let_def nat_le_iff)
  have kept: "fst (is_open_locked now s) \<Longrightarrow> snd (is_open_locked now s) = s"
    by (auto simp: is_open_locked_def split: if_splits)
  have same: "fst (record_outcome cfg later out b) = fst (record_outcome cfg later out s)" for out :: "'a completion outcome" and b
    by (simp add: record_outcome_def split: outcome.split)
  show ?thesis
    unfolding ts_def [symmetric] s_def [symmetric] Let_def iff [symmetric] after_steps_append
    using budget kept same [of "provider (correlation uuid cid)" "snd (is_open_locked now s)"]
    by (simp add: chat_completion_def guard_open guard_closed Let_def breaker_step_def case_prod_beta record_outcome_steps)
qed

text \<open>
  Every other operation of the facade acts on the breaker through such steps only, so the histories above are the
  histories of all its calls.
\<close>

lemma facade_steps:
  "\<exists>hs. snd (get_embedding cfg provider uuid now later txt_arg cid b) = fold (breaker_step cfg) hs b \<and> set hs \<subseteq> insert (Checked now) (set (outcome_steps later (provider (correlation uuid cid))))"
  "snd (readiness_check now b) = fold (breaker_step cfg) [Checked now] b"
  "snd (health_check probe now b) = fold (breaker_step cfg) [Checked now] b"
proof -
  show "\<exists>hs. snd (get_embedding cfg provider uuid now later txt_arg cid b) = fold (breaker_step cfg) hs b \<and> set hs \<subseteq> insert (Checked now) (set (outcome_steps later (provider (correlation uuid cid))))"
  proof (cases "(case txt_arg of PStr s \<Rightarrow> strip s = [] \<or> int (length s) > bc_max_embedding_chars cfg | _ \<Rightarrow> True)")
    case True
    then show ?thesis by (intro exI [of _ "[]"]) (simp add: get_embedding_def)
  next
    case False
    show ?thesis
    proof (cases "fst (is_open_locked now b)")
      case True
      then show ?thesis using False by (intro exI [of _ "[]"]) (simp add: get_embedding_def guard_open)
    next
      case closed: False
      show ?thesis
        using False closed
        by (intro exI [of _ "Checked now # outcome_steps later (provider (correlation uuid cid))"])
           (simp add: get_embedding_def guard_closed record_outcome_steps breaker_step_def)
    qed
  qed
qed (simp_all add: readiness_check_def health_check_def breaker_step_def case_prod_beta)

lemma stream_steps:
  "\<exists>hs. snd (snd (chat_completion_stream cfg provider uuid failed now later mm ms tools cid b)) = fold (breaker_step cfg) hs b"
proof -
  have finish: "\<exists>hs. snd (stream_end cfg c later failed r u) = fold (breaker_step cfg) hs u" for c and r :: "call_error + 'a stream_chunk option" and u
  proof (cases r)
    case (Inl e)
    show ?thesis
    proof (cases "failed \<and> r \<noteq> Inl CancelledError \<or> \<not> (\<exists>x. e = ProviderError x)")
      case True
      then show ?thesis using Inl by (intro exI [of _ "[]"]) (auto simp: stream_end_def split: call_error.split)
    next
      case False
      then obtain x where "e = ProviderError x" by blast
      then show ?thesis using Inl False by (intro exI [of _ "[Failed later x]"]) (auto simp: stream_end_def breaker_step_def)
    qed
  next
    case (Inr k)
    show ?thesis
      using Inr by (intro exI [of _ "if failed then [] else [Succeeded]"]) (simp add: stream_end_def breaker_step_def)
  qed
  show ?thesis
  proof (cases "rbind (validate_prompt cfg mm ms) (\<lambda>_. validate_tools cfg tools)")
    case (Inl e)
    then show ?thesis by (intro exI [of _ "[]"]) (simp add: chat_completion_stream_def)
  next
    case ok: (Inr u)
    show ?thesis
    proof (cases "fst (is_open_locked now b)")
      case True
      then show ?thesis by (intro exI [of _ "[]"]) (simp add: chat_completion_stream_def ok guard_open)
    next
      case False
      define c where "c = correlation uuid cid"
      obtain ys r where l: "stream_loop cfg c None [] (provider c) = (ys, r)" by (cases "stream_loop cfg c None [] (provider c)")
      obtain hs where "snd (stream_end cfg c later failed r (snd (is_open_locked now b))) = fold (breaker_step cfg) hs (snd (is_open_locked now b))"
        using finish by blast
      then show ?thesis
        using False
        by (intro exI [of _ "Checked now # hs"])
           (simp add: chat_completion_stream_def ok guard_closed c_def [symmetric] l breaker_step_def case_prod_beta split: sum.split option.split)
    qed
  qed
qed

lemma completion_steps:
  "\<exists>hs. snd (chat_completion cfg provider uuid now later mm ms tools cid b) = fold (breaker_step cfg) hs b"
proof (cases "rbind (validate_prompt cfg mm ms) (\<lambda>_. validate_tools cfg tools)")
  case (Inl e)
  then show ?thesis by (intro exI [of _ "[]"]) (simp add: chat_completion_def)
next
  case ok: (Inr u)
  show ?thesis
  proof (cases "fst (is_open_locked now b)")
    case True
    then show ?thesis by (intro exI [of _ "[]"]) (simp add: chat_completion_def ok guard_open)
  next
    case False
    then show ?thesis
      by (intro exI [of _ "Checked now # outcome_steps later (provider (correlation uuid cid))"])
         (simp add: chat_completion_def ok guard_closed case_prod_beta record_outcome_steps breaker_step_def)
  qed
qed

lemma fallback_steps:
  "\<exists>hs. snd (stream_fallback cfg provider uuid now now' later mm ms tools cid b) = fold (breaker_step cfg) hs b"
proof (cases "rbind (validate_prompt cfg mm ms) (\<lambda>_. validate_tools cfg tools)")
  case (Inl e)
  then show ?thesis by (intro exI [of _ "[]"]) (simp add: stream_fallback_def)
next
  case ok: (Inr u)
  show ?thesis
  proof (cases "fst (is_open_locked now b)")
    case True
    then show ?thesis by (intro exI [of _ "[]"]) (simp add: stream_fallback_def ok guard_open)
  next
    case False
    obtain hs where "snd (chat_completion cfg provider uuid now' later mm ms tools (PStr (correlation uuid cid)) (snd (is_open_locked now b))) =
        fold (breaker_step cfg) hs (snd (is_open_locked now b))"
      using completion_steps by blast
    then show ?thesis
      using False by (intro exI [of _ "Checked now # hs"]) (simp add: stream_fallback_def ok guard_closed case_prod_beta breaker_step_def)
  qed
qed

section \<open>What a stream delivers\<close>

lemma stream_loop_terminal:
  "stream_loop cfg c (Some k) seen es = (ys, Inr r) \<Longrightarrow> es = [] \<and> ys = [] \<and> r = Some k"
  by (cases es rule: list.exhaust; simp; cases "hd es"; auto)

lemma stream_loop_ok:
  assumes "stream_loop cfg c None seen es = (ys, Inr r)" and "distinct seen" "int (length seen) \<le> bc_max_tool_calls cfg"
  shows "\<exists>cs. es = map SChunk cs \<and> ys @ (case r of None \<Rightarrow> [] | Some k \<Rightarrow> [k]) = cs \<and>
    list_all (\<lambda>k. \<not> sc_finish k) ys \<and> (\<forall>k. r = Some k \<longrightarrow> sc_finish k) \<and>
    int (card (set seen \<union> (\<Union>k\<in>set cs. set (sc_indices k)))) \<le> bc_max_tool_calls cfg"
  using assms
proof (induction es arbitrary: seen ys)
  case Nil
  then show ?case by (auto simp: distinct_card)
next
  case (Cons ev es)
  then obtain k where ev: "ev = SChunk k" by (cases ev) auto
  let ?seen = "remdups (sc_indices k @ seen)"
  have lim: "int (length ?seen) \<le> bc_max_tool_calls cfg"
    using Cons.prems(1) by (auto simp: ev Let_def split: if_splits)
  have dist: "distinct ?seen" by simp
  show ?case
  proof (cases "sc_finish k")
    case True
    then have "stream_loop cfg c (Some k) ?seen es = (ys, Inr r)"
      using Cons.prems(1) lim by (simp add: ev Let_def)
    then have "es = []" "ys = []" "r = Some k" using stream_loop_terminal by blast+
    moreover have "int (card (set ?seen)) \<le> bc_max_tool_calls cfg" using lim distinct_card [OF dist] by simp
    ultimately show ?thesis using True ev by (intro exI [of _ "[k]"]) (simp add: Un_commute)
  next
    case False
    then obtain ys' where rest: "stream_loop cfg c None ?seen es = (ys', Inr r)" and ys: "ys = k # ys'"
      using Cons.prems(1) lim by (auto simp: ev Let_def split: prod.splits)
    obtain cs where cs: "es = map SChunk cs" "ys' @ (case r of None \<Rightarrow> [] | Some k \<Rightarrow> [k]) = cs"
      "list_all (\<lambda>k. \<not> sc_finish k) ys'" "\<forall>k. r = Some k \<longrightarrow> sc_finish k"
      "int (card (set ?seen \<union> (\<Union>k\<in>set cs. set (sc_indices k)))) \<le> bc_max_tool_calls cfg"
      using Cons.IH [OF rest dist lim] by blast
    have "set ?seen \<union> (\<Union>k\<in>set cs. set (sc_indices k)) = set seen \<union> (\<Union>k\<in>set (k # cs). set (sc_indices k))" by auto
    then show ?thesis
      using cs False ev ys by (intro exI [of _ "k # cs"]) simp
  qed
qed

lemma stream_end_ok:
  "stream_end cfg c later failed r b = (Inr k, b') \<Longrightarrow> r = Inr k \<and> \<not> failed \<and> b' = new_breaker"
  by (auto simp: stream_end_def new_breaker_success split: if_splits sum.splits call_error.splits)

text \<open>A stream that ends without an error delivered exactly the chunks of the provider, in order
  and without loss; only the last one may carry a finish reason; together they use at most
  the allowed number of tool-call indices; the cleanup succeeded and the circuit is reset.\<close>

theorem stream_complete:
  assumes "make_breaker_cfg t0 c0 m0 p0 e0 k0 = Inr cfg"
    and "chat_completion_stream cfg provider uuid failed now later mm ms tools cid b = (ys, Inr (), b')"
  shows "provider (correlation uuid cid) = map SChunk ys \<and> list_all (\<lambda>k. \<not> sc_finish k) (butlast ys) \<and>
    int (card (\<Union>k\<in>set ys. set (sc_indices k))) \<le> bc_max_tool_calls cfg \<and>
    \<not> failed \<and> b' = new_breaker"
proof -
  obtain b1 zs q r where l: "stream_loop cfg (correlation uuid cid) None [] (provider (correlation uuid cid)) = (zs, q)"
    and e: "stream_end cfg (correlation uuid cid) later failed q b1 = (Inr r, b')"
    and ys': "r = None \<and> ys = zs \<or> (\<exists>k. r = Some k \<and> ys = zs @ [k])"
    using assms(2) guard_open [of now b Chat_completion uuid cid] guard_closed [of now b Chat_completion uuid cid]
    by (cases "fst (is_open_locked now b)")
       (auto simp: chat_completion_stream_def Let_def split: sum.split_asm prod.split_asm option.split_asm)
  have ys: "ys = zs @ (case r of None \<Rightarrow> [] | Some k \<Rightarrow> [k])" using ys' by auto
  have q: "q = Inr r" using stream_end_ok [OF e] by simp
  have "0 \<le> bc_max_tool_calls cfg" using make_breaker_cfg_ok(2) [OF assms(1)] .
  then obtain cs where "provider (correlation uuid cid) = map SChunk cs" "ys = cs"
    "list_all (\<lambda>k. \<not> sc_finish k) zs" "int (card (\<Union>k\<in>set cs. set (sc_indices k))) \<le> bc_max_tool_calls cfg"
    using stream_loop_ok [OF l [unfolded q]] unfolding ys by fastforce
  moreover have "list_all (\<lambda>k. \<not> sc_finish k) (butlast ys)"
    using \<open>list_all (\<lambda>k. \<not> sc_finish k) zs\<close> ys by (auto simp: list_all_iff split: option.splits dest: in_set_butlastD)
  ultimately show ?thesis using stream_end_ok [OF e] by simp
qed

section \<open>Examples\<close>

definition cfg_example :: breaker_cfg where
  "cfg_example = \<lparr>bc_failure_threshold = 2, bc_cooldown_seconds = 30, bc_max_messages = 64,
     bc_max_prompt_chars = 100000, bc_max_embedding_chars = 1000000, bc_max_tool_calls = 32\<rparr>"

lemma cfg_example_made:
  "make_breaker_cfg (PInt 2) (PFloat (Fin 30)) (PInt 64) (PInt 100000) (PInt 1000000) (PInt 32) = Inr cfg_example"
  by (simp add: make_breaker_cfg_def int_in_def cfg_example_def)

definition error_example :: "provider_code \<Rightarrow> provider_error" where
  "error_example c = \<lparr>pe_code = c, pe_operation = Chat_completion, pe_correlation_id = ''x'', pe_attempts = 1,
     pe_retryable = List.member RETRYABLE_ERROR_CODES c, pe_status = None\<rparr>"

text \<open>
  Threshold 2 and cooldown 30: two retryable failures open the circuit, and a call at 20 is refused. A guard at
  40 ends the opening, so that one more failure at 41 does not refuse a call at 42.
\<close>

theorem circuit_opens_exactly_witness:
  "let answer = (\<lambda>c. Returned \<lparr>co_tool_calls = None, co_body = ()\<rparr>);
       call = (\<lambda>now hs. fst (chat_completion cfg_example answer ''u'' now now (PromptSeq [Some ''hi'']) NoPrompt NoTools PNone
         (after_steps cfg_example hs)));
       hs = [Checked 0, Failed 1 (error_example Timeout), Checked 1, Failed 2 (error_example Invalid_json), Checked 2,
         Failed 3 (error_example Server_error)]
   in call 20 hs = Inl (provider_error Unavailable Chat_completion ''u'' 0 None) \<and>
      call 42 (hs @ [Checked 40, Failed 41 (error_example Timeout)]) = Inr \<lparr>co_tool_calls = None, co_body = ()\<rparr>"
proof -
  let ?hs = "[Checked 0, Failed 1 (error_example Timeout), Checked 1, Failed 2 (error_example Invalid_json), Checked 2,
         Failed 3 (error_example Server_error)]"
  let ?answer = "\<lambda>c. Returned \<lparr>co_tool_calls = None, co_body = ()\<rparr>"
  note budget = validate_prompt_def validate_tools_def cfg_example_def error_example_def RETRYABLE_ERROR_CODES_def
      correlation_def recent_failures_def Let_def record_outcome_def validate_result_tool_budget_def
  have "fst (chat_completion cfg_example ?answer ''u'' 20 20 (PromptSeq [Some ''hi'']) NoPrompt NoTools PNone (after_steps cfg_example ?hs)) =
      Inl (provider_error Unavailable Chat_completion ''u'' 0 None)"
    using circuit_opens_exactly [OF cfg_example_made, of ?hs 20 "PromptSeq [Some ''hi'']" NoPrompt NoTools "''u''" PNone ?answer 20]
    by (simp add: budget)
  moreover have "fst (chat_completion cfg_example ?answer ''u'' 42 42 (PromptSeq [Some ''hi'']) NoPrompt NoTools PNone
      (after_steps cfg_example (?hs @ [Checked 40, Failed 41 (error_example Timeout)]))) = Inr \<lparr>co_tool_calls = None, co_body = ()\<rparr>"
    using circuit_opens_exactly [OF cfg_example_made, of "?hs @ [Checked 40, Failed 41 (error_example Timeout)]" 42
        "PromptSeq [Some ''hi'']" NoPrompt NoTools "''u''" PNone ?answer 42]
    by (simp add: budget)
  ultimately show ?thesis unfolding Let_def by blast
qed

definition chunk_example :: "bool \<Rightarrow> unit stream_chunk" where
  "chunk_example fin = \<lparr>sc_indices = [], sc_finish = fin, sc_body = ()\<rparr>"

theorem stream_complete_witness:
  "\<exists>ys b'. chat_completion_stream cfg_example (\<lambda>c. map SChunk [chunk_example False, chunk_example True]) ''u'' False 1 2
      (PromptSeq [Some ''hi'']) NoPrompt NoTools PNone \<lparr>consecutive_failures = 1, open_until = 0\<rparr> = (ys, Inr (), b') \<and>
    list_all (\<lambda>k. \<not> sc_finish k) (butlast ys) \<and> b' = new_breaker"
proof -
  obtain b' where run: "chat_completion_stream cfg_example (\<lambda>c. map SChunk [chunk_example False, chunk_example True]) ''u''
      False 1 2 (PromptSeq [Some ''hi'']) NoPrompt NoTools PNone \<lparr>consecutive_failures = 1, open_until = 0\<rparr> =
      ([chunk_example False, chunk_example True], Inr (), b')"
    by (simp add: chat_completion_stream_def validate_prompt_def validate_tools_def cfg_example_def guard_def
        is_open_locked_def correlation_def Let_def chunk_example_def stream_end_def)
  show ?thesis
    using run stream_complete [OF cfg_example_made run] by blast
qed

end
