(* ===== verification/Fusion.thy ===== *)
theory Fusion
  imports Prelude "HOL-Library.Multiset"
begin

text \<open>
  Reciprocal rank fusion (\<open>packages/retrieval/src/rick_retrieval/fusion.py\<close>). A result row is its
  chunk id, its scores and its remaining fields; a value of a field is a dynamic value or a
  collection (a list or a dictionary, by its length). The working dictionary is an association
  list in insertion order, keyed by the chunk id.
\<close>

section \<open>Rows and provenance\<close>

datatype field_value = Val pyval | Coll nat

type_synonym row_fields = "(string \<times> field_value) list"

text \<open>
  \<open>sparse_score\<close>: the key may be missing (\<open>None\<close>) or null (\<open>Some None\<close>); a null
  \<open>score\<close> and a missing one act alike.
\<close>

record result_row =
  rr_chunk_id :: string
  rr_score :: "real option"
  rr_sparse_score :: "real option option"
  rr_fields :: row_fields

record fused =
  fu_chunk_id :: string
  fu_score :: real
  fu_dense_score :: real
  fu_sparse_score :: real
  fu_fields :: row_fields

definition RRF_K :: int where "RRF_K = 60"

fun has_value :: "field_value \<Rightarrow> bool" where
  "has_value (Val PNone) = False"
| "has_value (Val (PStr s)) = (s \<noteq> [])"
| "has_value (Val v) = True"
| "has_value (Coll n) = (n > 0)"

text \<open>\<open>bool(value)\<close>\<close>

fun truthy :: "field_value \<Rightarrow> bool" where
  "truthy (Val PNone) = False"
| "truthy (Val (PBool b)) = b"
| "truthy (Val (PInt n)) = (n \<noteq> 0)"
| "truthy (Val (PFloat x)) = (x \<noteq> Fin 0)"
| "truthy (Val (PStr s)) = (s \<noteq> [])"
| "truthy (Val POther) = True"
| "truthy (Coll n) = (n > 0)"

definition get_field :: "row_fields \<Rightarrow> string \<Rightarrow> field_value" where
  "get_field d k = (case map_of d k of None \<Rightarrow> Val PNone | Some v \<Rightarrow> v)"

definition set_default :: "string \<Rightarrow> field_value \<Rightarrow> row_fields \<Rightarrow> row_fields" where
  "set_default k v d = (if map_of d k = None then AList.update k v d else d)"

definition merge_provenance :: "row_fields \<Rightarrow> row_fields \<Rightarrow> row_fields" where
  "merge_provenance target result =
     fold (\<lambda>(k, v) t. if \<not> has_value (get_field t k) \<and> has_value v then AList.update k v t else t) result target"

definition or_value :: "field_value \<Rightarrow> field_value \<Rightarrow> field_value" where
  "or_value a b = (if truthy a then a else b)"

definition finalize_provenance :: "row_fields \<Rightarrow> row_fields" where
  "finalize_provenance item =
     (let value = get_field item ''page_start'';
          item1 = (if \<not> has_value value then AList.update ''page_start'' (get_field item ''page_hint'') item else item);
          page = get_field item1 ''page_start'';
          item2 = (if \<not> has_value (get_field item1 ''page_end'') then AList.update ''page_end'' page item1 else item1);
          source = get_field item2 ''source'';
          named = or_value (get_field item2 ''source_title'')
                    (or_value (get_field item2 ''document_filename'') (Val (PStr [])));
          item3 = (if \<not> has_value source then AList.update ''source'' named item2 else item2);
          value3 = get_field item3 ''source'';
          item4 = (if \<not> has_value (get_field item3 ''document_filename'')
                   then AList.update ''document_filename'' (or_value value3 (Val (PStr []))) item3 else item3)
      in if \<not> has_value (get_field item4 ''title'')
         then AList.update ''title''
                (or_value (get_field item4 ''source_title'') (or_value value3 (Val (PStr [])))) item4
         else item4)"

definition blank_fields :: "row_fields \<Rightarrow> row_fields" where
  "blank_fields d =
     (let d1 = set_default ''text'' (Val (PStr [])) (set_default ''workspace_id'' (Val PNone)
                 (set_default ''document_id'' (Val PNone) d));
          d2 = set_default ''page_start'' (get_field d1 ''page_hint'') d1;
          d3 = fold (\<lambda>k. set_default k (Val PNone))
                 [''page_end'', ''source'', ''title'', ''document_filename'', ''section'', ''checksum''] d2
      in if \<not> truthy (get_field d3 ''collection_id'')
         then AList.update ''collection_id'' (Val (PStr ''rag_phase0'')) d3 else d3)"

definition blank :: "result_row \<Rightarrow> fused" where
  "blank r = \<lparr>fu_chunk_id = rr_chunk_id r, fu_score = 0, fu_dense_score = 0, fu_sparse_score = 0,
     fu_fields = blank_fields (rr_fields r)\<rparr>"

section \<open>Fusion\<close>

type_synonym scores = "(string \<times> fused) list"

text \<open>\<open>1.0 / (k + rank + 1)\<close>, which raises \<open>ZeroDivisionError\<close> for the denominator 0.\<close>

datatype fusion_error = ZeroDivisionError

definition rank_score :: "int \<Rightarrow> nat \<Rightarrow> fusion_error + real" where
  "rank_score k rank =
     (if k + int rank + 1 = 0 then Inl ZeroDivisionError else Inr (1 / of_int (k + int rank + 1)))"

definition or_zero :: "real option \<Rightarrow> real" where
  "or_zero x = (case x of None \<Rightarrow> 0 | Some y \<Rightarrow> y)"

definition dense_step :: "int \<Rightarrow> nat \<Rightarrow> result_row \<Rightarrow> scores \<Rightarrow> fusion_error + scores" where
  "dense_step k rank r scores =
     rbind (rank_score k rank) (\<lambda>score.
     let item = (case map_of scores (rr_chunk_id r) of
                   None \<Rightarrow> blank r
                 | Some i \<Rightarrow> i\<lparr>fu_fields := merge_provenance (fu_fields i) (rr_fields r)\<rparr>)
     in Inr (AList.update (rr_chunk_id r)
          (item\<lparr>fu_score := fu_score item + score,
                fu_dense_score := max (fu_dense_score item) (or_zero (rr_score r))\<rparr>) scores))"

definition sparse_step :: "int \<Rightarrow> nat \<Rightarrow> result_row \<Rightarrow> scores \<Rightarrow> fusion_error + scores" where
  "sparse_step k rank r scores =
     rbind (rank_score k rank) (\<lambda>score.
     let item = (case map_of scores (rr_chunk_id r) of
                   Some i \<Rightarrow> i\<lparr>fu_fields := merge_provenance (fu_fields i) (rr_fields r), fu_score := fu_score i + score\<rparr>
                 | None \<Rightarrow> (blank r)\<lparr>fu_score := score\<rparr>);
         given = (case rr_sparse_score r of None \<Rightarrow> rr_score r | Some s \<Rightarrow> s)
     in Inr (AList.update (rr_chunk_id r)
          (item\<lparr>fu_sparse_score := max (fu_sparse_score item) (or_zero given)\<rparr>) scores))"

fun fuse_leg ::
  "(nat \<Rightarrow> result_row \<Rightarrow> scores \<Rightarrow> fusion_error + scores) \<Rightarrow> nat \<Rightarrow> result_row list \<Rightarrow> scores \<Rightarrow> fusion_error + scores" where
  "fuse_leg step rank [] scores = Inr scores"
| "fuse_leg step rank (r # rs) scores = rbind (step rank r scores) (fuse_leg step (Suc rank) rs)"

text \<open>\<open>sorted(..., reverse=True)\<close> is stable: equal scores stay in insertion order.\<close>

definition rrf_fusion :: "result_row list \<Rightarrow> result_row list \<Rightarrow> int \<Rightarrow> fusion_error + fused list" where
  "rrf_fusion dense sparse k =
     rbind (fuse_leg (dense_step k) 0 dense []) (\<lambda>scores0.
     rbind (fuse_leg (sparse_step k) 0 sparse scores0) (\<lambda>scores.
     let items = map (\<lambda>(c, i). i\<lparr>fu_fields := finalize_provenance (fu_fields i)\<rparr>) scores
     in Inr (sort_key (\<lambda>i. - fu_score i) items)))"

section \<open>What fusion computes\<close>

text \<open>The reference: the sum of the reciprocal ranks of a chunk in one result list, when no rank has the denominator 0.\<close>

definition leg_score :: "int \<Rightarrow> result_row list \<Rightarrow> string \<Rightarrow> real" where
  "leg_score k rs c = (\<Sum>i | i < length rs \<and> rr_chunk_id (rs ! i) = c. 1 / of_int (k + int i + 1))"

definition defined_leg :: "int \<Rightarrow> nat \<Rightarrow> result_row list \<Rightarrow> bool" where
  "defined_leg k rank rs = (\<forall>i < length rs. k + int (rank + i) + 1 \<noteq> 0)"

fun leg_sum :: "int \<Rightarrow> nat \<Rightarrow> result_row list \<Rightarrow> string \<Rightarrow> real" where
  "leg_sum k rank [] c = 0"
| "leg_sum k rank (r # rs) c = (if rr_chunk_id r = c then 1 / of_int (k + int rank + 1) else 0) + leg_sum k (Suc rank) rs c"

lemma defined_leg_simps [simp]:
  "defined_leg k rank []"
  "defined_leg k rank (r # rs) \<longleftrightarrow> k + int rank + 1 \<noteq> 0 \<and> defined_leg k (Suc rank) rs"
  by (auto simp: defined_leg_def less_Suc_eq_0_disj)

lemma leg_sum_sum: "leg_sum k rank rs c = (\<Sum>i | i < length rs \<and> rr_chunk_id (rs ! i) = c. 1 / of_int (k + int (rank + i) + 1))"
proof (induction rs arbitrary: rank)
  case (Cons r rs)
  let ?I = "{i. i < length rs \<and> rr_chunk_id (rs ! i) = c}"
  have split: "{i. i < length (r # rs) \<and> rr_chunk_id ((r # rs) ! i) = c} =
      (if rr_chunk_id r = c then {0} else {}) \<union> Suc ` ?I"
    by (auto simp: less_Suc_eq_0_disj)
  have "(\<Sum>i\<in>Suc ` ?I. 1 / of_int (k + int (rank + i) + 1)) = (\<Sum>i\<in>?I. 1 / of_int (k + int (Suc rank + i) + 1) :: real)"
    by (subst sum.reindex) simp_all
  then show ?case unfolding split by (subst sum.union_disjoint) (auto simp: Cons.IH)
qed simp

definition score_of :: "scores \<Rightarrow> string \<Rightarrow> real" where
  "score_of s c = (case map_of s c of None \<Rightarrow> 0 | Some i \<Rightarrow> fu_score i)"

text \<open>The shape of the working dictionary: distinct keys, each the chunk id of its item.\<close>

definition scores_ok :: "scores \<Rightarrow> bool" where
  "scores_ok s = (distinct (map fst s) \<and> list_all (\<lambda>(c, i). fu_chunk_id i = c) s)"

lemma keys_update: "fst ` set (AList.update k v s) = insert k (fst ` set s)"
  by (metis dom_map_of_conv_image_fst dom_fun_upd option.distinct(1) update_conv')

lemma scores_ok_update: "scores_ok s \<Longrightarrow> fu_chunk_id i = c \<Longrightarrow> scores_ok (AList.update c i s)"
  by (auto simp: scores_ok_def list_all_iff distinct_update) (induction s; auto split: if_splits)+

lemma scores_ok_lookup: "scores_ok s \<Longrightarrow> map_of s c = Some i \<Longrightarrow> fu_chunk_id i = c"
  by (auto simp: scores_ok_def list_all_iff dest: map_of_SomeD)

text \<open>
  Both steps raise exactly for the denominator 0, and otherwise add the reciprocal rank to the row's chunk and leave
  the other scores alone.
\<close>

definition step_ok :: "(nat \<Rightarrow> result_row \<Rightarrow> scores \<Rightarrow> fusion_error + scores) \<Rightarrow> int \<Rightarrow> bool" where
  "step_ok step k =
     (\<forall>rank r s. scores_ok s \<longrightarrow>
        (if k + int rank + 1 = 0 then step rank r s = Inl ZeroDivisionError
         else \<exists>t. step rank r s = Inr t \<and> scores_ok t \<and> fst ` set t = insert (rr_chunk_id r) (fst ` set s) \<and>
           score_of t = (score_of s)(rr_chunk_id r := score_of s (rr_chunk_id r) + 1 / of_int (k + int rank + 1))))"

lemma dense_step_ok: "step_ok (dense_step k) k"
  by (auto simp: step_ok_def dense_step_def rank_score_def Let_def keys_update blank_def score_of_def update_conv'
      fun_eq_iff intro!: scores_ok_update dest: scores_ok_lookup split: option.splits)

lemma sparse_step_ok: "step_ok (sparse_step k) k"
  by (auto simp: step_ok_def sparse_step_def rank_score_def Let_def keys_update blank_def score_of_def update_conv'
      fun_eq_iff intro!: scores_ok_update dest: scores_ok_lookup split: option.splits)

lemma fuse_leg_ok:
  assumes "step_ok step k"
  shows "scores_ok s \<Longrightarrow>
    (if defined_leg k rank rs
     then \<exists>t. fuse_leg step rank rs s = Inr t \<and> scores_ok t \<and> fst ` set t = fst ` set s \<union> rr_chunk_id ` set rs \<and>
       score_of t = (\<lambda>c. score_of s c + leg_sum k rank rs c)
     else fuse_leg step rank rs s = Inl ZeroDivisionError)"
proof (induction rs arbitrary: rank s)
  case (Cons r rs)
  show ?case
  proof (cases "k + int rank + 1 = 0")
    case True
    then show ?thesis using assms Cons.prems by (auto simp: step_ok_def)
  next
    case False
    then obtain t where t: "step rank r s = Inr t" "scores_ok t" "fst ` set t = insert (rr_chunk_id r) (fst ` set s)"
      "score_of t = (score_of s)(rr_chunk_id r := score_of s (rr_chunk_id r) + 1 / of_int (k + int rank + 1))"
      using assms Cons.prems unfolding step_ok_def by meson
    show ?thesis using Cons.IH [OF t(2), of "Suc rank"] False by (auto simp: t(1,3,4) fun_eq_iff split: if_splits)
  qed
qed simp

lemma scores_ok_score: "scores_ok s \<Longrightarrow> (c, i) \<in> set s \<Longrightarrow> fu_score i = score_of s c"
  by (auto simp: scores_ok_def score_of_def map_of_eq_Some_iff)

text \<open>C30. Fusion is reciprocal rank fusion. It raises \<open>ZeroDivisionError\<close> exactly when some rank of one of
  the two result lists has \<open>k + rank + 1 = 0\<close>. Otherwise it returns one item for every chunk that occurs
  in one of the lists, its score is the sum of \<open>1 / (k + rank + 1)\<close> over all its occurrences in both, and the
  items are in descending order of the score.\<close>

theorem rrf_fusion_exact:
  "if \<exists>i < max (length dense) (length sparse). k + int i + 1 = 0
   then rrf_fusion dense sparse k = Inl ZeroDivisionError
   else \<exists>items. rrf_fusion dense sparse k = Inr items \<and> distinct (map fu_chunk_id items) \<and>
     set (map fu_chunk_id items) = rr_chunk_id ` set dense \<union> rr_chunk_id ` set sparse \<and>
     (\<forall>i\<in>set items. fu_score i = leg_score k dense (fu_chunk_id i) + leg_score k sparse (fu_chunk_id i)) \<and>
     sorted_wrt (\<lambda>i j. fu_score j \<le> fu_score i) items"
proof -
  have "scores_ok []" by (simp add: scores_ok_def)
  note d = fuse_leg_ok [OF dense_step_ok this, where rank = 0 and rs = dense]
  note f = fuse_leg_ok [OF sparse_step_ok, where rank = 0 and rs = sparse]
  have bad: "(\<exists>i < max (length dense) (length sparse). k + int i + 1 = 0) \<longleftrightarrow> \<not> (defined_leg k 0 dense \<and> defined_leg k 0 sparse)"
    by (auto simp: defined_leg_def less_max_iff_disj)
  show ?thesis
  proof (cases "defined_leg k 0 dense \<and> defined_leg k 0 sparse")
    case False
    have "rrf_fusion dense sparse k = Inl ZeroDivisionError"
    proof (cases "defined_leg k 0 dense")
      case dense: True
      then obtain t where "fuse_leg (dense_step k) 0 dense [] = Inr t" "scores_ok t" using d [of k] by auto
      then show ?thesis using f [of t k] False dense by (simp add: rrf_fusion_def)
    next
      case dense: False
      then show ?thesis using d [of k] by (simp add: rrf_fusion_def)
    qed
    then show ?thesis using bad False by simp
  next
    case True
    then obtain t where t: "fuse_leg (dense_step k) 0 dense [] = Inr t" "scores_ok t" "fst ` set t = rr_chunk_id ` set dense"
      "score_of t = (\<lambda>c. leg_sum k 0 dense c)"
      using d [of k] by (auto simp: score_of_def)
    obtain s where s: "fuse_leg (sparse_step k) 0 sparse t = Inr s" and ok: "scores_ok s"
      and keys: "fst ` set s = rr_chunk_id ` set dense \<union> rr_chunk_id ` set sparse"
      and sc: "score_of s = (\<lambda>c. leg_score k dense c + leg_score k sparse c)"
      using f [OF t(2), of k] True by (auto simp: t(3,4) leg_sum_sum leg_score_def)
    define items where "items = map (\<lambda>(c, i). i\<lparr>fu_fields := finalize_provenance (fu_fields i)\<rparr>) s"
    define sorted where "sorted = sort_key (\<lambda>i. - fu_score i) items"
    have result: "rrf_fusion dense sparse k = Inr sorted"
      by (simp add: rrf_fusion_def t(1) s items_def sorted_def Let_def)
    have ids: "map fu_chunk_id items = map fst s"
      using ok by (auto simp: items_def scores_ok_def list_all_iff)
    have "\<forall>i\<in>set items. fu_score i = leg_score k dense (fu_chunk_id i) + leg_score k sparse (fu_chunk_id i)"
      using scores_ok_score [OF ok] ok sc by (fastforce simp: items_def scores_ok_def list_all_iff)
    then have score: "\<forall>i\<in>set sorted. fu_score i = leg_score k dense (fu_chunk_id i) + leg_score k sparse (fu_chunk_id i)"
      by (simp add: sorted_def)
    have perm: "mset (map fu_chunk_id sorted) = mset (map fst s)" by (simp add: sorted_def ids [symmetric])
    then have "distinct (map fu_chunk_id sorted)"
      using mset_eq_imp_distinct_iff [OF perm] ok by (simp add: scores_ok_def)
    moreover have "set (map fu_chunk_id sorted) = rr_chunk_id ` set dense \<union> rr_chunk_id ` set sparse"
      using mset_eq_setD [OF perm] keys by simp
    moreover have "sorted_wrt (\<lambda>i j. fu_score j \<le> fu_score i) sorted"
      unfolding sorted_def using sorted_sort_key [of "\<lambda>i. - fu_score i" items] by (simp add: sorted_wrt_map)
    ultimately show ?thesis using bad True result score by simp
  qed
qed

text \<open>The default \<open>k = RRF_K\<close> never raises.\<close>

lemma rrf_fusion_default: "\<exists>items. rrf_fusion dense sparse RRF_K = Inr items"
proof -
  have "defined_leg RRF_K 0 rs" for rs by (auto simp: defined_leg_def RRF_K_def)
  moreover obtain t where "fuse_leg (dense_step RRF_K) 0 dense [] = Inr t" "scores_ok t"
    using fuse_leg_ok [OF dense_step_ok, of "[]" RRF_K 0 dense] calculation by (auto simp: scores_ok_def)
  ultimately show ?thesis using fuse_leg_ok [OF sparse_step_ok, of t RRF_K 0 sparse] by (auto simp: rrf_fusion_def)
qed

definition row_example :: "string \<Rightarrow> result_row" where
  "row_example c = \<lparr>rr_chunk_id = c, rr_score = Some 1, rr_sparse_score = None, rr_fields = []\<rparr>"

theorem rrf_fusion_exact_witness:
  "(\<exists>items. rrf_fusion [row_example ''a''] [row_example ''b'', row_example ''a''] RRF_K = Inr items \<and>
      set (map fu_chunk_id items) = {''a'', ''b''}) \<and>
   rrf_fusion [row_example ''a''] [row_example ''b'', row_example ''a''] (- 2) = Inl ZeroDivisionError"
proof
  show "\<exists>items. rrf_fusion [row_example ''a''] [row_example ''b'', row_example ''a''] RRF_K = Inr items \<and>
      set (map fu_chunk_id items) = {''a'', ''b''}"
    using rrf_fusion_exact [of "[row_example ''a'']" "[row_example ''b'', row_example ''a'']" RRF_K]
    by (auto simp: row_example_def RRF_K_def split: if_splits)
  have "\<exists>i < max (length [row_example ''a'']) (length [row_example ''b'', row_example ''a'']). (- 2) + int i + 1 = 0"
    by (intro exI [of _ 1]) simp
  then show "rrf_fusion [row_example ''a''] [row_example ''b'', row_example ''a''] (- 2) = Inl ZeroDivisionError"
    using rrf_fusion_exact [of "[row_example ''a'']" "[row_example ''b'', row_example ''a'']" "- 2"] by (simp only: if_True)
qed

end
