(* ===== verification/Rerank.thy ===== *)
theory Rerank
  imports Regex "HOL-Library.Multiset"
begin

text \<open>
  The lexical substrate (\<open>packages/retrieval/src/rick_retrieval/sparse.py\<close>) and the
  deterministic BM25F reranker (\<open>rerank.py\<close>). The MD5 of a text is the parameter \<open>md5\<close>
  (the number its hexadecimal digest denotes). The logarithm and the square root are the real
  functions. The reranker's cache of IDF tables is explicit state.
\<close>

section \<open>Tokens\<close>

text \<open>Maximal runs of characters of a class.\<close>

fun runs :: "(char \<Rightarrow> bool) \<Rightarrow> string \<Rightarrow> string \<Rightarrow> string list" where
  "runs p acc [] = (if acc = [] then [] else [rev acc])"
| "runs p acc (c # cs) = (if p c then runs p (c # acc) cs else (if acc = [] then [] else [rev acc]) @ runs p [] cs)"

definition SPARSE_MODULUS :: nat where "SPARSE_MODULUS = 100000"

definition MEANINGLESS_QUERY_TOKENS :: "string list" where
  "MEANINGLESS_QUERY_TOKENS =
     [''a'', ''ao'', ''aos'', ''as'', ''ate'', [CHR ''a'', CHR ''t'', CHR 0xE9], ''com'', ''como'', ''da'', ''das'', ''de'',
      ''do'', ''dos'', ''e'', ''em'', ''essa'', ''esse'', ''esta'', ''este'', ''foi'', ''na'', ''nas'', ''no'', ''nos'', ''o'',
      ''os'', ''ou'', ''para'', ''por'', ''qual'', ''quais'', ''quando'', ''quanto'', ''que'', ''se'', ''sem'', ''ser'',
      ''sao'', [CHR ''s'', CHR 0xE3, CHR ''o''], ''sua'', ''suas'', ''seu'', ''seus'', ''uma'', ''um'', ''usa'', ''usada'',
      ''usado'', ''utiliza'', ''utilizado'']"

definition LOW_SIGNAL_DOMAIN_TOKENS :: "string list" where
  "LOW_SIGNAL_DOMAIN_TOKENS =
     [''animal'', ''animais'', ''paciente'', ''pacientes'', ''gato'', ''gatos'', ''felino'', ''felinos'', ''cat'', ''cats'',
      ''feline'', ''felines'', ''cao'', ''caes'', [CHR ''c'', CHR 0xE3, CHR ''o''], [CHR ''c'', CHR 0xE3, CHR ''e'', CHR ''s''],
      ''cachorro'', ''cachorros'', ''cachorra'', ''cachorras'', ''canino'', ''caninos'', ''dog'', ''dogs'', ''canine'',
      ''canines'', ''sintoma'', ''sintomas'', ''sinal'', ''sinais'', ''doenca'',
      [CHR ''d'', CHR ''o'', CHR ''e'', CHR ''n'', CHR 0xE7, CHR ''a'', CHR ''s''],
      [CHR ''d'', CHR ''o'', CHR ''e'', CHR ''n'', CHR 0xE7, CHR ''a''], ''doencas'', ''protocolo'', ''protocolos'',
      ''protocol'', ''protocols'', ''approach'', ''management'']"

definition sparse_hash :: "(string \<Rightarrow> nat) \<Rightarrow> string \<Rightarrow> nat" where
  "sparse_hash md5 tok = md5 tok mod SPARSE_MODULUS"

definition tokenize_terms :: "string \<Rightarrow> string list" where
  "tokenize_terms s =
     filter (\<lambda>t. \<not> List.member MEANINGLESS_QUERY_TOKENS t) (filter (\<lambda>t. length t \<ge> 2) (runs word_c [] (lower_s s)))"

definition isdigit_s :: "string \<Rightarrow> bool" where
  "isdigit_s s = (s \<noteq> [] \<and> list_all (\<lambda>c. digit_c c \<or> ord_c c \<in> {178, 179, 185}) s)"

definition content_query_terms :: "string \<Rightarrow> string list" where
  "content_query_terms s =
     remdups (filter (\<lambda>t. \<not> List.member LOW_SIGNAL_DOMAIN_TOKENS t \<and> \<not> isdigit_s t) (tokenize_terms s))"

text \<open>The sparse vector: the indices of the distinct tokens, with collisions added up.\<close>

definition sparse_vector :: "(string \<Rightarrow> nat) \<Rightarrow> string \<Rightarrow> (nat \<times> real) list" where
  "sparse_vector md5 s =
     (let toks = tokenize_terms s in
      fold (\<lambda>t v. let i = sparse_hash md5 t; old = (case map_of v i of None \<Rightarrow> 0 | Some x \<Rightarrow> x)
                  in AList.update i (old + ln (1 + real (count_list toks t))) v) (dedup toks) [])"

definition sparse_norm :: "(nat \<times> real) list \<Rightarrow> real" where
  "sparse_norm v = sqrt (sum_list (map (\<lambda>(i, x). x * x) v))"

definition sparse_overlap_score :: "(string \<Rightarrow> nat) \<Rightarrow> string \<Rightarrow> string \<Rightarrow> real" where
  "sparse_overlap_score md5 query s =
     (let q = sparse_vector md5 query; t = sparse_vector md5 s in
      if q = [] \<or> t = [] then 0
      else let dot = sum_list (map (\<lambda>(i, x). x * (case map_of t i of None \<Rightarrow> 0 | Some y \<Rightarrow> y)) q) in
        if sparse_norm q \<le> 0 \<or> sparse_norm t \<le> 0 then 0 else dot / (sparse_norm q * sparse_norm t))"

section \<open>The reranker\<close>

text \<open>
  A candidate: the fields the reranker reads. \<open>cd_quality\<close> is \<open>None\<close> when the key is
  missing and \<open>Some None\<close> when it is null.
\<close>

record 'a rank_candidate =
  cd_text :: string
  cd_filename :: "string option"
  cd_tags :: "string list option"
  cd_score :: real
  cd_sparse_score :: "real option"
  cd_quality :: "real option option"
  cd_confidence :: "real option"
  cd_rest :: 'a

record 'a ranked =
  rk_candidate :: "'a rank_candidate"
  rk_original_score :: real
  rk_bm25f_score :: real
  rk_score :: real

record bm25f =
  bm_k1 :: real
  bm_b :: real
  bm_avg_doc_len :: int

definition default_bm25f :: bm25f where
  "default_bm25f = \<lparr>bm_k1 = 15 / 10, bm_b = 75 / 100, bm_avg_doc_len = 200\<rparr>"

type_synonym idf = "(string \<times> real) list"
type_synonym idf_key = "string list \<times> nat \<times> nat"
type_synonym idf_cache = "(idf_key \<times> idf) list"

fun join_texts :: "string list \<Rightarrow> string" where
  "join_texts [] = []"
| "join_texts [t] = t"
| "join_texts (t # ts) = t @ CHR 0x1F # join_texts ts"

definition idf_table :: "string list \<Rightarrow> string list \<Rightarrow> idf" where
  "idf_table terms texts =
     (let n = length texts in
      if n = 0 then map (\<lambda>t. (t, 1)) terms
      else map (\<lambda>t. let df = length (filter (\<lambda>x. t \<in> set (tokenize_terms x)) texts)
                    in (t, ln ((real n - real df + 5 / 10) / (real df + 5 / 10) + 1)))
             (remdups (terms @ concat (map tokenize_terms texts))))"

definition cache_key :: "(string \<Rightarrow> nat) \<Rightarrow> string list \<Rightarrow> string list \<Rightarrow> idf_key" where
  "cache_key md5 terms texts = (sorted_set terms, length texts, md5 (join_texts texts))"

definition compute_idf :: "(string \<Rightarrow> nat) \<Rightarrow> string list \<Rightarrow> string list \<Rightarrow> idf_cache \<Rightarrow> idf \<times> idf_cache" where
  "compute_idf md5 terms texts cache =
     (let key = cache_key md5 terms texts in
      case map_of cache key of
        Some idf \<Rightarrow> (idf, cache)
      | None \<Rightarrow> (let idf = idf_table terms texts in (idf, AList.update key idf cache)))"

definition idf_get :: "idf \<Rightarrow> string \<Rightarrow> real" where
  "idf_get idf t = (case map_of idf t of None \<Rightarrow> 0 | Some x \<Rightarrow> x)"

definition field_score :: "bm25f \<Rightarrow> string list \<Rightarrow> string \<Rightarrow> idf \<Rightarrow> nat \<Rightarrow> real \<Rightarrow> bool \<Rightarrow> real" where
  "field_score bm terms field_text idf doc_len weight pos_decay =
     (let ts = tokenize_terms field_text in
      sum_list (map (\<lambda>(rank, t).
          if t \<notin> set terms then 0
          else let tf = real (count_list ts t);
                   tf_norm = (tf * (bm_k1 bm + 1)) /
                     (tf + bm_k1 bm * (1 - bm_b bm + bm_b bm * real doc_len / of_int (max (bm_avg_doc_len bm) 1)));
                   pos = (if pos_decay then 1 / (real rank + 1) else 1)
               in idf_get idf t * tf_norm * pos * weight)
        (List.enumerate 0 ts)))"

text \<open>\<open>len(s.split())\<close> and \<open>" ".join(tags)\<close>.\<close>

definition word_count :: "string \<Rightarrow> nat" where
  "word_count s = length (runs (\<lambda>c. \<not> isspace_c c) [] s)"

fun join_tags :: "string list \<Rightarrow> string" where
  "join_tags [] = []"
| "join_tags [t] = t"
| "join_tags (t # ts) = t @ CHR '' '' # join_tags ts"

definition quality_of :: "'a rank_candidate \<Rightarrow> real" where
  "quality_of c =
     (case (case cd_quality c of None \<Rightarrow> cd_confidence c | Some q \<Rightarrow> q) of None \<Rightarrow> 0 | Some q \<Rightarrow> q)"

definition blend :: "real \<Rightarrow> real \<Rightarrow> real" where
  "blend quality x = (if quality > 0 \<and> x > 0 then sqrt (quality * x) else max quality x)"

definition score_candidate :: "bm25f \<Rightarrow> string list \<Rightarrow> idf \<Rightarrow> 'a rank_candidate \<Rightarrow> 'a ranked" where
  "score_candidate bm terms idf c =
     (let filename = (case cd_filename c of None \<Rightarrow> [] | Some f \<Rightarrow> f);
          tags = join_tags (case cd_tags c of None \<Rightarrow> [] | Some ts \<Rightarrow> ts);
          body = field_score bm terms (cd_text c) idf (word_count (cd_text c)) 1 True;
          fname = field_score bm terms filename idf (max (word_count filename) 1) (3 / 10) False;
          tag = field_score bm terms tags idf (max (word_count tags) 1) (2 / 10) False;
          total = body + fname + tag
      in \<lparr>rk_candidate = c, rk_original_score = cd_score c, rk_bm25f_score = total,
          rk_score = blend (quality_of c) total\<rparr>)"

text \<open>
  Candidates with the same original score keep their slots, but within these slots the ones
  found by the sparse leg come first.
\<close>

definition slots_of :: "real \<Rightarrow> 'a ranked list \<Rightarrow> nat list" where
  "slots_of s xs = filter (\<lambda>i. rk_original_score (xs ! i) = s) [0..<length xs]"

definition sparse_found :: "'a ranked \<Rightarrow> bool" where
  "sparse_found x = ((case cd_sparse_score (rk_candidate x) of None \<Rightarrow> 0 | Some s \<Rightarrow> s) > 0)"

definition put_slots :: "nat list \<Rightarrow> 'b list \<Rightarrow> 'b list \<Rightarrow> 'b list" where
  "put_slots slots ys xs = fold (\<lambda>(i, y) s. s[i := y]) (zip slots ys) xs"

definition reorder_tied :: "real \<Rightarrow> 'a ranked list \<Rightarrow> 'a ranked list" where
  "reorder_tied s xs =
     (let slots = slots_of s xs in
      if length slots < 2 then xs
      else put_slots slots (sort_key (\<lambda>x. \<not> sparse_found x) (map (\<lambda>i. xs ! i) slots)) xs)"

definition rerank ::
  "(string \<Rightarrow> nat) \<Rightarrow> bm25f \<Rightarrow> string \<Rightarrow> 'a rank_candidate list \<Rightarrow> idf_cache \<Rightarrow> 'a ranked list option \<times> idf_cache" where
  "rerank md5 bm query candidates cache =
     (let content = content_query_terms query;
          query_terms = (if content = [] then remdups (tokenize_terms query) else content)
      in if candidates = [] \<or> query_terms = [] then (None, cache)
         else let (idf, cache') = compute_idf md5 (sort query_terms) (map cd_text candidates) cache;
                  scored = sort_key (\<lambda>x. (- rk_score x, - rk_original_score x))
                             (map (score_candidate bm (sort query_terms) idf) candidates)
              in (Some (fold reorder_tied (dedup (map rk_original_score scored)) scored), cache'))"

section \<open>Reordering within slots\<close>

lemma put_slots_Cons: "put_slots (i # slots) (y # ys) xs = put_slots slots ys (xs[i := y])"
  by (simp add: put_slots_def)

lemma put_slots_Nil [simp]: "put_slots [] ys xs = xs" "put_slots slots [] xs = xs"
  by (simp_all add: put_slots_def)

lemma length_put_slots [simp]: "length (put_slots slots ys xs) = length xs"
  by (induction slots arbitrary: ys xs) (case_tac ys; simp add: put_slots_Cons)+

lemma put_slots_other: "i \<notin> set slots \<Longrightarrow> put_slots slots ys xs ! i = xs ! i"
  by (induction slots arbitrary: ys xs) (case_tac ys; simp add: put_slots_Cons)+

lemma put_slots_slot:
  "distinct slots \<Longrightarrow> length ys = length slots \<Longrightarrow> \<forall>i\<in>set slots. i < length xs \<Longrightarrow> k < length slots \<Longrightarrow>
     put_slots slots ys xs ! (slots ! k) = ys ! k"
proof (induction slots arbitrary: ys xs k)
  case (Cons i slots)
  then obtain y ys' where ys: "ys = y # ys'" by (cases ys) auto
  show ?case
  proof (cases k)
    case 0
    then show ?thesis using Cons.prems by (simp add: ys put_slots_Cons put_slots_other)
  next
    case (Suc k')
    then show ?thesis using Cons.prems Cons.IH [of ys' "xs[i := y]" k'] by (simp add: ys put_slots_Cons)
  qed
qed simp

lemma map_put_slots:
  "distinct slots \<Longrightarrow> length ys = length slots \<Longrightarrow> \<forall>i\<in>set slots. i < length xs \<Longrightarrow>
     map (\<lambda>i. put_slots slots ys xs ! i) slots = ys"
  by (rule nth_equalityI) (simp_all add: put_slots_slot)

lemma mset_by_slots: "mset xs = mset (map (\<lambda>i. xs ! i) (filter P [0..<length xs])) +
    mset (map (\<lambda>i. xs ! i) (filter (\<lambda>i. \<not> P i) [0..<length xs]))"
proof -
  have "mset xs = image_mset (\<lambda>i. xs ! i) (mset [0..<length xs])"
    by (metis map_nth mset_map)
  also have "mset [0..<length xs] = mset (filter P [0..<length xs]) + mset (filter (\<lambda>i. \<not> P i) [0..<length xs])"
    by (metis mset_filter multiset_partition)
  finally show ?thesis by simp
qed

lemma mset_put_slots:
  assumes slots: "slots = filter P [0..<length xs]" and ys: "mset ys = mset (map (\<lambda>i. xs ! i) slots)"
  shows "mset (put_slots slots ys xs) = mset xs"
proof -
  have len: "length ys = length slots" using mset_eq_length [OF ys] by simp
  have d: "distinct slots" "\<forall>i\<in>set slots. i < length xs" by (auto simp: slots)
  have rest: "map (\<lambda>i. put_slots slots ys xs ! i) (filter (\<lambda>i. \<not> P i) [0..<length xs]) =
      map (\<lambda>i. xs ! i) (filter (\<lambda>i. \<not> P i) [0..<length xs])"
    by (rule map_cong) (auto simp: put_slots_other slots)
  have "mset (put_slots slots ys xs) =
      mset (map (\<lambda>i. put_slots slots ys xs ! i) slots) + mset (map (\<lambda>i. xs ! i) (filter (\<lambda>i. \<not> P i) [0..<length xs]))"
    using mset_by_slots [of "put_slots slots ys xs" P] unfolding length_put_slots slots [symmetric] rest .
  also have "\<dots> = mset xs"
    using mset_by_slots [of xs P] by (simp only: map_put_slots [OF d(1) len d(2)] ys) (simp only: slots)
  finally show ?thesis .
qed

definition sparse_first :: "real \<Rightarrow> 'a ranked list \<Rightarrow> bool" where
  "sparse_first s xs =
     (\<forall>i j. i < j \<and> j < length xs \<and> rk_original_score (xs ! i) = s \<and> rk_original_score (xs ! j) = s \<and>
        sparse_found (xs ! j) \<longrightarrow> sparse_found (xs ! i))"

lemma slots_facts:
  "distinct (slots_of s xs)" "\<forall>i\<in>set (slots_of s xs). i < length xs" "sorted (slots_of s xs)"
  "i \<in> set (slots_of s xs) \<longleftrightarrow> i < length xs \<and> rk_original_score (xs ! i) = s"
  by (auto simp: slots_of_def intro: sorted_wrt_filter)

lemma reorder_tied_facts:
  shows "mset (reorder_tied s xs) = mset xs" and "length (reorder_tied s xs) = length xs"
    and "map rk_original_score (reorder_tied s xs) = map rk_original_score xs"
    and "rk_original_score (xs ! i) \<noteq> s \<Longrightarrow> reorder_tied s xs ! i = xs ! i"
    and "sparse_first s (reorder_tied s xs)"
proof -
  define slots where "slots = slots_of s xs"
  define ys where "ys = sort_key (\<lambda>x. \<not> sparse_found x) (map (\<lambda>i. xs ! i) slots)"
  have eq: "reorder_tied s xs = (if length slots < 2 then xs else put_slots slots ys xs)"
    by (simp add: reorder_tied_def slots_def ys_def Let_def)
  note sl = slots_facts [where s = s and xs = xs, folded slots_def]
  have len: "length ys = length slots" by (simp add: ys_def)
  show m: "mset (reorder_tied s xs) = mset xs"
    unfolding eq using mset_put_slots [of slots "\<lambda>i. rk_original_score (xs ! i) = s" xs ys]
    by (simp add: slots_def slots_of_def ys_def)
  show l: "length (reorder_tied s xs) = length xs" by (simp add: eq)
  have at_slot: "put_slots slots ys xs ! (slots ! k) = ys ! k" if "k < length slots" for k
    using put_slots_slot [OF sl(1) len sl(2) that] .
  have set_ys: "set ys = (\<lambda>i. xs ! i) ` set slots" by (simp add: ys_def)
  have os: "rk_original_score (reorder_tied s xs ! i) = rk_original_score (xs ! i)" if "i < length xs" for i
  proof (cases "i \<in> set slots")
    case True
    then obtain k where k: "k < length slots" "slots ! k = i" by (auto simp: in_set_conv_nth)
    have "ys ! k \<in> set ys" using k(1) len by simp
    then obtain j where "j \<in> set slots" "ys ! k = xs ! j" unfolding set_ys by auto
    then show ?thesis using True at_slot [OF k(1)] k(2) sl(4) by (auto simp: eq)
  qed (simp add: eq put_slots_other)
  then show "map rk_original_score (reorder_tied s xs) = map rk_original_score xs"
    by (simp add: l list_eq_iff_nth_eq)
  show "rk_original_score (xs ! i) \<noteq> s \<Longrightarrow> reorder_tied s xs ! i = xs ! i"
    using sl(4) by (simp add: eq put_slots_other)
  show "sparse_first s (reorder_tied s xs)"
    unfolding sparse_first_def
  proof (intro allI impI)
    fix i j
    assume a: "i < j \<and> j < length (reorder_tied s xs) \<and> rk_original_score (reorder_tied s xs ! i) = s \<and>
      rk_original_score (reorder_tied s xs ! j) = s \<and> sparse_found (reorder_tied s xs ! j)"
    then have ij: "i \<in> set slots" "j \<in> set slots" using os l sl(4) by auto
    then obtain p q where p: "p < length slots" "slots ! p = i" and q: "q < length slots" "slots ! q = j"
      by (auto simp: in_set_conv_nth)
    have pq: "p < q" using a sl(3) p q by (metis linorder_not_less sorted_nth_mono order_less_le_trans less_irrefl)
    then have two: "\<not> length slots < 2" using q by linarith
    have "sorted (map (\<lambda>x. \<not> sparse_found x) ys)" by (simp add: ys_def)
    then have "\<not> sparse_found (ys ! p) \<longrightarrow> \<not> sparse_found (ys ! q)"
      using pq q(1) len sorted_nth_mono [of "map (\<lambda>x. \<not> sparse_found x) ys" p q] by auto
    then show "sparse_found (reorder_tied s xs ! i)"
      using a two at_slot [OF p(1)] at_slot [OF q(1)] p(2) q(2) by (auto simp: eq)
  qed
qed

lemma reorder_tied_keeps:
  assumes "sparse_first s xs" and "s \<noteq> s'"
  shows "sparse_first s (reorder_tied s' xs)"
  unfolding sparse_first_def
proof (intro allI impI)
  fix i j
  assume a: "i < j \<and> j < length (reorder_tied s' xs) \<and> rk_original_score (reorder_tied s' xs ! i) = s \<and>
      rk_original_score (reorder_tied s' xs ! j) = s \<and> sparse_found (reorder_tied s' xs ! j)"
  have os: "rk_original_score (reorder_tied s' xs ! k) = rk_original_score (xs ! k)" if "k < length xs" for k
    using reorder_tied_facts(2,3) [of s' xs] that by (metis nth_map)
  have len: "length (reorder_tied s' xs) = length xs" by (rule reorder_tied_facts(2))
  have same: "reorder_tied s' xs ! k = xs ! k" if "rk_original_score (reorder_tied s' xs ! k) = s" "k < length xs" for k
    using os [OF that(2)] that assms(2) by (intro reorder_tied_facts(4)) simp
  show "sparse_found (reorder_tied s' xs ! i)"
    using a assms(1) len same [of i] same [of j] os [of i] os [of j] unfolding sparse_first_def by auto
qed

lemma fold_reorder:
  "distinct ss \<Longrightarrow>
     mset (fold reorder_tied ss xs) = mset xs \<and>
     map rk_original_score (fold reorder_tied ss xs) = map rk_original_score xs \<and>
     (\<forall>s\<in>set ss. sparse_first s (fold reorder_tied ss xs)) \<and>
     (\<forall>s. s \<notin> set ss \<and> sparse_first s xs \<longrightarrow> sparse_first s (fold reorder_tied ss xs))"
proof (induction ss arbitrary: xs)
  case (Cons s ss)
  have d: "distinct ss" "s \<notin> set ss" using Cons.prems by auto
  have keep: "sparse_first t (fold reorder_tied ss (reorder_tied s xs))"
    if "t \<notin> set ss" "sparse_first t (reorder_tied s xs)" for t
    using Cons.IH [OF d(1), of "reorder_tied s xs"] that by blast
  have "sparse_first s (fold reorder_tied ss (reorder_tied s xs))"
    using keep d(2) reorder_tied_facts(5) by blast
  moreover have "sparse_first t (fold reorder_tied ss (reorder_tied s xs))" if "t \<notin> set (s # ss)" "sparse_first t xs" for t
    using keep [of t] reorder_tied_keeps [OF that(2), of s] that(1) by simp
  ultimately show ?case
    using Cons.IH [OF d(1), of "reorder_tied s xs"] reorder_tied_facts(1,3) [of s xs] by auto
qed simp

text \<open>Reranking loses and invents nothing: whenever it reorders, the result holds exactly the given
  candidates, each with its own score as original score, and among candidates with the same
  original score those found by the sparse leg come before the others.\<close>

theorem rerank_permutes:
  assumes "rerank md5 bm query candidates cache = (Some ranked, cache')"
  shows "mset (map rk_candidate ranked) = mset candidates \<and>
    (\<forall>x\<in>set ranked. rk_original_score x = cd_score (rk_candidate x)) \<and> (\<forall>s. sparse_first s ranked)"
proof (intro conjI)
  obtain terms idf where r: "ranked = fold reorder_tied (dedup (map rk_original_score (sort_key
      (\<lambda>x. (- rk_score x, - rk_original_score x)) (map (score_candidate bm terms idf) candidates))))
      (sort_key (\<lambda>x. (- rk_score x, - rk_original_score x)) (map (score_candidate bm terms idf) candidates))"
    using assms by (auto simp: rerank_def Let_def split: if_split_asm prod.split_asm)
  define scored where "scored = sort_key (\<lambda>x. (- rk_score x, - rk_original_score x))
    (map (score_candidate bm terms idf) candidates)"
  have ranked: "ranked = fold reorder_tied (dedup (map rk_original_score scored)) scored"
    by (simp add: r scored_def)
  note f = fold_reorder [OF distinct_dedup [of "map rk_original_score scored"], of scored, folded ranked]
  have c: "rk_candidate (score_candidate bm terms idf x) = x" "rk_original_score (score_candidate bm terms idf x) = cd_score x" for x
    by (simp_all add: score_candidate_def Let_def)
  have ms: "mset ranked = mset (map (score_candidate bm terms idf) candidates)" using f by (simp add: scored_def)
  then show "mset (map rk_candidate ranked) = mset candidates"
    by (simp add: image_mset.compositionality o_def c)
  show "\<forall>x\<in>set ranked. rk_original_score x = cd_score (rk_candidate x)"
    using mset_eq_setD [OF ms] by (auto simp: c)
  show "\<forall>s. sparse_first s ranked"
  proof
    fix s
    show "sparse_first s ranked"
    proof (cases "s \<in> rk_original_score ` set scored")
      case False
      have "rk_original_score ` set ranked = rk_original_score ` set scored" using f by (metis set_map)
      then have "rk_original_score (ranked ! i) \<noteq> s" if "i < length ranked" for i
        using False that by (metis imageI nth_mem)
      then show ?thesis by (auto simp: sparse_first_def)
    qed (use f in auto)
  qed
qed

section \<open>The cache of IDF tables\<close>

lemma compute_idf_hit:
  "map_of cache (cache_key md5 ts x) = None \<Longrightarrow> cache_key md5 ts y = cache_key md5 ts x \<Longrightarrow>
     fst (compute_idf md5 ts y (snd (compute_idf md5 ts x cache))) = idf_table ts x"
  by (simp add: compute_idf_def Let_def update_conv')

text \<open>C38. The cache key does not determine the corpus: two lists of texts of the same length that join to
  the same string share a key for every hash function, so (starting with an empty cache) the second
  query is answered with the IDF table of the first corpus, although its own table is different.\<close>

theorem idf_cache_confuses:
  "\<exists>texts texts'. length texts = length texts' \<and>
     (\<forall>md5. fst (compute_idf md5 [''aa''] texts' (snd (compute_idf md5 [''aa''] texts []))) = idf_table [''aa''] texts) \<and>
     idf_get (idf_table [''aa''] texts) ''aa'' \<noteq> idf_get (idf_table [''aa''] texts') ''aa''"
proof -
  let ?x = "[[CHR ''a'', CHR ''a'', CHR 0x1F, CHR ''a'', CHR ''a''], ''bb'']"
  let ?y = "[''aa'', [CHR ''a'', CHR ''a'', CHR 0x1F, CHR ''b'', CHR ''b'']]"
  have tok: "tokenize_terms [CHR ''a'', CHR ''a'', CHR 0x1F, CHR ''a'', CHR ''a''] = [''aa'', ''aa'']" "tokenize_terms ''bb'' = [''bb'']"
    "tokenize_terms ''aa'' = [''aa'']" "tokenize_terms [CHR ''a'', CHR ''a'', CHR 0x1F, CHR ''b'', CHR ''b''] = [''aa'', ''bb'']"
    by (simp_all add: tokenize_terms_def MEANINGLESS_QUERY_TOKENS_def word_c_def lower_s_def char_defs)
  have key: "cache_key md5 [''aa''] ?x = cache_key md5 [''aa''] ?y" for md5
    by (simp add: cache_key_def)
  have hit: "fst (compute_idf md5 [''aa''] ?y (snd (compute_idf md5 [''aa''] ?x []))) = idf_table [''aa''] ?x" for md5
    using key [of md5] by (intro compute_idf_hit) simp_all
  have "idf_get (idf_table [''aa''] ?x) ''aa'' = ln ((2 - 1 + 5 / 10) / (1 + 5 / 10) + 1)"
    "idf_get (idf_table [''aa''] ?y) ''aa'' = ln ((2 - 2 + 5 / 10) / (2 + 5 / 10) + 1)"
    by (simp_all add: idf_get_def idf_table_def tok Let_def)
  moreover have "ln ((2 - 1 + 5 / 10) / (1 + 5 / 10) + 1) \<noteq> (ln ((2 - 2 + 5 / 10) / (2 + 5 / 10) + 1) :: real)"
    by simp
  ultimately show ?thesis
    using hit by (intro exI [of _ ?x] exI [of _ ?y]) simp
qed

definition rank_candidate_example :: "unit rank_candidate" where
  "rank_candidate_example = \<lparr>cd_text = ''fever'', cd_filename = None, cd_tags = None, cd_score = 1, cd_sparse_score = None,
     cd_quality = None, cd_confidence = None, cd_rest = ()\<rparr>"

theorem rerank_permutes_witness:
  "\<exists>ranked cache'. rerank (\<lambda>_. 0) default_bm25f ''fever'' [rank_candidate_example] [] = (Some ranked, cache') \<and>
     mset (map rk_candidate ranked) = {#rank_candidate_example#}"
proof -
  have "content_query_terms ''fever'' = [''fever'']"
    by (simp add: content_query_terms_def tokenize_terms_def MEANINGLESS_QUERY_TOKENS_def LOW_SIGNAL_DOMAIN_TOKENS_def
        word_c_def lower_s_def isdigit_s_def char_defs)
  then obtain ranked cache' where "rerank (\<lambda>_. 0) default_bm25f ''fever'' [rank_candidate_example] [] = (Some ranked, cache')"
    by (cases "compute_idf (\<lambda>_. 0) [''fever''] [cd_text rank_candidate_example] []") (simp add: rerank_def Let_def)
  with rerank_permutes [OF this] show ?thesis by auto
qed

end
