(* ===== verification/Spec2Isabelle.thy ===== *)
theory Spec2Isabelle
  imports ProfessorGate ChunkSafety KnowledgeRuns JobRuns QueueRuns LeaseClient RateLimit Authorization Ingestion RequestPolicy Breaker Fusion Rerank
begin

text \<open>
  RICK Intelligence is a retrieval-augmented assistant: an API that admits uploads and chat
  requests, a worker that ingests documents through a durable queue, and packages with the logic
  both share. This development models that logic and proves what makes it correct. Paths below are
  relative to the repository; \<open>rick_x\<close> stands for \<open>packages/x/src/rick_x\<close>.

  \<^bold>\<open>How the parts interact.\<close> An upload is admitted as an envelope (\<open>rick_ingestion/admission.py\<close>),
  put on the durable queue (\<open>apps/worker/durable_queue.py\<close>), claimed by a worker under a lease
  (\<open>rick_locking\<close>) and taken through the stages of an ingestion job (\<open>rick_ingestion/jobs.py\<close>), which splits its text into chunks;
  \<open>rick_jobs\<close> is the contract of a durable job with its attempts. The documents it
  produces are published through the knowledge store (\<open>rick_knowledge\<close>). A chat request passes the rate
  limiter, is authorized (\<open>rick_authorization\<close>) into a retrieval context, classified by the request
  policy (\<open>rick_decision/request_policy.py\<close>), and its retrieval results (\<open>rick_retrieval\<close>: fusion,
  reranking) are issued as evidence (\<open>rick_evidence\<close>). The decision layer (\<open>rick_decision\<close>) says
  whether to answer. The professor (\<open>rick_professor\<close>) prompts a provider with that evidence, through a circuit
  breaker (\<open>rick_providers\<close>), checks the citations of its answer and has the sources validated again
  before it delivers it, at once or as a stream.

  \<^bold>\<open>Theories.\<close>
  \<^item> \<open>Prelude\<close>: Python's values, strings, dictionaries and exceptions, and the lemma collections.
    \<open>Regex\<close>: the part of \<open>re\<close> the sources use, as the set of positions where a match can
    end, with characterisations of the patterns. \<open>Json\<close>: \<open>json.dumps\<close> and \<open>json.loads\<close> on flat objects of strings.
  \<^item> \<open>JobValues\<close>, \<open>Jobs\<close>, \<open>JobRuns\<close>: \<open>rick_jobs/contracts.py\<close>. Bounded values and validators; the
    job record with its operations; the step relation of successful operations, the invariant,
    bounded runs, and that every job can end.
  \<^item> \<open>DurableQueue\<close>, \<open>QueueRuns\<close>: \<open>apps/worker/durable_queue.py\<close>. Each method is one transaction on
    the table; the table invariant over all runs, what \<open>claim\<close> hands out, fencing and ownership of
    leases, replay of \<open>enqueue\<close>, the payload round trip.
  \<^item> \<open>Leases\<close>, \<open>LeaseClient\<close>: \<open>errors.py\<close>, \<open>validation.py\<close>, \<open>memory.py\<close>, \<open>client.py\<close>, \<open>protocols.py\<close> of
    \<open>rick_locking\<close>. The locale \<open>lease_service\<close> states the contract of a lease backend,
    \<open>lease_backend_impl\<close> extends it to what the client needs; both are interpreted on the in-memory
    store. Mutual exclusion, safe errors, handles that end once.
  \<^item> \<open>RateLimit\<close>: the two in-memory limiters and the decision of the distributed one
    (\<open>rick_locking/rate_limit.py\<close>, \<open>apps/api/src/core/rate_limit.py\<close>); the locale \<open>window_limiter\<close>.
  \<^item> \<open>Authorization\<close>: \<open>rick_authorization/policy.py\<close>, all of it.
  \<^item> \<open>Ingestion\<close>: \<open>jobs.py\<close> and \<open>admission.py\<close> of \<open>rick_ingestion\<close>.
  \<^item> \<open>Chunking\<close>, \<open>ChunkSafety\<close>: \<open>chunking.py\<close> of \<open>rick_ingestion\<close>, all of it. The splitter with the positions it
    tracks; chunks carry the pages they come from, lose no text and are of bounded length.
  \<^item> \<open>Evidence\<close>, \<open>EvidenceCheck\<close>: \<open>models.py\<close> and \<open>validator.py\<close> of \<open>rick_evidence\<close>. Identity of
    evidence by a digest, bundles, citations and claims.
  \<^item> \<open>Decision\<close>, \<open>RequestPolicy\<close>: \<open>contracts.py\<close>, \<open>layer.py\<close> and \<open>request_policy.py\<close> of
    \<open>rick_decision\<close>. The layer refines an ordered table of gates; what is answerable.
  \<^item> \<open>PyObj\<close>, \<open>Publication\<close>, \<open>Knowledge\<close>, \<open>KnowledgeRuns\<close>: \<open>models.py\<close>, \<open>fencing.py\<close>,
    \<open>publication.py\<close>, \<open>json_boundary.py\<close> and \<open>store.py\<close> of \<open>rick_knowledge\<close>. Nested values and operations that
    may raise with their weakest preconditions; receipts, checkpoints and the snapshots they keep; the
    in-memory store over a heap of objects shared with its callers; all runs, with the documents that may be restored
    as an index: deleted documents stay deleted until they are restored, decided publications stay decided, archived collection families stay archived.
  \<^item> \<open>Identity\<close>: \<open>identity.py\<close> and \<open>payload.py\<close> of \<open>rick_knowledge\<close>. Canonical document and chunk ids do not
    collide unless the digest does; what an index payload carries.
  \<^item> \<open>EvidenceGate\<close>, \<open>GateSafety\<close>: \<open>EvidenceDecisionGate\<close> of \<open>apps/api/src/services/professor_backend.py\<close>. Resolving
    candidates against the knowledge store, deciding on them with one retry, revalidating an answer before
    it is published or served from the cache. The gate reads the store through the locale \<open>knowledge_reader\<close>, interpreted
    on the in-memory store; what it delivers, what a revalidation confirms, and that delivered evidence publishes.
  \<^item> \<open>Professor\<close>, \<open>Orchestration\<close>: \<open>rick_professor/orchestration.py\<close> with the contracts it uses, and the chat backend of
    \<open>professor_backend.py\<close>. Limits, trusted evidence, prompt, citations and responses; runs and streams with
    lease, budgets, timers and cancellation, which are events after any number of calls. The ports are arguments.
    \<open>ProfessorSafety\<close>: what an approved run rests on, and the order of its calls. \<open>ProfessorStream\<close>: bounds of the prompt, a stream
    ends as the run does, approved streams. \<open>ProfessorSamples\<close>: a concrete run and stream.
    \<open>ProfessorGate\<close>: the locale \<open>evidence_port\<close>, what the professor needs of a retrieval with validation, interpreted on the
    evidence gate; answers of the composed backend rest on published documents.
  \<^item> \<open>Breaker\<close>: \<open>resilience.py\<close> of \<open>rick_providers\<close>, with the locale \<open>circuit_breaker\<close>: after any
    history of guards and recorded outcomes, calls are refused as a reference that keeps the failure times says.
  \<^item> \<open>Fusion\<close>, \<open>Rerank\<close>: \<open>fusion.py\<close>, \<open>sparse.py\<close> and \<open>rerank.py\<close> of \<open>rick_retrieval\<close>. A rank whose
    denominator is 0 raises.
  This theory holds what spans components: admission and the queue, deletion with the evidence gate and with the professor.

  \<^bold>\<open>Modelling choices.\<close> A method that mutates becomes a function from state to state; a lock or a
  database transaction makes it one step. Exceptions are the left summand of a result. Clock
  readings, random tokens, providers, the authority for evidence, and the digests SHA-256 and MD5
  are arguments; a theorem that needs more of one of them (that the digest does not collide on the
  values at hand) says so as a hypothesis and has a witness. Strings are sequences of the code points 0 to
  255, finite floats are exact reals: rounding and the code points above 255 are not modelled.
  All recursions are structural or have a measure; the only bound on a loop is the number of
  rounds of an unbounded repetition in a pattern, the length of the text: a round that adds a
  position moves to the right.

  \<^bold>\<open>Not modelled.\<close> Adapters whose behaviour is that of another system (PostgreSQL, SQLite files,
  Redis, Qdrant, S3, HTTP providers, OIDC), document parsers, HTTP routes and telemetry, the web client,
  infrastructure, and the repository's gate and evaluation scripts.
  Also left out are the tasks of the professor's lease heartbeat (a lost lease is an event), redaction
  (\<open>rick_observability/redaction.py\<close>) and the local object store (\<open>rick_storage\<close>).
\<close>

section \<open>Admission and the durable queue\<close>

lemma token_char_text: "token_char c \<Longrightarrow> 32 \<le> ord_c c \<and> \<not> isspace_c c"
  by (auto simp: token_char_def char_defs Let_def)

lemma token_text_ok: "s \<noteq> [] \<Longrightarrow> length s \<le> 128 \<Longrightarrow> list_all token_char s \<Longrightarrow> queue_text_ok 256 s"
  using token_char_text by (auto simp: queue_text_ok_def stripped_def list_all_iff)

text \<open>C35. Admission and the queue fit together: the payload of every accepted upload envelope is
  accepted by the durable queue, stored as JSON and decoded again to the same fields, so no
  admitted upload is refused because of its payload.\<close>

theorem admitted_payload_accepted:
  assumes "make_upload_envelope e = Inr e'"
  shows "\<exists>encoded clean. queue_payload (envelope_payload e') = Inr (encoded, clean) \<and>
    payload_values clean = envelope_payload e' \<and> decode_payload encoded = dict_sorted clean"
proof -
  have same: "e' = e" using assms by (rule make_upload_envelope_same)
  have tok: "\<exists>s. v = PStr s \<and> queue_text_ok 256 s" if "(name, v) \<in> set (envelope_tokens e)" for name v
    using envelope_token_texts [OF assms that] token_text_ok by blast
  obtain a where a: "ue_source_key e = PStr a" "queue_text_ok 256 a"
    using tok [of "''source_key''"] by (auto simp: envelope_tokens_def)
  obtain b where b: "ue_request_id e = PStr b" "queue_text_ok 256 b"
    using tok [of "''request_id''"] by (auto simp: envelope_tokens_def)
  obtain c where c: "ue_correlation_id e = PStr c" "queue_text_ok 256 c"
    using tok [of "''correlation_id''"] by (auto simp: envelope_tokens_def)
  obtain d where d: "ue_collection_id e = PStr d" "queue_text_ok 256 d"
    using tok [of "''collection_id''"] by (auto simp: envelope_tokens_def)
  obtain f where f: "ue_workspace_id e = PStr f" "queue_text_ok 256 f"
    using tok [of "''workspace_id''"] by (auto simp: envelope_tokens_def)
  obtain g where g: "ue_tenant_id e = PStr g" "queue_text_ok 256 g"
    using tok [of "''tenant_id''"] by (auto simp: envelope_tokens_def)
  obtain h where h: "ue_operation e = PStr h" "queue_text_ok 256 h"
    using envelope_operation [OF assms] by (auto simp: queue_text_ok_def stripped_def char_defs)
  define clean where "clean = [(''operation'', h), (''source_key'', a), (''request_id'', b), (''correlation_id'', c),
      (''collection_id'', d), (''workspace_id'', f), (''tenant_id'', g)]"
  have pay: "envelope_payload e' = payload_values clean"
    by (simp add: same envelope_payload_def a b c d f g h clean_def payload_values_def)
  have okc: "payload_ok clean" using a b c d f g h by (simp add: payload_ok_def clean_def ALLOWED_PAYLOAD_def)
  have "queue_payload (payload_values clean) = Inr (json_dumps clean, clean)"
    using okc queue_payload_loop_id [of "[]" clean] by (simp add: queue_payload_Inr) (simp add: payload_values_def clean_def)
  then show ?thesis using pay decode_dumps [OF okc] by (auto simp: clean_def)
qed

definition sample_envelope :: "string \<Rightarrow> upload_envelope" where
  "sample_envelope jid = \<lparr>ue_tenant_id = PStr ''t'', ue_workspace_id = PStr ''w'', ue_collection_id = PStr ''c'',
     ue_job_id = PStr jid, ue_idempotency_key = PStr ''k'', ue_source_key = PStr ''s'',
     ue_checksum = PStr (''sha256:'' @ replicate 64 (CHR ''0'')), ue_size_bytes = PInt 1,
     ue_source_type = PStr ''md'', ue_request_id = PStr ''r'', ue_correlation_id = PStr ''x'',
     ue_operation = PStr ''ingest''\<rparr>"

lemma sample_token:
  assumes "c \<in> set ''twcksrx''"
  shows "validate_token f (PStr [c]) = Inr [c]"
proof -
  have "list_all (\<lambda>c. validate_token [] (PStr [c]) = Inr [c]) ''twcksrx''" by code_simp
  then have "validate_token [] (PStr [c]) = Inr [c]" using assms unfolding list_all_iff by blast
  then show ?thesis by (simp add: validate_token_def split: if_splits)
qed

lemma sample_envelope_made:
  assumes "\<And>f. validate_token f (PStr jid) = Inr jid"
  shows "make_upload_envelope (sample_envelope jid) = Inr (sample_envelope jid)"
proof -
  have "checksum_ok (PStr (''sha256:'' @ replicate 64 (CHR ''0'')))"
    unfolding checksum_ok_def pyval.case
    by (rule checksum_accepts) (auto simp: list_all_iff hex_lower_def char_defs)
  then show ?thesis
    using assms by (auto simp: make_upload_envelope_def sample_envelope_def envelope_tokens_def sample_token checked_Inr size_ok_def)
qed

theorem admitted_payload_accepted_witness:
  "\<exists>encoded clean. queue_payload (envelope_payload (sample_envelope ''k'')) = Inr (encoded, clean)"
  using admitted_payload_accepted [OF sample_envelope_made [OF sample_token], of "CHR ''k''"] by auto

lemma token_queue_key:
  assumes "s \<noteq> []" "length s \<le> 128" "list_all token_char s"
  shows "queue_key l (PStr s) = (if alnum_ascii (hd s) then Inr s else Inl (QueueConfigurationError (l @ '' is invalid'')))"
proof -
  have "queue_text_ok 128 s" using assms token_char_text by (auto simp: queue_text_ok_def stripped_def list_all_iff)
  moreover have "re_fullmatch QUEUE_KEY s \<longleftrightarrow> alnum_ascii (hd s)"
    using assms by (auto simp: QUEUE_KEY_def list_all_iff token_char_def dest: list.set_sel(2))
  ultimately show ?thesis by (simp add: queue_key_def queue_text_id)
qed

lemma leading_mark_made:
  assumes "c \<in> set ''_-.''"
  shows "make_upload_envelope (sample_envelope [c, CHR ''k'']) = Inr (sample_envelope [c, CHR ''k''])"
proof -
  have "list_all (\<lambda>c. validate_token [] (PStr [c, CHR ''k'']) = Inr [c, CHR ''k'']) ''_-.''" by code_simp
  then have "validate_token [] (PStr [c, CHR ''k'']) = Inr [c, CHR ''k'']" using assms unfolding list_all_iff by blast
  then have "validate_token f (PStr [c, CHR ''k'']) = Inr [c, CHR ''k'']" for f
    by (simp add: validate_token_def split: if_splits)
  then show ?thesis by (rule sample_envelope_made)
qed

text \<open>C39. Admission is wider than the queue exactly at the first character of the identifiers. For every admitted
  envelope, the queue accepts its job id, idempotency key, tenant, workspace and collection unchanged when they
  begin with a letter or a digit, and refuses them as invalid under every label when they begin with one of the three other characters
  that admission allows; and there are admitted envelopes whose job id begins with an underscore, with a
  hyphen and with a dot.\<close>

theorem admission_wider_than_queue:
  "(\<forall>e l v. make_upload_envelope e = Inr e \<and>
      v \<in> {ue_job_id e, ue_idempotency_key e, ue_tenant_id e, ue_workspace_id e, ue_collection_id e} \<longrightarrow>
      (\<exists>c s. v = PStr (c # s) \<and>
        (alnum_ascii c \<and> queue_key l v = Inr (c # s) \<or>
         c \<in> set ''_-.'' \<and> queue_key l v = Inl (QueueConfigurationError (l @ '' is invalid''))))) \<and>
   (\<forall>c \<in> set ''_-.''. \<exists>e s. make_upload_envelope e = Inr e \<and> ue_job_id e = PStr (c # s))"
proof (intro conjI allI impI ballI)
  fix e l v
  assume e: "make_upload_envelope e = Inr e \<and>
      v \<in> {ue_job_id e, ue_idempotency_key e, ue_tenant_id e, ue_workspace_id e, ue_collection_id e}"
  then have "v \<in> snd ` set (envelope_tokens e)" unfolding envelope_tokens_def by auto
  then obtain s where s: "v = PStr s" "s \<noteq> []" "length s \<le> 128" "list_all token_char s"
    using envelope_token_texts [of e e] e by fastforce
  obtain c cs where c: "s = c # cs" using s(2) by (cases s) auto
  have "alnum_ascii c \<or> c \<in> set ''_-.''" using s(4) unfolding c by (auto simp: token_char_def)
  then show "\<exists>c s. v = PStr (c # s) \<and> (alnum_ascii c \<and> queue_key l v = Inr (c # s) \<or>
      c \<in> set ''_-.'' \<and> queue_key l v = Inl (QueueConfigurationError (l @ '' is invalid'')))"
    using token_queue_key [OF s(2-4), of l] s(1) c by auto
next
  fix c assume "c \<in> set ''_-.''"
  then have "make_upload_envelope (sample_envelope [c, CHR ''k'']) = Inr (sample_envelope [c, CHR ''k''])"
    by (rule leading_mark_made)
  then show "\<exists>e s. make_upload_envelope e = Inr e \<and> ue_job_id e = PStr (c # s)"
    by (intro exI [of _ "sample_envelope [c, CHR ''k'']"] exI [of _ "''k''"]) (simp add: sample_envelope_def)
qed

theorem admission_wider_than_queue_witness:
  "queue_key ''job_id'' (ue_job_id (sample_envelope ''_k'')) = Inl (QueueConfigurationError ''job_id is invalid'') \<and>
   queue_key ''job_id'' (ue_job_id (sample_envelope ''k'')) = Inr ''k''"
proof -
  have made: "make_upload_envelope (sample_envelope ''_k'') = Inr (sample_envelope ''_k'')"
      "make_upload_envelope (sample_envelope ''k'') = Inr (sample_envelope ''k'')"
    using leading_mark_made [of "CHR ''_''"] sample_envelope_made [OF sample_token, of "CHR ''k''"] by simp_all
  have jid: "ue_job_id (sample_envelope j) = PStr j" for j by (simp add: sample_envelope_def)
  have marks: "\<not> alnum_ascii (CHR ''_'')" "CHR ''k'' \<notin> set ''_-.''" by (simp_all add: char_defs)
  note wider = admission_wider_than_queue [THEN conjunct1, rule_format, OF conjI]
  show ?thesis
    using wider [OF made(1), of "ue_job_id (sample_envelope ''_k'')" "''job_id''"]
      wider [OF made(2), of "ue_job_id (sample_envelope ''k'')" "''job_id''"] marks
    unfolding jid by simp
qed

section \<open>Deletion and the evidence gate\<close>

lemma deleted_buried:
  assumes "map_of (ks_documents s) i \<noteq> None" and "kruns repr (- {i}) (snd (delete_document i s), K, None) (s', K', v)"
  shows "i \<in> ks_tombstones s'"
proof -
  have "emptied i s'" using emptied_runs [OF assms(2), of i] delete_empties [OF assms(1)] by simp
  then show ?thesis by (simp only: emptied_def)
qed

text \<open>C5. A deleted document reaches no answer until it is restored. After \<open>delete_document\<close> on a stored document, in all
  states that the knowledge store passes through as long as \<open>restore_deleted_document\<close> is not called for this document,
  whatever its callers do otherwise (restores of other documents included), the gate does not resolve a
  candidate that names the document, an answer whose prompt used it does not pass the final revalidation, and a
  cached answer that cites it is not returned; the store may change between any two reads of these checks.\<close>

theorem deleted_never_answered:
  assumes "kruns repr UNIV (empty_kstore h ch, {}, None) (s, K, None)" and "map_of (ks_documents s) i \<noteq> None"
    and "\<forall>n. \<exists>K' v. kruns repr (- {i}) (snd (delete_document i s), K, None) (states n, K', v)"
  shows "(\<forall>n raw scope. field raw ''document_id'' = PStr i \<longrightarrow> knowledge_resolve (store_view (states n)) raw scope = None) \<and>
    (\<forall>sha g ctx evidence cited x. x \<in> set evidence \<and> field x ''document_id'' = PStr i \<longrightarrow>
       \<not> validate_publication sha g (\<lambda>n. store_view (states n)) ctx evidence cited) \<and>
    (\<forall>sha g ctx response citations d. get_key response ''citations'' = Lst citations \<and> Dct d \<in> set citations \<and>
       get_key d ''document_id'' = pyobj.Val (PStr i) \<longrightarrow>
       \<not> validate_cached_response sha g (\<lambda>a n. store_view (states n)) ctx response)"
proof -
  have gone: "i \<in> ks_tombstones (states n)" for n using deleted_buried [OF assms(2)] assms(3) by blast
  show ?thesis
    using store_reader.gone_unresolved [OF gone] store_reader.gone_never_published [where states = states, OF gone]
      store_reader.gone_never_from_cache [where states = states, OF gone] by blast
qed

theorem deleted_never_answered_witness:
  "knowledge_resolve (store_view (snd (delete_document ''d'' sample_stored))) [(''document_id'', PStr ''d'')] scope_example = None"
proof -
  let ?s = "snd (delete_document ''d'' sample_stored)"
  have row: "map_of (ks_documents sample_stored) ''d'' \<noteq> None" by (simp add: sample_stored_row)
  have runs: "\<forall>n. \<exists>K' v. kruns (\<lambda>_. []) (- {''d''}) (?s, {0}, None) ((\<lambda>_::nat. ?s) n, K', v)" by blast
  have "field [(''document_id'', PStr ''d'')] ''document_id'' = PStr ''d''" by (simp add: field_def)
  then show ?thesis using deleted_never_answered [OF sample_stored_run row runs] by blast
qed

text \<open>C2. A document deleted while a request runs is not in its answer. Whatever the gate's retrieval saw before, when the store reads of
  the final validation come after \<open>delete_document\<close> (in any states the store passes through from then on, as long
  as \<open>restore_deleted_document\<close> is not called for this document), no run and no stream of the chat backend's professor delivers an approved answer that
  uses or cites the document.\<close>

theorem deleted_never_cited:
  assumes "kruns repr UNIV (empty_kstore h ch, {}, None) (s, K, None)" and "map_of (ks_documents s) i \<noteq> None"
    and "\<forall>n. \<exists>K' v. kruns repr (- {i}) (snd (delete_document i s), K, None) (states n, K', v)"
    and "hexdigest sha" and "make_limits raw = Inr limits"
  shows "\<forall>fs g views backend lease provider stop outer rq r.
    delivers (backend_env sha fs g views backend (\<lambda>n. store_view (states n)) limits lease provider stop outer) rq r \<and>
      pr_evidence_status r = APPROVED_EVIDENCE \<longrightarrow>
    (\<forall>x \<in> set (pr_evidence r). field x ''document_id'' \<noteq> PStr i) \<and> (\<forall>c \<in> set (pr_citations r). pc_document_id c \<noteq> i)"
proof (intro allI impI, elim conjE)
  fix fs g views backend lease provider stop outer rq r
  assume d: "delivers (backend_env sha fs g views backend (\<lambda>n. store_view (states n)) limits lease provider stop outer) rq r"
    and a: "pr_evidence_status r = APPROVED_EVIDENCE"
  have gone: "i \<in> ks_tombstones (states n)" for n using deleted_buried [OF assms(2)] assms(3) by blast
  obtain ev where ev: "pr_evidence r = map response_dict ev" "set (pr_citations r) \<subseteq> citation_of ` set ev"
    "\<forall>t \<in> set ev. \<exists>n. published_source (store_view (states n)) (rq_context rq) t"
    using backend_published [OF assms(4) make_limits_ok [OF assms(5)] d a] by (elim conjE exE) simp
  have "te_document_id t \<noteq> i" if t: "t \<in> set ev" for t
  proof -
    obtain n where "published_source (store_view (states n)) (rq_context rq) t" using ev(3) t by blast
    then show ?thesis using store_reader.gone_document [OF gone] unfolding published_source_def by blast
  qed
  moreover have "pc_document_id (citation_of t) = te_document_id t" "field (response_dict t) ''document_id'' = PStr (te_document_id t)" for t
    by (simp_all add: citation_of_def response_dict_def field_def)
  ultimately show "(\<forall>x \<in> set (pr_evidence r). field x ''document_id'' \<noteq> PStr i) \<and> (\<forall>c \<in> set (pr_citations r). pc_document_id c \<noteq> i)"
    using ev(1,2) by fastforce
qed

theorem deleted_never_cited_witness:
  "\<not> (\<exists>r. delivers (sample_backend_env (\<lambda>_. store_view (snd (delete_document ''d'' sample_stored)))) served_request r \<and>
       pr_evidence_status r = APPROVED_EVIDENCE \<and> pr_evidence r = [response_dict served_trusted])"
proof -
  let ?s = "snd (delete_document ''d'' sample_stored)"
  have row: "map_of (ks_documents sample_stored) ''d'' \<noteq> None" by (simp add: sample_stored_row)
  have runs: "\<forall>n. \<exists>K' v. kruns (\<lambda>_. []) (- {''d''}) (?s, {0}, None) ((\<lambda>_::nat. ?s) n, K', v)" by blast
  have doc: "field (response_dict served_trusted) ''document_id'' = PStr ''d''" by (simp add: field_def response_dict_def served_trusted_def)
  have "x \<in> set (pr_evidence r) \<Longrightarrow> field x ''document_id'' \<noteq> PStr ''d''"
    if "delivers (sample_backend_env (\<lambda>_. store_view ?s)) served_request r" "pr_evidence_status r = APPROVED_EVIDENCE" for x r
    using deleted_never_cited [OF sample_stored_run row runs hexdigest_example sample_limits_made] that by blast
  then show ?thesis using doc by fastforce
qed

end
